(* ===== verification/Sentinel_Prelude.thy ===== *)
theory Sentinel_Prelude
  imports Complex_Main "HOL-Library.Char_ord" "HOL-Library.List_Lexorder"
    "HOL-Library.Product_Lexorder" "HOL-Library.Sublist"
begin

text \<open>
  Shared vocabulary of the development: the fragment of Python's dynamic values that the
  modelled code inspects (\<open>pyval\<close>), the standard-library operations it applies to them
  (truthiness, \<open>int()\<close>, \<open>str()\<close>, \<open>lower\<close>, \<open>strip\<close>, \<open>dict.get\<close>, \<open>json.dumps\<close>), the
  result type used wherever the source raises, and generic lemmas on lists, association
  lists and results that the component theories share.

  Conventions. Strings are ASCII \<open>string\<close>s. A Python float is a value of type \<open>flt\<close>: an
  exact rational, an infinity or not-a-number; binary rounding is not modelled. A
  \<open>datetime\<close> is an \<open>int\<close> counting microseconds and a \<open>timedelta\<close> is a difference of such.
  A dictionary is an association list in insertion order with string keys, as the JSON
  documents that reach this code have. The process environment and the rendering of
  finite floats are the only ambient inputs; they are the two fields of \<open>runtime\<close>.
\<close>

named_theorems py_simps \<open>unfolding rules for the Python value operations\<close>
named_theorems res_simps \<open>rules for the result type\<close>

section \<open>Results\<close>

datatype py_error =
    TypeError | ValueError | OverflowError | ZeroDivisionError | KeyError | AttributeError

type_synonym ('e, 'a) res = "'e + 'a"

definition rbind :: "('e, 'a) res \<Rightarrow> ('a \<Rightarrow> ('e, 'b) res) \<Rightarrow> ('e, 'b) res" where
  "rbind m f = (case m of Inl e \<Rightarrow> Inl e | Inr x \<Rightarrow> f x)"

definition is_ok :: "('e, 'a) res \<Rightarrow> bool" where
  "is_ok m = (case m of Inl e \<Rightarrow> False | Inr x \<Rightarrow> True)"

section \<open>Floating point values\<close>

datatype flt = Fin rat | PosInf | NegInf | NaN

fun flt_less :: "flt \<Rightarrow> flt \<Rightarrow> bool" where
  "flt_less NaN _ = False"
| "flt_less _ NaN = False"
| "flt_less (Fin a) (Fin b) = (a < b)"
| "flt_less (Fin a) PosInf = True"
| "flt_less (Fin a) NegInf = False"
| "flt_less PosInf _ = False"
| "flt_less NegInf NegInf = False"
| "flt_less NegInf _ = True"

fun flt_le :: "flt \<Rightarrow> flt \<Rightarrow> bool" where
  "flt_le NaN _ = False"
| "flt_le _ NaN = False"
| "flt_le (Fin a) (Fin b) = (a \<le> b)"
| "flt_le (Fin a) PosInf = True"
| "flt_le (Fin a) NegInf = False"
| "flt_le PosInf PosInf = True"
| "flt_le PosInf _ = False"
| "flt_le NegInf _ = True"

fun is_fin :: "flt \<Rightarrow> bool" where
  "is_fin (Fin a) = True"
| "is_fin _ = False"

text \<open>Python's two-argument \<open>min\<close> and \<open>max\<close>: the first argument unless the second is
  strictly smaller (larger), so an unordered second argument is dropped.\<close>

definition py_min :: "flt \<Rightarrow> flt \<Rightarrow> flt" where
  "py_min a b = (if flt_less b a then b else a)"

definition py_max :: "flt \<Rightarrow> flt \<Rightarrow> flt" where
  "py_max a b = (if flt_less a b then b else a)"

text \<open>Division of a float by a finite float; a zero divisor raises.\<close>

fun flt_div :: "flt \<Rightarrow> rat \<Rightarrow> (py_error, flt) res" where
  "flt_div x d =
     (if d = 0 then Inl ZeroDivisionError
      else Inr (case x of
          Fin a \<Rightarrow> Fin (a / d)
        | NaN \<Rightarrow> NaN
        | PosInf \<Rightarrow> (if 0 < d then PosInf else NegInf)
        | NegInf \<Rightarrow> (if 0 < d then NegInf else PosInf)))"

section \<open>Python values\<close>

datatype pyval =
    PNone
  | PBool bool
  | PInt int
  | PFloat flt
  | PStr string
  | PList "pyval list"
  | PDict "(string \<times> pyval) list"

type_synonym pydict = "(string \<times> pyval) list"

record runtime =
  environ :: "string \<Rightarrow> string option"
  float_repr :: "rat \<Rightarrow> string"

definition getenv :: "runtime \<Rightarrow> string \<Rightarrow> string \<Rightarrow> string" where
  "getenv rt name dflt = (case environ rt name of Some v \<Rightarrow> v | None \<Rightarrow> dflt)"

text \<open>An empty environment, for evaluating samples.\<close>

definition no_runtime :: runtime where
  "no_runtime = \<lparr>environ = \<lambda>_. None, float_repr = \<lambda>_. ''0.0''\<rparr>"

fun truthy :: "pyval \<Rightarrow> bool" where
  "truthy PNone = False"
| "truthy (PBool b) = b"
| "truthy (PInt i) = (i \<noteq> 0)"
| "truthy (PFloat x) = (x \<noteq> Fin 0)"
| "truthy (PStr s) = (s \<noteq> [])"
| "truthy (PList xs) = (xs \<noteq> [])"
| "truthy (PDict d) = (d \<noteq> [])"

text \<open>\<open>a or b\<close>.\<close>

definition py_or :: "pyval \<Rightarrow> pyval \<Rightarrow> pyval" where
  "py_or a b = (if truthy a then a else b)"

definition py_dict_get :: "pydict \<Rightarrow> string \<Rightarrow> pyval \<Rightarrow> pyval" where
  "py_dict_get d k dflt = (case map_of d k of Some v \<Rightarrow> v | None \<Rightarrow> dflt)"

text \<open>\<open>d[k] = v\<close>: an existing key keeps its position, a new key goes last.\<close>

fun py_dict_set :: "(string \<times> 'v) list \<Rightarrow> string \<Rightarrow> 'v \<Rightarrow> (string \<times> 'v) list" where
  "py_dict_set [] k v = [(k, v)]"
| "py_dict_set ((a, b) # d) k v = (if a = k then (a, v) # d else (a, b) # py_dict_set d k v)"

definition py_dict_del :: "(string \<times> 'v) list \<Rightarrow> string \<Rightarrow> (string \<times> 'v) list" where
  "py_dict_del d k = filter (\<lambda>e. fst e \<noteq> k) d"

definition is_dict :: "pyval \<Rightarrow> bool" where
  "is_dict v = (case v of PDict _ \<Rightarrow> True | _ \<Rightarrow> False)"

definition is_list :: "pyval \<Rightarrow> bool" where
  "is_list v = (case v of PList _ \<Rightarrow> True | _ \<Rightarrow> False)"

text \<open>\<open>v == 0\<close> holds of the three numeric zeros, \<open>False\<close> included.\<close>

definition py_eq_zero :: "pyval \<Rightarrow> bool" where
  "py_eq_zero v = (v = PInt 0 \<or> v = PFloat (Fin 0) \<or> v = PBool False)"

section \<open>Strings\<close>

definition lower_char :: "char \<Rightarrow> char" where
  "lower_char c = (let n = (of_char c :: nat) in
     if 65 \<le> n \<and> n \<le> 90 then char_of (n + 32) else c)"

definition upper_char :: "char \<Rightarrow> char" where
  "upper_char c = (let n = (of_char c :: nat) in
     if 97 \<le> n \<and> n \<le> 122 then char_of (n - 32) else c)"

definition lower :: "string \<Rightarrow> string" where
  "lower s = map lower_char s"

definition upper :: "string \<Rightarrow> string" where
  "upper s = map upper_char s"

text \<open>The ASCII characters for which \<open>str.isspace\<close> holds.\<close>

definition is_space :: "char \<Rightarrow> bool" where
  "is_space c = (let n = (of_char c :: nat) in (9 \<le> n \<and> n \<le> 13) \<or> (28 \<le> n \<and> n \<le> 32))"

definition strip_where :: "(char \<Rightarrow> bool) \<Rightarrow> string \<Rightarrow> string" where
  "strip_where p s = rev (dropWhile p (rev (dropWhile p s)))"

definition strip :: "string \<Rightarrow> string" where
  "strip s = strip_where is_space s"

text \<open>\<open>s.split(sep)\<close> for a single-character separator.\<close>

fun split_on :: "char \<Rightarrow> string \<Rightarrow> string list" where
  "split_on sep [] = [[]]"
| "split_on sep (c # s) =
     (if c = sep then [] # split_on sep s
      else (case split_on sep s of [] \<Rightarrow> [[c]] | w # ws \<Rightarrow> (c # w) # ws))"

fun join :: "string \<Rightarrow> string list \<Rightarrow> string" where
  "join sep [] = []"
| "join sep [x] = x"
| "join sep (x # y # ys) = x @ sep @ join sep (y # ys)"

definition contains :: "string \<Rightarrow> string \<Rightarrow> bool" where
  "contains needle s = sublist needle s"

definition is_digit :: "char \<Rightarrow> bool" where
  "is_digit c = (let n = (of_char c :: nat) in 48 \<le> n \<and> n \<le> 57)"

definition is_alpha :: "char \<Rightarrow> bool" where
  "is_alpha c = (let n = (of_char c :: nat) in (65 \<le> n \<and> n \<le> 90) \<or> (97 \<le> n \<and> n \<le> 122))"

text \<open>The five low bits of a letter, for evaluating the character classes bitwise.\<close>

definition letter_bits :: "bool \<Rightarrow> bool \<Rightarrow> bool \<Rightarrow> bool \<Rightarrow> bool \<Rightarrow> bool" where
  "letter_bits b0 b1 b2 b3 b4 = ((b0 \<or> b1 \<or> b2 \<or> b3 \<or> b4) \<and> \<not> (b4 \<and> b3 \<and> (b2 \<or> (b1 \<and> b0))))"

fun show_nat :: "nat \<Rightarrow> string" where
  "show_nat n = (if n < 10 then [char_of (48 + n)]
                 else show_nat (n div 10) @ [char_of (48 + n mod 10)])"

declare show_nat.simps [simp del]

definition show_int :: "int \<Rightarrow> string" where
  "show_int i = (if i < 0 then ''-'' @ show_nat (nat (- i)) else show_nat (nat i))"

text \<open>\<open>int(s)\<close> for a string: surrounding whitespace, an optional sign, then digits in which
  single underscores may separate digits.\<close>

fun digits_ok :: "bool \<Rightarrow> string \<Rightarrow> bool" where
  "digits_ok after_digit [] = after_digit"
| "digits_ok after_digit (c # s) =
     (if is_digit c then digits_ok True s
      else after_digit \<and> c = CHR ''_'' \<and> digits_ok False s)"

definition digits_val :: "string \<Rightarrow> int" where
  "digits_val s = foldl (\<lambda>acc c. if is_digit c then 10 * acc + int (of_char c - 48) else acc) 0 s"

definition parse_int :: "string \<Rightarrow> int option" where
  "parse_int s0 =
     (let s = strip s0;
          body = (if s \<noteq> [] \<and> (hd s = CHR ''-'' \<or> hd s = CHR ''+'') then tl s else s)
      in if digits_ok False body
         then Some (if s \<noteq> [] \<and> hd s = CHR ''-'' then - digits_val body else digits_val body)
         else None)"

text \<open>\<open>int(v)\<close>.\<close>

fun py_int :: "pyval \<Rightarrow> (py_error, int) res" where
  "py_int PNone = Inl TypeError"
| "py_int (PBool b) = Inr (if b then 1 else 0)"
| "py_int (PInt i) = Inr i"
| "py_int (PFloat (Fin r)) = Inr (if r < 0 then - \<lfloor>- r\<rfloor> else \<lfloor>r\<rfloor>)"
| "py_int (PFloat NaN) = Inl ValueError"
| "py_int (PFloat PosInf) = Inl OverflowError"
| "py_int (PFloat NegInf) = Inl OverflowError"
| "py_int (PStr s) = (case parse_int s of Some i \<Rightarrow> Inr i | None \<Rightarrow> Inl ValueError)"
| "py_int (PList _) = Inl TypeError"
| "py_int (PDict _) = Inl TypeError"

section \<open>Rendering: str, repr and json.dumps\<close>

definition hex_digit :: "nat \<Rightarrow> char" where
  "hex_digit n = (if n < 10 then char_of (48 + n) else char_of (87 + n))"

definition repr_char :: "char \<Rightarrow> char \<Rightarrow> string" where
  "repr_char q c = (let n = (of_char c :: nat) in
     if c = q \<or> n = 92 then [CHR 0x5C, c]
     else if n = 10 then [CHR 0x5C, CHR ''n'']
     else if n = 13 then [CHR 0x5C, CHR ''r'']
     else if n = 9 then [CHR 0x5C, CHR ''t'']
     else if n < 32 \<or> n = 127 then [CHR 0x5C, CHR ''x'', hex_digit (n div 16), hex_digit (n mod 16)]
     else [c])"

definition repr_str :: "string \<Rightarrow> string" where
  "repr_str s =
     (let q = (if CHR 0x27 \<in> set s \<and> CHR 0x22 \<notin> set s then CHR 0x22 else CHR 0x27)
      in q # concat (map (repr_char q) s) @ [q])"

definition flt_str :: "runtime \<Rightarrow> flt \<Rightarrow> string" where
  "flt_str rt x = (case x of Fin r \<Rightarrow> float_repr rt r | PosInf \<Rightarrow> ''inf'' | NegInf \<Rightarrow> ''-inf''
                   | NaN \<Rightarrow> ''nan'')"

fun py_repr :: "runtime \<Rightarrow> pyval \<Rightarrow> string"
and py_repr_items :: "runtime \<Rightarrow> pyval list \<Rightarrow> string list"
and py_repr_entries :: "runtime \<Rightarrow> (string \<times> pyval) list \<Rightarrow> string list" where
  "py_repr rt PNone = ''None''"
| "py_repr rt (PBool b) = (if b then ''True'' else ''False'')"
| "py_repr rt (PInt i) = show_int i"
| "py_repr rt (PFloat x) = flt_str rt x"
| "py_repr rt (PStr s) = repr_str s"
| "py_repr rt (PList xs) = ''['' @ join '', '' (py_repr_items rt xs) @ '']''"
| "py_repr rt (PDict d) = ''{'' @ join '', '' (py_repr_entries rt d) @ ''}''"
| "py_repr_items rt [] = []"
| "py_repr_items rt (x # xs) = py_repr rt x # py_repr_items rt xs"
| "py_repr_entries rt [] = []"
| "py_repr_entries rt ((k, v) # d) = (repr_str k @ '': '' @ py_repr rt v) # py_repr_entries rt d"

definition py_str :: "runtime \<Rightarrow> pyval \<Rightarrow> string" where
  "py_str rt v = (case v of PStr s \<Rightarrow> s | _ \<Rightarrow> py_repr rt v)"

definition json_char :: "char \<Rightarrow> string" where
  "json_char c = (let n = (of_char c :: nat) in
     if n = 34 \<or> n = 92 then [CHR 0x5C, c]
     else if n = 10 then [CHR 0x5C, CHR ''n'']
     else if n = 13 then [CHR 0x5C, CHR ''r'']
     else if n = 9 then [CHR 0x5C, CHR ''t'']
     else if n = 8 then [CHR 0x5C, CHR ''b'']
     else if n = 12 then [CHR 0x5C, CHR ''f'']
     else if n < 32 \<or> 126 < n then CHR 0x5C # ''u00'' @ [hex_digit (n div 16), hex_digit (n mod 16)]
     else [c])"

text \<open>The escapes with \<open>ensure_ascii=False\<close>: other characters stand for themselves.\<close>

definition json_raw_char :: "char \<Rightarrow> string" where
  "json_raw_char c = (if 126 < (of_char c :: nat) then [c] else json_char c)"

definition json_quote :: "(char \<Rightarrow> string) \<Rightarrow> string \<Rightarrow> string" where
  "json_quote enc s = CHR 0x22 # concat (map enc s) @ [CHR 0x22]"

abbreviation (input) json_str :: "string \<Rightarrow> string" where
  "json_str \<equiv> json_quote json_char"

definition json_flt :: "runtime \<Rightarrow> flt \<Rightarrow> string" where
  "json_flt rt x = (case x of Fin r \<Rightarrow> float_repr rt r | PosInf \<Rightarrow> ''Infinity''
                    | NegInf \<Rightarrow> ''-Infinity'' | NaN \<Rightarrow> ''NaN'')"

text \<open>\<open>json.dumps\<close> with a character encoder, item separator \<open>isep\<close>, key separator \<open>ksep\<close> and optional key
  sorting.\<close>

fun json_text :: "(char \<Rightarrow> string) \<Rightarrow> runtime \<Rightarrow> string \<Rightarrow> string \<Rightarrow> bool \<Rightarrow> pyval \<Rightarrow> string"
and json_items :: "(char \<Rightarrow> string) \<Rightarrow> runtime \<Rightarrow> string \<Rightarrow> string \<Rightarrow> bool \<Rightarrow> pyval list \<Rightarrow> string list"
and json_entries :: "(char \<Rightarrow> string) \<Rightarrow> runtime \<Rightarrow> string \<Rightarrow> string \<Rightarrow> bool \<Rightarrow> (string \<times> pyval) list \<Rightarrow> (string \<times> string) list" where
  "json_text enc rt isep ksep srt PNone = ''null''"
| "json_text enc rt isep ksep srt (PBool b) = (if b then ''true'' else ''false'')"
| "json_text enc rt isep ksep srt (PInt i) = show_int i"
| "json_text enc rt isep ksep srt (PFloat x) = json_flt rt x"
| "json_text enc rt isep ksep srt (PStr s) = json_quote enc s"
| "json_text enc rt isep ksep srt (PList xs) = ''['' @ join isep (json_items enc rt isep ksep srt xs) @ '']''"
| "json_text enc rt isep ksep srt (PDict d) =
     (let es = json_entries enc rt isep ksep srt d
      in ''{'' @ join isep (map (\<lambda>e. json_quote enc (fst e) @ ksep @ snd e)
                              (if srt then sort_key fst es else es)) @ ''}'')"
| "json_items enc rt isep ksep srt [] = []"
| "json_items enc rt isep ksep srt (x # xs) = json_text enc rt isep ksep srt x # json_items enc rt isep ksep srt xs"
| "json_entries enc rt isep ksep srt [] = []"
| "json_entries enc rt isep ksep srt ((k, v) # d) =
     (k, json_text enc rt isep ksep srt v) # json_entries enc rt isep ksep srt d"

abbreviation json_dumps :: "runtime \<Rightarrow> string \<Rightarrow> string \<Rightarrow> bool \<Rightarrow> pyval \<Rightarrow> string" where
  "json_dumps \<equiv> json_text json_char"

section \<open>Time\<close>

abbreviation (input) microseconds_per_second :: int where
  "microseconds_per_second \<equiv> 1000000"

definition seconds :: "int \<Rightarrow> int" where
  "seconds n = n * microseconds_per_second"

section \<open>Lemmas on results\<close>

lemma rbind_Inr [simp, res_simps]: "rbind (Inr x) f = f x"
  by (simp add: rbind_def)

lemma rbind_Inl [simp, res_simps]: "rbind (Inl e) f = Inl e"
  by (simp add: rbind_def)

lemma rbind_eq_Inr [res_simps]: "rbind m f = Inr y \<longleftrightarrow> (\<exists>x. m = Inr x \<and> f x = Inr y)"
  by (cases m) auto

lemma rbind_eq_Inl [res_simps]:
  "rbind m f = Inl e \<longleftrightarrow> m = Inl e \<or> (\<exists>x. m = Inr x \<and> f x = Inl e)"
  by (cases m) auto

lemma rbind_total: "\<exists>x. m = Inr x \<Longrightarrow> (\<And>x. m = Inr x \<Longrightarrow> \<exists>y. f x = Inr y) \<Longrightarrow> \<exists>y. rbind m f = Inr y"
  by auto

lemma rbind_assoc: "rbind (rbind m f) g = rbind m (\<lambda>x. rbind (f x) g)"
  by (cases m) auto

lemma is_ok_iff [res_simps]: "is_ok m \<longleftrightarrow> (\<exists>x. m = Inr x)"
  by (cases m) (auto simp: is_ok_def)

lemma not_is_ok_iff: "\<not> is_ok m \<longleftrightarrow> (\<exists>e. m = Inl e)"
  by (cases m) (auto simp: is_ok_def)

section \<open>Lemmas on Python values\<close>

lemma py_min_fin [simp]: "py_min (Fin a) (Fin b) = Fin (min a b)"
  by (auto simp: py_min_def min_def)

lemma py_max_fin [simp]: "py_max (Fin a) (Fin b) = Fin (max a b)"
  by (auto simp: py_max_def max_def)

lemma map_of_py_dict_set: "map_of (py_dict_set d k v) = (map_of d)(k \<mapsto> v)"
  by (induction d k v rule: py_dict_set.induct) (auto simp: fun_eq_iff)

lemma py_dict_set_keys: "set (map fst (py_dict_set d k v)) = insert k (set (map fst d))"
  by (induction d k v rule: py_dict_set.induct) auto

lemma distinct_py_dict_set:
  "distinct (map fst d) \<Longrightarrow> distinct (map fst (py_dict_set d k v))"
proof (induction d k v rule: py_dict_set.induct)
  case (2 a b d k v)
  then show ?case using py_dict_set_keys [of d k v] by auto
qed simp

lemma py_dict_get_set: "py_dict_get (py_dict_set d k v) j x = (if j = k then v else py_dict_get d j x)"
  by (simp add: py_dict_get_def map_of_py_dict_set)

lemma map_of_py_dict_del: "map_of (py_dict_del d k) = (map_of d)(k := None)"
  by (induction d) (auto simp: py_dict_del_def fun_eq_iff)

lemma py_eq_zero_int: "py_eq_zero v \<Longrightarrow> py_int v = Inr 0"
  by (auto simp: py_eq_zero_def)

section \<open>Bitwise code equations for characters\<close>

lemma lower_char_code [code]:
  "lower_char (Char b0 b1 b2 b3 b4 b5 b6 b7) =
     (if \<not> b7 \<and> b6 \<and> \<not> b5 \<and> letter_bits b0 b1 b2 b3 b4 then Char b0 b1 b2 b3 b4 True b6 b7
      else Char b0 b1 b2 b3 b4 b5 b6 b7)"
  by (cases b0; cases b1; cases b2; cases b3; cases b4; cases b5; cases b6; cases b7;
      simp add: lower_char_def letter_bits_def char_of_def bit_iff_odd)

lemma upper_char_code [code]:
  "upper_char (Char b0 b1 b2 b3 b4 b5 b6 b7) =
     (if \<not> b7 \<and> b6 \<and> b5 \<and> letter_bits b0 b1 b2 b3 b4 then Char b0 b1 b2 b3 b4 False b6 b7
      else Char b0 b1 b2 b3 b4 b5 b6 b7)"
  by (cases b0; cases b1; cases b2; cases b3; cases b4; cases b5; cases b6; cases b7;
      simp add: upper_char_def letter_bits_def char_of_def bit_iff_odd)

lemma is_digit_code [code]:
  "is_digit (Char b0 b1 b2 b3 b4 b5 b6 b7) \<longleftrightarrow> \<not> b7 \<and> \<not> b6 \<and> b5 \<and> b4 \<and> \<not> (b3 \<and> (b2 \<or> b1))"
  by (cases b0; cases b1; cases b2; cases b3; cases b4; cases b5; cases b6; cases b7; simp add: is_digit_def)

lemma is_alpha_code [code]:
  "is_alpha (Char b0 b1 b2 b3 b4 b5 b6 b7) \<longleftrightarrow> \<not> b7 \<and> b6 \<and> letter_bits b0 b1 b2 b3 b4"
  by (cases b0; cases b1; cases b2; cases b3; cases b4; cases b5; cases b6; cases b7;
      simp add: is_alpha_def letter_bits_def)

lemma is_space_code [code]:
  "is_space (Char b0 b1 b2 b3 b4 b5 b6 b7) \<longleftrightarrow> \<not> b7 \<and> \<not> b6 \<and>
     (\<not> b5 \<and> \<not> b4 \<and> b3 \<and> (b0 \<or> b1 \<or> b2) \<and> \<not> (b2 \<and> b1) \<or> \<not> b5 \<and> b4 \<and> b3 \<and> b2
      \<or> b5 \<and> \<not> b4 \<and> \<not> b3 \<and> \<not> b2 \<and> \<not> b1 \<and> \<not> b0)"
  by (cases b0; cases b1; cases b2; cases b3; cases b4; cases b5; cases b6; cases b7; simp add: is_space_def)

lemma hex_digit_code [code]: "hex_digit n = (if n < 16 then ''0123456789abcdef'' ! n else char_of (87 + n))"
proof (cases "n < 16")
  case True
  then have "n \<in> {0, 1, 2, 3, 4, 5, 6, 7, 8, 9, 10, 11, 12, 13, 14, 15}" by (simp, arith)
  then show ?thesis by (elim insertE emptyE) (simp_all add: hex_digit_def char_of_def bit_iff_odd)
qed (simp add: hex_digit_def)

section \<open>Lemmas on lists\<close>

lemma filter_eq_all: "(\<And>x. x \<in> set xs \<Longrightarrow> P x) \<Longrightarrow> filter P xs = xs"
  by (induction xs) auto

lemma sum_list_filter_le:
  "length (filter P xs) \<le> length (filter Q xs)" if "\<And>x. x \<in> set xs \<Longrightarrow> P x \<Longrightarrow> Q x" for P Q
  using that by (induction xs) auto

lemma find_Some_mem: "List.find P xs = Some x \<Longrightarrow> x \<in> set xs \<and> P x"
  by (induction xs) (auto split: if_splits)

lemma find_None_all: "List.find P xs = None \<longleftrightarrow> (\<forall>x \<in> set xs. \<not> P x)"
  by (induction xs) auto

end
