(* ===== verification/Severity_Engine.thy ===== *)
theory Severity_Engine
  imports Sentinel_Prelude
begin

text \<open>
  Automatic severity classification (\<open>src/src/sre_agent/severity_engine.py\<close>). The state is the
  measured evidence of one incident (\<open>incident_signals\<close>); an absent measurement is \<open>None\<close>.
  \<open>classify_severity\<close> returns the assessment that the policy gate acts on. The module-level
  anchors, read from the environment when the Python module is imported, are the fields of
  \<open>severity_config\<close>; a zero anchor makes the Python division raise, so the scores are results.

  Shown here: the scores stay in the unit interval for every input, unknown telemetry is
  exactly a missing required measurement and never yields a severity below SEV2, the policy
  severity is the measured one or one step more critical, and worse measurements never
  lower the severity.
\<close>

section \<open>Data\<close>

datatype severity = UNKNOWN | SEV1 | SEV2 | SEV3 | SEV4

fun sev_int :: "severity \<Rightarrow> int" where
  "sev_int UNKNOWN = 0"
| "sev_int SEV1 = 1"
| "sev_int SEV2 = 2"
| "sev_int SEV3 = 3"
| "sev_int SEV4 = 4"

definition severity_of_int :: "int \<Rightarrow> severity option" where
  "severity_of_int i = List.find (\<lambda>s. sev_int s = i) [UNKNOWN, SEV1, SEV2, SEV3, SEV4]"

text \<open>\<open>Severity\<close> is an \<open>IntEnum\<close>: members compare by their integer value.\<close>

instantiation severity :: linorder
begin

definition less_eq_severity :: "severity \<Rightarrow> severity \<Rightarrow> bool" where
  "less_eq_severity a b = (sev_int a \<le> sev_int b)"

definition less_severity :: "severity \<Rightarrow> severity \<Rightarrow> bool" where
  "less_severity a b = (sev_int a < sev_int b)"

instance
proof
  fix x y z :: severity
  show "(x < y) = (x \<le> y \<and> \<not> y \<le> x)" and "x \<le> x" and "x \<le> y \<or> y \<le> x"
    and "x \<le> y \<Longrightarrow> y \<le> z \<Longrightarrow> x \<le> z"
    by (auto simp: less_eq_severity_def less_severity_def)
  show "x \<le> y \<Longrightarrow> y \<le> x \<Longrightarrow> x = y"
    by (cases x; cases y) (auto simp: less_eq_severity_def)
qed

end

datatype bucket = High | Medium | Low | Unknown

record evidence_link =
  ev_field :: string
  ev_value :: pyval
  ev_source :: string
  ev_observed_at :: string
  ev_unknown :: bool

definition evidence :: "string \<Rightarrow> string \<Rightarrow> pyval \<Rightarrow> string \<Rightarrow> string option \<Rightarrow> bool \<Rightarrow> evidence_link" where
  "evidence now_iso f v src observed_at unk =
     \<lparr>ev_field = f, ev_value = v, ev_source = src,
      ev_observed_at = (case observed_at of Some t \<Rightarrow> (if t = [] then now_iso else t) | None \<Rightarrow> now_iso),
      ev_unknown = unk\<rparr>"

definition evidence_to_dict :: "evidence_link \<Rightarrow> pyval" where
  "evidence_to_dict e =
     PDict [(''field'', PStr (ev_field e)), (''value'', ev_value e), (''source'', PStr (ev_source e)),
            (''observed_at'', PStr (ev_observed_at e)), (''unknown'', PBool (ev_unknown e))]"

record incident_signals =
  affected_services :: "int option"
  affected_pods :: "int option"
  user_facing :: "bool option"
  revenue_impacting :: "bool option"
  error_rate :: "flt option"
  slo_breached :: "bool option"
  customer_scope :: "string option"
  dependency_count :: "int option"
  duration_seconds :: "flt option"
  slo_burn_rate :: "flt option"
  error_rate_slope :: "flt option"
  saturation :: "flt option"
  still_escalating :: "bool option"
  hypothesis_confidence :: flt
  hypothesis_confidence_calibrated :: bool
  sig_evidence :: "evidence_link list"

datatype rationale_note =
    EscalatedBelowThreshold severity flt rat
  | EscalatedUncalibrated severity
  | PartialUnknownFields

datatype rationale =
    NoMeasurements
  | UnknownEscalation flt bucket flt bucket severity
  | Matrixed flt bucket flt bucket severity "rationale_note list"

record severity_assessment =
  severity :: severity
  impact_score :: flt
  urgency_score :: flt
  impact_bucket :: bucket
  urgency_bucket :: bucket
  rounded_up :: bool
  confidence_calibrated :: bool
  sev_rationale :: rationale
  unknown_telemetry :: bool
  sev_evidence :: "evidence_link list"
  measured_severity :: severity

record severity_config =
  fast_burn_anchor :: rat
  slope_anchor :: rat
  breadth_anchor :: rat
  confidence_roundup_threshold :: rat
  autonomy_max_severity :: int

definition default_severity_config :: severity_config where
  "default_severity_config =
     \<lparr>fast_burn_anchor = 144/10, slope_anchor = 1/10, breadth_anchor = 5,
      confidence_roundup_threshold = 1/2, autonomy_max_severity = sev_int SEV3\<rparr>"

section \<open>Scores\<close>

fun flt_add :: "flt \<Rightarrow> flt \<Rightarrow> flt" where
  "flt_add (Fin a) (Fin b) = Fin (a + b)"
| "flt_add NaN _ = NaN"
| "flt_add _ NaN = NaN"
| "flt_add PosInf NegInf = NaN"
| "flt_add NegInf PosInf = NaN"
| "flt_add PosInf _ = PosInf"
| "flt_add NegInf _ = NegInf"
| "flt_add (Fin _) PosInf = PosInf"
| "flt_add (Fin _) NegInf = NegInf"

text \<open>Product of a float with a finite constant.\<close>

fun flt_scale :: "flt \<Rightarrow> rat \<Rightarrow> flt" where
  "flt_scale (Fin a) r = Fin (a * r)"
| "flt_scale NaN r = NaN"
| "flt_scale PosInf r = (if r = 0 then NaN else if 0 < r then PosInf else NegInf)"
| "flt_scale NegInf r = (if r = 0 then NaN else if 0 < r then NegInf else PosInf)"

definition clamp01 :: "flt \<Rightarrow> flt" where
  "clamp01 x = py_max (Fin 0) (py_min (Fin 1) x)"

definition to_bucket :: "flt option \<Rightarrow> bool \<Rightarrow> bucket" where
  "to_bucket score unknown =
     (case score of
        None \<Rightarrow> Unknown
      | Some x \<Rightarrow>
          if unknown then Unknown
          else if flt_le (Fin (66/100)) x then High
          else if flt_le (Fin (33/100)) x then Medium
          else Low)"

definition unknown_fields :: "incident_signals \<Rightarrow> string list" where
  "unknown_fields s =
     map fst (filter snd
       [(''affected_services'', affected_services s = None),
        (''error_rate'', error_rate s = None),
        (''slo_burn_rate'', slo_burn_rate s = None),
        (''slo_breached'', slo_breached s = None),
        (''saturation'', saturation s = None)])"

type_synonym running_score = "flt \<times> bool"

text \<open>One \<open>if x is None: unknown = True else: score += clamp01(x / anchor) * weight\<close> step.\<close>

definition add_measured :: "flt option \<Rightarrow> rat \<Rightarrow> rat \<Rightarrow> running_score \<Rightarrow> (py_error, running_score) res" where
  "add_measured m anchor w acc =
     (case m of
        None \<Rightarrow> Inr (fst acc, True)
      | Some x \<Rightarrow> rbind (flt_div x anchor)
                   (\<lambda>q. Inr (flt_add (fst acc) (flt_scale (clamp01 q) w), snd acc)))"

definition add_if :: "bool \<Rightarrow> rat \<Rightarrow> running_score \<Rightarrow> running_score" where
  "add_if b w acc = (if b then flt_add (fst acc) (Fin w) else fst acc, snd acc)"

definition add_slo_breached :: "bool option \<Rightarrow> running_score \<Rightarrow> running_score" where
  "add_slo_breached m acc =
     (case m of None \<Rightarrow> (fst acc, True) | Some b \<Rightarrow> add_if b (20/100) acc)"

definition add_dependencies :: "severity_config \<Rightarrow> int option \<Rightarrow> running_score \<Rightarrow> (py_error, running_score) res" where
  "add_dependencies cfg m acc =
     (case m of
        None \<Rightarrow> Inr acc
      | Some n \<Rightarrow> (if n = 0 then Inr acc
                  else add_measured (Some (Fin (of_int n))) (breadth_anchor cfg) (5/100) acc))"

definition compute_impact_score :: "severity_config \<Rightarrow> incident_signals \<Rightarrow> (py_error, flt option \<times> bool) res" where
  "compute_impact_score cfg s =
     (if error_rate s = None \<and> affected_services s = None \<and> slo_breached s = None
      then Inr (None, True)
      else
        rbind (add_measured (error_rate s) 1 (40/100) (Fin 0, False)) (\<lambda>a1.
        let a2 = add_slo_breached (slo_breached s) a1;
            a3 = add_if (user_facing s = Some True) (15/100) a2;
            a4 = add_if (revenue_impacting s = Some True) (15/100) a3
        in rbind (add_measured (map_option (\<lambda>n. Fin (of_int (max n 0))) (affected_services s))
                    (breadth_anchor cfg) (10/100) a4) (\<lambda>a5.
           rbind (add_dependencies cfg (dependency_count s) a5)
             (\<lambda>a6. Inr (Some (clamp01 (fst a6)), snd a6)))))"

definition compute_urgency_score :: "severity_config \<Rightarrow> incident_signals \<Rightarrow> (py_error, flt option \<times> bool) res" where
  "compute_urgency_score cfg s =
     (if slo_burn_rate s = None \<and> saturation s = None \<and> error_rate_slope s = None
      then Inr (None, True)
      else
        rbind (add_measured (slo_burn_rate s) (fast_burn_anchor cfg) (40/100) (Fin 0, False)) (\<lambda>a1.
        rbind (add_measured (saturation s) 1 (25/100) a1) (\<lambda>a2.
        rbind (add_measured (error_rate_slope s) (slope_anchor cfg) (20/100) a2) (\<lambda>a3.
        let a4 = add_if (still_escalating s = Some True) (15/100) a3;
            a5 = add_if (case duration_seconds s of None \<Rightarrow> False
                         | Some d \<Rightarrow> flt_le (Fin 900) d) (10/100) a4
        in Inr (Some (clamp01 (fst a5)), snd a5)))))"

section \<open>Classification\<close>

fun matrix :: "bucket \<Rightarrow> bucket \<Rightarrow> (py_error, severity) res" where
  "matrix High High = Inr SEV1"
| "matrix High Medium = Inr SEV2"
| "matrix High Low = Inr SEV3"
| "matrix Medium High = Inr SEV2"
| "matrix Medium Medium = Inr SEV3"
| "matrix Medium Low = Inr SEV4"
| "matrix Low High = Inr SEV3"
| "matrix Low Medium = Inr SEV4"
| "matrix Low Low = Inr SEV4"
| "matrix _ _ = Inl KeyError"

definition escalate :: "severity \<Rightarrow> (py_error, severity) res" where
  "escalate sev =
     (if sev = UNKNOWN then Inr SEV2
      else (case severity_of_int (max (sev_int SEV1) (sev_int sev - 1)) of
              Some s \<Rightarrow> Inr s
            | None \<Rightarrow> Inl ValueError))"

definition classify_severity :: "severity_config \<Rightarrow> incident_signals \<Rightarrow> (py_error, severity_assessment) res" where
  "classify_severity cfg s =
     rbind (compute_impact_score cfg s) (\<lambda>(impact, impact_unknown).
     rbind (compute_urgency_score cfg s) (\<lambda>(urgency, urgency_unknown).
     let unknown_tel = (impact_unknown \<or> urgency_unknown \<or> unknown_fields s \<noteq> []) in
     case (impact, urgency) of
       (Some i, Some u) \<Rightarrow>
         (let ib = to_bucket (Some i) impact_unknown;
              ub = to_bucket (Some u) urgency_unknown
          in if ib = Unknown \<or> ub = Unknown
             then Inr \<lparr>severity = SEV2, impact_score = i, urgency_score = u,
                       impact_bucket = ib, urgency_bucket = ub, rounded_up = True,
                       confidence_calibrated = False,
                       sev_rationale = UnknownEscalation i ib u ub SEV2,
                       unknown_telemetry = True, sev_evidence = sig_evidence s,
                       measured_severity = SEV2\<rparr>
             else
               rbind (matrix ib ub) (\<lambda>base.
               rbind (if \<not> hypothesis_confidence_calibrated s
                         \<or> flt_less (hypothesis_confidence s) (Fin (confidence_roundup_threshold cfg))
                      then escalate base else Inr base) (\<lambda>sev.
               let ru = (sev \<noteq> base);
                   notes = (if ru then
                              [if hypothesis_confidence_calibrated s
                               then EscalatedBelowThreshold sev (hypothesis_confidence s)
                                      (confidence_roundup_threshold cfg)
                               else EscalatedUncalibrated sev]
                            else []) @ (if unknown_tel then [PartialUnknownFields] else [])
               in Inr \<lparr>severity = sev, impact_score = i, urgency_score = u,
                       impact_bucket = ib, urgency_bucket = ub, rounded_up = ru,
                       confidence_calibrated = hypothesis_confidence_calibrated s,
                       sev_rationale = Matrixed i ib u ub base notes,
                       unknown_telemetry = unknown_tel, sev_evidence = sig_evidence s,
                       measured_severity = base\<rparr>)))
     | _ \<Rightarrow>
         Inr \<lparr>severity = UNKNOWN, impact_score = Fin 0, urgency_score = Fin 0,
              impact_bucket = Unknown, urgency_bucket = Unknown, rounded_up = True,
              confidence_calibrated = False, sev_rationale = NoMeasurements,
              unknown_telemetry = True, sev_evidence = sig_evidence s,
              measured_severity = UNKNOWN\<rparr>))"

definition is_low_severity :: "severity_config \<Rightarrow> severity \<Rightarrow> bool" where
  "is_low_severity cfg sev =
     (if sev = UNKNOWN \<or> sev_int sev = 0 then False
      else autonomy_max_severity cfg \<le> sev_int sev)"

section \<open>Scores: closed forms and bounds\<close>

text \<open>The value of \<open>clamp01\<close>, which is finite for every input: a NaN is clamped to one.\<close>

definition clampr :: "flt \<Rightarrow> rat" where
  "clampr x = (case clamp01 x of Fin r \<Rightarrow> r | _ \<Rightarrow> 0)"

definition quot :: "flt \<Rightarrow> rat \<Rightarrow> flt" where
  "quot x d = (case flt_div x d of Inr q \<Rightarrow> q | Inl _ \<Rightarrow> NaN)"

text \<open>The contribution of one measurement to a score.\<close>

definition part :: "flt option \<Rightarrow> rat \<Rightarrow> rat \<Rightarrow> rat" where
  "part m d w = (case m of None \<Rightarrow> 0 | Some x \<Rightarrow> clampr (quot x d) * w)"

definition impact_total :: "severity_config \<Rightarrow> incident_signals \<Rightarrow> rat" where
  "impact_total cfg s =
     part (error_rate s) 1 (40/100) + (if slo_breached s = Some True then 20/100 else 0)
     + (if user_facing s = Some True then 15/100 else 0)
     + (if revenue_impacting s = Some True then 15/100 else 0)
     + part (map_option (\<lambda>n. Fin (of_int (max n 0))) (affected_services s)) (breadth_anchor cfg) (10/100)
     + (case dependency_count s of None \<Rightarrow> 0
        | Some n \<Rightarrow> if n = 0 then 0 else part (Some (Fin (of_int n))) (breadth_anchor cfg) (5/100))"

definition urgency_total :: "severity_config \<Rightarrow> incident_signals \<Rightarrow> rat" where
  "urgency_total cfg s =
     part (slo_burn_rate s) (fast_burn_anchor cfg) (40/100) + part (saturation s) 1 (25/100)
     + part (error_rate_slope s) (slope_anchor cfg) (20/100)
     + (if still_escalating s = Some True then 15/100 else 0)
     + (if (case duration_seconds s of None \<Rightarrow> False | Some d \<Rightarrow> flt_le (Fin 900) d) then 10/100 else 0)"

lemma clamp01_cases: "clamp01 x = Fin (clampr x) \<and> 0 \<le> clampr x \<and> clampr x \<le> 1"
  by (cases x) (auto simp: clamp01_def clampr_def py_max_def py_min_def)

lemma clamp01_eq: "clamp01 x = Fin (clampr x)"
  and clampr_nonneg: "0 \<le> clampr x"
  and clampr_le_one: "clampr x \<le> 1"
  using clamp01_cases [of x] by blast+

lemma clampr_fin: "clampr (Fin r) = max 0 (min 1 r)"
  by (simp add: clampr_def clamp01_def)

lemma add_measured_eq:
  assumes "m \<noteq> None \<Longrightarrow> d \<noteq> 0"
  shows "add_measured m d w (Fin a, u) = Inr (Fin (a + part m d w), u \<or> m = None)"
  using assms by (cases m) (auto simp: add_measured_def part_def clamp01_eq quot_def)

lemma add_measured_unknown:
  "add_measured m d w acc = Inr acc' \<Longrightarrow> snd acc' = (snd acc \<or> m = None)"
  by (auto simp: add_measured_def res_simps split: option.splits)

lemma add_if_fin: "add_if b w (Fin a, u) = (Fin (a + (if b then w else 0)), u)"
  by (simp add: add_if_def)

lemma snd_add_if [simp]: "snd (add_if b w acc) = snd acc"
  by (simp add: add_if_def)

lemma impact_steps:
  assumes "compute_impact_score cfg s = Inr (i, u)"
    and "\<not> (error_rate s = None \<and> affected_services s = None \<and> slo_breached s = None)"
  obtains a1 a4 a5 a6 where "add_measured (error_rate s) 1 (40/100) (Fin 0, False) = Inr a1"
    and "snd a4 = (snd a1 \<or> slo_breached s = None)"
    and "add_measured (map_option (\<lambda>n. Fin (of_int (max n 0))) (affected_services s))
           (breadth_anchor cfg) (10/100) a4 = Inr a5"
    and "snd a6 = snd a5" and "i = Some (clamp01 (fst a6))" and "u = snd a6"
proof -
  define a4 where "a4 a1 = add_if (revenue_impacting s = Some True) (15/100)
    (add_if (user_facing s = Some True) (15/100)
      (add_slo_breached (slo_breached s) a1))" for a1 :: running_score
  have snd_a4: "snd (a4 a1) = (snd a1 \<or> slo_breached s = None)" for a1
    by (simp add: a4_def add_slo_breached_def split: option.split)
  from assms(1) obtain a1 a5 a6
    where m: "add_measured (error_rate s) 1 (40/100) (Fin 0, False) = Inr a1"
      "add_measured (map_option (\<lambda>n. Fin (of_int (max n 0))) (affected_services s))
           (breadth_anchor cfg) (10/100) (a4 a1) = Inr a5"
      and d: "add_dependencies cfg (dependency_count s) a5 = Inr a6"
      and r: "i = Some (clamp01 (fst a6))" "u = snd a6"
    unfolding compute_impact_score_def if_not_P [OF assms(2)] rbind_eq_Inr Let_def a4_def by auto
  from d have "snd a6 = snd a5"
    by (auto simp: add_dependencies_def split: option.splits if_splits dest: add_measured_unknown)
  with m r snd_a4 that show ?thesis by blast
qed

lemma impact_unknown_aux:
  assumes "compute_impact_score cfg s = Inr (i, u)"
  shows "u = (error_rate s = None \<or> slo_breached s = None \<or> affected_services s = None)
    \<and> (i = None \<longleftrightarrow> error_rate s = None \<and> slo_breached s = None \<and> affected_services s = None)
    \<and> (\<forall>x. i = Some x \<longrightarrow> (\<exists>r. x = Fin r \<and> 0 \<le> r \<and> r \<le> 1))"
proof (cases "error_rate s = None \<and> affected_services s = None \<and> slo_breached s = None")
    case True
    with assms show ?thesis by (simp add: compute_impact_score_def)
  next
    case False
    obtain a1 a4 a5 a6 where "add_measured (error_rate s) 1 (40/100) (Fin 0, False) = Inr a1"
      and "snd a4 = (snd a1 \<or> slo_breached s = None)"
      and "add_measured (map_option (\<lambda>n. Fin (of_int (max n 0))) (affected_services s))
           (breadth_anchor cfg) (10/100) a4 = Inr a5"
      and a6: "snd a6 = snd a5" "i = Some (clamp01 (fst a6))" "u = snd a6"
      by (rule impact_steps [OF assms False])
    then have "u = (error_rate s = None \<or> slo_breached s = None \<or> affected_services s = None)"
      by (auto dest!: add_measured_unknown)
    with False a6(2) show ?thesis by (auto simp: clamp01_eq clampr_nonneg clampr_le_one)
qed

lemmas impact_unknown = impact_unknown_aux [THEN conjunct1] impact_unknown_aux [THEN conjunct2, THEN conjunct1]
  impact_unknown_aux [THEN conjunct2, THEN conjunct2, THEN spec, THEN mp]

lemma urgency_unknown_aux:
  assumes "compute_urgency_score cfg s = Inr (i, u)"
  shows "u = (slo_burn_rate s = None \<or> saturation s = None \<or> error_rate_slope s = None)
    \<and> (i = None \<longleftrightarrow> slo_burn_rate s = None \<and> saturation s = None \<and> error_rate_slope s = None)
    \<and> (\<forall>x. i = Some x \<longrightarrow> (\<exists>r. x = Fin r \<and> 0 \<le> r \<and> r \<le> 1))"
proof (cases "slo_burn_rate s = None \<and> saturation s = None \<and> error_rate_slope s = None")
    case True
    with assms show ?thesis by (simp add: compute_urgency_score_def)
  next
    case False
    from assms obtain a1 a2 a3 f where
      m: "add_measured (slo_burn_rate s) (fast_burn_anchor cfg) (40/100) (Fin 0, False) = Inr a1"
        "add_measured (saturation s) 1 (25/100) a1 = Inr a2"
        "add_measured (error_rate_slope s) (slope_anchor cfg) (20/100) a2 = Inr a3"
      and r: "i = Some (clamp01 f)" "u = snd a3"
      unfolding compute_urgency_score_def if_not_P [OF False] rbind_eq_Inr Let_def
      by (metis Inr_inject Pair_inject snd_add_if)
    then have "u = (slo_burn_rate s = None \<or> saturation s = None \<or> error_rate_slope s = None)"
      by (auto dest!: add_measured_unknown)
    with False r(1) show ?thesis by (auto simp: clamp01_eq clampr_nonneg clampr_le_one)
qed

lemmas urgency_unknown = urgency_unknown_aux [THEN conjunct1] urgency_unknown_aux [THEN conjunct2, THEN conjunct1]
  urgency_unknown_aux [THEN conjunct2, THEN conjunct2, THEN spec, THEN mp]

lemma add_slo_breached_fin:
  "add_slo_breached m (Fin a, u) = (Fin (a + (if m = Some True then 20/100 else 0)), u \<or> m = None)"
  by (simp add: add_slo_breached_def add_if_def split: option.split)

lemma add_dependencies_fin:
  "breadth_anchor cfg \<noteq> 0 \<Longrightarrow> add_dependencies cfg m (Fin a, u) =
     Inr (Fin (a + (case m of None \<Rightarrow> 0
        | Some n \<Rightarrow> if n = 0 then 0 else part (Some (Fin (of_int n))) (breadth_anchor cfg) (5/100))), u)"
  by (auto simp add: add_dependencies_def add_measured_eq split: option.split)

lemmas score_step_simps = add_measured_eq add_if_fin add_slo_breached_fin add_dependencies_fin clamp01_eq

lemma compute_impact_eq:
  assumes "breadth_anchor cfg \<noteq> 0" and "error_rate s = Some e"
  shows "compute_impact_score cfg s =
     Inr (Some (Fin (clampr (Fin (impact_total cfg s)))), slo_breached s = None \<or> affected_services s = None)"
  unfolding compute_impact_score_def impact_total_def Let_def
  using assms by (simp add: score_step_simps del: map_option_case)

lemma compute_urgency_eq:
  assumes "fast_burn_anchor cfg \<noteq> 0" and "slope_anchor cfg \<noteq> 0" and "slo_burn_rate s = Some b"
  shows "compute_urgency_score cfg s =
     Inr (Some (Fin (clampr (Fin (urgency_total cfg s)))), saturation s = None \<or> error_rate_slope s = None)"
  unfolding compute_urgency_score_def urgency_total_def Let_def
  using assms by (simp add: score_step_simps)

section \<open>Classification: case analysis\<close>

lemma if_total: "\<exists>x. a = Inr x \<Longrightarrow> \<exists>x. b = Inr x \<Longrightarrow> \<exists>x. (if c then a else b) = Inr x"
  by simp

lemma to_bucket_Unknown: "to_bucket (Some x) u = Unknown \<longleftrightarrow> u"
  by (simp add: to_bucket_def)

lemma escalate_eq: "escalate b = Inr (case b of UNKNOWN \<Rightarrow> SEV2 | SEV1 \<Rightarrow> SEV1 | SEV2 \<Rightarrow> SEV1
    | SEV3 \<Rightarrow> SEV2 | SEV4 \<Rightarrow> SEV3)"
  by (cases b) (simp_all add: escalate_def severity_of_int_def)

lemma matrix_ok: "ib \<noteq> Unknown \<Longrightarrow> ub \<noteq> Unknown \<Longrightarrow> \<exists>b. matrix ib ub = Inr b"
  by (cases ib; cases ub) simp_all

lemma matrix_not_UNKNOWN: "matrix ib ub = Inr b \<Longrightarrow> b \<noteq> UNKNOWN"
  by (cases ib; cases ub) auto

lemma unknown_fields_Nil:
  "unknown_fields s = [] \<longleftrightarrow> affected_services s \<noteq> None \<and> error_rate s \<noteq> None
     \<and> slo_burn_rate s \<noteq> None \<and> slo_breached s \<noteq> None \<and> saturation s \<noteq> None"
  by (simp add: unknown_fields_def)

text \<open>A required measurement is missing.\<close>

definition required_missing :: "incident_signals \<Rightarrow> bool" where
  "required_missing s \<longleftrightarrow> error_rate s = None \<or> slo_breached s = None \<or> affected_services s = None
     \<or> slo_burn_rate s = None \<or> saturation s = None \<or> error_rate_slope s = None"

text \<open>The severity that the confidence rule derives from the measured one.\<close>

definition policy_severity :: "severity_config \<Rightarrow> incident_signals \<Rightarrow> severity \<Rightarrow> severity" where
  "policy_severity cfg s b =
     (if \<not> hypothesis_confidence_calibrated s
         \<or> flt_less (hypothesis_confidence s) (Fin (confidence_roundup_threshold cfg))
      then (case b of UNKNOWN \<Rightarrow> SEV2 | SEV1 \<Rightarrow> SEV1 | SEV2 \<Rightarrow> SEV1 | SEV3 \<Rightarrow> SEV2 | SEV4 \<Rightarrow> SEV3)
      else b)"

lemma classify_missing:
  assumes "classify_severity cfg s = Inr a" and "required_missing s"
  shows "unknown_telemetry a \<and> severity a \<in> {UNKNOWN, SEV2} \<and> measured_severity a = severity a"
proof -
  from assms(1) obtain i iu u uu where iu: "compute_impact_score cfg s = Inr (i, iu)"
    and uu: "compute_urgency_score cfg s = Inr (u, uu)"
    by (auto simp: classify_severity_def rbind_eq_Inr)
  from assms(2) impact_unknown(1) [OF iu] urgency_unknown(1) [OF uu] have "iu \<or> uu"
    by (auto simp: required_missing_def)
  with assms(1) show ?thesis
    by (auto simp: classify_severity_def iu uu Let_def to_bucket_Unknown split: option.splits)
qed

lemma classify_measured:
  assumes "classify_severity cfg s = Inr a" and "\<not> required_missing s"
  obtains i u b where "compute_impact_score cfg s = Inr (Some i, False)"
    and "compute_urgency_score cfg s = Inr (Some u, False)"
    and "matrix (to_bucket (Some i) False) (to_bucket (Some u) False) = Inr b"
    and "\<not> unknown_telemetry a" and "measured_severity a = b" and "severity a = policy_severity cfg s b"
    and "impact_score a = i" and "urgency_score a = u"
proof -
  from assms(1) obtain i' iu u' uu where iu: "compute_impact_score cfg s = Inr (i', iu)"
    and uu: "compute_urgency_score cfg s = Inr (u', uu)"
    by (auto simp: classify_severity_def rbind_eq_Inr)
  from assms(2) impact_unknown(1,2) [OF iu] urgency_unknown(1,2) [OF uu]
  obtain i u where eqs: "i' = Some i" "iu = False" "u' = Some u" "uu = False"
    by (auto simp: required_missing_def)
  have uf: "unknown_fields s = []"
    using assms(2) by (auto simp: unknown_fields_Nil required_missing_def)
  obtain b where b: "matrix (to_bucket (Some i) False) (to_bucket (Some u) False) = Inr b"
    using matrix_ok to_bucket_Unknown by blast
  from assms(1) have "\<not> unknown_telemetry a \<and> measured_severity a = b \<and> severity a = policy_severity cfg s b
      \<and> impact_score a = i \<and> urgency_score a = u"
    by (auto simp: classify_severity_def iu uu eqs uf b Let_def to_bucket_Unknown escalate_eq
        policy_severity_def)
  with that iu uu eqs b show ?thesis by blast
qed

lemma policy_severity_le: "b \<noteq> UNKNOWN \<Longrightarrow> policy_severity cfg s b \<le> b"
  by (cases b) (auto simp: policy_severity_def less_eq_severity_def)

section \<open>Properties of the classification\<close>

text \<open>Unknown telemetry is never invented away: the assessment is marked
  \<open>unknown_telemetry\<close> exactly when one of the six required measurements is missing, and then its
  severity is UNKNOWN or the escalated SEV2, never a calmer level.\<close>

theorem classify_unknown_telemetry:
  assumes "classify_severity cfg s = Inr a"
  shows "unknown_telemetry a = (error_rate s = None \<or> slo_breached s = None \<or> affected_services s = None
           \<or> slo_burn_rate s = None \<or> saturation s = None \<or> error_rate_slope s = None)
       \<and> (unknown_telemetry a \<longrightarrow> severity a \<in> {UNKNOWN, SEV2})"
proof (cases "required_missing s")
  case True
  with classify_missing [OF assms True] show ?thesis by (auto simp: required_missing_def)
next
  case False
  from assms False have "\<not> unknown_telemetry a" by (rule classify_measured)
  with False show ?thesis by (auto simp: required_missing_def)
qed

text \<open>With complete telemetry the severity that policy acts on is the measured matrix
  entry when the diagnosis is calibrated and confident, and otherwise the next more critical
  level: it is never calmer than what was measured.\<close>

theorem classify_policy_severity:
  assumes "classify_severity cfg s = Inr a" and "\<not> unknown_telemetry a"
  shows "measured_severity a \<noteq> UNKNOWN \<and> severity a \<le> measured_severity a
    \<and> severity a =
       (if hypothesis_confidence_calibrated s
           \<and> \<not> flt_less (hypothesis_confidence s) (Fin (confidence_roundup_threshold cfg))
        then measured_severity a
        else (case measured_severity a of SEV4 \<Rightarrow> SEV3 | SEV3 \<Rightarrow> SEV2 | _ \<Rightarrow> SEV1))"
proof -
  have "\<not> required_missing s" using classify_missing [OF assms(1)] assms(2) by blast
  with assms(1) obtain b where "measured_severity a = b" "severity a = policy_severity cfg s b" "b \<noteq> UNKNOWN"
    by (metis classify_measured matrix_not_UNKNOWN)
  then show ?thesis
    using policy_severity_le [of b cfg s] by (cases b) (auto simp: policy_severity_def)
qed

text \<open>Both scores of an assessment are finite and lie between zero and one, whatever the
  measurements are, infinities and NaN included.\<close>

theorem classify_scores_bounded:
  assumes "classify_severity cfg s = Inr a"
  shows "\<exists>i u. impact_score a = Fin i \<and> 0 \<le> i \<and> i \<le> 1 \<and> urgency_score a = Fin u \<and> 0 \<le> u \<and> u \<le> 1"
proof -
  from assms obtain i iu u uu where iu: "compute_impact_score cfg s = Inr (i, iu)"
    and uu: "compute_urgency_score cfg s = Inr (u, uu)"
    by (auto simp: classify_severity_def rbind_eq_Inr)
  have "\<exists>i' u'. (impact_score a = Fin 0 \<and> urgency_score a = Fin 0)
      \<or> (i = Some i' \<and> u = Some u' \<and> impact_score a = i' \<and> urgency_score a = u')"
    using assms by (auto simp: classify_severity_def iu uu Let_def rbind_eq_Inr split: option.splits if_splits)
  then show ?thesis using impact_unknown(3) [OF iu] urgency_unknown(3) [OF uu] by fastforce
qed

text \<open>Classification never raises when the three normalisation anchors are non-zero: neither
  the score divisions, nor the matrix lookup, nor the escalation can fail.\<close>

theorem classify_total:
  assumes "breadth_anchor cfg \<noteq> 0" and "fast_burn_anchor cfg \<noteq> 0" and "slope_anchor cfg \<noteq> 0"
  shows "\<exists>a. classify_severity cfg s = Inr a"
proof -
  have m: "d \<noteq> 0 \<Longrightarrow> \<exists>a. add_measured m d w acc = Inr a" for m d w acc
    by (auto simp: add_measured_def rbind_def split: option.splits)
  have d: "\<exists>a. add_dependencies cfg m acc = Inr a" for m acc
    using assms(1) m by (auto simp: add_dependencies_def split: option.splits)
  have "\<exists>x. compute_impact_score cfg s = Inr x"
    using assms(1) unfolding compute_impact_score_def Let_def
    by (intro if_total rbind_total m d) auto
  moreover have "\<exists>x. compute_urgency_score cfg s = Inr x"
    using assms(2,3) unfolding compute_urgency_score_def Let_def
    by (intro if_total rbind_total m) auto
  ultimately obtain i iu u uu where iu: "compute_impact_score cfg s = Inr (i, iu)"
    and uu: "compute_urgency_score cfg s = Inr (u, uu)" by force
  show ?thesis
  proof (cases "\<exists>i' u'. i = Some i' \<and> u = Some u' \<and> \<not> iu \<and> \<not> uu")
    case True
    then obtain i' u' where eqs: "i = Some i'" "u = Some u'" "\<not> iu" "\<not> uu" by blast
    obtain b where "matrix (to_bucket (Some i') False) (to_bucket (Some u') False) = Inr b"
      using matrix_ok to_bucket_Unknown by blast
    with eqs show ?thesis
      by (simp add: classify_severity_def iu uu Let_def to_bucket_Unknown escalate_eq)
  next
    case False
    then show ?thesis
      by (auto simp: classify_severity_def iu uu Let_def to_bucket_Unknown split: option.split)
  qed
qed

section \<open>Monotonicity\<close>

fun bucket_rank :: "bucket \<Rightarrow> nat" where
  "bucket_rank Unknown = 0"
| "bucket_rank Low = 1"
| "bucket_rank Medium = 2"
| "bucket_rank High = 3"

lemma clampr_mono: "flt_le x y \<Longrightarrow> clampr x \<le> clampr y"
  by (cases x; cases y) (auto simp: clampr_def clamp01_def py_max_def py_min_def)

lemma quot_mono: "0 < d \<Longrightarrow> flt_le x y \<Longrightarrow> flt_le (quot x d) (quot y d)"
  by (cases x; cases y) (auto simp: quot_def divide_right_mono)

lemma part_mono: "0 < d \<Longrightarrow> 0 \<le> w \<Longrightarrow> flt_le x y \<Longrightarrow> part (Some x) d w \<le> part (Some y) d w"
  by (simp add: part_def clampr_mono quot_mono mult_right_mono)

lemma part_nonneg: "0 \<le> w \<Longrightarrow> 0 \<le> part m d w"
  by (auto simp: part_def clampr_nonneg split: option.split)

lemma part_zero: "0 < d \<Longrightarrow> part (Some (Fin 0)) d w = 0"
  by (simp add: part_def quot_def clampr_fin)

lemma bucket_mono:
  "x \<le> y \<Longrightarrow> bucket_rank (to_bucket (Some (Fin x)) False) \<le> bucket_rank (to_bucket (Some (Fin y)) False)"
  by (auto simp: to_bucket_def)

lemma matrix_rank: "matrix a b = Inr r \<Longrightarrow> sev_int r = min 4 (7 - int (bucket_rank a + bucket_rank b))"
  by (cases a; cases b) auto

lemma matrix_mono:
  assumes "matrix a b = Inr r" and "matrix a' b' = Inr r'"
    and "bucket_rank a \<le> bucket_rank a'" and "bucket_rank b \<le> bucket_rank b'"
  shows "r' \<le> r"
  using matrix_rank [OF assms(1)] matrix_rank [OF assms(2)] assms(3,4) by (simp add: less_eq_severity_def)

lemma policy_severity_mono: "b' \<noteq> UNKNOWN \<Longrightarrow> b' \<le> b \<Longrightarrow> policy_severity cfg s b' \<le> policy_severity cfg s b"
  by (cases b'; cases b) (auto simp: policy_severity_def less_eq_severity_def)

text \<open>The second incident is measured at least as bad as the first in every dimension, with the
  same diagnosis confidence; all required measurements of both are present.\<close>

definition opt_le :: "flt option \<Rightarrow> flt option \<Rightarrow> bool" where
  "opt_le a b = (case (a, b) of (Some x, Some y) \<Rightarrow> flt_le x y | _ \<Rightarrow> False)"

definition at_least_as_bad :: "incident_signals \<Rightarrow> incident_signals \<Rightarrow> bool" where
  "at_least_as_bad s t \<longleftrightarrow>
     opt_le (error_rate s) (error_rate t) \<and> opt_le (slo_burn_rate s) (slo_burn_rate t)
     \<and> opt_le (saturation s) (saturation t) \<and> opt_le (error_rate_slope s) (error_rate_slope t)
     \<and> (case (affected_services s, affected_services t) of (Some m, Some n) \<Rightarrow> m \<le> n | _ \<Rightarrow> False)
     \<and> (case (slo_breached s, slo_breached t) of (Some b, Some c) \<Rightarrow> b \<longrightarrow> c | _ \<Rightarrow> False)
     \<and> (user_facing s = Some True \<longrightarrow> user_facing t = Some True)
     \<and> (revenue_impacting s = Some True \<longrightarrow> revenue_impacting t = Some True)
     \<and> (still_escalating s = Some True \<longrightarrow> still_escalating t = Some True)
     \<and> (case dependency_count s of None \<Rightarrow> 0 | Some m \<Rightarrow> m) \<le> (case dependency_count t of None \<Rightarrow> 0 | Some n \<Rightarrow> n)
     \<and> (case duration_seconds s of None \<Rightarrow> True | Some d \<Rightarrow> opt_le (Some d) (duration_seconds t))
     \<and> hypothesis_confidence t = hypothesis_confidence s
     \<and> hypothesis_confidence_calibrated t = hypothesis_confidence_calibrated s"

lemma at_least_as_bad_measured:
  "at_least_as_bad s t \<Longrightarrow> \<not> required_missing s \<and> \<not> required_missing t"
  by (auto simp: at_least_as_bad_def opt_le_def required_missing_def split: option.splits)

lemma flt_le_trans: "flt_le x y \<Longrightarrow> flt_le y z \<Longrightarrow> flt_le x z"
  by (cases x; cases y; cases z) auto

lemma part_opt_mono: "0 < d \<Longrightarrow> 0 \<le> w \<Longrightarrow> opt_le m n \<Longrightarrow> part m d w \<le> part n d w"
  by (auto simp: opt_le_def part_mono split: option.splits)

lemma dependency_part:
  "0 < d \<Longrightarrow> (case m of None \<Rightarrow> 0 | Some n \<Rightarrow> if n = 0 then 0 else part (Some (Fin (of_int n))) d w)
     = part (Some (Fin (of_int (case m of None \<Rightarrow> 0 | Some n \<Rightarrow> n)))) d w"
  by (auto simp: part_zero split: option.split)

lemma at_least_as_badD:
  assumes "at_least_as_bad s t"
  shows "opt_le (error_rate s) (error_rate t)" and "opt_le (slo_burn_rate s) (slo_burn_rate t)"
    and "opt_le (saturation s) (saturation t)" and "opt_le (error_rate_slope s) (error_rate_slope t)"
    and "case (affected_services s, affected_services t) of (Some m, Some n) \<Rightarrow> m \<le> n | _ \<Rightarrow> False"
    and "case (slo_breached s, slo_breached t) of (Some b, Some c) \<Rightarrow> b \<longrightarrow> c | _ \<Rightarrow> False"
    and "user_facing s = Some True \<Longrightarrow> user_facing t = Some True"
    and "revenue_impacting s = Some True \<Longrightarrow> revenue_impacting t = Some True"
    and "still_escalating s = Some True \<Longrightarrow> still_escalating t = Some True"
    and "(case dependency_count s of None \<Rightarrow> 0 | Some m \<Rightarrow> m) \<le> (case dependency_count t of None \<Rightarrow> 0 | Some n \<Rightarrow> n)"
    and "case duration_seconds s of None \<Rightarrow> True | Some d \<Rightarrow> opt_le (Some d) (duration_seconds t)"
  using assms unfolding at_least_as_bad_def by blast+

lemma if_weight_mono: "(b \<Longrightarrow> c) \<Longrightarrow> 0 \<le> w \<Longrightarrow> (if b then w else 0) \<le> (if c then w else (0::rat))"
  by auto

lemma impact_total_mono:
  assumes "0 < breadth_anchor cfg" and "at_least_as_bad s t"
  shows "impact_total cfg s \<le> impact_total cfg t"
proof -
  note bad = at_least_as_badD [OF assms(2)]
  have slo: "slo_breached s = Some True \<Longrightarrow> slo_breached t = Some True"
    using bad(6) by (auto split: option.splits)
  have services: "opt_le (map_option (\<lambda>n. Fin (of_int (max n 0))) (affected_services s))
      (map_option (\<lambda>n. Fin (of_int (max n 0))) (affected_services t))"
    using bad(5) by (auto simp: opt_le_def split: option.splits)
  have deps: "flt_le (Fin (of_int (case dependency_count s of None \<Rightarrow> 0 | Some n \<Rightarrow> n)))
      (Fin (of_int (case dependency_count t of None \<Rightarrow> 0 | Some n \<Rightarrow> n)))"
    using bad(10) by simp
  show ?thesis
    unfolding impact_total_def dependency_part [OF assms(1)]
    by (intro add_mono part_opt_mono part_mono if_weight_mono bad(1,7,8) slo services deps assms(1)) simp_all
qed

lemma urgency_total_mono:
  assumes "0 < fast_burn_anchor cfg" and "0 < slope_anchor cfg" and "at_least_as_bad s t"
  shows "urgency_total cfg s \<le> urgency_total cfg t"
proof -
  note bad = at_least_as_badD [OF assms(3)]
  have long: "case duration_seconds t of None \<Rightarrow> False | Some d \<Rightarrow> flt_le (Fin 900) d"
    if "case duration_seconds s of None \<Rightarrow> False | Some d \<Rightarrow> flt_le (Fin 900) d"
    using that bad(11) by (auto simp: opt_le_def split: option.splits intro: flt_le_trans)
  show ?thesis
    unfolding urgency_total_def
    by (intro add_mono part_opt_mono if_weight_mono bad(2-4,9) long assms(1,2)) simp_all
qed

lemma scores_of_measured:
  assumes "classify_severity cfg s = Inr a" and "\<not> required_missing s"
    and "0 < breadth_anchor cfg" and "0 < fast_burn_anchor cfg" and "0 < slope_anchor cfg"
  obtains b where "matrix (to_bucket (Some (Fin (clampr (Fin (impact_total cfg s))))) False)
      (to_bucket (Some (Fin (clampr (Fin (urgency_total cfg s))))) False) = Inr b"
    and "severity a = policy_severity cfg s b"
proof -
  obtain e d where "error_rate s = Some e" "slo_burn_rate s = Some d"
    using assms(2) by (auto simp: required_missing_def)
  then have c: "\<exists>u. compute_impact_score cfg s = Inr (Some (Fin (clampr (Fin (impact_total cfg s)))), u)"
    "\<exists>u. compute_urgency_score cfg s = Inr (Some (Fin (clampr (Fin (urgency_total cfg s)))), u)"
    using assms(3-5) by (simp_all add: compute_impact_eq compute_urgency_eq)
  obtain i u b where "compute_impact_score cfg s = Inr (Some i, False)"
    "compute_urgency_score cfg s = Inr (Some u, False)"
    "matrix (to_bucket (Some i) False) (to_bucket (Some u) False) = Inr b"
    "severity a = policy_severity cfg s b"
    by (rule classify_measured [OF assms(1,2)])
  with c that show ?thesis by auto
qed

text \<open>Classification is monotone: when every measurement of one incident is at least as bad as
  the other's and the diagnosis confidence is the same, its severity is at least as critical.\<close>

theorem classify_monotone:
  assumes "0 < breadth_anchor cfg" and "0 < fast_burn_anchor cfg" and "0 < slope_anchor cfg"
    and "at_least_as_bad s t"
    and "classify_severity cfg s = Inr a" and "classify_severity cfg t = Inr b"
  shows "severity b \<le> severity a"
proof -
  note measured = at_least_as_bad_measured [OF assms(4)]
  obtain m where m: "matrix (to_bucket (Some (Fin (clampr (Fin (impact_total cfg s))))) False)
      (to_bucket (Some (Fin (clampr (Fin (urgency_total cfg s))))) False) = Inr m"
    and a: "severity a = policy_severity cfg s m"
    using scores_of_measured [OF assms(5) _ assms(1-3)] measured by blast
  obtain n where n: "matrix (to_bucket (Some (Fin (clampr (Fin (impact_total cfg t))))) False)
      (to_bucket (Some (Fin (clampr (Fin (urgency_total cfg t))))) False) = Inr n"
    and b: "severity b = policy_severity cfg t n"
    using scores_of_measured [OF assms(6) _ assms(1-3)] measured by blast
  have "n \<le> m"
    using m n impact_total_mono [OF assms(1,4)] urgency_total_mono [OF assms(2-4)]
    by (intro matrix_mono [OF m n] bucket_mono clampr_mono) simp_all
  moreover have "policy_severity cfg t = policy_severity cfg s"
    using assms(4) by (simp add: policy_severity_def fun_eq_iff at_least_as_bad_def)
  ultimately show ?thesis
    using policy_severity_mono matrix_not_UNKNOWN [OF n] by (simp add: a b)
qed

section \<open>Witnesses\<close>

text \<open>A fully measured incident, and one with the error rate missing.\<close>

definition sample_signals :: incident_signals where
  "sample_signals =
     \<lparr>affected_services = Some 1, affected_pods = None, user_facing = Some True, revenue_impacting = None,
      error_rate = Some (Fin (1/10)), slo_breached = Some False, customer_scope = None,
      dependency_count = None, duration_seconds = None, slo_burn_rate = Some (Fin 1),
      error_rate_slope = Some (Fin 0), saturation = Some (Fin (1/2)), still_escalating = None,
      hypothesis_confidence = Fin (9/10), hypothesis_confidence_calibrated = True, sig_evidence = []\<rparr>"

lemma classify_sample:
  "classify_severity default_severity_config sample_signals =
     Inr \<lparr>severity = SEV4, impact_score = Fin (21/100), urgency_score = Fin (11/72),
      impact_bucket = Low, urgency_bucket = Low, rounded_up = False, confidence_calibrated = True,
      sev_rationale = Matrixed (Fin (21/100)) Low (Fin (11/72)) Low SEV4 [], unknown_telemetry = False,
      sev_evidence = [], measured_severity = SEV4\<rparr>"
  by (simp add: classify_severity_def compute_impact_score_def compute_urgency_score_def
      sample_signals_def default_severity_config_def add_measured_def add_if_def add_slo_breached_def
      add_dependencies_def clamp01_def to_bucket_def unknown_fields_def Let_def)

lemma classify_sample_missing:
  "\<exists>a. classify_severity default_severity_config (sample_signals\<lparr>error_rate := None\<rparr>) = Inr a"
  by (simp add: classify_severity_def compute_impact_score_def compute_urgency_score_def
      sample_signals_def default_severity_config_def add_measured_def add_if_def add_slo_breached_def
      add_dependencies_def clamp01_def to_bucket_def unknown_fields_def Let_def)

definition worse_signals :: incident_signals where
  "worse_signals = sample_signals\<lparr>error_rate := Some (Fin 1), slo_breached := Some True,
     slo_burn_rate := Some (Fin 20), dependency_count := Some 3\<rparr>"

lemma classify_worse: "\<exists>b. classify_severity default_severity_config worse_signals = Inr b"
  by (simp add: classify_severity_def compute_impact_score_def compute_urgency_score_def worse_signals_def
      sample_signals_def default_severity_config_def add_measured_def add_if_def add_slo_breached_def
      add_dependencies_def clamp01_def to_bucket_def unknown_fields_def Let_def)

lemma sample_as_bad: "at_least_as_bad sample_signals worse_signals"
  by (simp add: at_least_as_bad_def opt_le_def sample_signals_def worse_signals_def)

lemma default_anchors:
  "0 < breadth_anchor default_severity_config" "0 < fast_burn_anchor default_severity_config"
  "0 < slope_anchor default_severity_config"
  by (simp_all add: default_severity_config_def)

theorem classify_unknown_telemetry_witness:
  "\<exists>a. classify_severity default_severity_config (sample_signals\<lparr>error_rate := None\<rparr>) = Inr a
     \<and> unknown_telemetry a \<and> severity a \<in> {UNKNOWN, SEV2}"
proof -
  obtain a where a: "classify_severity default_severity_config (sample_signals\<lparr>error_rate := None\<rparr>) = Inr a"
    using classify_sample_missing by blast
  from classify_unknown_telemetry [OF a] a show ?thesis by auto
qed

theorem classify_policy_severity_witness:
  "\<exists>a. classify_severity default_severity_config sample_signals = Inr a \<and> \<not> unknown_telemetry a
     \<and> severity a \<le> measured_severity a"
  using classify_policy_severity [OF classify_sample] classify_sample by auto

theorem classify_scores_bounded_witness:
  "\<exists>a i. classify_severity default_severity_config sample_signals = Inr a \<and> impact_score a = Fin i \<and> i \<le> 1"
  using classify_scores_bounded [OF classify_sample] classify_sample by auto

theorem classify_total_witness: "\<exists>a. classify_severity default_severity_config sample_signals = Inr a"
  using classify_total [of default_severity_config sample_signals] default_anchors by simp

theorem classify_monotone_witness:
  "\<exists>a b. classify_severity default_severity_config sample_signals = Inr a
     \<and> classify_severity default_severity_config worse_signals = Inr b \<and> severity b \<le> severity a"
proof -
  obtain b where b: "classify_severity default_severity_config worse_signals = Inr b"
    using classify_worse by blast
  from classify_monotone [OF default_anchors sample_as_bad classify_sample b] classify_sample b
  show ?thesis by blast
qed

end
