(* ===== verification/Remediation_Action.thy ===== *)
theory Remediation_Action
  imports Sentinel_Prelude
begin

text \<open>
  The data the planner hands to the ACT phase (\<open>RemediationAction\<close> and \<open>RemediationPlan\<close> of
  \<open>src/src/sre_agent/agent_state.py\<close>). The consumers read an action by duck typing and check
  that \<open>parameters\<close> is a dictionary before they use it, so \<open>parameters\<close> is any Python value.
\<close>

record remediation_action =
  action_type :: string
  target :: string
  parameters :: pyval
  safety_check :: string
  rollback_plan :: "string option"

record remediation_plan =
  plan_id :: string
  plan_hypothesis :: string
  plan_actions :: "remediation_action list"
  estimated_duration :: string
  risk_level :: string
  plan_confidence :: "flt option"
  requires_approval :: bool
  runbook_reference :: "string option"
  source_runbook_url :: "string option"
  verification_metrics :: "string list"
  slo_impact :: "string option"
  planning_failed :: "string option"
  runbook_gap :: "string option"

text \<open>\<open>getattr(action, "parameters", None) or {}\<close>, as a dictionary when it is one.\<close>

definition params_or_empty :: "remediation_action \<Rightarrow> pyval" where
  "params_or_empty a = py_or (parameters a) (PDict [])"

definition params_dict :: "remediation_action \<Rightarrow> pydict option" where
  "params_dict a = (case params_or_empty a of PDict d \<Rightarrow> Some d | _ \<Rightarrow> None)"

definition params_get :: "remediation_action \<Rightarrow> string \<Rightarrow> pyval" where
  "params_get a k = (case params_dict a of Some d \<Rightarrow> py_dict_get d k PNone | None \<Rightarrow> PNone)"

text \<open>\<open>params.get("replicas", params.get("replica_count"))\<close>.\<close>

definition replicas_value :: "pydict \<Rightarrow> pyval" where
  "replicas_value d = py_dict_get d ''replicas'' (py_dict_get d ''replica_count'' PNone)"

lemma params_dict_PDict: "parameters a = PDict d \<Longrightarrow> params_dict a = Some d"
  by (simp add: params_dict_def params_or_empty_def py_or_def)

end
