(* ===== verification/Policy_Engine.thy ===== *)
theory Policy_Engine
  imports Remediation_Action
begin

text \<open>
  The deterministic safety rules (\<open>src/src/sre_agent/policy_engine.py\<close>). \<open>evaluate_action\<close> gives
  the hard verdict that \<open>Policy_Gate.decide\<close> treats as final; the message strings of the source
  are the constructors of \<open>policy_reason\<close>, one per return statement.
\<close>

datatype policy_reason =
    DeleteBlockedOnProd
  | ScaleToZeroBlockedOnProd
  | AllowedNonProduction string
  | AllowedByDefault string string

definition evaluate_action :: "remediation_action \<Rightarrow> string \<Rightarrow> flt \<Rightarrow> bool \<times> policy_reason" where
  "evaluate_action action environment risk_score =
     (let env_lower = lower environment;
          atype = lower (action_type action)
      in if atype \<in> {''delete'', ''patch''} \<and> contains ''delete'' atype \<and> env_lower = ''production''
         then (False, DeleteBlockedOnProd)
         else if atype = ''scale''
              \<and> (case parameters action of
                   PDict d \<Rightarrow> py_eq_zero (replicas_value d) \<and> env_lower = ''production''
                 | _ \<Rightarrow> False)
         then (False, ScaleToZeroBlockedOnProd)
         else if env_lower \<noteq> ''production''
         then (True, AllowedNonProduction environment)
         else (True, AllowedByDefault atype environment))"

text \<open>The shapes of alert context that \<open>get_environment_from_context\<close> tells apart.\<close>

datatype alert_context = NoContext | ContextObject pyval | ContextDict pydict | ContextOther

definition get_environment_from_context :: "alert_context \<Rightarrow> (py_error, string) res" where
  "get_environment_from_context ctx =
     (case ctx of
        NoContext \<Rightarrow> Inr ''production''
      | ContextOther \<Rightarrow> Inr ''production''
      | _ \<Rightarrow>
          (case (case ctx of ContextObject l \<Rightarrow> l
                 | ContextDict d \<Rightarrow> py_dict_get d ''labels'' (PDict [])
                 | _ \<Rightarrow> PNone) of
             PDict labels \<Rightarrow>
               (case py_or (py_dict_get labels ''environment'' PNone)
                      (py_or (py_dict_get labels ''env'' PNone)
                        (py_or (py_dict_get labels ''namespace'' PNone) (PStr ''production''))) of
                  PStr env \<Rightarrow> Inr (lower env)
                | _ \<Rightarrow> Inl AttributeError)
           | _ \<Rightarrow> Inl AttributeError))"

definition dangerous_actions :: "string list" where
  "dangerous_actions = [''restart'', ''rollback'', ''delete'']"

definition risk_level_score :: "string \<Rightarrow> rat" where
  "risk_level_score level =
     (case map_of [(''low'', 2), (''medium'', 5), (''high'', 8)] level of Some b \<Rightarrow> b | None \<Rightarrow> 5)"

definition calculate_risk_score :: "remediation_plan option \<Rightarrow> rat" where
  "calculate_risk_score plan =
     (case plan of
        None \<Rightarrow> 5
      | Some p \<Rightarrow>
          (let base = risk_level_score (risk_level p);
               n = length (plan_actions p);
               s1 = (if 3 < n then base + 1 else base);
               s2 = (if 5 < n then s1 + 1 else s1);
               s3 = foldl (\<lambda>s a. if lower (action_type a) \<in> set dangerous_actions then s + 1/2 else s)
                      s2 (plan_actions p)
           in min s3 10))"

section \<open>Lemmas\<close>

lemma lower_literals [simp]:
  "lower ''production'' = ''production''" "lower ''scale'' = ''scale''" "lower ''rollback'' = ''rollback''"
  "lower ''restart'' = ''restart''" "lower ''inspect'' = ''inspect''" "lower ''escalate'' = ''escalate''"
  "lower ''patch'' = ''patch''" "lower ''config_change'' = ''config_change''"
  by code_simp+

lemma contains_literals: "contains ''delete'' ''delete''" "\<not> contains ''delete'' ''patch''"
  by code_simp+

text \<open>What the two hard rules refuse, and nothing else.\<close>

lemma evaluate_action_denies_iff:
  "\<not> fst (evaluate_action a env r) \<longleftrightarrow>
     lower env = ''production''
     \<and> (lower (action_type a) = ''delete''
        \<or> lower (action_type a) = ''scale''
           \<and> (\<exists>d. parameters a = PDict d \<and> py_eq_zero (replicas_value d)))"
  using contains_literals by (auto simp: evaluate_action_def Let_def split: pyval.split)

lemma foldl_half:
  "foldl (\<lambda>s a. if P a then s + 1/2 else s) (s::rat) xs = s + of_nat (length (filter P xs)) / 2"
  by (induction xs arbitrary: s) (auto simp: field_simps)

lemma risk_level_score_bounds: "2 \<le> risk_level_score l" "risk_level_score l \<le> 8"
  by (simp_all add: risk_level_score_def)

section \<open>Properties\<close>

text \<open>The hard policy refuses exactly two things, and only in production: a delete, and a
  scale whose replica count compares equal to zero. Every other action, and every action in any
  other environment, is left to the autonomy gate; the risk score is never consulted.\<close>

theorem evaluate_action_spec:
  "fst (evaluate_action a env r) =
     (\<not> (lower env = ''production''
         \<and> (lower (action_type a) = ''delete''
            \<or> lower (action_type a) = ''scale''
               \<and> (\<exists>d. parameters a = PDict d \<and> py_eq_zero (replicas_value d)))))
   \<and> evaluate_action a env r = evaluate_action a env r'"
  using evaluate_action_denies_iff [of a env r] by (auto simp: evaluate_action_def)

text \<open>The plan risk score is the level's base value plus one for more than three actions, one
  more for more than five and a half per dangerous action, capped at ten; so it always lies
  between 2 and 10, and it is 5 when there is no plan.\<close>

theorem calculate_risk_score_spec:
  "calculate_risk_score (Some p) =
     min 10 (risk_level_score (risk_level p)
       + (if 3 < length (plan_actions p) then 1 else 0) + (if 5 < length (plan_actions p) then 1 else 0)
       + of_nat (length (filter (\<lambda>a. lower (action_type a) \<in> set dangerous_actions) (plan_actions p))) / 2)
   \<and> 2 \<le> calculate_risk_score plan \<and> calculate_risk_score plan \<le> 10 \<and> calculate_risk_score None = 5"
proof -
  have eq: "calculate_risk_score (Some q) =
     min 10 (risk_level_score (risk_level q)
       + (if 3 < length (plan_actions q) then 1 else 0) + (if 5 < length (plan_actions q) then 1 else 0)
       + of_nat (length (filter (\<lambda>a. lower (action_type a) \<in> set dangerous_actions) (plan_actions q))) / 2)"
    for q by (simp add: calculate_risk_score_def Let_def foldl_half min.commute)
  have "2 \<le> calculate_risk_score plan \<and> calculate_risk_score plan \<le> 10"
  proof (cases plan)
    case (Some q)
    show ?thesis unfolding Some eq using risk_level_score_bounds(1) [of "risk_level q"]
      by (auto intro!: add_increasing2)
  qed (simp add: calculate_risk_score_def)
  with eq show ?thesis by (simp add: calculate_risk_score_def)
qed

end
