(* ===== verification/Py_Regex.thy ===== *)
theory Py_Regex
  imports Sentinel_Prelude
begin

text \<open>
  The part of Python's \<open>re\<close> module that the modelled code uses, as an executable backtracking
  matcher. \<open>rx_ends r s i\<close> lists the positions at which a match of \<open>r\<close> that starts at \<open>i\<close> can
  end, in the order in which Python tries them, so the first element is the match that Python
  reports. Greedy and lazy repetition, alternation order, word boundaries and the two anchors
  behave as in \<open>re\<close> without \<open>MULTILINE\<close>; \<open>IGNORECASE\<close> is expressed by the character classes.
\<close>

datatype rx =
    Eps
  | Cls "char \<Rightarrow> bool"
  | Cat rx rx
  | Alt rx rx
  | Rep bool nat nat rx
  | Bnd
  | BoS
  | EoS

definition is_word :: "char \<Rightarrow> bool" where
  "is_word c = (is_alpha c \<or> is_digit c \<or> c = CHR ''_'')"

definition word_at :: "string \<Rightarrow> nat \<Rightarrow> bool" where
  "word_at s i = (i < length s \<and> is_word (s ! i))"

definition boundary :: "string \<Rightarrow> nat \<Rightarrow> bool" where
  "boundary s i = ((0 < i \<and> word_at s (i - 1)) \<noteq> word_at s i)"

definition at_end :: "string \<Rightarrow> nat \<Rightarrow> bool" where
  "at_end s i = (i = length s \<or> (Suc i = length s \<and> s ! i = CHR 0x0A))"

text \<open>Up to \<open>mx\<close> further repetitions of which \<open>mn\<close> are still required; every repetition must
  advance.\<close>

fun rep_ends :: "(nat \<Rightarrow> nat list) \<Rightarrow> bool \<Rightarrow> nat \<Rightarrow> nat \<Rightarrow> nat \<Rightarrow> nat list" where
  "rep_ends f greedy mn 0 i = (if mn = 0 then [i] else [])"
| "rep_ends f greedy mn (Suc mx) i =
     (let more = concat (map (\<lambda>j. if i < j then rep_ends f greedy (mn - 1) mx j else []) (f i));
          stop = (if mn = 0 then [i] else [])
      in if greedy then more @ stop else stop @ more)"

fun rx_ends :: "rx \<Rightarrow> string \<Rightarrow> nat \<Rightarrow> nat list" where
  "rx_ends Eps s i = [i]"
| "rx_ends (Cls p) s i = (if i < length s \<and> p (s ! i) then [Suc i] else [])"
| "rx_ends (Cat a b) s i = concat (map (rx_ends b s) (rx_ends a s i))"
| "rx_ends (Alt a b) s i = rx_ends a s i @ rx_ends b s i"
| "rx_ends (Rep greedy mn mx r) s i = rep_ends (rx_ends r s) greedy mn mx i"
| "rx_ends Bnd s i = (if boundary s i then [i] else [])"
| "rx_ends BoS s i = (if i = 0 then [i] else [])"
| "rx_ends EoS s i = (if at_end s i then [i] else [])"

text \<open>Literals, with and without \<open>IGNORECASE\<close>.\<close>

fun lit :: "string \<Rightarrow> rx" where
  "lit [] = Eps"
| "lit (c # s) = Cat (Cls (\<lambda>d. d = c)) (lit s)"

fun lit_ci :: "string \<Rightarrow> rx" where
  "lit_ci [] = Eps"
| "lit_ci (c # s) = Cat (Cls (\<lambda>d. lower_char d = lower_char c)) (lit_ci s)"

fun alts :: "rx list \<Rightarrow> rx" where
  "alts [] = Cls (\<lambda>_. False)"
| "alts [r] = r"
| "alts (r # q # rs) = Alt r (alts (q # rs))"

fun seqs :: "rx list \<Rightarrow> rx" where
  "seqs [] = Eps"
| "seqs (r # rs) = Cat r (seqs rs)"

text \<open>\<open>p*\<close> and \<open>p+\<close> over a character class, on a subject of known length.\<close>

definition many :: "string \<Rightarrow> (char \<Rightarrow> bool) \<Rightarrow> rx" where
  "many s p = Rep True 0 (length s) (Cls p)"

definition many1 :: "string \<Rightarrow> (char \<Rightarrow> bool) \<Rightarrow> rx" where
  "many1 s p = Rep True 1 (length s) (Cls p)"

definition opt_rx :: "rx \<Rightarrow> rx" where
  "opt_rx r = Rep True 0 1 r"

text \<open>\<open>pattern.match\<close>, \<open>pattern.fullmatch\<close>, \<open>pattern.search\<close> and \<open>pattern.finditer\<close>.\<close>

definition rx_match :: "rx \<Rightarrow> string \<Rightarrow> nat option" where
  "rx_match r s = (case rx_ends r s 0 of [] \<Rightarrow> None | e # _ \<Rightarrow> Some e)"

definition rx_fullmatch :: "rx \<Rightarrow> string \<Rightarrow> bool" where
  "rx_fullmatch r s = (length s \<in> set (rx_ends r s 0))"

definition rx_search_from :: "rx \<Rightarrow> string \<Rightarrow> nat \<Rightarrow> (nat \<times> nat) option" where
  "rx_search_from r s p =
     (case List.find (\<lambda>i. rx_ends r s i \<noteq> []) [p..<Suc (length s)] of
        None \<Rightarrow> None
      | Some i \<Rightarrow> Some (i, hd (rx_ends r s i)))"

definition rx_search :: "rx \<Rightarrow> string \<Rightarrow> bool" where
  "rx_search r s = (rx_search_from r s 0 \<noteq> None)"

lemma rx_search_from_start: "rx_search_from r s p = Some (i, e) \<Longrightarrow> p \<le> i \<and> i \<le> length s"
  by (auto simp: rx_search_from_def split: option.splits dest!: find_Some_mem)

function rx_finditer :: "rx \<Rightarrow> string \<Rightarrow> nat \<Rightarrow> (nat \<times> nat) list" where
  "rx_finditer r s p =
     (case rx_search_from r s p of
        None \<Rightarrow> []
      | Some (i, e) \<Rightarrow> (i, e) # rx_finditer r s (if i < e then e else Suc i))"
  by pat_completeness auto
termination
  by (relation "measure (\<lambda>(r, s, p). Suc (length s) - p)") (auto dest!: rx_search_from_start)

declare rx_finditer.simps [simp del]

section \<open>Lemmas\<close>

lemma rep_ends_bounds:
  assumes f: "\<And>i j. j \<in> set (f i) \<Longrightarrow> i \<le> n \<Longrightarrow> i \<le> j \<and> j \<le> n"
    and "e \<in> set (rep_ends f g mn mx i)" and "i \<le> n"
  shows "i \<le> e \<and> e \<le> n"
  using assms(2,3)
proof (induction mx arbitrary: mn i)
  case 0
  then show ?case by (simp split: if_splits)
next
  case (Suc mx)
  then consider "e = i" | j where "j \<in> set (f i)" "i < j" "e \<in> set (rep_ends f g (mn - 1) mx j)"
    by (auto simp: Let_def split: if_splits)
  then show ?case
  proof cases
    case 2
    with f [OF 2(1)] Suc.prems(2) Suc.IH [OF 2(3)] show ?thesis by force
  qed (use Suc.prems in simp)
qed

lemma rx_ends_bounds: "e \<in> set (rx_ends r s i) \<Longrightarrow> i \<le> length s \<Longrightarrow> i \<le> e \<and> e \<le> length s"
proof (induction r arbitrary: i e)
  case (Cat a b)
  then obtain m where m: "m \<in> set (rx_ends a s i)" "e \<in> set (rx_ends b s m)" by auto
  with Cat.IH(1) [OF m(1)] Cat.IH(2) [OF m(2)] Cat.prems(2) show ?case by linarith
next
  case (Rep g mn mx r)
  show ?case
    by (rule rep_ends_bounds [where f = "rx_ends r s" and g = g and mn = mn and mx = mx])
      (use Rep in \<open>simp_all only: rx_ends.simps\<close>)
qed (auto split: if_splits)

lemma rx_search_from_bounds:
  "rx_search_from r s p = Some (i, e) \<Longrightarrow> p \<le> i \<and> i \<le> e \<and> e \<le> length s"
  using rx_ends_bounds [of e r s i]
  by (auto simp: rx_search_from_def split: option.splits dest!: find_Some_mem)

text \<open>\<open>search\<close> succeeds exactly when some position starts a match.\<close>

lemma rx_search_iff: "rx_search r s \<longleftrightarrow> (\<exists>i \<le> length s. rx_ends r s i \<noteq> [])"
proof -
  have "rx_search r s \<longleftrightarrow> List.find (\<lambda>i. rx_ends r s i \<noteq> []) [0..<Suc (length s)] \<noteq> None"
    by (simp add: rx_search_def rx_search_from_def split: option.split del: upt_Suc)
  then show ?thesis by (auto simp: find_None_all less_Suc_eq_le simp del: upt_Suc not_None_eq)
qed

end
