(* ===== verification/Policy_Gate.thy ===== *)
theory Policy_Gate
  imports Severity_Engine Policy_Engine Py_Regex
begin

text \<open>
  The autonomy gate (\<open>src/src/sre_agent/policy_gate.py\<close>): for one proposed action, may the agent
  run it alone, must a human approve it, or is it forbidden. \<open>decide\<close> keeps the source's order of
  checks; \<open>decide_plan\<close> aggregates a plan. The hard policy is the argument \<open>evaluate_fn\<close>, as in
  the source, and \<open>Policy_Engine.evaluate_action\<close> is its default. The result is an error only
  where Python raises: \<open>int()\<close> of an infinite replica count, or a probability that is an integer
  beyond the float range.

  Shown here: exactly which actions are autonomous, that a policy block is final and the only
  block, that scale-to-zero and production rollbacks are never autonomous, that a more critical
  severity never gains autonomy, and that a plan's decision is the most restrictive one.
\<close>

section \<open>Data\<close>

datatype autonomy_decision = AUTONOMOUS | REQUIRES_APPROVAL | BLOCKED

fun restrictiveness :: "autonomy_decision \<Rightarrow> nat" where
  "restrictiveness AUTONOMOUS = 0"
| "restrictiveness REQUIRES_APPROVAL = 1"
| "restrictiveness BLOCKED = 2"

text \<open>Decisions ordered by how restrictive they are.\<close>

instantiation autonomy_decision :: linorder
begin

definition less_eq_autonomy_decision :: "autonomy_decision \<Rightarrow> autonomy_decision \<Rightarrow> bool" where
  "less_eq_autonomy_decision a b = (restrictiveness a \<le> restrictiveness b)"

definition less_autonomy_decision :: "autonomy_decision \<Rightarrow> autonomy_decision \<Rightarrow> bool" where
  "less_autonomy_decision a b = (restrictiveness a < restrictiveness b)"

instance
proof
  fix x y z :: autonomy_decision
  show "(x < y) = (x \<le> y \<and> \<not> y \<le> x)" and "x \<le> x" and "x \<le> y \<or> y \<le> x"
    and "x \<le> y \<Longrightarrow> y \<le> z \<Longrightarrow> x \<le> z"
    by (auto simp: less_eq_autonomy_decision_def less_autonomy_decision_def)
  show "x \<le> y \<Longrightarrow> y \<le> x \<Longrightarrow> x = y"
    by (cases x; cases y) (auto simp: less_eq_autonomy_decision_def)
qed

end

fun decision_value :: "autonomy_decision \<Rightarrow> string" where
  "decision_value AUTONOMOUS = ''autonomous''"
| "decision_value REQUIRES_APPROVAL = ''requires_approval''"
| "decision_value BLOCKED = ''blocked''"

datatype reversibility = REVERSIBLE | RISKY | IRREVERSIBLE | READ_ONLY

definition base_reversibility :: "string \<Rightarrow> reversibility option" where
  "base_reversibility = map_of
     [(''restart'', REVERSIBLE), (''rollback'', REVERSIBLE), (''revert_commit'', REVERSIBLE),
      (''escalate'', REVERSIBLE), (''recreate_pod'', REVERSIBLE), (''scale'', RISKY),
      (''config_change'', RISKY), (''patch'', RISKY), (''inspect'', READ_ONLY)]"

definition read_only_action_types :: "string set" where
  "read_only_action_types = {''inspect''}"

datatype 'r gate_reason =
    BlockedByPolicy 'r
  | ReadOnlyMutatesNothing severity
  | NotifyOnlyEscalation severity
  | UnknownTelemetryNeedsApproval severity
  | UncalibratedConfidence severity
  | BelowMeasuredThreshold severity pyval pyval
  | ProductionRollbackNeedsApproval severity
  | IrreversibleNeedsApproval severity
  | RiskyWithRollbackPlan severity
  | RiskyWithoutRollbackPlan severity
  | RiskyHighSeverity severity
  | LowSeverityReversible severity
  | HighSeverityNeedsApproval severity

record 'r gate_decision =
  gd_decision :: autonomy_decision
  gd_severity :: severity
  gd_reversibility :: reversibility
  gd_allowed_by_policy :: bool
  gd_reason :: "'r gate_reason"
  gd_confidence_calibrated :: bool
  gd_calibrated_action_probability :: pyval
  gd_minimum_autonomy_probability :: pyval

section \<open>Reversibility\<close>

definition has_rollback_plan :: "remediation_action \<Rightarrow> bool" where
  "has_rollback_plan a = (case rollback_plan a of None \<Rightarrow> False | Some p \<Rightarrow> p \<noteq> [] \<and> strip p \<noteq> [])"

definition gate_replicas :: "remediation_action \<Rightarrow> (py_error, int option) res" where
  "gate_replicas a =
     (case params_dict a of
        None \<Rightarrow> Inr None
      | Some d \<Rightarrow>
          (let v = replicas_value d
           in if v = PNone then Inr None
              else (case py_int v of
                      Inr i \<Rightarrow> Inr (Some i)
                    | Inl TypeError \<Rightarrow> Inr None
                    | Inl ValueError \<Rightarrow> Inr None
                    | Inl e \<Rightarrow> Inl e)))"

definition classify_reversibility :: "remediation_action \<Rightarrow> (py_error, reversibility) res" where
  "classify_reversibility a =
     (let atype = lower (action_type a);
          base = (case base_reversibility atype of Some r \<Rightarrow> r | None \<Rightarrow> RISKY)
      in if atype = ''scale''
         then rbind (gate_replicas a) (\<lambda>n.
                if n = Some 0 then Inr IRREVERSIBLE
                else if base = RISKY \<and> has_rollback_plan a then Inr RISKY else Inr base)
         else if base = RISKY \<and> has_rollback_plan a then Inr RISKY
         else Inr base)"

section \<open>Fitness of a remedy\<close>

definition leak_pattern :: "string \<Rightarrow> rx" where
  "leak_pattern s =
     (let ws1 = many1 s is_space in
      alts [seqs [Bnd, lit_ci ''memory'', Cls (\<lambda>c. c = CHR ''-'' \<or> c = CHR '' ''), lit_ci ''leak''],
            seqs [Bnd, lit_ci ''leak'', opt_rx (alts [lit_ci ''s'', lit_ci ''ing'', lit_ci ''ed'']), ws1,
                  alts [lit_ci ''memory'', lit_ci ''heap'']],
            seqs [Bnd, lit_ci ''heap'', ws1, lit_ci ''leak''],
            seqs [Bnd, lit_ci ''unbounded'', ws1, alts [lit_ci ''memory'', lit_ci ''heap''], ws1,
                  lit_ci ''growth'']])"

definition diagnosed_memory_leak :: "string option list \<Rightarrow> bool" where
  "diagnosed_memory_leak diagnoses =
     (\<exists>t \<in> set diagnoses. let s = (case t of None \<Rightarrow> [] | Some s \<Rightarrow> s) in rx_search (leak_pattern s) s)"

definition not_clause_end :: "char \<Rightarrow> bool" where
  "not_clause_end c = (c \<noteq> CHR ''.'' \<and> c \<noteq> CHR '';'' \<and> c \<noteq> CHR 0x0A)"

definition outage_words :: rx where
  "outage_words = alts [lit_ci ''outage'', lit_ci ''failure'', lit_ci ''down'', lit_ci ''unavailable'',
     lit_ci ''unreachable'']"

definition provider_outage_words :: rx where
  "provider_outage_words = alts [lit_ci ''outage'', lit_ci ''down'', lit_ci ''unavailable'',
     lit_ci ''unreachable'']"

definition dependency_outage_pattern :: "string \<Rightarrow> rx" where
  "dependency_outage_pattern s =
     (let ws1 = many1 s is_space; ws = many s is_space in
      alts [seqs [Bnd, alts [lit_ci ''external'',
                             seqs [lit_ci ''third'', Cls (\<lambda>c. c = CHR ''-'' \<or> c = CHR '' ''), lit_ci ''party''],
                             seqs [lit_ci ''upstream'', ws1, opt_rx (seqs [lit_ci ''payment'', ws1]),
                                   lit_ci ''provider'']],
                  Bnd, Rep False 0 40 (Cls not_clause_end), Bnd, outage_words, Bnd],
            seqs [Bnd, lit_ci ''provider'', Bnd, Rep False 0 25 (Cls not_clause_end), Bnd,
                  provider_outage_words, Bnd],
            seqs [lit_ci ''provider_down'', Bnd],
            seqs [lit_ci ''provider_up'', Bnd, Rep False 0 20 (Cls not_clause_end),
                  alts [lit_ci ''='', lit_ci ''to'', lit_ci ''at''], ws, lit_ci ''0'', Bnd]])"

definition negation_pattern :: "string \<Rightarrow> rx" where
  "negation_pattern s =
     (let ws1 = many1 s is_space in
      seqs [Bnd,
            alts [lit_ci ''not'', lit_ci ''no'', seqs [lit_ci ''isn'', lit [CHR 0x27], lit_ci ''t''],
                  seqs [lit_ci ''wasn'', lit [CHR 0x27], lit_ci ''t''], lit_ci ''never'', lit_ci ''without'',
                  lit_ci ''unlikely'', seqs [lit_ci ''rather'', ws1, lit_ci ''than''],
                  seqs [lit_ci ''instead'', ws1, lit_ci ''of''],
                  seqs [lit_ci ''rule'', opt_rx (alts [lit_ci ''s'', lit_ci ''d'']), ws1, lit_ci ''out''],
                  seqs [lit_ci ''ruling'', ws1, lit_ci ''out'']],
            Bnd])"

definition slice :: "string \<Rightarrow> nat \<Rightarrow> nat \<Rightarrow> string" where
  "slice s i j = take (j - i) (drop i s)"

definition diagnosed_dependency_outage :: "string option list \<Rightarrow> bool" where
  "diagnosed_dependency_outage diagnoses =
     (\<exists>t \<in> set diagnoses. let s = (case t of None \<Rightarrow> [] | Some s \<Rightarrow> s) in
        \<exists>(i, e) \<in> set (rx_finditer (dependency_outage_pattern s) s 0).
          let window = slice s (i - 30) e in \<not> rx_search (negation_pattern window) window)"

datatype unfit_reason = ProviderOutageUnfixable | ScaleDoesNotFixLeak | LimitOnlyPostponesOom

definition unfit_remedy_reason :: "remediation_action \<Rightarrow> bool \<Rightarrow> bool \<Rightarrow> unfit_reason option" where
  "unfit_remedy_reason a memory_leak dependency_outage =
     (let atype = lower (action_type a)
      in if dependency_outage \<and> atype \<in> {''restart'', ''rollback'', ''revert_commit'', ''scale''}
         then Some ProviderOutageUnfixable
         else if \<not> memory_leak then None
         else if atype = ''scale'' then Some ScaleDoesNotFixLeak
         else if atype \<in> {''config_change'', ''patch''}
              \<and> (case params_dict a of Some d \<Rightarrow> truthy (py_dict_get d ''memory'' PNone) | None \<Rightarrow> False)
         then Some LimitOnlyPostponesOom
         else None)"

section \<open>The decision\<close>

text \<open>\<open>isinstance(p, (int, float)) and not isinstance(p, bool)\<close>.\<close>

definition is_number :: "pyval \<Rightarrow> bool" where
  "is_number v = (case v of PInt _ \<Rightarrow> True | PFloat _ \<Rightarrow> True | _ \<Rightarrow> False)"

text \<open>\<open>float(p)\<close> of a number: an integer beyond the float range overflows.\<close>

definition float_limit :: int where
  "float_limit = 2 ^ 1024"

definition num_float :: "pyval \<Rightarrow> (py_error, flt) res" where
  "num_float v =
     (case v of
        PInt i \<Rightarrow> (if float_limit \<le> \<bar>i\<bar> then Inl OverflowError else Inr (Fin (of_int i)))
      | PFloat x \<Rightarrow> Inr x
      | _ \<Rightarrow> Inl TypeError)"

definition confidence_valid :: "pyval \<Rightarrow> pyval \<Rightarrow> (py_error, bool) res" where
  "confidence_valid p m =
     (if is_number p \<and> is_number m
      then rbind (num_float p) (\<lambda>x. if \<not> is_fin x then Inr False
             else rbind (num_float m) (\<lambda>y. if \<not> is_fin y then Inr False
               else Inr (flt_le (Fin 0) x \<and> flt_le x (Fin 1) \<and> flt_le (Fin 0) y \<and> flt_le y (Fin 1))))
      else Inr False)"

text \<open>\<open>p < m\<close> on two numbers.\<close>

definition num_less :: "pyval \<Rightarrow> pyval \<Rightarrow> bool" where
  "num_less p m =
     (case (p, m) of
        (PInt i, PInt j) \<Rightarrow> i < j
      | (PInt i, PFloat y) \<Rightarrow> flt_less (Fin (of_int i)) y
      | (PFloat x, PInt j) \<Rightarrow> flt_less x (Fin (of_int j))
      | (PFloat x, PFloat y) \<Rightarrow> flt_less x y
      | _ \<Rightarrow> False)"

type_synonym 'r evaluator = "remediation_action \<Rightarrow> string \<Rightarrow> flt \<Rightarrow> bool \<times> 'r"

definition mk_gate :: "severity \<Rightarrow> reversibility \<Rightarrow> autonomy_decision \<Rightarrow> bool \<Rightarrow> 'r gate_reason
    \<Rightarrow> bool \<Rightarrow> pyval \<Rightarrow> pyval \<Rightarrow> 'r gate_decision" where
  "mk_gate sev rv d allowed why cal p m =
     \<lparr>gd_decision = d, gd_severity = sev, gd_reversibility = rv, gd_allowed_by_policy = allowed,
      gd_reason = why, gd_confidence_calibrated = cal, gd_calibrated_action_probability = p,
      gd_minimum_autonomy_probability = m\<rparr>"

text \<open>The last part of \<open>decide\<close>: reversibility floor and severity gate.\<close>

definition reversibility_floor :: "remediation_action \<Rightarrow> severity \<Rightarrow> bool \<Rightarrow> reversibility
    \<Rightarrow> autonomy_decision \<times> 'r gate_reason" where
  "reversibility_floor a sev low rv =
     (if rv = IRREVERSIBLE then (REQUIRES_APPROVAL, IrreversibleNeedsApproval sev)
      else if rv = RISKY then
        (if low \<and> has_rollback_plan a then (AUTONOMOUS, RiskyWithRollbackPlan sev)
         else (REQUIRES_APPROVAL,
               if \<not> has_rollback_plan a then RiskyWithoutRollbackPlan sev else RiskyHighSeverity sev))
      else if low then (AUTONOMOUS, LowSeverityReversible sev)
      else (REQUIRES_APPROVAL, HighSeverityNeedsApproval sev))"

definition decide :: "severity_config \<Rightarrow> 'r evaluator \<Rightarrow> remediation_action \<Rightarrow> severity \<Rightarrow> bool
    \<Rightarrow> string \<Rightarrow> flt \<Rightarrow> pyval \<Rightarrow> pyval \<Rightarrow> (py_error, 'r gate_decision) res" where
  "decide cfg evaluate_fn a sev unknown_tel environment risk_score p m =
     (let (allowed, why) = evaluate_fn a environment risk_score in
      rbind (classify_reversibility a) (\<lambda>rv.
      let atype = lower (action_type a) in
      if \<not> allowed
      then Inr (mk_gate sev rv BLOCKED False (BlockedByPolicy why) False PNone PNone)
      else if atype \<in> read_only_action_types
      then Inr (mk_gate sev rv AUTONOMOUS True (ReadOnlyMutatesNothing sev) False PNone PNone)
      else if atype = ''escalate''
      then Inr (mk_gate sev rv AUTONOMOUS True (NotifyOnlyEscalation sev) False PNone PNone)
      else if sev = UNKNOWN \<or> unknown_tel
      then Inr (mk_gate sev rv REQUIRES_APPROVAL True (UnknownTelemetryNeedsApproval sev) False PNone PNone)
      else
        rbind (confidence_valid p m) (\<lambda>valid.
        if atype \<noteq> ''escalate'' \<and> (\<not> valid \<or> num_less p m)
        then Inr (mk_gate sev rv REQUIRES_APPROVAL True
                   (if \<not> valid then UncalibratedConfidence sev else BelowMeasuredThreshold sev p m)
                   valid p m)
        else if atype = ''rollback'' \<and> lower environment = ''production''
        then Inr (mk_gate sev rv REQUIRES_APPROVAL True (ProductionRollbackNeedsApproval sev) valid p m)
        else (let (d, r) = reversibility_floor a sev (is_low_severity cfg sev) rv
              in Inr (mk_gate sev rv d True r valid p m)))))"

fun decide_each :: "(remediation_action \<Rightarrow> (py_error, 'r gate_decision) res) \<Rightarrow> remediation_action list
    \<Rightarrow> (py_error, 'r gate_decision list) res" where
  "decide_each f [] = Inr []"
| "decide_each f (a # as) = rbind (f a) (\<lambda>d. rbind (decide_each f as) (\<lambda>ds. Inr (d # ds)))"

definition aggregate_decision :: "'r gate_decision list \<Rightarrow> autonomy_decision" where
  "aggregate_decision ds =
     (if \<exists>d \<in> set ds. gd_decision d = BLOCKED then BLOCKED
      else if (\<forall>d \<in> set ds. gd_decision d = AUTONOMOUS) \<and> ds \<noteq> [] then AUTONOMOUS
      else REQUIRES_APPROVAL)"

definition decide_plan :: "severity_config \<Rightarrow> 'r evaluator \<Rightarrow> remediation_action list \<Rightarrow> severity \<Rightarrow> bool
    \<Rightarrow> string \<Rightarrow> flt \<Rightarrow> pyval \<Rightarrow> pyval \<Rightarrow> (py_error, autonomy_decision \<times> 'r gate_decision list) res" where
  "decide_plan cfg evaluate_fn actions sev unknown_tel environment risk_score p m =
     rbind (decide_each (\<lambda>a. decide cfg evaluate_fn a sev unknown_tel environment risk_score p m) actions)
       (\<lambda>per_action. Inr (aggregate_decision per_action, per_action))"

section \<open>Specification vocabulary and sample actions\<close>

text \<open>The rational that a finite number denotes.\<close>

definition num_value :: "pyval \<Rightarrow> rat option" where
  "num_value v = (case v of PInt i \<Rightarrow> Some (of_int i) | PFloat (Fin x) \<Rightarrow> Some x | _ \<Rightarrow> None)"

text \<open>Measured confidence: both numbers in the unit interval and the probability at or above the
  threshold.\<close>

definition confident :: "pyval \<Rightarrow> pyval \<Rightarrow> bool" where
  "confident p m = (case (num_value p, num_value m) of
      (Some x, Some y) \<Rightarrow> 0 \<le> y \<and> y \<le> x \<and> x \<le> 1 | _ \<Rightarrow> False)"

text \<open>The action types that the table lists as reversible, and a scale to zero as the gate
  reads it.\<close>

definition reversible_types :: "string set" where
  "reversible_types = {''restart'', ''rollback'', ''revert_commit'', ''escalate'', ''recreate_pod''}"

definition scales_to_zero :: "remediation_action \<Rightarrow> bool" where
  "scales_to_zero a = (lower (action_type a) = ''scale'' \<and> gate_replicas a = Inr (Some 0))"

text \<open>What autonomy needs for an action that changes something.\<close>

definition mutation_autonomous :: "severity_config \<Rightarrow> remediation_action \<Rightarrow> severity \<Rightarrow> bool \<Rightarrow> string
    \<Rightarrow> pyval \<Rightarrow> pyval \<Rightarrow> bool" where
  "mutation_autonomous cfg a sev unknown_tel environment p m =
     (sev \<noteq> UNKNOWN \<and> \<not> unknown_tel \<and> confident p m \<and> is_low_severity cfg sev
      \<and> \<not> (lower (action_type a) = ''rollback'' \<and> lower environment = ''production'')
      \<and> (lower (action_type a) \<in> reversible_types \<or> has_rollback_plan a \<and> \<not> scales_to_zero a))"

definition restart_checkout :: remediation_action where
  "restart_checkout = \<lparr>action_type = ''Restart'', target = ''checkout'', parameters = PDict [],
     safety_check = '''', rollback_plan = None\<rparr>"

definition scale_zero_string :: remediation_action where
  "scale_zero_string = \<lparr>action_type = ''scale'', target = ''checkout'',
     parameters = PDict [(''replicas'', PStr ''0'')], safety_check = '''', rollback_plan = Some ''scale back''\<rparr>"

section \<open>Lemmas\<close>

lemma num_value_Some:
  "num_value v = Some x \<longleftrightarrow> (\<exists>i. v = PInt i \<and> x = of_int i) \<or> v = PFloat (Fin x)"
  by (auto simp: num_value_def split: pyval.splits flt.splits)

lemma float_limit_pos: "1 < float_limit"
  by (simp add: float_limit_def)

lemma unit_num_float:
  assumes "num_value v = Some x" "0 \<le> x" "x \<le> 1"
  shows "num_float v = Inr (Fin x)" "is_number v"
  using assms float_limit_pos by (auto simp: num_value_Some num_float_def is_number_def)

lemma num_float_value: "num_float v = Inr (Fin x) \<Longrightarrow> num_value v = Some x"
  by (auto simp: num_float_def num_value_def split: pyval.splits if_splits)

lemma confidence_valid_iff:
  "confidence_valid p m = Inr True \<longleftrightarrow>
     (\<exists>x y. num_value p = Some x \<and> num_value m = Some y \<and> 0 \<le> x \<and> x \<le> 1 \<and> 0 \<le> y \<and> y \<le> 1)"
  (is "?l \<longleftrightarrow> ?r")
proof
  assume ?l
  then obtain x y where "num_float p = Inr (Fin x)" "num_float m = Inr (Fin y)"
    "0 \<le> x" "x \<le> 1" "0 \<le> y" "y \<le> 1"
    by (auto simp: confidence_valid_def rbind_eq_Inr elim!: is_fin.elims split: if_splits)
  then show ?r using num_float_value by blast
next
  assume ?r
  then obtain x y where xy: "num_value p = Some x" "num_value m = Some y"
    "0 \<le> x" "x \<le> 1" "0 \<le> y" "y \<le> 1" by blast
  then show ?l using unit_num_float [of p x] unit_num_float [of m y] by (simp add: confidence_valid_def)
qed

lemma num_less_value: "num_value p = Some x \<Longrightarrow> num_value m = Some y \<Longrightarrow> num_less p m \<longleftrightarrow> x < y"
  by (auto simp: num_value_Some num_less_def)

lemma confident_iff: "confident p m \<longleftrightarrow> confidence_valid p m = Inr True \<and> \<not> num_less p m"
  by (auto simp: confident_def confidence_valid_iff num_less_value split: option.splits)

lemma base_reversibility_reversible:
  "base_reversibility t = Some REVERSIBLE \<longleftrightarrow> t \<in> reversible_types"
  by (simp add: base_reversibility_def reversible_types_def)

lemma base_reversibility_read_only: "base_reversibility t = Some READ_ONLY \<longleftrightarrow> t = ''inspect''"
  by (simp add: base_reversibility_def)

lemma base_reversibility_irreversible: "base_reversibility t \<noteq> Some IRREVERSIBLE"
  by (simp add: base_reversibility_def)

lemma base_reversibility_scale: "base_reversibility ''scale'' = Some RISKY"
  by (simp add: base_reversibility_def)

lemma classify_reversibility_cases:
  assumes "classify_reversibility a = Inr rv"
  shows "rv = REVERSIBLE \<longleftrightarrow> lower (action_type a) \<in> reversible_types"
    and "rv = READ_ONLY \<longleftrightarrow> lower (action_type a) = ''inspect''"
    and "rv = IRREVERSIBLE \<longleftrightarrow> scales_to_zero a"
proof -
  let ?t = "lower (action_type a)"
  have cases: "?t = ''scale'' \<and> rv = (if gate_replicas a = Inr (Some 0) then IRREVERSIBLE else RISKY)
     \<or> ?t \<noteq> ''scale'' \<and> rv = (case base_reversibility ?t of Some r \<Rightarrow> r | None \<Rightarrow> RISKY)"
    using assms by (auto simp: classify_reversibility_def Let_def rbind_eq_Inr base_reversibility_scale
        split: if_splits)
  then show "rv = READ_ONLY \<longleftrightarrow> ?t = ''inspect''"
    using base_reversibility_read_only [of ?t]
    by (auto split: option.splits if_splits)
  from cases show "rv = REVERSIBLE \<longleftrightarrow> ?t \<in> reversible_types"
    using base_reversibility_reversible [of ?t]
    by (auto simp: reversible_types_def split: option.splits if_splits)
  from cases show "rv = IRREVERSIBLE \<longleftrightarrow> scales_to_zero a"
    using base_reversibility_irreversible [of ?t]
    by (auto simp: scales_to_zero_def split: option.splits if_splits)
qed

lemma gd_decision_mk_gate [simp]: "gd_decision (mk_gate sev rv d al why cal p m) = d"
  by (simp add: mk_gate_def)

lemma mk_gate_floor:
  "(case x of (d, r) \<Rightarrow> Inr (mk_gate sev rv d True r valid p m)) = Inr g \<Longrightarrow> gd_decision g = fst x"
  by (cases x) auto

lemma reversibility_floor_autonomous:
  assumes "classify_reversibility a = Inr rv" "lower (action_type a) \<noteq> ''inspect''"
  shows "fst (reversibility_floor a sev low rv) =
     (if low \<and> (lower (action_type a) \<in> reversible_types \<or> has_rollback_plan a \<and> \<not> scales_to_zero a)
      then AUTONOMOUS else REQUIRES_APPROVAL)"
  using classify_reversibility_cases [OF assms(1)] assms(2)
  by (cases rv) (auto simp: reversibility_floor_def scales_to_zero_def reversible_types_def)

text \<open>The three outcomes of a decision that returns, in terms of the specification.\<close>

lemma decide_outcome:
  assumes "decide cfg ev a sev unk env rs p m = Inr g"
  shows "gd_decision g =
    (if \<not> fst (ev a env rs) then BLOCKED
     else if lower (action_type a) \<in> {''inspect'', ''escalate''} \<or> mutation_autonomous cfg a sev unk env p m
     then AUTONOMOUS else REQUIRES_APPROVAL)"
proof -
  obtain allowed why where ev: "ev a env rs = (allowed, why)" by (cases "ev a env rs")
  from assms ev obtain rv where rv: "classify_reversibility a = Inr rv"
    by (auto simp: decide_def rbind_eq_Inr)
  show ?thesis
  proof (cases "allowed \<and> lower (action_type a) \<notin> {''inspect'', ''escalate''} \<and> sev \<noteq> UNKNOWN \<and> \<not> unk")
    case False
    then show ?thesis using assms ev rv
      by (auto simp: decide_def Let_def read_only_action_types_def mutation_autonomous_def)
  next
    case True
    then obtain valid where valid: "confidence_valid p m = Inr valid"
      using assms ev rv by (auto simp: decide_def Let_def read_only_action_types_def rbind_eq_Inr)
    have floor: "gd_decision g = (if is_low_severity cfg sev \<and> (lower (action_type a) \<in> reversible_types
         \<or> has_rollback_plan a \<and> \<not> scales_to_zero a) then AUTONOMOUS else REQUIRES_APPROVAL)"
      if "(case reversibility_floor a sev (is_low_severity cfg sev) rv of
            (d, r) \<Rightarrow> Inr (mk_gate sev rv d True r valid p m)) = (Inr g :: (py_error, _) res)"
      using mk_gate_floor [OF that] True by (simp add: reversibility_floor_autonomous [OF rv])
    show ?thesis
    proof (cases "confident p m \<and> \<not> (lower (action_type a) = ''rollback'' \<and> lower env = ''production'')")
      case False
      then show ?thesis using assms ev rv True valid
        by (auto simp: decide_def Let_def read_only_action_types_def mutation_autonomous_def confident_iff
            split: if_splits)
    next
      case ok: True
      then have "(case reversibility_floor a sev (is_low_severity cfg sev) rv of
            (d, r) \<Rightarrow> Inr (mk_gate sev rv d True r valid p m)) = (Inr g :: (py_error, _) res)"
        using assms ev rv True valid
        by (auto simp: decide_def Let_def read_only_action_types_def confident_iff split: if_splits)
      from floor [OF this] ok True ev show ?thesis by (auto simp: mutation_autonomous_def)
    qed
  qed
qed

lemma decide_each_list_all2:
  "decide_each f as = Inr ds \<longleftrightarrow> list_all2 (\<lambda>a d. f a = Inr d) as ds"
  by (induction as arbitrary: ds) (auto simp: rbind_eq_Inr list_all2_Cons1)

lemma autonomy_le_simps [simp]:
  "AUTONOMOUS \<le> d" "d \<le> BLOCKED" "d \<le> AUTONOMOUS \<longleftrightarrow> d = AUTONOMOUS"
  "REQUIRES_APPROVAL \<le> d \<longleftrightarrow> d \<noteq> AUTONOMOUS" "d \<le> REQUIRES_APPROVAL \<longleftrightarrow> d \<noteq> BLOCKED"
  by (cases d; simp add: less_eq_autonomy_decision_def)+

lemma aggregate_decision_Max:
  assumes "ds \<noteq> []"
  shows "aggregate_decision ds = Max (gd_decision ` set ds)"
proof (rule Max_eqI [symmetric])
  show "d \<le> aggregate_decision ds" if "d \<in> gd_decision ` set ds" for d
  proof -
    from that obtain e where "e \<in> set ds" "d = gd_decision e" by blast
    then show ?thesis by (cases "gd_decision e") (auto simp: aggregate_decision_def intro!: bexI [of _ e])
  qed
  obtain d where d: "d \<in> set ds" using assms by (cases ds) auto
  show "aggregate_decision ds \<in> gd_decision ` set ds"
  proof (cases "(\<exists>d \<in> set ds. gd_decision d = BLOCKED) \<or> (\<forall>d \<in> set ds. gd_decision d = AUTONOMOUS)")
    case True
    then show ?thesis using d by (force simp: aggregate_decision_def)
  next
    case False
    then obtain e where e: "e \<in> set ds" "gd_decision e \<noteq> AUTONOMOUS" by blast
    with False have "gd_decision e = REQUIRES_APPROVAL" by (cases "gd_decision e") auto
    moreover have "aggregate_decision ds = REQUIRES_APPROVAL" using False by (auto simp: aggregate_decision_def)
    ultimately show ?thesis using e(1) by (metis imageI)
  qed
qed simp

lemma is_low_severity_mono:
  "is_low_severity cfg s \<Longrightarrow> s \<le> s' \<Longrightarrow> is_low_severity cfg s'"
  by (cases s; cases s') (auto simp: is_low_severity_def less_eq_severity_def)

lemma gate_replicas_zero:
  assumes "parameters a = PDict d" "py_int (replicas_value d) = Inr 0"
  shows "gate_replicas a = Inr (Some 0)"
  using assms by (cases "replicas_value d") (auto simp: gate_replicas_def params_dict_PDict Let_def)

section \<open>Properties\<close>

text \<open>C36. A decision that returns is \<open>BLOCKED\<close> exactly when the hard policy refuses the action, and
  otherwise \<open>AUTONOMOUS\<close> exactly when the action mutates nothing (inspect, escalate) or everything
  that autonomy needs is present: known severity and complete telemetry, a calibrated probability
  in the unit interval at or above the measured threshold, low severity, not a production
  rollback, and an action that is reversible or carries a rollback plan without scaling to zero.
  In every other case a human must approve.\<close>

theorem decide_spec:
  assumes "decide cfg ev a sev unk env rs p m = Inr g"
  shows "(gd_decision g = BLOCKED \<longleftrightarrow> \<not> fst (ev a env rs)) \<and>
    (gd_decision g = AUTONOMOUS \<longleftrightarrow>
      fst (ev a env rs) \<and>
      (lower (action_type a) \<in> {''inspect'', ''escalate''} \<or>
       (sev \<noteq> UNKNOWN \<and> \<not> unk \<and> confident p m \<and> is_low_severity cfg sev
        \<and> \<not> (lower (action_type a) = ''rollback'' \<and> lower env = ''production'')
        \<and> (lower (action_type a) \<in> reversible_types \<or> has_rollback_plan a \<and> \<not> scales_to_zero a))))"
  using decide_outcome [OF assms] by (auto simp: mutation_autonomous_def)

theorem decide_spec_witness:
  "\<exists>g. decide default_severity_config evaluate_action restart_checkout SEV3 False ''production'' (Fin 0)
        (PFloat (Fin (9/10))) (PFloat (Fin (8/10))) = Inr g \<and> gd_decision g = AUTONOMOUS"
proof -
  let ?d = "decide default_severity_config evaluate_action restart_checkout SEV3 False ''production'' (Fin 0)
        (PFloat (Fin (9/10))) (PFloat (Fin (8/10)))"
  have low: "lower ''Restart'' = ''restart''" by code_simp
  have ok: "is_ok ?d" by code_simp
  then obtain g where g: "?d = Inr g" by (auto simp: is_ok_iff)
  have "fst (evaluate_action restart_checkout ''production'' (Fin 0))" by code_simp
  moreover have "confident (PFloat (Fin (9/10))) (PFloat (Fin (8/10)))"
    by (simp add: confident_def num_value_def)
  moreover have "is_low_severity default_severity_config SEV3" by code_simp
  moreover have "lower (action_type restart_checkout) = ''restart''" by (simp add: restart_checkout_def low)
  ultimately have "gd_decision g = AUTONOMOUS"
    using decide_spec [OF g] by (simp add: reversible_types_def)
  with g show ?thesis by blast
qed

text \<open>Making an incident more critical never gains autonomy: with everything else equal, the
  decision at a severity that is at least as critical is at least as restrictive.\<close>

theorem decide_severity_antimono:
  assumes "decide cfg ev a sev unk env rs p m = Inr g" "decide cfg ev a sev' unk env rs p m = Inr g'"
    and "sev \<le> sev'"
  shows "gd_decision g' \<le> gd_decision g"
proof -
  have "mutation_autonomous cfg a sev unk env p m \<Longrightarrow> mutation_autonomous cfg a sev' unk env p m"
    using is_low_severity_mono [OF _ assms(3)]
    by (auto simp: mutation_autonomous_def is_low_severity_def)
  then show ?thesis using decide_outcome [OF assms(1)] decide_outcome [OF assms(2)] by auto
qed

theorem decide_severity_antimono_witness:
  "\<exists>g g'. decide default_severity_config evaluate_action restart_checkout SEV1 False ''staging'' (Fin 0)
        (PFloat (Fin 1)) (PFloat (Fin 0)) = Inr g
    \<and> decide default_severity_config evaluate_action restart_checkout SEV4 False ''staging'' (Fin 0)
        (PFloat (Fin 1)) (PFloat (Fin 0)) = Inr g' \<and> gd_decision g' \<le> gd_decision g"
proof -
  let ?d = "\<lambda>s. decide default_severity_config evaluate_action restart_checkout s False ''staging'' (Fin 0)
        (PFloat (Fin 1)) (PFloat (Fin 0))"
  have "is_ok (?d SEV1)" "is_ok (?d SEV4)" by code_simp+
  then obtain g g' where g: "?d SEV1 = Inr g" "?d SEV4 = Inr g'" by (auto simp: is_ok_iff)
  have "SEV1 \<le> SEV4" by (simp add: less_eq_severity_def)
  from decide_severity_antimono [OF g this] g show ?thesis by blast
qed

text \<open>Scaling to zero never runs unattended, in any environment and whatever the severity,
  confidence and rollback plan: whenever \<open>int()\<close> of the replica parameter is zero (the number,
  the string "0", a false) the decision is approval or a block.\<close>

theorem scale_to_zero_never_autonomous:
  assumes "decide cfg ev a sev unk env rs p m = Inr g"
    and "lower (action_type a) = ''scale''" "parameters a = PDict d" "py_int (replicas_value d) = Inr 0"
  shows "gd_decision g \<noteq> AUTONOMOUS"
  using decide_outcome [OF assms(1)] assms(2) gate_replicas_zero [OF assms(3,4)]
  by (auto simp: mutation_autonomous_def scales_to_zero_def reversible_types_def)

theorem scale_to_zero_never_autonomous_witness:
  "\<exists>g. decide default_severity_config evaluate_action scale_zero_string SEV4 False ''production'' (Fin 0)
        (PFloat (Fin 1)) (PFloat (Fin 0)) = Inr g \<and> gd_decision g \<noteq> AUTONOMOUS"
proof -
  let ?d = "decide default_severity_config evaluate_action scale_zero_string SEV4 False ''production'' (Fin 0)
        (PFloat (Fin 1)) (PFloat (Fin 0))"
  have "is_ok ?d" by code_simp
  then obtain g where g: "?d = Inr g" by (auto simp: is_ok_iff)
  have a: "lower (action_type scale_zero_string) = ''scale''"
    "parameters scale_zero_string = PDict [(''replicas'', PStr ''0'')]"
    by (simp_all add: scale_zero_string_def)
  have "py_int (replicas_value [(''replicas'', PStr ''0'')]) = Inr 0" by code_simp
  from scale_to_zero_never_autonomous [OF g a this] g show ?thesis by blast
qed

text \<open>The decision for a whole plan is the most restrictive of the decisions for its actions,
  in order, and a plan with no action needs approval: a plan is autonomous only if it is not empty
  and every action is.\<close>

theorem decide_plan_most_restrictive:
  assumes "decide_plan cfg ev as sev unk env rs p m = Inr (d, ds)"
  shows "list_all2 (\<lambda>a g. decide cfg ev a sev unk env rs p m = Inr g) as ds
    \<and> d = (if as = [] then REQUIRES_APPROVAL else Max (gd_decision ` set ds))"
proof -
  have each: "list_all2 (\<lambda>a g. decide cfg ev a sev unk env rs p m = Inr g) as ds"
    and d: "d = aggregate_decision ds"
    using assms by (auto simp: decide_plan_def rbind_eq_Inr decide_each_list_all2)
  have "ds = [] \<longleftrightarrow> as = []" using list_all2_lengthD [OF each] by auto
  then show ?thesis using each d aggregate_decision_Max [of ds] by (auto simp: aggregate_decision_def)
qed

theorem decide_plan_most_restrictive_witness:
  "\<exists>d ds. decide_plan default_severity_config evaluate_action [restart_checkout, scale_zero_string] SEV4 False
        ''production'' (Fin 0) (PFloat (Fin 1)) (PFloat (Fin 0)) = Inr (d, ds)
     \<and> d = Max (gd_decision ` set ds)"
proof -
  let ?p = "decide_plan default_severity_config evaluate_action [restart_checkout, scale_zero_string] SEV4 False
        ''production'' (Fin 0) (PFloat (Fin 1)) (PFloat (Fin 0))"
  have "is_ok ?p" by code_simp
  then obtain d ds where p: "?p = Inr (d, ds)" by (auto simp: is_ok_iff)
  from decide_plan_most_restrictive [OF p] p show ?thesis by auto
qed

end
