(* ===== verification/Py_Json.thy ===== *)
theory Py_Json
  imports Sentinel_Prelude
begin

text \<open>
  \<open>json.loads\<close> on strings, as the executor uses it to unwrap tool responses. A syntax error,
  trailing data and an integer literal beyond Python's digit limit are \<open>None\<close> (a \<open>ValueError\<close> in
  Python). Objects keep the first position and the last value of a repeated key. An escape for a
  character that does not fit the model's 8-bit characters decodes to a question mark; numbers
  are exact rationals.

  \<open>float\<close> of a string is here too, because it shares the reading of digits.

  The parser takes fuel; every call below the top consumes a character first, so the length of
  the text is enough. The main fact is that a decoded value is no larger than the text it was
  read from (\<open>json_loads_size\<close>), on which the termination of \<open>_structured_payload\<close> rests.
\<close>

section \<open>Lexical parts\<close>

definition json_ws :: "char \<Rightarrow> bool" where
  "json_ws c = (c \<in> {CHR '' '', CHR 0x09, CHR 0x0A, CHR 0x0D})"

definition skip_ws :: "string \<Rightarrow> string" where
  "skip_ws s = dropWhile json_ws s"

definition hex_val :: "char \<Rightarrow> nat option" where
  "hex_val c = (let n = (of_char c :: nat) in
     if 48 \<le> n \<and> n \<le> 57 then Some (n - 48)
     else if 97 \<le> n \<and> n \<le> 102 then Some (n - 87)
     else if 65 \<le> n \<and> n \<le> 70 then Some (n - 55)
     else None)"

definition hex4 :: "string \<Rightarrow> nat option" where
  "hex4 s = (case s of
      [a, b, c, d] \<Rightarrow> (case (hex_val a, hex_val b, hex_val c, hex_val d) of
          (Some w, Some x, Some y, Some z) \<Rightarrow> Some (((w * 16 + x) * 16 + y) * 16 + z)
        | _ \<Rightarrow> None)
    | _ \<Rightarrow> None)"

definition json_escape :: "char \<Rightarrow> char option" where
  "json_escape c = map_of
     [(CHR 0x22, CHR 0x22), (CHR 0x5C, CHR 0x5C), (CHR ''/'', CHR ''/''), (CHR ''b'', CHR 0x08),
      (CHR ''f'', CHR 0x0C), (CHR ''n'', CHR 0x0A), (CHR ''r'', CHR 0x0D), (CHR ''t'', CHR 0x09)] c"

text \<open>The characters of a string literal after the opening quote, up to the closing one. A control
  character inside the literal is a syntax error.\<close>

fun json_chars :: "nat \<Rightarrow> string \<Rightarrow> (string \<times> string) option" where
  "json_chars 0 s = None"
| "json_chars (Suc n) [] = None"
| "json_chars (Suc n) (c # s) =
     (if c = CHR 0x22 then Some ([], s)
      else if (of_char c :: nat) < 32 then None
      else if c = CHR 0x5C then
        (case s of
           [] \<Rightarrow> None
         | e # t \<Rightarrow>
             (if e = CHR ''u'' then
                (case hex4 (take 4 t) of
                   None \<Rightarrow> None
                 | Some k \<Rightarrow> map_option (\<lambda>(cs, r). ((if k < 256 then char_of k else CHR ''?'') # cs, r))
                              (json_chars n (drop 4 t)))
              else (case json_escape e of
                      None \<Rightarrow> None
                    | Some x \<Rightarrow> map_option (\<lambda>(cs, r). (x # cs, r)) (json_chars n t))))
      else map_option (\<lambda>(cs, r). (c # cs, r)) (json_chars n s))"

text \<open>Numbers: an optional minus, an integer part without a leading zero, and optional fraction and
  exponent; without these two the value is an integer. The fraction and the exponent are taken only
  when they are complete, as Python's pattern does.\<close>

definition max_int_digits :: nat where
  "max_int_digits = 4300"

definition json_int_part :: "string \<Rightarrow> (string \<times> string) option" where
  "json_int_part s =
     (case s of
        [] \<Rightarrow> None
      | c # t \<Rightarrow> (if c = CHR ''0'' then Some ([c], t)
                 else if is_digit c then Some (takeWhile is_digit s, dropWhile is_digit s)
                 else None))"

definition json_frac_part :: "string \<Rightarrow> string \<times> string" where
  "json_frac_part s =
     (case s of
        c # t \<Rightarrow> (if c = CHR ''.'' \<and> takeWhile is_digit t \<noteq> []
                 then (takeWhile is_digit t, dropWhile is_digit t) else ([], s))
      | [] \<Rightarrow> ([], []))"

definition json_exp_part :: "string \<Rightarrow> int option \<times> string" where
  "json_exp_part s =
     (case s of
        c # t \<Rightarrow>
          (if c = CHR ''e'' \<or> c = CHR ''E'' then
             (let neg = (t \<noteq> [] \<and> hd t = CHR ''-'');
                  u = (if t \<noteq> [] \<and> (hd t = CHR ''-'' \<or> hd t = CHR ''+'') then tl t else t);
                  ds = takeWhile is_digit u
              in if ds = [] then (None, s)
                 else (Some (if neg then - digits_val ds else digits_val ds), dropWhile is_digit u))
           else (None, s))
      | [] \<Rightarrow> (None, []))"

definition pow10 :: "int \<Rightarrow> rat" where
  "pow10 e = (if 0 \<le> e then 10 ^ nat e else 1 / 10 ^ nat (- e))"

definition json_number :: "string \<Rightarrow> (pyval \<times> string) option" where
  "json_number s0 =
     (let neg = (s0 \<noteq> [] \<and> hd s0 = CHR ''-''); s = (if neg then tl s0 else s0) in
      case json_int_part s of
        None \<Rightarrow> None
      | Some (ip, s1) \<Rightarrow>
          (let (fp, s2) = json_frac_part s1; (ep, s3) = json_exp_part s2 in
           if fp = [] \<and> ep = None
           then (if max_int_digits < length ip then None
                 else Some (PInt (if neg then - digits_val ip else digits_val ip), s3))
           else (let m = rat_of_int (digits_val (ip @ fp)) * pow10 (- int (length fp))
                           * pow10 (case ep of None \<Rightarrow> 0 | Some e \<Rightarrow> e)
                 in Some (PFloat (Fin (if neg then - m else m)), s3))))"

definition json_literals :: "(string \<times> pyval) list" where
  "json_literals = [(''null'', PNone), (''true'', PBool True), (''false'', PBool False),
     (''NaN'', PFloat NaN), (''Infinity'', PFloat PosInf), (''-Infinity'', PFloat NegInf)]"

definition json_literal :: "string \<Rightarrow> (pyval \<times> string) option" where
  "json_literal s = (case List.find (\<lambda>(k, v). take (length k) s = k) json_literals of
     None \<Rightarrow> None | Some (k, v) \<Rightarrow> Some (v, drop (length k) s))"

section \<open>Values\<close>

fun json_value :: "nat \<Rightarrow> string \<Rightarrow> (pyval \<times> string) option"
and json_array :: "nat \<Rightarrow> string \<Rightarrow> (pyval list \<times> string) option"
and json_object :: "nat \<Rightarrow> string \<Rightarrow> (pydict \<times> string) option" where
  "json_value 0 s = None"
| "json_value (Suc n) [] = None"
| "json_value (Suc n) (c # s) =
     (if c = CHR 0x22 then map_option (\<lambda>(t, r). (PStr t, r)) (json_chars (length s) s)
      else if c = CHR ''['' then
        (case skip_ws s of
           [] \<Rightarrow> None
         | d # t \<Rightarrow> (if d = CHR '']'' then Some (PList [], t)
                    else map_option (\<lambda>(xs, r). (PList xs, r)) (json_array n (d # t))))
      else if c = CHR ''{'' then
        (case skip_ws s of
           [] \<Rightarrow> None
         | d # t \<Rightarrow> (if d = CHR ''}'' then Some (PDict [], t)
                    else map_option (\<lambda>(es, r). (PDict (foldl (\<lambda>m (k, v). py_dict_set m k v) [] es), r))
                           (json_object n (d # t))))
      else (case json_literal (c # s) of
              Some x \<Rightarrow> Some x
            | None \<Rightarrow> json_number (c # s)))"
| "json_array 0 s = None"
| "json_array (Suc n) s =
     (case json_value n s of
        None \<Rightarrow> None
      | Some (v, r) \<Rightarrow>
          (case skip_ws r of
             [] \<Rightarrow> None
           | d # t \<Rightarrow> (if d = CHR '']'' then Some ([v], t)
                      else if d = CHR '','' then map_option (\<lambda>(xs, q). (v # xs, q)) (json_array n (skip_ws t))
                      else None)))"
| "json_object 0 s = None"
| "json_object (Suc n) [] = None"
| "json_object (Suc n) (c # s) =
     (if c \<noteq> CHR 0x22 then None
      else (case json_chars (length s) s of
        None \<Rightarrow> None
      | Some (k, r) \<Rightarrow>
          (case skip_ws r of
             [] \<Rightarrow> None
           | d # t \<Rightarrow>
               (if d \<noteq> CHR '':'' then None
                else (case json_value n (skip_ws t) of
                  None \<Rightarrow> None
                | Some (v, q) \<Rightarrow>
                    (case skip_ws q of
                       [] \<Rightarrow> None
                     | e # u \<Rightarrow> (if e = CHR ''}'' then Some ([(k, v)], u)
                                else if e = CHR '',''
                                then map_option (\<lambda>(es, w). ((k, v) # es, w)) (json_object n (skip_ws u))
                                else None)))))))"

definition json_loads :: "string \<Rightarrow> pyval option" where
  "json_loads s =
     (case json_value (Suc (2 * length s)) (skip_ws s) of
        None \<Rightarrow> None
      | Some (v, r) \<Rightarrow> (if skip_ws r = [] then Some v else None))"

section \<open>float() of a string\<close>

definition digit_or_underscore :: "char \<Rightarrow> bool" where
  "digit_or_underscore c = (is_digit c \<or> c = CHR ''_'')"

definition digit_run_ok :: "string \<Rightarrow> bool" where
  "digit_run_ok s = (s = [] \<or> digits_ok False s)"

definition float_exponent :: "string \<Rightarrow> int option" where
  "float_exponent s =
     (case s of
        [] \<Rightarrow> Some 0
      | c # t \<Rightarrow>
          (if c = CHR ''e'' then
             (let neg = (t \<noteq> [] \<and> hd t = CHR ''-'');
                  u = (if t \<noteq> [] \<and> (hd t = CHR ''-'' \<or> hd t = CHR ''+'') then tl t else t)
              in if digits_ok False u then Some (if neg then - digits_val u else digits_val u) else None)
           else None))"

definition float_of_string :: "string \<Rightarrow> flt option" where
  "float_of_string s0 =
     (let s = lower (strip s0);
          neg = (s \<noteq> [] \<and> hd s = CHR ''-'');
          b = (if s \<noteq> [] \<and> (hd s = CHR ''-'' \<or> hd s = CHR ''+'') then tl s else s)
      in if b \<in> {''inf'', ''infinity''} then Some (if neg then NegInf else PosInf)
         else if b = ''nan'' then Some NaN
         else
           (let ip = takeWhile digit_or_underscore b; r1 = dropWhile digit_or_underscore b;
                dot = (r1 \<noteq> [] \<and> hd r1 = CHR ''.'');
                fp = (if dot then takeWhile digit_or_underscore (tl r1) else []);
                r2 = (if dot then dropWhile digit_or_underscore (tl r1) else r1)
            in if ip = [] \<and> fp = [] \<or> \<not> digit_run_ok ip \<or> \<not> digit_run_ok fp then None
               else (case float_exponent r2 of
                       None \<Rightarrow> None
                     | Some e \<Rightarrow>
                         (let m = rat_of_int (digits_val (ip @ fp))
                                    * pow10 (e - int (length (filter is_digit fp)))
                          in Some (Fin (if neg then - m else m))))))"

section \<open>Size of a decoded value\<close>

fun psize :: "pyval \<Rightarrow> nat"
and psize_list :: "pyval list \<Rightarrow> nat"
and psize_dict :: "(string \<times> pyval) list \<Rightarrow> nat" where
  "psize (PStr s) = Suc (length s)"
| "psize (PList xs) = Suc (psize_list xs)"
| "psize (PDict d) = Suc (psize_dict d)"
| "psize v = 1"
| "psize_list [] = 0"
| "psize_list (x # xs) = psize x + psize_list xs"
| "psize_dict [] = 0"
| "psize_dict ((k, v) # d) = psize v + psize_dict d"

lemma skip_ws_le: "length (skip_ws s) \<le> length s"
  by (simp add: skip_ws_def length_dropWhile_le)

lemma psize_py_dict_set: "psize_dict (py_dict_set d k v) \<le> psize_dict d + psize v"
  by (induction d k v rule: py_dict_set.induct) auto

lemma psize_foldl_dict_set:
  "psize_dict (foldl (\<lambda>m (k, v). py_dict_set m k v) m es) \<le> psize_dict m + psize_dict es"
proof (induction es arbitrary: m)
  case (Cons e es)
  obtain k v where e: "e = (k, v)" by (cases e)
  have "psize_dict (foldl (\<lambda>m (k, v). py_dict_set m k v) (py_dict_set m k v) es)
      \<le> psize_dict (py_dict_set m k v) + psize_dict es" by (rule Cons.IH)
  with psize_py_dict_set [of m k v] e show ?case by simp
qed simp

lemma json_chars_size: "json_chars n s = Some (t, r) \<Longrightarrow> length t + length r < length s"
  by (induction n s arbitrary: t r rule: json_chars.induct)
     (fastforce split: if_splits list.splits option.splits)+

lemma json_int_part_size: "json_int_part s = Some (ip, r) \<Longrightarrow> length r < length s"
  by (auto simp: json_int_part_def less_Suc_eq_le length_dropWhile_le split: list.splits if_splits)

lemma json_frac_part_size: "json_frac_part s = (fp, r) \<Longrightarrow> length r \<le> length s"
  by (auto simp: json_frac_part_def le_SucI length_dropWhile_le split: list.splits if_splits)

lemma json_exp_part_size: "json_exp_part s = (ep, r) \<Longrightarrow> length r \<le> length s"
proof (cases s)
  case (Cons c t)
  have drop: "length (dropWhile is_digit u) \<le> length u" for u by (rule length_dropWhile_le)
  have "length (dropWhile is_digit (tl t)) \<le> length t" using drop [of "tl t"] by simp
  with drop [of t] show "json_exp_part s = (ep, r) \<Longrightarrow> length r \<le> length s"
    by (auto simp: json_exp_part_def Cons Let_def split: if_splits)
qed (auto simp: json_exp_part_def)

lemma json_number_size: "json_number s = Some (v, r) \<Longrightarrow> psize v + length r \<le> length s"
  by (fastforce simp: json_number_def Let_def split: option.splits prod.splits if_splits
      dest: json_int_part_size json_frac_part_size json_exp_part_size)

lemma json_literal_size: "json_literal s = Some (v, r) \<Longrightarrow> psize v + length r \<le> length s"
proof -
  assume a: "json_literal s = Some (v, r)"
  then obtain k where f: "List.find (\<lambda>(k, v). take (length k) s = k) json_literals = Some (k, v)"
    and r: "r = drop (length k) s" by (auto simp: json_literal_def split: option.splits)
  then have m: "(k, v) \<in> set json_literals" and t: "take (length k) s = k"
    using find_Some_mem [OF f] by auto
  have "psize v = 1" "1 \<le> length k" using m by (auto simp: json_literals_def)
  moreover have "length k \<le> length s" using t by (metis length_take min.cobounded1)
  ultimately show ?thesis using r by simp
qed

lemma json_size:
  "json_value n s = Some (v, r) \<Longrightarrow> psize v + length r \<le> length s"
  "json_array n s = Some (xs, r) \<Longrightarrow> psize_list xs + length r < length s"
  "json_object n s = Some (es, r) \<Longrightarrow> psize_dict es + length r < length s"
proof (induction n s and n s and n s arbitrary: v r and xs r and es r
    rule: json_value_json_array_json_object.induct)
  case (3 n c s)
  consider (str) t where "v = PStr t" "json_chars (length s) s = Some (t, r)"
    | (empty) d where "v = PList [] \<or> v = PDict []" "skip_ws s = d # r"
    | (list) ys d t where "c \<noteq> CHR 0x22" "c = CHR ''[''" "v = PList ys" "skip_ws s = d # t" "d \<noteq> CHR '']''"
        "json_array n (d # t) = Some (ys, r)"
    | (dict) es d t where "c \<noteq> CHR 0x22" "c = CHR ''{''" "v = PDict (foldl (\<lambda>m (k, v). py_dict_set m k v) [] es)"
        "skip_ws s = d # t" "d \<noteq> CHR ''}''" "json_object n (d # t) = Some (es, r)"
    | (lit) "json_literal (c # s) = Some (v, r)"
    | (num) "json_number (c # s) = Some (v, r)"
    using "3.prems" by (auto split: if_splits list.splits option.splits)
  then show ?case
  proof cases
    case str
    then show ?thesis using json_chars_size by fastforce
  next
    case empty
    then show ?thesis using skip_ws_le [of s] by auto
  next
    case list
    then show ?thesis using "3.IH"(1) [OF list(1,2,4,5,6)] skip_ws_le [of s] by simp
  next
    case dict
    have "c \<noteq> CHR ''[''" using dict by simp
    from "3.IH"(2) [OF dict(1) this dict(2,4,5,6)] dict skip_ws_le [of s]
      psize_foldl_dict_set [of "[]" es] show ?thesis by simp
  next
    case lit
    then show ?thesis using json_literal_size by fastforce
  next
    case num
    then show ?thesis using json_number_size by fastforce
  qed
next
  case (5 n s)
  then obtain v q where v: "json_value n s = Some (v, q)" by (auto split: option.splits)
  have sz: "psize v + length q \<le> length s" by (rule "5.IH"(1) [OF v])
  obtain d t where d: "skip_ws q = d # t" using "5.prems" v by (auto split: list.splits)
  show ?case
  proof (cases "d = CHR '']''")
    case True
    then show ?thesis using "5.prems" v d sz skip_ws_le [of q] by auto
  next
    case False
    then obtain ys where ys: "d = CHR '',''" "json_array n (skip_ws t) = Some (ys, r)" "xs = v # ys"
      using "5.prems" v d by (auto split: if_splits)
    have "psize_list ys + length r < length (skip_ws t)"
      using "5.IH"(2) [OF v refl d False ys(1) ys(2)] .
    then show ?thesis using ys sz d skip_ws_le [of q] skip_ws_le [of t] by simp
  qed
next
  case (8 n c s)
  then obtain k q where k: "c = CHR 0x22" "json_chars (length s) s = Some (k, q)"
    by (auto split: option.splits if_splits)
  then obtain t where t: "skip_ws q = CHR '':'' # t"
    using "8.prems" by (auto split: list.splits if_splits)
  then obtain v p where v: "json_value n (skip_ws t) = Some (v, p)"
    using "8.prems" k by (auto split: option.splits)
  have c: "\<not> c \<noteq> CHR 0x22" "\<not> CHR '':'' \<noteq> CHR '':''" using k by simp_all
  have sz: "psize v + length p \<le> length (skip_ws t)"
    by (rule "8.IH"(1) [OF c(1) k(2) refl t c(2) v])
  obtain e u where e: "skip_ws p = e # u" using "8.prems" k t v by (auto split: list.splits)
  note le = json_chars_size [OF k(2)] skip_ws_le [of q] skip_ws_le [of t] skip_ws_le [of p] skip_ws_le [of u]
  show ?case
  proof (cases "e = CHR ''}''")
    case True
    then show ?thesis using "8.prems" k t v e sz le by auto
  next
    case False
    then obtain fs where fs: "e = CHR '',''" "json_object n (skip_ws u) = Some (fs, r)" "es = (k, v) # fs"
      using "8.prems" k t v e by (auto split: if_splits)
    have "psize_dict fs + length r < length (skip_ws u)"
      using "8.IH"(2) [OF c(1) k(2) refl t c(2) v refl e False fs(1) fs(2)] .
    then show ?thesis using fs sz t e le by simp
  qed
qed auto

lemma json_loads_size: "json_loads s = Some v \<Longrightarrow> psize v \<le> length s"
  using json_size(1) [of "Suc (2 * length s)" "skip_ws s" v] skip_ws_le [of s]
  by (fastforce simp: json_loads_def split: option.splits if_splits)

lemma psize_pos [simp]: "0 < psize v"
  by (cases v) auto

lemma psize_map_of: "map_of d k = Some v \<Longrightarrow> psize v \<le> psize_dict d"
  by (induction d) (auto split: if_splits)

end
