(* ===== verification/Executor.thy ===== *)
theory Executor
  imports Policy_Gate Py_Json
begin

text \<open>
  The hands of the ACT phase (\<open>src/src/sre_agent/executor.py\<close>): which tool can carry out an action,
  the arguments sent to it, the command shown to a human, and how a tool response becomes an
  execution status. The tool servers are the arguments \<open>tool_caller\<close> and \<open>github_caller\<close>: a call
  gives a response or an exception, and the model records the calls it made. SHA-256 and the
  clock are arguments of the audit record. \<open>int()\<close> of an infinite replica count raises
  \<open>OverflowError\<close> in Python, which is the only error the functions here return.

  Shown here: an execution is reported only when the server confirmed it, the effect an approver
  is told agrees with the dispatch, a dry run calls nothing and a live run calls at most one tool,
  and the rendered environment change hides the values of credential-named variables.
\<close>

section \<open>Dispatch families\<close>

definition EXECUTOR_TOOL_MAP :: "(string \<times> string) list" where
  "EXECUTOR_TOOL_MAP =
     [(''restart'', ''restart_deployment''), (''scale'', ''scale_deployment''),
      (''rollback'', ''rollback_deployment''), (''patch'', ''patch_resource_limits''),
      (''config_change'', ''patch_resource_limits''), (''recreate_pod'', ''recreate_pod''),
      (''inspect'', ''get_deployment_config'')]"

definition NOTIFY_ONLY_ACTIONS :: "string set" where
  "NOTIFY_ONLY_ACTIONS = {''escalate''}"

definition READ_ONLY_ACTIONS :: "string set" where
  "READ_ONLY_ACTIONS = {''inspect''}"

definition NON_MUTATING_ACTIONS :: "string set" where
  "NON_MUTATING_ACTIONS = NOTIFY_ONLY_ACTIONS \<union> READ_ONLY_ACTIONS"

definition GITHUB_EXEC_TOOL_MAP :: "(string \<times> string) list" where
  "GITHUB_EXEC_TOOL_MAP =
     [(''revert_commit'', ''create_revert_pr''), (''revert_pr'', ''create_revert_pr''),
      (''comment_pr'', ''comment_on_pr'')]"

definition SANDBOX_TOOL_MAP :: "(string \<times> string) list" where
  "SANDBOX_TOOL_MAP =
     [(''provision'', ''sandbox_provision''), (''status'', ''sandbox_status''),
      (''logs'', ''sandbox_logs''), (''teardown'', ''sandbox_teardown'')]"

definition CONFIG_INTENT_ACTIONS :: "string set" where
  "CONFIG_INTENT_ACTIONS = {''patch'', ''config_change''}"

section \<open>Reading planner parameters\<close>

datatype resource_field = Memory | Cpu

fun resource_aliases :: "resource_field \<Rightarrow> string list" where
  "resource_aliases Memory = [''memory'', ''proposed_memory_limit'', ''memory_limit'', ''new_memory_limit'']"
| "resource_aliases Cpu = [''cpu'', ''proposed_cpu_limit'', ''cpu_limit'', ''new_cpu_limit'']"

text \<open>\<open>isinstance(v, (str, int, float))\<close>; a Python bool is an int.\<close>

definition is_scalar :: "pyval \<Rightarrow> bool" where
  "is_scalar v = (case v of PStr _ \<Rightarrow> True | PInt _ \<Rightarrow> True | PFloat _ \<Rightarrow> True | PBool _ \<Rightarrow> True | _ \<Rightarrow> False)"

text \<open>The hits of the recursive walk in order, each with whether it stood under a limit key.\<close>

fun resource_walk :: "runtime \<Rightarrow> string list \<Rightarrow> bool \<Rightarrow> pyval \<Rightarrow> (bool \<times> string) list"
and resource_walk_entries :: "runtime \<Rightarrow> string list \<Rightarrow> bool \<Rightarrow> (string \<times> pyval) list \<Rightarrow> (bool \<times> string) list"
and resource_walk_items :: "runtime \<Rightarrow> string list \<Rightarrow> bool \<Rightarrow> pyval list \<Rightarrow> (bool \<times> string) list" where
  "resource_walk rt al ul (PDict d) = resource_walk_entries rt al ul d"
| "resource_walk rt al ul (PList xs) = resource_walk_items rt al ul xs"
| "resource_walk rt al ul v = []"
| "resource_walk_entries rt al ul [] = []"
| "resource_walk_entries rt al ul ((k, v) # d) =
     (if lower k \<in> set al \<and> is_scalar v then [(ul, py_str rt v)]
      else resource_walk rt al (ul \<or> contains ''limit'' (lower k)) v)
     @ resource_walk_entries rt al ul d"
| "resource_walk_items rt al ul [] = []"
| "resource_walk_items rt al ul (x # xs) = resource_walk rt al ul x @ resource_walk_items rt al ul xs"

definition find_resource_field :: "runtime \<Rightarrow> pydict \<Rightarrow> resource_field \<Rightarrow> string option" where
  "find_resource_field rt params f =
     (let hits = resource_walk rt (resource_aliases f) False (PDict params);
          limit_hits = map snd (filter fst hits);
          other_hits = map snd (filter (\<lambda>h. \<not> fst h) hits)
      in if limit_hits \<noteq> [] then Some (hd limit_hits)
         else if other_hits \<noteq> [] then Some (hd other_hits)
         else None)"

text \<open>A field that is present and not the empty string, as the callers test it.\<close>

definition resource_field :: "runtime \<Rightarrow> pydict \<Rightarrow> resource_field \<Rightarrow> string option" where
  "resource_field rt params f =
     (case find_resource_field rt params f of Some (c # s) \<Rightarrow> Some (c # s) | _ \<Rightarrow> None)"

definition env_field_aliases :: "string list" where
  "env_field_aliases = [''env'', ''env_vars'', ''environment'', ''environment_variables'']"

definition env_key_re :: "string \<Rightarrow> rx" where
  "env_key_re s = seqs [BoS, Cls (\<lambda>c. is_alpha c \<or> c = CHR ''_''), many s is_word, EoS]"

definition looks_like_env :: "pyval \<Rightarrow> bool" where
  "looks_like_env v = (case v of
      PDict d \<Rightarrow> d \<noteq> [] \<and> (\<forall>(k, x) \<in> set d. rx_match (env_key_re k) k \<noteq> None \<and> \<not> is_dict x \<and> \<not> is_list x)
    | _ \<Rightarrow> False)"

definition env_text :: "runtime \<Rightarrow> pyval \<Rightarrow> string" where
  "env_text rt v = (if v = PNone then [] else py_str rt v)"

text \<open>The first environment map of a dictionary level; below it the walk goes on in order and stops
  as soon as something was found.\<close>

definition env_here :: "runtime \<Rightarrow> (string \<times> pyval) list \<Rightarrow> (string \<times> string) list" where
  "env_here rt d =
     (case List.find (\<lambda>(k, v). lower k \<in> set env_field_aliases \<and> looks_like_env v) d of
        Some (_, PDict e) \<Rightarrow> map (\<lambda>(k, v). (k, env_text rt v)) e
      | _ \<Rightarrow> [])"

fun env_walk :: "runtime \<Rightarrow> pyval \<Rightarrow> (string \<times> string) list"
and env_walk_entries :: "runtime \<Rightarrow> (string \<times> pyval) list \<Rightarrow> (string \<times> string) list"
and env_walk_items :: "runtime \<Rightarrow> pyval list \<Rightarrow> (string \<times> string) list" where
  "env_walk rt (PDict d) = (let here = env_here rt d in if here \<noteq> [] then here else env_walk_entries rt d)"
| "env_walk rt (PList xs) = env_walk_items rt xs"
| "env_walk rt v = []"
| "env_walk_entries rt [] = []"
| "env_walk_entries rt ((k, v) # d) =
     (let found = env_walk rt v in if found \<noteq> [] then found else env_walk_entries rt d)"
| "env_walk_items rt [] = []"
| "env_walk_items rt (x # xs) = (let found = env_walk rt x in if found \<noteq> [] then found else env_walk_items rt xs)"

definition find_env_map :: "runtime \<Rightarrow> pydict \<Rightarrow> (string \<times> string) list" where
  "find_env_map rt params = env_walk rt (PDict params)"

section \<open>Capability\<close>

definition live_tool_for_action :: "runtime \<Rightarrow> remediation_action \<Rightarrow> string option" where
  "live_tool_for_action rt a =
     (let atype = lower (action_type a) in
      case map_of EXECUTOR_TOOL_MAP atype of
        None \<Rightarrow> None
      | Some tool_name \<Rightarrow>
          (if atype \<in> CONFIG_INTENT_ACTIONS then
             (case params_dict a of
                None \<Rightarrow> None
              | Some params \<Rightarrow>
                  (if resource_field rt params Memory \<noteq> None \<or> resource_field rt params Cpu \<noteq> None
                   then Some ''patch_resource_limits''
                   else if find_env_map rt params \<noteq> [] then Some ''patch_deployment_env''
                   else None))
           else Some tool_name))"

datatype effect = CLUSTER_CHANGE | REPO_CHANGE | NOTIFICATION | READ_ONLY_CHECK | NO_CAPABILITY

fun effect_labels :: "effect \<Rightarrow> string \<times> string" where
  "effect_labels CLUSTER_CHANGE = (''change to the cluster'', ''changes to the cluster'')"
| "effect_labels REPO_CHANGE = (''change to the repository'', ''changes to the repository'')"
| "effect_labels NOTIFICATION =
     (''notification to a human (no system change)'', ''notifications to humans (no system change)'')"
| "effect_labels READ_ONLY_CHECK =
     (''read-only check (no system change)'', ''read-only checks (no system change)'')"
| "effect_labels NO_CAPABILITY =
     (''action Sentinel cannot execute (it will be skipped)'',
      ''actions Sentinel cannot execute (they will be skipped)'')"

definition approval_effect :: "runtime \<Rightarrow> pyval \<Rightarrow> pyval \<Rightarrow> effect" where
  "approval_effect rt action_type_v params_v =
     (let name = strip (lower (py_str rt (py_or action_type_v (PStr [])))) in
      if name \<in> NOTIFY_ONLY_ACTIONS then NOTIFICATION
      else if name \<in> READ_ONLY_ACTIONS then READ_ONLY_CHECK
      else if map_of GITHUB_EXEC_TOOL_MAP name \<noteq> None then REPO_CHANGE
      else if map_of EXECUTOR_TOOL_MAP name = None then NO_CAPABILITY
      else if name \<in> CONFIG_INTENT_ACTIONS then
        (let params = (case params_v of PDict d \<Rightarrow> d | _ \<Rightarrow> []) in
         if resource_field rt params Memory \<noteq> None \<or> resource_field rt params Cpu \<noteq> None then CLUSTER_CHANGE
         else if find_env_map rt params \<noteq> [] then CLUSTER_CHANGE
         else NO_CAPABILITY)
      else CLUSTER_CHANGE)"

definition held_reports :: "runtime \<Rightarrow> pyval list \<Rightarrow> pydict list" where
  "held_reports rt reports =
     [d. PDict d \<leftarrow> reports, py_str rt (py_dict_get d ''decision'' PNone) = ''requires_approval'']"

definition effect_part :: "effect list \<Rightarrow> effect \<Rightarrow> string list" where
  "effect_part effects e =
     (let n = length (filter (\<lambda>x. x = e) effects) in
      if n = 0 then []
      else [show_nat n @ '' '' @ (if n = 1 then fst (effect_labels e) else snd (effect_labels e))])"

definition describe_approval_effects :: "runtime \<Rightarrow> pyval list \<Rightarrow> string" where
  "describe_approval_effects rt reports =
     (let held = held_reports rt reports;
          effects = map (\<lambda>r. approval_effect rt (py_dict_get r ''action_type'' PNone)
                               (py_dict_get r ''parameters'' PNone)) held;
          parts = concat (map (effect_part effects)
                    [CLUSTER_CHANGE, REPO_CHANGE, NOTIFICATION, READ_ONLY_CHECK, NO_CAPABILITY])
      in if held = [] then []
         else ''Approving runs '' @ show_nat (length held) @ '' held action''
              @ (if length held = 1 then [] else ''s'') @ '': '' @ join '', '' parts @ ''.'')"

definition missing_capability_reason :: "string \<Rightarrow> string" where
  "missing_capability_reason t =
     ''no automation capability: '' @ [CHR 0x27] @ t @ [CHR 0x27]
     @ '' names neither a cpu/memory limit (parameters.memory / parameters.cpu) nor environment variables ''
     @ ''(parameters.env), which are the two configuration surfaces Sentinel can mutate. ''
     @ ''A ConfigMap, a Helm value or a change described only in prose needs a human.''"

section \<open>Commands\<close>

definition action_namespace :: "runtime \<Rightarrow> remediation_action \<Rightarrow> string" where
  "action_namespace rt a =
     (case params_dict a of
        Some d \<Rightarrow> py_str rt (py_dict_get d ''namespace'' (PStr ''default''))
      | None \<Rightarrow> ''default'')"

text \<open>\<open>int(v)\<close> with the default on \<open>TypeError\<close> and \<open>ValueError\<close>.\<close>

definition int_or :: "pyval \<Rightarrow> int \<Rightarrow> (py_error, int) res" where
  "int_or v dflt =
     (case py_int v of
        Inr i \<Rightarrow> Inr i
      | Inl TypeError \<Rightarrow> Inr dflt
      | Inl ValueError \<Rightarrow> Inr dflt
      | Inl e \<Rightarrow> Inl e)"

definition executor_replicas :: "remediation_action \<Rightarrow> (py_error, int) res" where
  "executor_replicas a = (case params_dict a of Some d \<Rightarrow> int_or (replicas_value d) 1 | None \<Rightarrow> Inr 1)"

definition credential_key_re :: rx where
  "credential_key_re =
     alts [lit_ci ''SECRET'', lit_ci ''PASSWORD'', lit_ci ''PASSWD'', lit_ci ''TOKEN'', lit_ci ''CREDENTIAL'',
           lit_ci ''PRIVATE_KEY'', seqs [lit_ci ''API'', opt_rx (lit_ci ''_''), lit_ci ''KEY''],
           seqs [lit_ci ''_KEY'', EoS], seqs [BoS, lit_ci ''KEY'', EoS], lit_ci ''AUTH'', lit_ci ''SESSION'',
           lit_ci ''SALT'', lit_ci ''CERT'']"

definition credential_key :: "string \<Rightarrow> bool" where
  "credential_key k = rx_search credential_key_re k"

definition redact_env_value :: "string \<Rightarrow> string \<Rightarrow> string" where
  "redact_env_value k v = (if credential_key k then ''[REDACTED]'' else v)"

definition resource_limits :: "string option \<Rightarrow> string option \<Rightarrow> string" where
  "resource_limits memory cpu =
     join '','' (concat (map (\<lambda>(k, v). case v of Some x \<Rightarrow> [k @ ''='' @ x] | None \<Rightarrow> [])
                           [(''memory'', memory), (''cpu'', cpu)]))"

definition render_env :: "(string \<times> string) list \<Rightarrow> string" where
  "render_env env = join '' '' (map (\<lambda>(k, v). k @ ''='' @ redact_env_value k v) env)"

definition sq :: "string \<Rightarrow> string" where
  "sq s = CHR 0x27 # s @ [CHR 0x27]"

definition config_change_command :: "runtime \<Rightarrow> remediation_action \<Rightarrow> string \<Rightarrow> string \<Rightarrow> string" where
  "config_change_command rt a tgt ns =
     (let params = (case params_dict a of Some d \<Rightarrow> d | None \<Rightarrow> []);
          memory = resource_field rt params Memory; cpu = resource_field rt params Cpu;
          env = find_env_map rt params
      in if memory \<noteq> None \<or> cpu \<noteq> None
         then ''kubectl set resources deployment/'' @ tgt @ '' -c '' @ tgt @ '' --limits=''
              @ resource_limits memory cpu @ '' -n '' @ ns
         else if env \<noteq> []
         then ''kubectl set env deployment/'' @ tgt @ '' -c ''
              @ py_str rt (py_dict_get params ''container'' (PStr tgt)) @ '' '' @ render_env env @ '' -n '' @ ns
         else ''# no executable config change for '' @ sq tgt @ '' (no resource limit, no env vars)'')"

definition revert_sha :: "runtime \<Rightarrow> remediation_action \<Rightarrow> string" where
  "revert_sha rt a =
     (case params_dict a of
        Some d \<Rightarrow> py_str rt (py_dict_get d ''commit_sha'' (py_dict_get d ''sha'' (PStr ''<sha>'')))
      | None \<Rightarrow> ''<sha>'')"

definition command_target :: "remediation_action \<Rightarrow> string" where
  "command_target a = (if target a = [] then ''<unknown-target>'' else target a)"

definition build_command :: "runtime \<Rightarrow> remediation_action \<Rightarrow> (py_error, string) res" where
  "build_command rt a =
     (let atype = lower (action_type a); tgt = command_target a; ns = action_namespace rt a in
      if atype = ''restart'' then Inr (''kubectl rollout restart deployment/'' @ tgt @ '' -n '' @ ns)
      else if atype = ''scale'' then
        rbind (executor_replicas a) (\<lambda>n.
          Inr (''kubectl scale deployment/'' @ tgt @ '' --replicas='' @ show_int n @ '' -n '' @ ns))
      else if atype = ''rollback'' then Inr (''kubectl rollout undo deployment/'' @ tgt @ '' -n '' @ ns)
      else if atype = ''patch'' then
        Inr (''kubectl patch deployment/'' @ tgt @ '' -n '' @ ns @ '' --type merge -p ''
             @ sq (case params_dict a of
                     Some d \<Rightarrow> json_dumps rt '', '' '': '' False (py_dict_get d ''patch'' (PDict d))
                   | None \<Rightarrow> ''{}''))
      else if atype = ''config_change'' then Inr (config_change_command rt a tgt ns)
      else if atype = ''inspect'' then
        Inr (''kubectl get deployment/'' @ tgt @ '' -n '' @ ns @ '' -o yaml  # read-only'')
      else if atype = ''recreate_pod'' then Inr (''kubectl delete pod/'' @ tgt @ '' -n '' @ ns)
      else if atype = ''revert_commit'' then
        (let sha = revert_sha rt a in
         Inr (''gh pr create --title '' @ sq (''Revert '' @ sha) @ '' --body ''
              @ sq (''Automated revert of '' @ sha) @ '' (revert '' @ sha @ '')''))
      else if atype = ''escalate'' then
        Inr (''notify on-call: escalate '' @ sq tgt @ '' (no infrastructure mutation)'')
      else Inr (''# no command mapping for action_type='' @ sq atype @ '' on '' @ sq tgt))"

definition build_rollback_command :: "runtime \<Rightarrow> remediation_action \<Rightarrow> string option" where
  "build_rollback_command rt a =
     (let atype = lower (action_type a); tgt = command_target a; ns = action_namespace rt a in
      if atype \<in> {''rollback'', ''restart'', ''config_change'', ''patch''}
      then Some (''kubectl rollout undo deployment/'' @ tgt @ '' -n '' @ ns)
      else if atype = ''scale''
      then Some (''kubectl scale deployment/'' @ tgt @ '' --replicas=<previous> -n '' @ ns)
      else None)"

section \<open>Tool arguments\<close>

definition github_args :: "runtime \<Rightarrow> remediation_action \<Rightarrow> pydict" where
  "github_args rt a =
     (let params = (case params_dict a of Some d \<Rightarrow> d | None \<Rightarrow> []); atype = lower (action_type a) in
      if atype \<in> {''revert_commit'', ''revert_pr''} then
        [(''identifier'', PStr (py_str rt
            (py_or (py_dict_get params ''commit_sha'' PNone)
              (py_or (py_dict_get params ''sha'' PNone)
                (py_or (py_dict_get params ''pr_number'' PNone) (PStr [])))))),
         (''dry_run'', PBool False)]
      else if atype = ''comment_pr'' then
        [(''pr_number'', py_dict_get params ''pr_number'' PNone),
         (''body'', PStr (py_str rt (py_dict_get params ''body'' (PStr [])))), (''dry_run'', PBool False)]
      else [(''dry_run'', PBool False)])"

definition is_lower_alnum :: "char \<Rightarrow> bool" where
  "is_lower_alnum c = (let n = (of_char c :: nat) in (97 \<le> n \<and> n \<le> 122) \<or> is_digit c)"

definition k8s_name_re :: "string \<Rightarrow> rx" where
  "k8s_name_re s =
     seqs [BoS, Cls is_lower_alnum,
           opt_rx (seqs [many s (\<lambda>c. c = CHR ''-'' \<or> is_lower_alnum c), Cls is_lower_alnum])]"

definition resource_name :: "string \<Rightarrow> string" where
  "resource_name tgt0 =
     (let tgt = strip tgt0; s = lower tgt in
      case rx_match (k8s_name_re s) s of Some e \<Rightarrow> take e s | None \<Rightarrow> tgt)"

definition live_args :: "runtime \<Rightarrow> remediation_action \<Rightarrow> (py_error, pydict) res" where
  "live_args rt a =
     (let params = (case params_dict a of Some d \<Rightarrow> d | None \<Rightarrow> []);
          atype = lower (action_type a);
          rname = resource_name (target a);
          base = [(''name'', PStr rname), (''namespace'', py_dict_get params ''namespace'' (PStr ''default'')),
                  (''dry_run'', PBool False)]
      in rbind (if atype = ''scale''
                then rbind (int_or (py_dict_get params ''replicas'' (py_dict_get params ''replica_count'' (PInt 1))) 1)
                       (\<lambda>n. Inr (base @ [(''replicas'', PInt n)]))
                else Inr base)
         (\<lambda>args1.
           let memory = resource_field rt params Memory; cpu = resource_field rt params Cpu;
               args2 = (if atype \<in> CONFIG_INTENT_ACTIONS
                 then args1 @ [(''container'', py_dict_get params ''container'' (PStr rname))]
                      @ (if memory \<noteq> None \<or> cpu \<noteq> None
                         then (case memory of Some m \<Rightarrow> [(''memory'', PStr m)] | None \<Rightarrow> [])
                              @ (case cpu of Some c \<Rightarrow> [(''cpu'', PStr c)] | None \<Rightarrow> [])
                         else [(''env'', PDict (map (\<lambda>(k, v). (k, PStr v)) (find_env_map rt params)))])
                 else args1)
           in Inr (if atype \<in> READ_ONLY_ACTIONS then py_dict_del args2 ''dry_run'' else args2)))"

section \<open>Tool responses\<close>

definition refusal_statuses :: "string set" where
  "refusal_statuses = {''REFUSED'', ''DENIED'', ''MANUAL_REQUIRED'', ''DRY_RUN''}"

definition error_statuses :: "string set" where
  "error_statuses = {''ERROR'', ''FAILED'', ''FAILURE'', ''UNHEALTHY''}"

definition success_statuses :: "string set" where
  "success_statuses = {''OK'', ''SUCCESS'', ''EXECUTED'', ''REVERT_REQUESTED''}"

text \<open>What a tool call returns: a JSON-like value, bytes, a sequence of responses, or an SDK object
  whose \<open>text\<close> attribute may hold a value.\<close>

datatype mcp_value = MVal pyval | MBytes string | MSeq "mcp_value list" | MObj "pyval option"

text \<open>\<open>float(v)\<close> of any value.\<close>

definition py_float :: "pyval \<Rightarrow> (py_error, flt) res" where
  "py_float v =
     (case v of
        PBool b \<Rightarrow> Inr (Fin (if b then 1 else 0))
      | PStr s \<Rightarrow> (case float_of_string s of Some x \<Rightarrow> Inr x | None \<Rightarrow> Inl ValueError)
      | _ \<Rightarrow> num_float v)"

definition has_key :: "pydict \<Rightarrow> string \<Rightarrow> bool" where
  "has_key d k = (map_of d k \<noteq> None)"

definition wrapper_keys :: "string list" where
  "wrapper_keys = [''result'', ''data'', ''content'', ''text'']"

text \<open>The recursion follows decoded strings as well, so it descends in the size of the value.\<close>

function (sequential) payload :: "pyval \<Rightarrow> pydict option"
and payload_keys :: "pydict \<Rightarrow> string list \<Rightarrow> pydict option"
and payload_items :: "pyval list \<Rightarrow> pydict option" where
  "payload (PStr s) = (case json_loads s of None \<Rightarrow> None | Some v \<Rightarrow> payload v)"
| "payload (PDict d) =
     (if has_key d ''status'' \<or> has_key d ''applied'' then Some d else payload_keys d wrapper_keys)"
| "payload (PList xs) = payload_items xs"
| "payload _ = None"
| "payload_keys d [] = None"
| "payload_keys d (k # ks) =
     (case map_of d k of
        None \<Rightarrow> payload_keys d ks
      | Some v \<Rightarrow> (case payload v of Some p \<Rightarrow> Some p | None \<Rightarrow> payload_keys d ks))"
| "payload_items [] = None"
| "payload_items (x # xs) = (case payload x of Some p \<Rightarrow> Some p | None \<Rightarrow> payload_items xs)"
  by pat_completeness auto

termination
proof (relation "measures
    [\<lambda>x. case x of Inl v \<Rightarrow> psize v | Inr (Inl (d, ks)) \<Rightarrow> Suc (psize_dict d) | Inr (Inr xs) \<Rightarrow> Suc (psize_list xs),
     \<lambda>x. case x of Inl v \<Rightarrow> 1 | _ \<Rightarrow> 0,
     \<lambda>x. case x of Inr (Inl (d, ks)) \<Rightarrow> length ks | _ \<Rightarrow> 0]", goal_cases)
  case (2 s v)
  then show ?case using json_loads_size [of s v] by simp
next
  case (5 d k ks)
  then show ?case by simp
next
  case (6 d k ks v)
  then show ?case using psize_map_of [of d k v] by simp
qed simp_all

fun structured_payload :: "mcp_value \<Rightarrow> pydict option"
and structured_payload_items :: "mcp_value list \<Rightarrow> pydict option" where
  "structured_payload (MVal v) = payload v"
| "structured_payload (MBytes s) = payload (PStr s)"
| "structured_payload (MSeq xs) = structured_payload_items xs"
| "structured_payload (MObj t) = (case t of None \<Rightarrow> None | Some v \<Rightarrow> payload v)"
| "structured_payload_items [] = None"
| "structured_payload_items (x # xs) =
     (case structured_payload x of Some p \<Rightarrow> Some p | None \<Rightarrow> structured_payload_items xs)"

datatype live_status = EXECUTED | REFUSED | ERROR

datatype live_detail = Unstructured | Confirmed string | NotConfirmed string

definition classify_live_response :: "runtime \<Rightarrow> mcp_value \<Rightarrow> live_status \<times> live_detail" where
  "classify_live_response rt response =
     (case structured_payload response of
        None \<Rightarrow> (ERROR, Unstructured)
      | Some p \<Rightarrow>
          (let detail = json_dumps rt '', '' '': '' True (PDict p);
               remote_status = upper (strip (py_str rt (py_dict_get p ''status'' (PStr []))));
               applied = py_dict_get p ''applied'' PNone
           in if remote_status \<in> error_statuses then (ERROR, Confirmed detail)
              else if remote_status \<in> refusal_statuses \<or> applied = PBool False then (REFUSED, Confirmed detail)
              else if applied = PBool True \<or> remote_status \<in> success_statuses then (EXECUTED, Confirmed detail)
              else (ERROR, NotConfirmed detail)))"

section \<open>Execution\<close>

datatype exec_mode = DRY_RUN_MODE | LIVE_MODE

fun mode_value :: "exec_mode \<Rightarrow> string" where
  "mode_value DRY_RUN_MODE = ''dry_run''"
| "mode_value LIVE_MODE = ''live''"

datatype exec_status = Dry_run | Skipped | Live live_status

datatype exec_detail =
    DryRunOnly
  | MissingCapability string
  | NoToolMaps string
  | NoCaller string
  | Response live_detail
  | CallFailed string string
  | DuplicateClaim

record execution_result =
  er_action_type :: string
  er_target :: string
  er_command :: string
  er_mode :: exec_mode
  er_status :: exec_status
  er_audit :: pydict
  er_rollback_command :: "string option"
  er_detail :: exec_detail

record executor =
  ex_actor :: string
  ex_incident_id :: "string option"

definition opt_str :: "string option \<Rightarrow> pyval" where
  "opt_str s = (case s of Some x \<Rightarrow> PStr x | None \<Rightarrow> PNone)"

definition audit_record :: "runtime \<Rightarrow> (string \<Rightarrow> string) \<Rightarrow> string \<Rightarrow> executor \<Rightarrow> remediation_action
    \<Rightarrow> string \<Rightarrow> string \<Rightarrow> exec_mode \<Rightarrow> pydict" where
  "audit_record rt sha256 now_iso ex a command decision mode =
     (let rec = [(''timestamp'', PStr now_iso), (''actor'', PStr (ex_actor ex)),
                 (''incident_id'', opt_str (ex_incident_id ex)), (''action_type'', PStr (action_type a)),
                 (''target'', PStr (target a)), (''parameters'', params_or_empty a),
                 (''gate_decision'', PStr decision), (''mode'', PStr (mode_value mode)),
                 (''command'', PStr command)]
      in rec @ [(''content_hash'', PStr (sha256 (json_dumps rt '', '' '': '' True (PDict rec))))])"

text \<open>The synchronous entry point: a dry run, or \<open>NotImplementedError\<close>.\<close>

datatype execute_error = PyError py_error | NotImplementedError

definition execute :: "runtime \<Rightarrow> (string \<Rightarrow> string) \<Rightarrow> string \<Rightarrow> executor \<Rightarrow> remediation_action \<Rightarrow> string
    \<Rightarrow> bool \<Rightarrow> (execute_error, execution_result) res" where
  "execute rt sha256 now_iso ex a decision dry_run =
     (case build_command rt a of
        Inl e \<Rightarrow> Inl (PyError e)
      | Inr command \<Rightarrow>
          (if \<not> dry_run then Inl NotImplementedError
           else Inr \<lparr>er_action_type = action_type a, er_target = target a, er_command = command,
                     er_mode = DRY_RUN_MODE, er_status = Dry_run,
                     er_audit = audit_record rt sha256 now_iso ex a command decision DRY_RUN_MODE,
                     er_rollback_command = build_rollback_command rt a, er_detail = DryRunOnly\<rparr>))"

text \<open>One tool call: the backend, the tool and its arguments. A caller gives a response or raises.\<close>

datatype backend = Executor_backend | Github_backend

type_synonym tool_call = "backend \<times> string \<times> pydict"
type_synonym caller = "string \<Rightarrow> pydict \<Rightarrow> (string, mcp_value) res"

fun backend_name :: "backend \<Rightarrow> string" where
  "backend_name Executor_backend = ''executor''"
| "backend_name Github_backend = ''github-exec''"

datatype route = Dispatch tool_call | NoTool | UnknownAction

definition route_action :: "runtime \<Rightarrow> remediation_action \<Rightarrow> (py_error, route) res" where
  "route_action rt a =
     (let atype = lower (action_type a) in
      case map_of GITHUB_EXEC_TOOL_MAP atype of
        Some tool \<Rightarrow> Inr (Dispatch (Github_backend, tool, github_args rt a))
      | None \<Rightarrow>
          (case live_tool_for_action rt a of
             Some tool \<Rightarrow> rbind (live_args rt a) (\<lambda>args. Inr (Dispatch (Executor_backend, tool, args)))
           | None \<Rightarrow> Inr (if map_of EXECUTOR_TOOL_MAP atype \<noteq> None then NoTool else UnknownAction)))"

definition call_tool :: "runtime \<Rightarrow> caller option \<Rightarrow> tool_call
    \<Rightarrow> exec_status \<times> exec_detail \<times> tool_call list" where
  "call_tool rt caller call =
     (case call of (be, tool, args) \<Rightarrow>
       (case caller of
          None \<Rightarrow> (Live ERROR, NoCaller (backend_name be), [])
        | Some f \<Rightarrow>
            (case f tool args of
               Inl e \<Rightarrow> (Live ERROR, CallFailed (backend_name be) e, [call])
             | Inr resp \<Rightarrow> (let (st, d) = classify_live_response rt resp in (Live st, Response d, [call])))))"

definition live_result :: "runtime \<Rightarrow> (string \<Rightarrow> string) \<Rightarrow> string \<Rightarrow> executor \<Rightarrow> remediation_action \<Rightarrow> string
    \<Rightarrow> string \<Rightarrow> exec_status \<Rightarrow> exec_detail \<Rightarrow> execution_result" where
  "live_result rt sha256 now_iso ex a decision command status detail =
     \<lparr>er_action_type = lower (action_type a), er_target = target a, er_command = command, er_mode = LIVE_MODE,
      er_status = status, er_audit = audit_record rt sha256 now_iso ex a command decision LIVE_MODE,
      er_rollback_command = build_rollback_command rt a, er_detail = detail\<rparr>"

definition aexecute_unchecked :: "runtime \<Rightarrow> (string \<Rightarrow> string) \<Rightarrow> string \<Rightarrow> executor \<Rightarrow> remediation_action \<Rightarrow> string
    \<Rightarrow> bool \<Rightarrow> caller option \<Rightarrow> caller option \<Rightarrow> (execute_error, execution_result \<times> tool_call list) res" where
  "aexecute_unchecked rt sha256 now_iso ex a decision dry_run tool_caller github_caller =
     (if dry_run then rbind (execute rt sha256 now_iso ex a decision True) (\<lambda>r. Inr (r, []))
      else
        (case build_command rt a of
           Inl e \<Rightarrow> Inl (PyError e)
         | Inr command \<Rightarrow>
             (let result = live_result rt sha256 now_iso ex a decision command; atype = lower (action_type a) in
              case route_action rt a of
                Inl e \<Rightarrow> Inl (PyError e)
              | Inr NoTool \<Rightarrow> Inr (result (Live REFUSED) (MissingCapability (missing_capability_reason atype)), [])
              | Inr UnknownAction \<Rightarrow> Inr (result Skipped (NoToolMaps atype), [])
              | Inr (Dispatch call) \<Rightarrow>
                  (let (st, d, calls) = call_tool rt
                         (case fst call of Executor_backend \<Rightarrow> tool_caller | Github_backend \<Rightarrow> github_caller) call
                   in Inr (result st d, calls)))))"

section \<open>Sample values\<close>

definition applied_response :: mcp_value where
  "applied_response = MSeq [MObj (Some (PStr
     (''{'' @ json_str ''status'' @ '': '' @ json_str ''ok'' @ '', '' @ json_str ''applied'' @ '': true}'')))]"

definition sample_executor :: executor where
  "sample_executor = \<lparr>ex_actor = ''sre-agent'', ex_incident_id = None\<rparr>"

definition set_env_action :: "string \<Rightarrow> remediation_action" where
  "set_env_action secret = \<lparr>action_type = ''config_change'', target = ''checkout'',
     parameters = PDict [(''env'', PDict [(''API_KEY'', PStr secret), (''RATE'', PInt 5)])],
     safety_check = '''', rollback_plan = None\<rparr>"

text \<open>When a payload confirms that the change was made.\<close>

definition confirms :: "runtime \<Rightarrow> pydict \<Rightarrow> bool" where
  "confirms rt p =
     (let st = upper (strip (py_str rt (py_dict_get p ''status'' (PStr []))));
          applied = py_dict_get p ''applied'' PNone
      in st \<notin> error_statuses \<and> st \<notin> refusal_statuses \<and> applied \<noteq> PBool False
         \<and> (applied = PBool True \<or> st \<in> success_statuses))"

text \<open>The part of an environment change that a transcript may show.\<close>

definition public_env :: "(string \<times> string) list \<Rightarrow> (string \<times> string option) list" where
  "public_env env = map (\<lambda>(k, v). (k, if credential_key k then None else Some v)) env"

section \<open>Lemmas\<close>

lemma classify_executed_iff:
  "fst (classify_live_response rt resp) = EXECUTED \<longleftrightarrow>
     (\<exists>p. structured_payload resp = Some p \<and> confirms rt p)"
  by (auto simp: classify_live_response_def confirms_def Let_def split: option.splits)

lemma call_tool_calls: "call_tool rt c call = (st, d, calls) \<Longrightarrow> calls = [] \<or> calls = [call]"
  by (auto simp: call_tool_def split: prod.splits option.splits sum.splits)

lemma call_tool_executed:
  "call_tool rt c call = (Live EXECUTED, d, calls) \<Longrightarrow>
     calls = [call] \<and> (\<exists>f resp p. c = Some f \<and> f (fst (snd call)) (snd (snd call)) = Inr resp
                       \<and> structured_payload resp = Some p \<and> confirms rt p)"
proof (cases call)
  case (fields be tool args)
  assume a: "call_tool rt c call = (Live EXECUTED, d, calls)"
  then obtain f where f: "c = Some f" by (auto simp: call_tool_def fields split: option.splits)
  then obtain resp where resp: "f tool args = Inr resp"
    using a by (auto simp: call_tool_def fields split: sum.splits)
  have "fst (classify_live_response rt resp) = EXECUTED" "calls = [call]"
    using a f resp by (auto simp: call_tool_def fields split: prod.splits)
  then show ?thesis using f resp classify_executed_iff fields by fastforce
qed

lemma route_dispatch:
  assumes "route_action rt a = Inr (Dispatch (be, tool, args))"
  shows "(be = Github_backend \<and> map_of GITHUB_EXEC_TOOL_MAP (lower (action_type a)) = Some tool)
       \<or> (be = Executor_backend \<and> map_of GITHUB_EXEC_TOOL_MAP (lower (action_type a)) = None
          \<and> live_tool_for_action rt a = Some tool \<and> live_args rt a = Inr args)"
  using assms by (auto simp: route_action_def Let_def rbind_eq_Inr split: option.splits if_splits)

lemma aexecute_cases:
  assumes "aexecute_unchecked rt sha now ex a dec dry tc gc = Inr (r, calls)"
  obtains (dry) "dry" "calls = []" "er_status r = Dry_run"
  | (none) "\<not> dry" "calls = []" "er_status r \<in> {Live REFUSED, Skipped}"
      "route_action rt a \<in> {Inr NoTool, Inr UnknownAction}"
  | (call) call d where "\<not> dry" "route_action rt a = Inr (Dispatch call)"
      "call_tool rt (case fst call of Executor_backend \<Rightarrow> tc | Github_backend \<Rightarrow> gc) call = (er_status r, d, calls)"
  using assms
  by (auto simp: aexecute_unchecked_def execute_def live_result_def Let_def rbind_eq_Inr
      split: if_splits sum.splits route.splits prod.splits)

lemma live_tool_for_action_read_only:
  "live_tool_for_action rt a = Some ''get_deployment_config'' \<longleftrightarrow> lower (action_type a) = ''inspect''"
  by (auto simp: live_tool_for_action_def Let_def EXECUTOR_TOOL_MAP_def CONFIG_INTENT_ACTIONS_def
      split: option.splits if_splits)

lemma live_tool_for_action_known:
  "live_tool_for_action rt a = Some tool \<Longrightarrow> map_of EXECUTOR_TOOL_MAP (lower (action_type a)) \<noteq> None"
  by (auto simp: live_tool_for_action_def Let_def split: option.splits)

lemma tool_maps_disjoint:
  "map_of GITHUB_EXEC_TOOL_MAP t \<noteq> None \<Longrightarrow> map_of EXECUTOR_TOOL_MAP t = None"
  "t \<in> NON_MUTATING_ACTIONS \<Longrightarrow> map_of GITHUB_EXEC_TOOL_MAP t = None"
  by (auto simp: GITHUB_EXEC_TOOL_MAP_def EXECUTOR_TOOL_MAP_def NON_MUTATING_ACTIONS_def
      NOTIFY_ONLY_ACTIONS_def READ_ONLY_ACTIONS_def split: if_splits)

lemma params_dict_or_empty_dict:
  "(case params_or_empty a of PDict d \<Rightarrow> d | _ \<Rightarrow> []) = (case params_dict a of Some d \<Rightarrow> d | None \<Rightarrow> [])"
  by (simp add: params_dict_def split: pyval.split)

lemma find_empty [simp]: "resource_field rt [] f = None" "find_env_map rt [] = []"
  by (simp_all add: resource_field_def find_resource_field_def find_env_map_def env_here_def)

text \<open>The effect shown for an action, by the tool that dispatch would use.\<close>

lemma approval_effect_tool:
  assumes "strip (lower (action_type a)) = lower (action_type a)"
  shows "approval_effect rt (PStr (action_type a)) (params_or_empty a) =
    (if map_of GITHUB_EXEC_TOOL_MAP (lower (action_type a)) \<noteq> None then REPO_CHANGE
     else case live_tool_for_action rt a of
       Some tool \<Rightarrow> if tool = ''get_deployment_config'' then READ_ONLY_CHECK else CLUSTER_CHANGE
     | None \<Rightarrow> if lower (action_type a) = ''escalate'' then NOTIFICATION else NO_CAPABILITY)"
proof -
  have name: "strip (lower (py_str rt (py_or (PStr (action_type a)) (PStr [])))) = lower (action_type a)"
    using assms by (auto simp: py_or_def py_str_def)
  show ?thesis unfolding approval_effect_def name params_dict_or_empty_dict
    by (auto simp: Let_def live_tool_for_action_def NOTIFY_ONLY_ACTIONS_def READ_ONLY_ACTIONS_def
        GITHUB_EXEC_TOOL_MAP_def EXECUTOR_TOOL_MAP_def CONFIG_INTENT_ACTIONS_def split: option.split)
qed

lemma public_env_Nil: "public_env env = [] \<longleftrightarrow> env = []"
  by (simp add: public_env_def)

lemma redact_public:
  "map (\<lambda>(k, v). k @ ''='' @ redact_env_value k v) env =
   map (\<lambda>(k, x). k @ ''='' @ (case x of None \<Rightarrow> ''[REDACTED]'' | Some v \<Rightarrow> v)) (public_env env)"
  by (auto simp: public_env_def redact_env_value_def)

section \<open>Properties\<close>

text \<open>A live response counts as \<open>EXECUTED\<close> exactly when it carries a structured payload, however
  wrapped or JSON-encoded, whose status is neither an error nor a refusal, whose \<open>applied\<close> flag is not
  false, and that confirms with \<open>applied: true\<close> or a success status. Anything else (unstructured
  text, an unknown status, no flag) is refused or an error.\<close>

theorem classify_live_response_fails_closed:
  "fst (classify_live_response rt resp) = EXECUTED \<longleftrightarrow>
     (\<exists>p. structured_payload resp = Some p
        \<and> (let st = upper (strip (py_str rt (py_dict_get p ''status'' (PStr []))));
               applied = py_dict_get p ''applied'' PNone
           in st \<notin> error_statuses \<and> st \<notin> refusal_statuses \<and> applied \<noteq> PBool False
              \<and> (applied = PBool True \<or> st \<in> success_statuses)))"
  unfolding classify_executed_iff confirms_def ..

text \<open>C38. A dry run calls no tool. A live run calls at most one, which is the one its routing names,
  and reports \<open>EXECUTED\<close> only when that call was made, returned, and its payload confirmed the
  change; a missing caller, an exception or an unconfirmed response never reads as executed.\<close>

theorem aexecute_unchecked_honest:
  assumes "aexecute_unchecked rt sha now ex a dec dry tc gc = Inr (r, calls)"
  shows "(dry \<longrightarrow> calls = [] \<and> er_status r = Dry_run)
    \<and> (calls = [] \<or> (\<exists>call. calls = [call] \<and> route_action rt a = Inr (Dispatch call)))
    \<and> (er_status r = Live EXECUTED \<longrightarrow>
        (\<exists>be tool args f resp p. calls = [(be, tool, args)]
           \<and> (case be of Executor_backend \<Rightarrow> tc | Github_backend \<Rightarrow> gc) = Some f
           \<and> f tool args = Inr resp \<and> structured_payload resp = Some p \<and> confirms rt p))"
  using assms
proof (cases rule: aexecute_cases)
  case (call call d)
  show ?thesis using call call_tool_calls [OF call(3)] call_tool_executed [of rt _ call d calls]
    by (cases call) auto
qed auto

theorem aexecute_unchecked_honest_witness:
  "\<exists>r calls. aexecute_unchecked no_runtime (\<lambda>_. ''h'') ''now'' sample_executor restart_checkout ''autonomous'' False
      (Some (\<lambda>_ _. Inr applied_response)) None = Inr (r, calls)
    \<and> er_status r = Live EXECUTED \<and> (\<exists>call. calls = [call] \<and> route_action no_runtime restart_checkout = Inr (Dispatch call))"
proof -
  let ?x = "aexecute_unchecked no_runtime (\<lambda>_. ''h'') ''now'' sample_executor restart_checkout ''autonomous'' False
      (Some (\<lambda>_ _. Inr applied_response)) None"
  have "case ?x of Inr (r, calls) \<Rightarrow> er_status r = Live EXECUTED | Inl _ \<Rightarrow> False" by code_simp
  then obtain r calls where x: "?x = Inr (r, calls)" and ex: "er_status r = Live EXECUTED"
    by (auto split: sum.splits)
  from aexecute_unchecked_honest [OF x] x ex show ?thesis by auto
qed

text \<open>What an approver is told agrees with what dispatch does, for every action whose type has no
  surrounding whitespace: a cluster change is announced exactly when a mutating executor tool would
  be called, a repository change exactly when a github tool would be, a read-only check exactly
  when the only call is the configuration read, and otherwise nothing is called.\<close>

theorem approval_effect_matches_dispatch:
  assumes "strip (lower (action_type a)) = lower (action_type a)" and "route_action rt a = Inr r"
  shows "case approval_effect rt (PStr (action_type a)) (params_or_empty a) of
      CLUSTER_CHANGE \<Rightarrow> \<exists>tool args. r = Dispatch (Executor_backend, tool, args) \<and> tool \<noteq> ''get_deployment_config''
    | REPO_CHANGE \<Rightarrow> \<exists>tool args. r = Dispatch (Github_backend, tool, args)
    | READ_ONLY_CHECK \<Rightarrow> \<exists>args. r = Dispatch (Executor_backend, ''get_deployment_config'', args)
    | NOTIFICATION \<Rightarrow> r = UnknownAction
    | NO_CAPABILITY \<Rightarrow> r = NoTool \<or> r = UnknownAction"
  using assms(2) approval_effect_tool [OF assms(1), of rt] live_tool_for_action_read_only [of rt a]
  by (auto simp: route_action_def Let_def rbind_eq_Inr EXECUTOR_TOOL_MAP_def split: option.splits if_splits)

theorem approval_effect_matches_dispatch_witness:
  "\<exists>r. route_action no_runtime restart_checkout = Inr r
    \<and> (\<exists>tool args. r = Dispatch (Executor_backend, tool, args) \<and> tool \<noteq> ''get_deployment_config'')"
proof -
  have "is_ok (route_action no_runtime restart_checkout)" by code_simp
  then obtain r where r: "route_action no_runtime restart_checkout = Inr r" by (auto simp: is_ok_iff)
  have s: "strip (lower (action_type restart_checkout)) = lower (action_type restart_checkout)" by code_simp
  have "approval_effect no_runtime (PStr (action_type restart_checkout)) (params_or_empty restart_checkout)
      = CLUSTER_CHANGE" by code_simp
  with approval_effect_matches_dispatch [OF s r] r show ?thesis by simp
qed

text \<open>The command that a transcript shows for a configuration change does not depend on the value of
  a credential-named environment variable: two changes of the same target whose environment maps
  agree on the names and on every other value render the same command.\<close>

theorem config_change_command_hides_secrets:
  assumes "lower (action_type a) = ''config_change''" "lower (action_type b) = ''config_change''"
    and "params_dict a = Some p" "params_dict b = Some q" "command_target a = command_target b"
    and "py_dict_get p ''namespace'' (PStr ''default'') = py_dict_get q ''namespace'' (PStr ''default'')"
    and "py_dict_get p ''container'' (PStr (command_target a)) = py_dict_get q ''container'' (PStr (command_target a))"
    and "\<And>f. resource_field rt p f = resource_field rt q f"
    and "public_env (find_env_map rt p) = public_env (find_env_map rt q)"
  shows "build_command rt a = build_command rt b"
proof -
  have "render_env (find_env_map rt p) = render_env (find_env_map rt q)"
    unfolding render_env_def redact_public assms(9) ..
  moreover have "find_env_map rt p = [] \<longleftrightarrow> find_env_map rt q = []"
    using assms(9) public_env_Nil by metis
  ultimately show ?thesis using assms(1-8)
    by (simp add: build_command_def config_change_command_def action_namespace_def Let_def)
qed

theorem config_change_command_hides_secrets_witness:
  "build_command no_runtime (set_env_action ''hunter2'') = build_command no_runtime (set_env_action ''swordfish'')"
proof (rule config_change_command_hides_secrets
    [of _ _ "[(''env'', PDict [(''API_KEY'', PStr ''hunter2''), (''RATE'', PInt 5)])]"
            "[(''env'', PDict [(''API_KEY'', PStr ''swordfish''), (''RATE'', PInt 5)])]"])
  show "resource_field no_runtime [(''env'', PDict [(''API_KEY'', PStr ''hunter2''), (''RATE'', PInt 5)])] f
      = resource_field no_runtime [(''env'', PDict [(''API_KEY'', PStr ''swordfish''), (''RATE'', PInt 5)])] f" for f
    by (cases f; hypsubst; code_simp)
  show "public_env (find_env_map no_runtime [(''env'', PDict [(''API_KEY'', PStr ''hunter2''), (''RATE'', PInt 5)])])
      = public_env (find_env_map no_runtime [(''env'', PDict [(''API_KEY'', PStr ''swordfish''), (''RATE'', PInt 5)])])"
    by code_simp
qed (simp_all add: set_env_action_def params_dict_def params_or_empty_def py_or_def command_target_def py_dict_get_def)

end
