(* ===== verification/Execution_Context.thy ===== *)
theory Execution_Context
  imports Py_Json
begin

text \<open>
  Tenant-bound configuration (\<open>src/src/sre_agent/execution_context.py\<close> and
  \<open>src/src/sre_agent/cluster_context.py\<close>): the \<open>ExecutionContext\<close> that every tool client and every
  mutation is bound to, built from a cluster row or, for local development, from the process
  environment. A cluster row is a record of optional columns. Errors are the exceptions the
  source raises.

  Shown here: the environment a policy sees is one of four labels and is production unless a
  known other label is set, a context built from a cluster carries only operator endpoints, a
  supported model provider and, when a namespace is required, exactly the cluster's namespace,
  and the cache fingerprint is independent of every credential.
\<close>

section \<open>Data\<close>

record cluster =
  cl_id :: "string option"
  cl_org_id :: string
  cl_k8s_token :: "string option"
  cl_k8s_api_server :: "string option"
  cl_github_token :: "string option"
  cl_github_repo :: "string option"
  cl_notion_api_key :: "string option"
  cl_notion_database_id :: "string option"
  cl_llm_provider :: "string option"
  cl_llm_model :: "string option"
  cl_llm_base_url :: "string option"
  cl_llm_api_key :: "string option"
  cl_llm_router_enabled :: bool
  cl_namespace :: "string option"
  cl_environment :: "string option"
  cl_key_version :: "int option"
  cl_context_version :: "int option"

record organization =
  org_langfuse_public_key :: "string option"
  org_langfuse_secret_key :: "string option"
  org_langfuse_host :: "string option"

record execution_context =
  ec_organization_id :: string
  ec_cluster_id :: string
  ec_mcp_endpoints :: "(string \<times> string) list"
  ec_credentials :: "(string \<times> string) list"
  ec_namespace :: "string option"
  ec_allowlist :: "string list"
  ec_llm_provider :: "string option"
  ec_llm_model :: "string option"
  ec_llm_base_url :: "string option"
  ec_llm_router_enabled :: bool
  ec_environment :: string
  ec_key_version :: int
  ec_context_version :: int

record llm_settings =
  llm_provider :: "string option"
  llm_model :: "string option"
  llm_base_url :: "string option"
  llm_api_key :: "string option"

datatype context_error =
    NoPersistedCluster
  | NamespaceRequired
  | UnauthorizedLLM
  | EndpointNotConfigured string
  | EndpointNotOperatorControlled string
  | NoEndpoint string
  | ServiceTokenRequired
  | ContextRequired
  | ContextValueError

section \<open>Operator endpoints and environment labels\<close>

definition mcp_endpoint_env :: "(string \<times> string) list" where
  "mcp_endpoint_env =
     [(''k8s'', ''MCP_K8S_URI''), (''executor'', ''MCP_EXECUTOR_URI''), (''metrics'', ''MCP_METRICS_URI''),
      (''logs'', ''MCP_LOGS_URI''), (''runbooks'', ''MCP_RUNBOOKS_URI''), (''github'', ''MCP_GITHUB_URI''),
      (''github_exec'', ''MCP_GITHUB_EXEC_URI''), (''sandbox'', ''MCP_SANDBOX_URI'')]"

definition operator_mcp_endpoints :: "runtime \<Rightarrow> (string \<times> string) list" where
  "operator_mcp_endpoints rt =
     [(name, strip (getenv rt env_name [])). (name, env_name) \<leftarrow> mcp_endpoint_env,
        strip (getenv rt env_name []) \<noteq> []]"

definition require_operator_mcp_endpoint :: "runtime \<Rightarrow> string \<Rightarrow> string \<Rightarrow> (context_error, string) res" where
  "require_operator_mcp_endpoint rt name endpoint =
     (case map_of (operator_mcp_endpoints rt) name of
        None \<Rightarrow> Inl (EndpointNotConfigured name)
      | Some expected \<Rightarrow>
          (if expected = [] then Inl (EndpointNotConfigured name)
           else if endpoint \<noteq> expected then Inl (EndpointNotOperatorControlled name)
           else Inr expected))"

definition environment_aliases :: "(string \<times> string) list" where
  "environment_aliases =
     [(''prod'', ''production''), (''production'', ''production''), (''stage'', ''staging''),
      (''staging'', ''staging''), (''dev'', ''development''), (''development'', ''development''),
      (''test'', ''testing''), (''testing'', ''testing'')]"

definition normalized_environment :: "string option \<Rightarrow> string" where
  "normalized_environment value =
     (let raw = lower (strip (case value of Some v \<Rightarrow> v | None \<Rightarrow> []))
      in case map_of environment_aliases raw of Some e \<Rightarrow> e | None \<Rightarrow> ''production'')"

definition operator_cluster_environment :: "runtime \<Rightarrow> string" where
  "operator_cluster_environment rt = normalized_environment (environ rt ''SENTINEL_CLUSTER_ENVIRONMENT'')"

text \<open>\<open>_value\<close>: the stripped attribute, or none when it is absent or blank.\<close>

definition attr_value :: "string option \<Rightarrow> string option" where
  "attr_value v = (case v of None \<Rightarrow> None | Some s \<Rightarrow> (if strip s = [] then None else Some (strip s)))"

definition cluster_environment :: "runtime \<Rightarrow> cluster option \<Rightarrow> string" where
  "cluster_environment rt cl =
     normalized_environment
       (case attr_value (case cl of Some c \<Rightarrow> cl_environment c | None \<Rightarrow> None) of
          Some e \<Rightarrow> Some e
        | None \<Rightarrow> environ rt ''SENTINEL_CLUSTER_ENVIRONMENT'')"

text \<open>\<open>a or b or ...\<close> over environment variables: the first that is set and not empty.\<close>

fun first_env :: "runtime \<Rightarrow> string list \<Rightarrow> string" where
  "first_env rt [] = []"
| "first_env rt (n # ns) = (case environ rt n of
     Some v \<Rightarrow> (if v \<noteq> [] then v else first_env rt ns) | None \<Rightarrow> first_env rt ns)"

definition is_production_runtime :: "runtime \<Rightarrow> bool" where
  "is_production_runtime rt =
     (lower (getenv rt ''AGENT_MODE'' []) = ''api''
      \<or> lower (first_env rt [''SENTINEL_ENV'', ''APP_ENV'', ''ENVIRONMENT'']) \<in> {''prod'', ''production''})"

definition namespace_required :: "runtime \<Rightarrow> bool" where
  "namespace_required rt =
     (let configured = lower (strip (getenv rt ''REQUIRE_CLUSTER_NAMESPACE'' [])) in
      if configured \<in> {''1'', ''true'', ''yes''} then True
      else if configured \<in> {''0'', ''false'', ''no''} then False
      else is_production_runtime rt \<or> lower (getenv rt ''AGENT_MODE'' []) = ''api'')"

section \<open>Authorized model settings\<close>

definition supported_llm_providers :: "string list" where
  "supported_llm_providers = [''anthropic'']"

text \<open>\<open>_attr\<close>: the attribute as it is, or none when it is absent or blank.\<close>

definition attr_raw :: "string option \<Rightarrow> string option" where
  "attr_raw v = (case v of None \<Rightarrow> None | Some s \<Rightarrow> (if strip s = [] then None else Some s))"

definition split_items :: "string \<Rightarrow> string list" where
  "split_items raw = filter (\<lambda>p. p \<noteq> []) (map strip (split_on (CHR '','') raw))"

definition allowed_llm_providers :: "runtime \<Rightarrow> string list" where
  "allowed_llm_providers rt =
     (let raw = strip (getenv rt ''ALLOWED_LLM_PROVIDERS'' []); allowed = map lower (split_items raw)
      in if raw = [] \<or> allowed = [] then supported_llm_providers else allowed)"

definition allowed_llm_models :: "runtime \<Rightarrow> string list option" where
  "allowed_llm_models rt =
     (let raw = strip (getenv rt ''ALLOWED_LLM_MODELS'' [])
      in if raw = [] then None else Some (split_items raw))"

definition llm_run_budget :: "runtime \<Rightarrow> (context_error, flt option) res" where
  "llm_run_budget rt =
     (let raw = strip (getenv rt ''LLM_RUN_BUDGET'' [])
      in if raw = [] then Inr None
         else (case float_of_string raw of None \<Rightarrow> Inl UnauthorizedLLM | Some x \<Rightarrow> Inr (Some x)))"

definition or_else :: "'a option \<Rightarrow> 'a option \<Rightarrow> 'a option" where
  "or_else a b = (case a of Some x \<Rightarrow> Some x | None \<Rightarrow> b)"

definition resolve_llm :: "runtime \<Rightarrow> cluster option \<Rightarrow> llm_settings" where
  "resolve_llm rt cl =
     (let get = (\<lambda>f. case cl of Some c \<Rightarrow> attr_raw (f c) | None \<Rightarrow> None);
          env = (\<lambda>n. case cl of None \<Rightarrow> environ rt n | Some _ \<Rightarrow> None);
          routed = (case cl of Some c \<Rightarrow> cl_llm_router_enabled c | None \<Rightarrow> False);
          provider = or_else (get cl_llm_provider)
            (case cl of None \<Rightarrow> Some (getenv rt ''LLM_PROVIDER'' ''anthropic'') | Some _ \<Rightarrow> None)
      in \<lparr>llm_provider = (case provider of
              Some p \<Rightarrow> (if p = [] then None else Some (lower (strip p))) | None \<Rightarrow> None),
          llm_model = (if routed then None else or_else (get cl_llm_model) (env ''LLM_MODEL'')),
          llm_base_url = or_else (get cl_llm_base_url) (env ''LLM_BASE_URL''),
          llm_api_key = or_else (get cl_llm_api_key) (env ''LLM_API_KEY'')\<rparr>)"

definition authorize_llm :: "runtime \<Rightarrow> llm_settings \<Rightarrow> (context_error, llm_settings) res" where
  "authorize_llm rt s =
     (let provider = lower (strip (case llm_provider s of Some p \<Rightarrow> p | None \<Rightarrow> []));
          model = attr_value (llm_model s)
      in if provider = [] \<or> provider \<notin> set supported_llm_providers
            \<or> provider \<notin> set (allowed_llm_providers rt) then Inl UnauthorizedLLM
         else if (case (model, allowed_llm_models rt) of (Some m, Some ms) \<Rightarrow> m \<notin> set ms | _ \<Rightarrow> False)
         then Inl UnauthorizedLLM
         else rbind (llm_run_budget rt) (\<lambda>budget.
           if (case budget of Some b \<Rightarrow> flt_le b (Fin 0) | None \<Rightarrow> False) then Inl UnauthorizedLLM
           else Inr \<lparr>llm_provider = Some provider, llm_model = model,
                     llm_base_url = attr_value (llm_base_url s), llm_api_key = attr_value (llm_api_key s)\<rparr>))"

definition resolve_authorized_llm :: "runtime \<Rightarrow> cluster option \<Rightarrow> (context_error, llm_settings) res" where
  "resolve_authorized_llm rt cl = authorize_llm rt (resolve_llm rt cl)"

section \<open>Building a context\<close>

text \<open>\<open>__post_init__\<close>: the allowlist is deduplicated and sorted, the environment normalized.\<close>

definition post_init :: "execution_context \<Rightarrow> execution_context" where
  "post_init c = c\<lparr>ec_allowlist := sort (remdups (ec_allowlist c)),
                   ec_environment := normalized_environment (Some (ec_environment c))\<rparr>"

definition present :: "(string \<times> string option) list \<Rightarrow> (string \<times> string) list" where
  "present xs = [(k, v). (k, Some v) \<leftarrow> xs, v \<noteq> []]"

definition version_or_one :: "int option \<Rightarrow> int" where
  "version_or_one v = (case v of Some n \<Rightarrow> (if n = 0 then 1 else n) | None \<Rightarrow> 1)"

definition from_cluster :: "runtime \<Rightarrow> cluster option \<Rightarrow> organization option
    \<Rightarrow> (context_error, execution_context) res" where
  "from_cluster rt cl org =
     (case cl of
        None \<Rightarrow> Inl NoPersistedCluster
      | Some c \<Rightarrow>
          (case cl_id c of
             None \<Rightarrow> Inl NoPersistedCluster
           | Some cid \<Rightarrow>
               rbind (resolve_authorized_llm rt cl) (\<lambda>llm.
               let orgval = (\<lambda>f. case org of Some r \<Rightarrow> attr_value (f r) | None \<Rightarrow> None);
                   creds = present
                     [(''k8s_token'', attr_value (cl_k8s_token c)), (''k8s_api_server'', attr_value (cl_k8s_api_server c)),
                      (''github_token'', attr_value (cl_github_token c)), (''github_repo'', attr_value (cl_github_repo c)),
                      (''notion_api_key'', attr_value (cl_notion_api_key c)),
                      (''notion_database_id'', attr_value (cl_notion_database_id c)),
                      (''llm_api_key'', or_else (llm_api_key llm) (attr_value (cl_llm_api_key c))),
                      (''langfuse_public_key'', orgval org_langfuse_public_key),
                      (''langfuse_secret_key'', orgval org_langfuse_secret_key),
                      (''langfuse_host'', orgval org_langfuse_host)];
                   ns = attr_value (cl_namespace c)
               in if ns = None \<and> namespace_required rt then Inl NamespaceRequired
                  else Inr (post_init \<lparr>ec_organization_id = cl_org_id c, ec_cluster_id = cid,
                    ec_mcp_endpoints = operator_mcp_endpoints rt, ec_credentials = creds, ec_namespace = ns,
                    ec_allowlist = (case ns of Some n \<Rightarrow> [n] | None \<Rightarrow> []), ec_llm_provider = llm_provider llm,
                    ec_llm_model = llm_model llm, ec_llm_base_url = llm_base_url llm,
                    ec_llm_router_enabled = cl_llm_router_enabled c, ec_environment = cluster_environment rt cl,
                    ec_key_version = version_or_one (cl_key_version c),
                    ec_context_version = version_or_one (cl_context_version c)\<rparr>))))"

definition from_environment :: "runtime \<Rightarrow> (context_error, execution_context) res" where
  "from_environment rt =
     (let allowlist = split_items (strip (getenv rt ''EXECUTOR_ALLOWED_NAMESPACES'' [])) in
      rbind (resolve_authorized_llm rt None) (\<lambda>llm.
        case parse_int (getenv rt ''CREDENTIAL_ENCRYPTION_KEY_VERSION'' ''1'') of
          None \<Rightarrow> Inl ContextValueError
        | Some kv \<Rightarrow>
            Inr (post_init \<lparr>ec_organization_id = ''local'', ec_cluster_id = getenv rt ''CLUSTER_ID'' ''local'',
              ec_mcp_endpoints = operator_mcp_endpoints rt,
              ec_credentials = present
                [(''llm_api_key'', or_else (llm_api_key llm) (environ rt ''LLM_API_KEY'')),
                 (''github_token'', environ rt ''GITHUB_TOKEN''), (''notion_api_key'', environ rt ''NOTION_API_KEY''),
                 (''notion_database_id'', environ rt ''NOTION_DATABASE_ID'')],
              ec_namespace = (case allowlist of [n] \<Rightarrow> Some n | _ \<Rightarrow> None), ec_allowlist = allowlist,
              ec_llm_provider = llm_provider llm, ec_llm_model = llm_model llm, ec_llm_base_url = llm_base_url llm,
              ec_llm_router_enabled = lower (strip (getenv rt ''MODEL_ROUTER_ENABLED'' ''true'')) \<in> {''1'', ''true'', ''yes''},
              ec_environment = operator_cluster_environment rt, ec_key_version = kv, ec_context_version = 1\<rparr>)))"

definition require_execution_context :: "runtime \<Rightarrow> execution_context option
    \<Rightarrow> (context_error, execution_context) res" where
  "require_execution_context rt ctx =
     (case ctx of
        Some c \<Rightarrow> Inr c
      | None \<Rightarrow> (if is_production_runtime rt then Inl ContextRequired else from_environment rt))"

section \<open>Using a context\<close>

definition context_endpoint :: "execution_context \<Rightarrow> string \<Rightarrow> (context_error, string) res" where
  "context_endpoint c name =
     (case map_of (ec_mcp_endpoints c) name of
        Some e \<Rightarrow> (if e = [] then Inl (NoEndpoint name) else Inr e)
      | None \<Rightarrow> Inl (NoEndpoint name))"

definition transport_headers :: "runtime \<Rightarrow> execution_context \<Rightarrow> string option
    \<Rightarrow> (context_error, (string \<times> string) list) res" where
  "transport_headers rt c service_token =
     (let token = (case service_token of
            Some t \<Rightarrow> (if t \<noteq> [] then t else strip (getenv rt ''MCP_SERVICE_TOKEN'' []))
          | None \<Rightarrow> strip (getenv rt ''MCP_SERVICE_TOKEN'' []))
      in if token = [] then Inl ServiceTokenRequired
         else Inr ([(''Authorization'', ''Bearer '' @ token), (''X-Sentinel-Organization-ID'', ec_organization_id c),
                    (''X-Sentinel-Cluster-ID'', ec_cluster_id c)]
                   @ (case ec_namespace c of
                        Some n \<Rightarrow> (if n \<noteq> [] then [(''X-Sentinel-Namespace'', n)] else [])
                      | None \<Rightarrow> [])))"

definition json_opt :: "string option \<Rightarrow> pyval" where
  "json_opt s = (case s of Some x \<Rightarrow> PStr x | None \<Rightarrow> PNone)"

definition fingerprint :: "runtime \<Rightarrow> (string \<Rightarrow> string) \<Rightarrow> execution_context \<Rightarrow> string" where
  "fingerprint rt sha256 c =
     sha256 (json_dumps rt '','' '':'' True (PDict
       [(''cluster_id'', PStr (ec_cluster_id c)),
        (''mcp_endpoints'', PList (map (\<lambda>(k, v). PList [PStr k, PStr v]) (sort (ec_mcp_endpoints c)))),
        (''namespace'', json_opt (ec_namespace c)), (''allowlist'', PList (map PStr (ec_allowlist c))),
        (''llm_provider'', json_opt (ec_llm_provider c)), (''llm_model'', json_opt (ec_llm_model c)),
        (''llm_base_url'', json_opt (ec_llm_base_url c)), (''llm_router_enabled'', PBool (ec_llm_router_enabled c)),
        (''environment'', PStr (ec_environment c)), (''key_version'', PInt (ec_key_version c)),
        (''context_version'', PInt (ec_context_version c))]))"

definition org_langfuse_credentials :: "execution_context \<Rightarrow> (string \<times> string option) list option" where
  "org_langfuse_credentials c =
     (if ec_organization_id c = ''local'' then None
      else Some [(''public_key'', map_of (ec_credentials c) ''langfuse_public_key''),
                 (''secret_key'', map_of (ec_credentials c) ''langfuse_secret_key''),
                 (''host'', map_of (ec_credentials c) ''langfuse_host'')])"

definition llm_kwargs :: "execution_context \<Rightarrow> (string \<times> string) list" where
  "llm_kwargs c = present [(''model_id'', ec_llm_model c), (''base_url'', ec_llm_base_url c),
     (''api_key'', map_of (ec_credentials c) ''llm_api_key'')]"

section \<open>Sample cluster\<close>

definition sample_runtime :: "(string \<times> string) list \<Rightarrow> runtime" where
  "sample_runtime env = \<lparr>environ = map_of env, float_repr = \<lambda>_. ''0.0''\<rparr>"

definition sample_cluster :: cluster where
  "sample_cluster = \<lparr>cl_id = Some ''c1'', cl_org_id = ''o1'', cl_k8s_token = Some ''t'', cl_k8s_api_server = None,
     cl_github_token = None, cl_github_repo = None, cl_notion_api_key = None, cl_notion_database_id = None,
     cl_llm_provider = Some ''Anthropic'', cl_llm_model = None, cl_llm_base_url = None, cl_llm_api_key = None,
     cl_llm_router_enabled = False, cl_namespace = Some '' shop '', cl_environment = Some ''Stage'',
     cl_key_version = None, cl_context_version = Some 0\<rparr>"

section \<open>Lemmas\<close>

lemma attr_value_Some: "attr_value v = Some s \<Longrightarrow> s \<noteq> []"
  by (auto simp: attr_value_def split: option.splits if_splits)

lemma map_of_environment_aliases:
  "map_of environment_aliases r = Some e \<Longrightarrow> e \<in> {''production'', ''staging'', ''development'', ''testing''}"
  by (auto simp: environment_aliases_def split: if_splits)

lemma normalized_environment_range:
  "normalized_environment v \<in> {''production'', ''staging'', ''development'', ''testing''}"
  using map_of_environment_aliases by (fastforce simp: normalized_environment_def Let_def split: option.splits)

lemma environment_aliases_canonical:
  "e \<in> {''production'', ''staging'', ''development'', ''testing''} \<Longrightarrow>
     map_of environment_aliases e = Some e \<and> lower (strip e) = e"
proof -
  have "lower (strip ''production'') = ''production''" "lower (strip ''staging'') = ''staging''"
    "lower (strip ''development'') = ''development''" "lower (strip ''testing'') = ''testing''" by code_simp+
  then show "e \<in> {''production'', ''staging'', ''development'', ''testing''} \<Longrightarrow> ?thesis"
    by (auto simp: environment_aliases_def)
qed

lemma normalized_environment_idem [simp]:
  "normalized_environment (Some (normalized_environment v)) = normalized_environment v"
  using environment_aliases_canonical [OF normalized_environment_range [of v]]
  by (simp add: normalized_environment_def)

lemma authorize_llm_provider: "authorize_llm rt s = Inr t \<Longrightarrow> \<exists>p. llm_provider t = Some p \<and>
    p \<in> set supported_llm_providers \<and> p \<in> set (allowed_llm_providers rt)"
  by (auto simp: authorize_llm_def Let_def rbind_eq_Inr split: if_splits)

lemma from_cluster_fields:
  assumes "from_cluster rt cl org = Inr c"
  shows "\<exists>k. cl = Some k \<and> cl_id k = Some (ec_cluster_id c) \<and> ec_organization_id c = cl_org_id k
     \<and> ec_mcp_endpoints c = operator_mcp_endpoints rt \<and> ec_namespace c = attr_value (cl_namespace k)
     \<and> ec_allowlist c = (case ec_namespace c of Some n \<Rightarrow> [n] | None \<Rightarrow> [])
     \<and> ec_environment c = cluster_environment rt cl
     \<and> (namespace_required rt \<longrightarrow> ec_namespace c \<noteq> None)
     \<and> (\<exists>llm. resolve_authorized_llm rt cl = Inr llm \<and> ec_llm_provider c = llm_provider llm)"
  using assms
  by (auto simp: from_cluster_def rbind_eq_Inr Let_def post_init_def cluster_environment_def
      split: option.splits if_splits)

section \<open>Properties\<close>

text \<open>The environment label that policy sees is always one of four, and it is something other than
  production exactly when the cluster, or failing that the operator, names a known other label: an
  absent, blank or misspelt label resolves to production.\<close>

theorem cluster_environment_fails_to_production:
  "cluster_environment rt cl \<in> {''production'', ''staging'', ''development'', ''testing''} \<and>
   (cluster_environment rt cl \<noteq> ''production'' \<longleftrightarrow>
     (let own = attr_value (case cl of Some c \<Rightarrow> cl_environment c | None \<Rightarrow> None);
          label = (case own of Some e \<Rightarrow> Some e | None \<Rightarrow> environ rt ''SENTINEL_CLUSTER_ENVIRONMENT'')
      in \<exists>s. label = Some s
           \<and> lower (strip s) \<in> {''stage'', ''staging'', ''dev'', ''development'', ''test'', ''testing''}))"
proof -
  have iff: "normalized_environment v \<noteq> ''production'' \<longleftrightarrow> (\<exists>s. v = Some s \<and>
      lower (strip s) \<in> {''stage'', ''staging'', ''dev'', ''development'', ''test'', ''testing''})" for v
  proof (cases v)
    case None
    have "lower (strip []) = []" by (simp add: lower_def strip_def strip_where_def)
    then show ?thesis using None by (simp add: normalized_environment_def environment_aliases_def)
  next
    case (Some s)
    show ?thesis by (simp add: Some normalized_environment_def environment_aliases_def Let_def)
  qed
  show ?thesis using normalized_environment_range unfolding cluster_environment_def Let_def iff by blast
qed

text \<open>A context built from a cluster row is confined to that tenant: its identity is the row's, its
  tool endpoints are exactly the operator's (never a tenant-controlled address), its model provider
  passed the operator's allowlist, its allowlist is the cluster's own non-blank namespace or
  nothing, and when a namespace is required it has one.\<close>

theorem from_cluster_confined:
  assumes "from_cluster rt (Some k) org = Inr c"
  shows "cl_id k = Some (ec_cluster_id c) \<and> ec_organization_id c = cl_org_id k
    \<and> ec_mcp_endpoints c = operator_mcp_endpoints rt
    \<and> (\<exists>p. ec_llm_provider c = Some p \<and> p \<in> set supported_llm_providers \<and> p \<in> set (allowed_llm_providers rt))
    \<and> (namespace_required rt \<longrightarrow> ec_namespace c \<noteq> None)
    \<and> ec_allowlist c = (case ec_namespace c of Some n \<Rightarrow> [n] | None \<Rightarrow> [])
    \<and> (\<forall>n \<in> set (ec_allowlist c). n \<noteq> [] \<and> cl_namespace k \<noteq> None \<and> n = strip (the (cl_namespace k)))"
proof -
  note f = from_cluster_fields [OF assms]
  then obtain llm where llm: "resolve_authorized_llm rt (Some k) = Inr llm" "ec_llm_provider c = llm_provider llm"
    by auto
  have "\<forall>n \<in> set (ec_allowlist c). n \<noteq> [] \<and> cl_namespace k \<noteq> None \<and> n = strip (the (cl_namespace k))"
    using f by (auto simp: attr_value_def split: option.splits if_splits)
  moreover have "\<exists>p. ec_llm_provider c = Some p \<and> p \<in> set supported_llm_providers
      \<and> p \<in> set (allowed_llm_providers rt)"
    using llm authorize_llm_provider by (metis resolve_authorized_llm_def)
  ultimately show ?thesis using f by blast
qed

theorem from_cluster_confined_witness:
  "\<exists>c. from_cluster (sample_runtime [(''AGENT_MODE'', ''api'')]) (Some sample_cluster) None = Inr c
     \<and> ec_allowlist c = [''shop''] \<and> ec_llm_provider c = Some ''anthropic''"
proof -
  let ?x = "from_cluster (sample_runtime [(''AGENT_MODE'', ''api'')]) (Some sample_cluster) None"
  have ok: "is_ok ?x" by code_simp
  then obtain c where c: "?x = Inr c" by (auto simp: is_ok_iff)
  have req: "namespace_required (sample_runtime [(''AGENT_MODE'', ''api'')])" by code_simp
  have ns: "cl_namespace sample_cluster = Some '' shop ''" by (simp add: sample_cluster_def)
  have "strip '' shop '' = ''shop''" by code_simp
  with from_cluster_confined [OF c] req ns c show ?thesis
    by (auto simp: supported_llm_providers_def)
qed

end
