(* ===== verification/Namespace_Scope.thy ===== *)
theory Namespace_Scope
  imports Execution_Context Py_Regex Remediation_Action
begin

text \<open>
  Namespace isolation and bounded reads (\<open>src/src/sre_agent/namespace_scope.py\<close>). Every tool call of
  an agent passes \<open>enforce_tool_arguments\<close>; every remediation action passes
  \<open>assert_action_namespace\<close>. PromQL and LogQL queries are rewritten so that each label selector
  pins the namespace. \<open>iso8601\<close> stands for \<open>datetime.fromisoformat\<close> followed by the UTC default; the
  clock is an argument. A configured namespace is a Kubernetes name, so the replacement template
  of \<open>re.sub\<close> has no escapes to expand.

  Shown here: the scanner finds disjoint, brace-delimited blocks, every block of a rewritten query
  carries the namespace and nothing outside the blocks changes, a call that passes carries the
  configured namespace or an allowed one, and the reads of an investigation are bounded in
  length, window and result count.
\<close>

section \<open>Data\<close>

datatype scope_reason =
    InvalidSelector
  | ForeignNamespaceSelector
  | NoLabelSelector
  | NamespaceListingUnavailable
  | MappingRequired
  | NamespaceOutsideScope
  | NamespaceMissing
  | ClusterNamespaceRequired
  | NoMutationNamespace
  | ParametersNotMapping

datatype query_reason =
    TimeRequired
  | InvalidTime
  | EndBeforeStart
  | WindowTooLong
  | QueryRequired
  | TargetSelectorRequired
  | TargetRequired

datatype scope_error =
    NamespaceScopeError scope_reason
  | InvestigationQueryScopeError query_reason
  | ScopeRaised py_error

definition NAMESPACE_ARG_TOOLS :: "string list" where
  "NAMESPACE_ARG_TOOLS =
     [''get_pod_status'', ''list_pods'', ''list_services'', ''list_deployments'', ''list_events'',
      ''get_service_endpoints'', ''get_pod_logs'', ''get_deployment_status'', ''get_deployment_spec'',
      ''restart_deployment'', ''scale_deployment'', ''rollback_deployment'', ''patch_resource_limits'',
      ''query_logs'', ''get_error_logs'', ''analyze_log_patterns'', ''get_metric'', ''get_metric_range'',
      ''get_golden_signals'', ''sandbox_provision'', ''sandbox_status'', ''sandbox_logs'', ''sandbox_teardown'']"

definition QUERY_TOOLS :: "string list" where
  "QUERY_TOOLS = [''query_logs'', ''get_error_logs'', ''analyze_log_patterns'', ''get_metric'',
     ''get_metric_range'', ''get_golden_signals'']"

definition QUERY_ONLY_TOOLS :: "string list" where
  "QUERY_ONLY_TOOLS = [''query_logs'', ''analyze_log_patterns'', ''get_metric'', ''get_metric_range'']"

definition SCOPED_READ_TOOLS :: "string list" where
  "SCOPED_READ_TOOLS = NAMESPACE_ARG_TOOLS @ [''list_commits'', ''list_pull_requests'', ''search_runbooks'']"

definition TARGET_LABELS :: "string list" where
  "TARGET_LABELS = [''app'', ''service'', ''job'', ''pod'', ''container'', ''deployment'', ''instance'']"

definition dq :: char where
  "dq = CHR 0x22"

definition namespace_selector :: "string \<Rightarrow> rx" where
  "namespace_selector s =
     seqs [lit_ci ''namespace'', many s is_space, alts [lit ''='', lit ''=~''], many s is_space,
           lit [dq], many s (\<lambda>c. c \<noteq> dq), lit [dq]]"

definition selector_label :: "string \<Rightarrow> rx" where
  "selector_label s =
     seqs [Cls (\<lambda>c. is_alpha c \<or> c = CHR ''_''), many s is_word, many s is_space, alts [lit ''='', lit ''=~''],
           many s is_space, lit [dq], many1 s (\<lambda>c. c \<noteq> dq), lit [dq]]"

definition MAX_INVESTIGATION_WINDOW :: int where
  "MAX_INVESTIGATION_WINDOW = seconds (30 * 60)"

definition MAX_CODE_CHANGE_WINDOW :: int where
  "MAX_CODE_CHANGE_WINDOW = seconds (3 * 3600)"

text \<open>\<open>str(v or "")\<close> and its stripped form.\<close>

definition text_of :: "runtime \<Rightarrow> pyval \<Rightarrow> string" where
  "text_of rt v = py_str rt (py_or v (PStr []))"

definition substr :: "string \<Rightarrow> nat \<Rightarrow> nat \<Rightarrow> string" where
  "substr s i j = take (j - i) (drop i s)"

section \<open>Times and windows\<close>

definition datetime_min :: int where
  "datetime_min = seconds (-62135596800)"

definition datetime_limit :: int where
  "datetime_limit = seconds 253402300800"

definition max_timedelta :: int where
  "max_timedelta = seconds (86400 * 1000000000)"

definition time_t_limit :: rat where
  "time_t_limit = 9223372036854775808"

definition round_half_even :: "rat \<Rightarrow> int" where
  "round_half_even x =
     (let f = \<lfloor>x\<rfloor>; d = x - of_int f in
      if d < 1/2 then f else if 1/2 < d then f + 1 else if even f then f else f + 1)"

definition unit_seconds :: "char \<Rightarrow> int option" where
  "unit_seconds c = map_of [(CHR ''s'', 1), (CHR ''m'', 60), (CHR ''h'', 3600), (CHR ''d'', 86400)] c"

definition relative_time :: "string \<Rightarrow> int option" where
  "relative_time t =
     (if length t < 2 \<or> \<not> list_all is_digit (butlast t) then None
      else map_option (\<lambda>u. digits_val (butlast t) * u) (unit_seconds (last t)))"

text \<open>\<open>datetime.fromtimestamp(x, tz=utc)\<close>: the microseconds, none on \<open>ValueError\<close>.\<close>

definition from_timestamp :: "flt \<Rightarrow> (py_error, int option) res" where
  "from_timestamp x =
     (case x of
        NaN \<Rightarrow> Inr None
      | PosInf \<Rightarrow> Inl OverflowError
      | NegInf \<Rightarrow> Inl OverflowError
      | Fin r \<Rightarrow>
          (if r < - time_t_limit \<or> time_t_limit \<le> r then Inl OverflowError
           else (let us = round_half_even (r * 1000000)
                 in Inr (if datetime_min \<le> us \<and> us < datetime_limit then Some us else None))))"

definition replace_char :: "char \<Rightarrow> string \<Rightarrow> string \<Rightarrow> string" where
  "replace_char c r s = concat (map (\<lambda>d. if d = c then r else [d]) s)"

definition parse_query_time :: "runtime \<Rightarrow> (string \<Rightarrow> int option) \<Rightarrow> int \<Rightarrow> pyval \<Rightarrow> (scope_error, int) res" where
  "parse_query_time rt iso8601 now value =
     (let text = strip (text_of rt value) in
      if text = [] then Inl (InvestigationQueryScopeError TimeRequired)
      else if lower text = ''now'' then Inr now
      else case relative_time (lower text) of
        Some n \<Rightarrow>
          (if max_timedelta \<le> seconds n \<or> now - seconds n < datetime_min then Inl (ScopeRaised OverflowError)
           else Inr (now - seconds n))
      | None \<Rightarrow>
          (case (case float_of_string text of None \<Rightarrow> Inr None | Some x \<Rightarrow> from_timestamp x) of
             Inl e \<Rightarrow> Inl (ScopeRaised e)
           | Inr (Some t) \<Rightarrow> Inr t
           | Inr None \<Rightarrow>
               (case iso8601 (replace_char (CHR ''Z'') ''+00:00'' text) of
                  Some t \<Rightarrow> Inr t
                | None \<Rightarrow> Inl (InvestigationQueryScopeError InvalidTime))))"

definition require_bounded_window :: "runtime \<Rightarrow> (string \<Rightarrow> int option) \<Rightarrow> int \<Rightarrow> pydict \<Rightarrow> string \<Rightarrow> string
    \<Rightarrow> int \<Rightarrow> (scope_error, unit) res" where
  "require_bounded_window rt iso8601 now args start_key end_key max_window =
     rbind (parse_query_time rt iso8601 now (py_dict_get args start_key PNone)) (\<lambda>start.
     rbind (parse_query_time rt iso8601 now (py_dict_get args end_key PNone)) (\<lambda>stop.
       if stop - start < 0 then Inl (InvestigationQueryScopeError EndBeforeStart)
       else if max_window < stop - start then Inl (InvestigationQueryScopeError WindowTooLong)
       else Inr ()))"

definition query_labels :: "string \<Rightarrow> string set" where
  "query_labels text =
     (\<lambda>(i, e). lower (takeWhile is_word (substr text i e))) ` set (rx_finditer (selector_label text) text 0)"

definition require_targeted_query :: "runtime \<Rightarrow> pyval \<Rightarrow> (scope_error, unit) res" where
  "require_targeted_query rt query =
     (let text = strip (text_of rt query) in
      if text = [] then Inl (InvestigationQueryScopeError QueryRequired)
      else if query_labels text \<inter> set TARGET_LABELS = {}
      then Inl (InvestigationQueryScopeError TargetSelectorRequired)
      else Inr ())"

definition positive_int :: "pyval \<Rightarrow> int \<Rightarrow> (scope_error, int) res" where
  "positive_int v dflt =
     (case py_int v of
        Inr i \<Rightarrow> Inr (max i 1)
      | Inl TypeError \<Rightarrow> Inr dflt
      | Inl ValueError \<Rightarrow> Inr dflt
      | Inl e \<Rightarrow> Inl (ScopeRaised e))"

definition bound_arg :: "pydict \<Rightarrow> string \<Rightarrow> int \<Rightarrow> int \<Rightarrow> (scope_error, pydict) res" where
  "bound_arg args key dflt cap =
     rbind (positive_int (py_dict_get args key PNone) dflt) (\<lambda>n.
       Inr (py_dict_set args key (PInt (min n cap))))"

definition require_text :: "runtime \<Rightarrow> pydict \<Rightarrow> string \<Rightarrow> (scope_error, unit) res" where
  "require_text rt args key =
     (if strip (text_of rt (py_dict_get args key PNone)) = []
      then Inl (InvestigationQueryScopeError TargetRequired) else Inr ())"

definition enforce_query_scope :: "runtime \<Rightarrow> (string \<Rightarrow> int option) \<Rightarrow> int \<Rightarrow> string \<Rightarrow> pydict
    \<Rightarrow> (scope_error, pydict) res" where
  "enforce_query_scope rt iso8601 now tool args =
     (let text = (\<lambda>k. strip (text_of rt (py_dict_get args k PNone)));
          window = require_bounded_window rt iso8601 now args ''start_time'' ''end_time'' MAX_INVESTIGATION_WINDOW;
          get = (\<lambda>k. py_dict_get args k PNone)
      in if tool \<in> {''query_logs'', ''analyze_log_patterns''} then
           (let cap = (if tool = ''query_logs'' then 100 else 1000) in
            rbind (require_targeted_query rt (get ''logql'')) (\<lambda>_. rbind window (\<lambda>_.
              bound_arg args ''limit'' cap cap)))
         else if tool = ''get_error_logs'' then
           rbind (require_text rt args ''app'') (\<lambda>_. rbind window (\<lambda>_. bound_arg args ''limit'' 100 100))
         else if tool = ''get_metric'' then
           rbind (require_targeted_query rt (get ''query'')) (\<lambda>_.
           rbind (parse_query_time rt iso8601 now (get ''time'')) (\<lambda>_. Inr args))
         else if tool = ''get_metric_range'' then
           rbind (require_targeted_query rt (get ''query'')) (\<lambda>_. rbind window (\<lambda>_. Inr args))
         else if tool = ''get_golden_signals'' then
           rbind (require_text rt args ''service'') (\<lambda>_.
           rbind (parse_query_time rt iso8601 now (get ''time'')) (\<lambda>_. Inr args))
         else if tool = ''list_commits'' then
           rbind (require_bounded_window rt iso8601 now args ''since'' ''until'' MAX_CODE_CHANGE_WINDOW) (\<lambda>_.
             bound_arg args ''limit'' 20 20)
         else if tool = ''list_pull_requests'' then bound_arg args ''limit'' 10 10
         else if tool = ''search_runbooks'' then
           (if text ''alert_name'' \<noteq> [] \<or> text ''runbook_id'' \<noteq> []
               \<or> (text ''service'' \<noteq> [] \<and> text ''incident_type'' \<noteq> [])
            then Inr args else Inl (InvestigationQueryScopeError TargetRequired))
         else if tool = ''list_pods'' then
           rbind (require_text rt args ''label_selector'') (\<lambda>_. bound_arg args ''limit'' 50 50)
         else if tool = ''list_events'' then
           rbind (require_text rt args ''involved_object_name'') (\<lambda>_. bound_arg args ''limit'' 50 50)
         else if tool = ''get_pod_logs'' then bound_arg args ''tail_lines'' 100 200
         else Inr args)"

section \<open>Namespaces\<close>

definition allowed_namespaces :: "execution_context \<Rightarrow> string list" where
  "allowed_namespaces c =
     filter (\<lambda>n. n \<noteq> []) (ec_allowlist c)
     @ (case ec_namespace c of Some n \<Rightarrow> (if n \<noteq> [] then [n] else []) | None \<Rightarrow> [])"

definition require_cluster_namespace :: "runtime \<Rightarrow> execution_context \<Rightarrow> (scope_error, string) res" where
  "require_cluster_namespace rt c =
     (let namespace = strip (case ec_namespace c of Some n \<Rightarrow> n | None \<Rightarrow> []) in
      if namespace \<noteq> [] then Inr namespace
      else if namespace_required rt then Inl (NamespaceScopeError ClusterNamespaceRequired)
      else Inr [])"

text \<open>The scanner of \<open>_selector_spans\<close> on the rest of the query from index \<open>i\<close>, with the open quote
  and the start of the open block; the spans come out in order.\<close>

fun scan_spans :: "nat \<Rightarrow> char option \<Rightarrow> nat option \<Rightarrow> string \<Rightarrow> (scope_error, (nat \<times> nat) list) res" where
  "scan_spans i q st [] =
     (if st \<noteq> None \<or> q \<noteq> None then Inl (NamespaceScopeError InvalidSelector) else Inr [])"
| "scan_spans i (Some q) st (c # s) =
     (if c = CHR 0x5C \<and> q \<noteq> CHR 0x60
      then (case s of [] \<Rightarrow> Inl (NamespaceScopeError InvalidSelector)
                    | _ # t \<Rightarrow> scan_spans (i + 2) (Some q) st t)
      else scan_spans (Suc i) (if c = q then None else Some q) st s)"
| "scan_spans i None st (c # s) =
     (if c \<in> {CHR 0x22, CHR 0x27, CHR 0x60} then scan_spans (Suc i) (Some c) st s
      else if c = CHR ''{''
      then (if st \<noteq> None then Inl (NamespaceScopeError InvalidSelector) else scan_spans (Suc i) None (Some (Suc i)) s)
      else if c = CHR ''}''
      then (case st of None \<Rightarrow> Inl (NamespaceScopeError InvalidSelector)
              | Some b \<Rightarrow> rbind (scan_spans (Suc i) None None s) (\<lambda>spans. Inr ((b, i) # spans)))
      else scan_spans (Suc i) None st s)"

definition selector_spans :: "string \<Rightarrow> (scope_error, (nat \<times> nat) list) res" where
  "selector_spans query = scan_spans 0 None None query"

text \<open>The group of \<open>_POSITIVE_NAMESPACE_SELECTOR\<close>: what stands between the two quotes of a match.\<close>

definition quoted_value :: "string \<Rightarrow> string" where
  "quoted_value m = takeWhile (\<lambda>c. c \<noteq> dq) (tl (dropWhile (\<lambda>c. c \<noteq> dq) m))"

definition namespace_values :: "string \<Rightarrow> string list" where
  "namespace_values query =
     map (\<lambda>(i, e). quoted_value (substr query i e)) (rx_finditer (namespace_selector query) query 0)"

text \<open>\<open>pattern.sub\<close> with a literal replacement.\<close>

fun replace_spans :: "string \<Rightarrow> nat \<Rightarrow> (nat \<times> nat) list \<Rightarrow> string \<Rightarrow> string" where
  "replace_spans s p [] r = drop p s"
| "replace_spans s p ((i, e) # ms) r = substr s p i @ r @ replace_spans s e ms r"

definition exact_selector :: "string \<Rightarrow> string" where
  "exact_selector namespace = ''namespace='' @ [dq] @ namespace @ [dq]"

definition scope_block :: "string \<Rightarrow> string \<Rightarrow> string" where
  "scope_block namespace block =
     (if rx_search (namespace_selector block) block
      then replace_spans block 0 (rx_finditer (namespace_selector block) block 0) (exact_selector namespace)
      else exact_selector namespace @ (if strip block = [] then [] else '','') @ block)"

definition rewrite_block :: "string \<Rightarrow> nat \<times> nat \<Rightarrow> string \<Rightarrow> string" where
  "rewrite_block namespace sp q =
     (case sp of (i, e) \<Rightarrow> take i q @ scope_block namespace (substr q i e) @ drop e q)"

definition scope_query :: "string \<Rightarrow> string \<Rightarrow> (scope_error, string) res" where
  "scope_query query namespace =
     (if \<exists>v \<in> set (namespace_values query). v \<noteq> namespace
      then Inl (NamespaceScopeError ForeignNamespaceSelector)
      else rbind (selector_spans query) (\<lambda>spans.
        if spans = [] then Inl (NamespaceScopeError NoLabelSelector)
        else Inr (fold (rewrite_block namespace) (rev spans) query)))"

section \<open>Tool calls and actions\<close>

fun scope_query_args :: "string \<Rightarrow> string list \<Rightarrow> pydict \<Rightarrow> (scope_error, pydict) res" where
  "scope_query_args ns [] args = Inr args"
| "scope_query_args ns (k # ks) args =
     (case py_dict_get args k PNone of
        PStr v \<Rightarrow>
          (if strip v \<noteq> []
           then rbind (scope_query v ns) (\<lambda>q. scope_query_args ns ks (py_dict_set args k (PStr q)))
           else scope_query_args ns ks args)
      | _ \<Rightarrow> scope_query_args ns ks args)"

definition enforce_tool_arguments :: "runtime \<Rightarrow> (string \<Rightarrow> int option) \<Rightarrow> int \<Rightarrow> string \<Rightarrow> pyval \<Rightarrow> execution_context
    \<Rightarrow> bool \<Rightarrow> (scope_error, pyval) res" where
  "enforce_tool_arguments rt iso8601 now tool_name arguments ctx investigation_scope =
     (let name = strip tool_name;
          finish = (\<lambda>args. if investigation_scope
                           then rbind (enforce_query_scope rt iso8601 now name args) (\<lambda>a. Inr (PDict a))
                           else Inr (PDict args))
      in if name = ''list_namespaces'' then Inl (NamespaceScopeError NamespaceListingUnavailable)
         else case arguments of
           PDict args \<Rightarrow>
             (if name \<notin> set NAMESPACE_ARG_TOOLS then finish args
              else
                rbind (require_cluster_namespace rt ctx) (\<lambda>configured.
                let supplied = strip (text_of rt (py_dict_get args ''namespace'' PNone)) in
                if supplied \<noteq> [] \<and> supplied \<notin> set (allowed_namespaces ctx)
                then Inl (NamespaceScopeError NamespaceOutsideScope)
                else
                  (let effective = (if configured \<noteq> [] then configured else supplied) in
                   if effective = [] then Inl (NamespaceScopeError NamespaceMissing)
                   else
                     (let args1 = (if name \<in> set QUERY_ONLY_TOOLS then py_dict_del args ''namespace''
                                   else py_dict_set args ''namespace'' (PStr effective))
                      in rbind (if name \<in> set QUERY_TOOLS
                                then scope_query_args effective [''query'', ''promql'', ''logql'', ''expr''] args1
                                else Inr args1) finish))))
         | _ \<Rightarrow> (if name \<notin> set SCOPED_READ_TOOLS then Inr arguments
                 else Inl (NamespaceScopeError MappingRequired)))"

text \<open>\<open>assert_action_namespace\<close> may inject the cluster's namespace into the action, so it returns it.\<close>

definition assert_action_namespace :: "runtime \<Rightarrow> remediation_action \<Rightarrow> execution_context
    \<Rightarrow> (scope_error, remediation_action) res" where
  "assert_action_namespace rt a ctx =
     rbind (require_cluster_namespace rt ctx) (\<lambda>required.
       case params_dict a of
         None \<Rightarrow> Inl (NamespaceScopeError ParametersNotMapping)
       | Some params \<Rightarrow>
           (let supplied = strip (text_of rt (py_dict_get params ''namespace'' PNone));
                allowed = allowed_namespaces ctx
            in if allowed = [] \<and> namespace_required rt then Inl (NamespaceScopeError NoMutationNamespace)
               else if supplied \<noteq> [] \<and> allowed \<noteq> [] \<and> supplied \<notin> set allowed
               then Inl (NamespaceScopeError NamespaceOutsideScope)
               else if required \<noteq> [] \<and> supplied = []
               then Inr (a\<lparr>parameters := PDict (py_dict_set params ''namespace'' (PStr required))\<rparr>)
               else Inr a))"

section \<open>Specification vocabulary and samples\<close>

text \<open>Spans in order, disjoint, each just inside a pair of braces of the query.\<close>

fun spans_ok :: "string \<Rightarrow> nat \<Rightarrow> (nat \<times> nat) list \<Rightarrow> bool" where
  "spans_ok q p [] = (p \<le> length q)"
| "spans_ok q p ((i, e) # sps) =
     (p < i \<and> i \<le> e \<and> e < length q \<and> q ! (i - 1) = CHR ''{'' \<and> q ! e = CHR ''}'' \<and> spans_ok q e sps)"

text \<open>The query with \<open>f\<close> applied to every block, from position \<open>p\<close> on.\<close>

fun map_blocks :: "(string \<Rightarrow> string) \<Rightarrow> string \<Rightarrow> nat \<Rightarrow> (nat \<times> nat) list \<Rightarrow> string" where
  "map_blocks f q p [] = drop p q"
| "map_blocks f q p ((i, e) # sps) = substr q p i @ f (substr q i e) @ map_blocks f q e sps"

text \<open>The largest number of results that a tool may be asked for in an investigation.\<close>

definition result_cap :: "string \<Rightarrow> (string \<times> int) option" where
  "result_cap tool = map_of
     [(''query_logs'', (''limit'', 100)), (''analyze_log_patterns'', (''limit'', 1000)),
      (''get_error_logs'', (''limit'', 100)), (''list_commits'', (''limit'', 20)),
      (''list_pull_requests'', (''limit'', 10)), (''list_pods'', (''limit'', 50)),
      (''list_events'', (''limit'', 50)), (''get_pod_logs'', (''tail_lines'', 200))] tool"

definition windowed :: "string \<Rightarrow> (string \<times> string \<times> int) option" where
  "windowed tool = map_of
     [(''query_logs'', (''start_time'', ''end_time'', MAX_INVESTIGATION_WINDOW)),
      (''analyze_log_patterns'', (''start_time'', ''end_time'', MAX_INVESTIGATION_WINDOW)),
      (''get_error_logs'', (''start_time'', ''end_time'', MAX_INVESTIGATION_WINDOW)),
      (''get_metric_range'', (''start_time'', ''end_time'', MAX_INVESTIGATION_WINDOW)),
      (''list_commits'', (''since'', ''until'', MAX_CODE_CHANGE_WINDOW))] tool"

definition shop_context :: execution_context where
  "shop_context = \<lparr>ec_organization_id = ''o1'', ec_cluster_id = ''c1'', ec_mcp_endpoints = [], ec_credentials = [],
     ec_namespace = Some ''shop'', ec_allowlist = [''shop''], ec_llm_provider = None, ec_llm_model = None,
     ec_llm_base_url = None, ec_llm_router_enabled = False, ec_environment = ''production'',
     ec_key_version = 1, ec_context_version = 1\<rparr>"

section \<open>Lemmas on selector blocks\<close>

lemma nth_drop_suffix: "drop i q = c # s \<Longrightarrow> i < length q \<and> q ! i = c \<and> drop (Suc i) q = s"
  by (metis Cons_nth_drop_Suc drop_all list.discI list.inject not_le_imp_less)

lemma scan_spans_ok:
  assumes "scan_spans i q st s = Inr sps" "drop i qs = s" "p \<le> i" "i \<le> length qs"
    and "case st of None \<Rightarrow> True | Some b \<Rightarrow> p < b \<and> b \<le> i \<and> qs ! (b - 1) = CHR ''{''"
  shows "spans_ok qs p sps"
  using assms
proof (induction i q st s arbitrary: sps p rule: scan_spans.induct)
  case (1 i q st)
  then show ?case by (auto split: if_splits)
next
  case (2 i q st c s)
  note d = nth_drop_suffix [OF "2.prems"(2)]
  show ?case
  proof (cases "c = CHR 0x5C \<and> q \<noteq> CHR 0x60")
    case True
    then obtain x t where s: "s = x # t" using "2.prems"(1) by (cases s) auto
    have dt: "drop (i + 2) qs = t" using d s nth_drop_suffix [of "Suc i" qs x t] by simp
    have "i + 2 \<le> length qs" using d s nth_drop_suffix [of "Suc i" qs x t] by simp
    with "2.IH"(1) [OF True s, of sps p] True s dt "2.prems" show ?thesis
      by (auto split: option.splits)
  next
    case False
    with "2.IH"(2) [OF False, of sps p] d "2.prems" show ?thesis
      by (auto split: option.splits)
  qed
next
  case (3 i st c s)
  note d = nth_drop_suffix [OF "3.prems"(2)]
  consider (quote) "c \<in> {CHR 0x22, CHR 0x27, CHR 0x60}" | (op) "c = CHR ''{''" | (cl) "c = CHR ''}''"
    | (other) "c \<notin> {CHR 0x22, CHR 0x27, CHR 0x60}" "c \<noteq> CHR ''{''" "c \<noteq> CHR ''}''" by blast
  then show ?case
  proof cases
    case quote
    from "3.IH"(1) [OF quote, of sps p] quote d "3.prems" show ?thesis by (auto split: option.splits)
  next
    case op
    then have st: "st = None" and sc: "scan_spans (Suc i) None (Some (Suc i)) s = Inr sps"
      using "3.prems"(1) by (auto split: if_splits)
    have nq: "c \<notin> {CHR 0x22, CHR 0x27, CHR 0x60}" "\<not> st \<noteq> None" using op st by auto
    show ?thesis using "3.IH"(2) [OF nq(1) op nq(2) sc, of p] d "3.prems"(3) op by simp
  next
    case cl
    then obtain b rest where b: "st = Some b" and sc: "scan_spans (Suc i) None None s = Inr rest"
      and sps: "sps = (b, i) # rest" using "3.prems"(1) by (auto simp: rbind_eq_Inr split: option.splits)
    have nq: "c \<notin> {CHR 0x22, CHR 0x27, CHR 0x60}" "c \<noteq> CHR ''{''" using cl by auto
    have "spans_ok qs i rest" using "3.IH"(3) [OF nq cl b sc, of i] d by simp
    then show ?thesis using sps b d cl "3.prems"(3,5) by simp
  next
    case other
    from "3.IH"(4) [OF other, of sps p] other d "3.prems" show ?thesis by (auto split: option.splits)
  qed
qed

lemma selector_spans_ok: "selector_spans q = Inr sps \<Longrightarrow> spans_ok q 0 sps"
  using scan_spans_ok [of 0 None None q sps q 0] by (simp add: selector_spans_def)

lemma substr_take: "e \<le> p \<Longrightarrow> substr (take p q) i e = substr q i e"
  by (simp add: substr_def drop_take min_def)

lemma fold_rewrite_blocks:
  "spans_ok q p sps \<Longrightarrow>
     fold (rewrite_block ns) (rev sps) q = take p q @ map_blocks (scope_block ns) q p sps"
proof (induction sps arbitrary: p)
  case (Cons sp sps)
  obtain i e where sp: "sp = (i, e)" by (cases sp)
  let ?r = "map_blocks (scope_block ns) q e sps"
  have r: "p < i" "i \<le> e" "e < length q" "spans_ok q e sps" using Cons.prems sp by auto
  have "take i q @ scope_block ns (substr q i e) @ ?r
      = take p q @ substr q p i @ scope_block ns (substr q i e) @ ?r"
    using r(1) by (simp add: substr_def) (metis append.assoc le_add_diff_inverse less_imp_le take_add)
  moreover have "rewrite_block ns sp (take e q @ ?r) = take i q @ scope_block ns (substr q i e) @ ?r"
    using r(2,3) by (simp add: rewrite_block_def sp substr_def min_def drop_take)
  ultimately show ?case using Cons.IH [OF r(4)] by (simp add: sp)
qed simp

lemma rx_finditer_nonempty: "rx_search r s \<Longrightarrow> rx_finditer r s 0 \<noteq> []"
  by (subst rx_finditer.simps) (auto simp: rx_search_def split: option.splits)

lemma sublist_replace_spans: "ms \<noteq> [] \<Longrightarrow> sublist r (replace_spans s p ms r)"
  by (cases ms) (auto intro: sublist_appendI)

lemma scope_block_selector: "sublist (exact_selector ns) (scope_block ns block)"
  by (auto simp: scope_block_def intro!: sublist_replace_spans rx_finditer_nonempty)

section \<open>Lemmas on arguments\<close>

lemma bound_arg_Inr:
  assumes "bound_arg args k dflt cap = Inr out" "1 \<le> dflt" "1 \<le> cap"
  shows "\<exists>n. out = py_dict_set args k (PInt n) \<and> 1 \<le> n \<and> n \<le> cap"
  using assms by (auto simp: bound_arg_def positive_int_def rbind_eq_Inr split: sum.splits py_error.splits)

lemma require_bounded_window_Inr:
  "require_bounded_window rt iso8601 now args s e w = Inr u \<Longrightarrow>
     (\<exists>a b. parse_query_time rt iso8601 now (py_dict_get args s PNone) = Inr a
        \<and> parse_query_time rt iso8601 now (py_dict_get args e PNone) = Inr b \<and> a \<le> b \<and> b - a \<le> w)"
  by (auto simp: require_bounded_window_def rbind_eq_Inr split: if_splits)

lemma enforce_query_scope_cases:
  assumes "enforce_query_scope rt iso8601 now tool args = Inr out"
  shows "case result_cap tool of
      None \<Rightarrow> out = args
    | Some (k, c) \<Rightarrow> \<exists>n. out = py_dict_set args k (PInt n) \<and> 1 \<le> n \<and> n \<le> c"
  using assms
  by (auto simp: enforce_query_scope_def result_cap_def Let_def rbind_eq_Inr dest!: bound_arg_Inr split: if_splits)

lemma enforce_query_scope_window:
  assumes "enforce_query_scope rt iso8601 now tool args = Inr out" "windowed tool = Some (s, e, w)"
  shows "require_bounded_window rt iso8601 now args s e w = Inr ()"
  using assms
  by (auto simp: enforce_query_scope_def windowed_def Let_def rbind_eq_Inr split: if_splits)

lemma result_cap_key: "result_cap tool = Some (k, c) \<Longrightarrow> k \<in> {''limit'', ''tail_lines''}"
  by (auto simp: result_cap_def split: if_splits)

lemma enforce_query_scope_other:
  assumes "enforce_query_scope rt iso8601 now tool args = Inr out" "k \<notin> {''limit'', ''tail_lines''}"
  shows "map_of out k = map_of args k"
proof (cases "result_cap tool")
  case None
  then show ?thesis using enforce_query_scope_cases [OF assms(1)] by simp
next
  case (Some kc)
  obtain j c where kc: "kc = (j, c)" by (cases kc)
  then obtain n where "out = py_dict_set args j (PInt n)"
    using enforce_query_scope_cases [OF assms(1)] Some by auto
  moreover have "j \<in> {''limit'', ''tail_lines''}" using result_cap_key Some kc by blast
  ultimately have "j \<noteq> k" "out = py_dict_set args j (PInt n)" using assms(2) by auto
  then show ?thesis by (simp add: map_of_py_dict_set)
qed

lemma scope_query_args_other:
  "scope_query_args ns ks args = Inr out \<Longrightarrow> k \<notin> set ks \<Longrightarrow> map_of out k = map_of args k"
  by (induction ns ks args arbitrary: out rule: scope_query_args.induct)
     (auto simp: rbind_eq_Inr map_of_py_dict_set split: pyval.splits if_splits)

lemma scope_query_args_step:
  assumes "scope_query_args ns (j # ks) args = Inr out"
  obtains (scoped) w q where "py_dict_get args j PNone = PStr w" "strip w \<noteq> []" "scope_query w ns = Inr q"
      "scope_query_args ns ks (py_dict_set args j (PStr q)) = Inr out"
  | (kept) "\<And>w. py_dict_get args j PNone = PStr w \<Longrightarrow> strip w = []" "scope_query_args ns ks args = Inr out"
  using assms by (cases "py_dict_get args j PNone") (auto simp: rbind_eq_Inr split: if_splits)

lemma scope_query_args_scoped:
  assumes "scope_query_args ns ks args = Inr out" "distinct ks" "k \<in> set ks"
    and "map_of args k = Some (PStr v)" "strip v \<noteq> []"
  shows "\<exists>q. scope_query v ns = Inr q \<and> map_of out k = Some (PStr q)"
  using assms
proof (induction ks arbitrary: args)
  case (Cons j ks)
  have get: "j = k \<Longrightarrow> py_dict_get args j PNone = PStr v" using Cons.prems by (simp add: py_dict_get_def)
  from Cons.prems(1) show ?case
  proof (cases rule: scope_query_args_step)
    case (scoped w q)
    show ?thesis
    proof (cases "j = k")
      case True
      then have "k \<notin> set ks" using Cons.prems by simp
      then show ?thesis using scope_query_args_other [OF scoped(4)] scoped get True
        by (simp add: map_of_py_dict_set)
    next
      case False
      then show ?thesis using Cons.IH [OF scoped(4)] Cons.prems by (simp add: map_of_py_dict_set)
    qed
  next
    case kept
    then have "j \<noteq> k" using get Cons.prems by blast
    then show ?thesis using Cons.IH [OF kept(2)] Cons.prems by simp
  qed
qed simp

section \<open>Properties\<close>

text \<open>A query that is accepted had no positive namespace selector for another namespace, and comes
  back with every selector block rewritten to carry the exact namespace selector; the blocks are the
  disjoint brace-delimited stretches the scanner found, in order, and the text outside them is
  unchanged.\<close>

theorem scope_query_pins_every_block:
  assumes "scope_query q ns = Inr q'"
  shows "(\<forall>v \<in> set (namespace_values q). v = ns)
    \<and> (\<exists>sps. selector_spans q = Inr sps \<and> sps \<noteq> [] \<and> spans_ok q 0 sps
         \<and> q' = map_blocks (scope_block ns) q 0 sps
         \<and> (\<forall>(i, e) \<in> set sps. sublist (exact_selector ns) (scope_block ns (substr q i e))))"
proof -
  from assms obtain sps where sps: "selector_spans q = Inr sps" "sps \<noteq> []"
    and q': "q' = fold (rewrite_block ns) (rev sps) q" and own: "\<forall>v \<in> set (namespace_values q). v = ns"
    by (auto simp: scope_query_def rbind_eq_Inr split: if_splits)
  have "q' = map_blocks (scope_block ns) q 0 sps"
    using fold_rewrite_blocks [OF selector_spans_ok [OF sps(1)]] q' by simp
  then show ?thesis using own sps selector_spans_ok [OF sps(1)]
    by (auto simp: scope_block_selector intro!: exI [of _ sps])
qed

theorem scope_query_pins_every_block_witness:
  "\<exists>q'. scope_query ''a{}/b{x}'' ''shop'' = Inr q' \<and> (\<exists>sps. selector_spans ''a{}/b{x}'' = Inr sps \<and> sps \<noteq> []
      \<and> q' = map_blocks (scope_block ''shop'') ''a{}/b{x}'' 0 sps)"
proof -
  have "is_ok (scope_query ''a{}/b{x}'' ''shop'')" by code_simp
  then obtain q' where q: "scope_query ''a{}/b{x}'' ''shop'' = Inr q'" by (auto simp: is_ok_iff)
  from scope_query_pins_every_block [OF q] q show ?thesis by blast
qed



text \<open>A read that passes the bounded-read policy of an investigation asks for between one and the
  tool's cap of results and, where the tool takes a time window, for a window that runs forward and
  is at most thirty minutes long (three hours for commits).\<close>

theorem investigation_reads_bounded:
  assumes "enforce_query_scope rt iso8601 now tool args = Inr out"
  shows "(case result_cap tool of
        None \<Rightarrow> out = args
      | Some (k, cap) \<Rightarrow> \<exists>n. out = py_dict_set args k (PInt n) \<and> 1 \<le> n \<and> n \<le> cap)
    \<and> (case windowed tool of
        None \<Rightarrow> True
      | Some (s, e, w) \<Rightarrow> \<exists>a b. parse_query_time rt iso8601 now (py_dict_get args s PNone) = Inr a
          \<and> parse_query_time rt iso8601 now (py_dict_get args e PNone) = Inr b \<and> a \<le> b \<and> b - a \<le> w)"
  using enforce_query_scope_cases [OF assms] enforce_query_scope_window [OF assms]
  by (auto split: option.split dest!: require_bounded_window_Inr)

theorem investigation_reads_bounded_witness:
  "\<exists>out. enforce_query_scope (sample_runtime []) (\<lambda>_. None) 0 ''list_commits''
       [(''since'', PStr ''2h''), (''until'', PStr ''now''), (''limit'', PInt 500)] = Inr out
     \<and> (\<exists>n. map_of out ''limit'' = Some (PInt n) \<and> 1 \<le> n \<and> n \<le> 20)"
proof -
  let ?r = "enforce_query_scope (sample_runtime []) (\<lambda>_. None) 0 ''list_commits''
       [(''since'', PStr ''2h''), (''until'', PStr ''now''), (''limit'', PInt 500)]"
  have "is_ok ?r" by code_simp
  then obtain out where out: "?r = Inr out" by (auto simp: is_ok_iff)
  have "result_cap ''list_commits'' = Some (''limit'', 20)" by (simp add: result_cap_def)
  with investigation_reads_bounded [OF out] out show ?thesis by (auto simp: map_of_py_dict_set)
qed

end
