(* ===== verification/Confidence_Calibration.thy ===== *)
theory Confidence_Calibration
  imports Policy_Gate Py_Json
begin

text \<open>
  Task-specific confidence calibration (\<open>src/src/sre_agent/confidence_calibration.py\<close>): measured
  outcomes are split into equal-frequency bins, pooled so that the calibrated probability never
  decreases, scored into a curve of candidate thresholds, and the cheapest eligible threshold
  becomes the autonomy threshold, but only for evidence from live benchmarks. Finite floats are
  rationals; \<open>math.sqrt\<close>, SHA-256, the clock and the ISO texts of \<open>datetime\<close> are arguments (\<open>cal_lib\<close>).
  Reading an artifact file back is in \<open>Calibration_Artifact\<close>.

  Shown here: the chunks partition the sorted records without separating equal confidences, the
  pooled probabilities are monotone Laplace estimates, the selected operating point is eligible and
  cheapest, an artifact with a threshold rests on live evidence with enough support, and a higher
  raw confidence never calibrates to a lower probability.
\<close>

section \<open>Data\<close>

text \<open>What calibration code raises: its own error, an error of the file system, or another one.\<close>

datatype cal_error = CalibrationError | CalOSError | CalRaised py_error

definition confidence_tasks :: "string list" where
  "confidence_tasks = [''diagnosis'', ''remediation'']"

definition evidence_source_names :: "string list" where
  "evidence_source_names = [''live_benchmark'', ''replay'', ''synthetic'']"

definition autonomy_evidence :: string where
  "autonomy_evidence = ''live_benchmark''"

record confidence_record =
  cr_task :: string
  cr_rubric_version :: string
  cr_raw_confidence :: rat
  cr_outcome :: bool
  cr_scenario :: string
  cr_scenario_version :: string
  cr_dataset_sha256 :: string
  cr_config_fingerprint :: string
  cr_pair_id :: string
  cr_observed_at :: int
  cr_evidence_source :: string

record calibration_bin =
  cb_upper_bound :: rat
  cb_count :: nat
  cb_successes :: nat
  cb_probability :: rat

record cost_model =
  false_autonomy_cost :: rat
  abstention_cost :: rat

record operating_point =
  op_threshold :: rat
  op_autonomous :: nat
  op_abstained :: nat
  op_true_autonomy :: nat
  op_false_autonomy :: nat
  op_success_rate :: rat
  op_wilson_lower :: rat
  op_coverage :: rat
  op_expected_cost :: rat
  op_meets_support_floor :: bool
  op_meets_wilson_floor :: bool

record calibration_artifact =
  ca_artifact_version :: string
  ca_task :: string
  ca_rubric_version :: string
  ca_config_fingerprint :: string
  ca_source_sha256 :: string
  ca_sample_count :: nat
  ca_bins :: "calibration_bin list"
  ca_autonomy_threshold :: "rat option"
  ca_threshold_support :: nat
  ca_threshold_wilson_lower :: "rat option"
  ca_required_wilson_lower :: rat
  ca_minimum_threshold_support :: nat
  ca_cost_model :: cost_model
  ca_threshold_curve :: "operating_point list"
  ca_always_abstain_cost :: rat
  ca_always_autonomous_cost :: rat
  ca_selected_cost :: "rat option"
  ca_evidence_sources :: "string list"
  ca_autonomy_blocked_reason :: "string option"
  ca_built_at :: int
  ca_artifact_sha256 :: string

record calibrated_confidence =
  cc_task :: string
  cc_raw_confidence :: rat
  cc_calibrated_probability :: rat
  cc_artifact_version :: string
  cc_artifact_sha256 :: string
  cc_autonomy_threshold :: "rat option"
  cc_blocked_reason :: "string option"

text \<open>The library functions behind calibration: \<open>math.sqrt\<close>, the hexadecimal SHA-256 digest of a text,
  \<open>datetime.isoformat\<close>, the time of a timezone-aware ISO text (none for any other text), and the
  decimal representation of floats.\<close>

record cal_lib =
  cl_sqrt :: "rat \<Rightarrow> rat"
  cl_sha256 :: "string \<Rightarrow> string"
  cl_isoformat :: "int \<Rightarrow> string"
  cl_fromisoformat :: "string \<Rightarrow> int option"
  cl_rt :: runtime

section \<open>Validation of records\<close>

definition cal_string :: "pyval \<Rightarrow> (cal_error, string) res" where
  "cal_string v = (case v of PStr s \<Rightarrow> (if strip s = [] then Inl CalibrationError else Inr (strip s))
     | _ \<Rightarrow> Inl CalibrationError)"

definition cal_probability :: "pyval \<Rightarrow> (cal_error, rat) res" where
  "cal_probability v =
     (if \<not> is_number v then Inl CalibrationError
      else case num_float v of
        Inl e \<Rightarrow> Inl (CalRaised e)
      | Inr (Fin x) \<Rightarrow> (if 0 \<le> x \<and> x \<le> 1 then Inr x else Inl CalibrationError)
      | Inr _ \<Rightarrow> Inl CalibrationError)"

definition cal_cost :: "pyval \<Rightarrow> (cal_error, rat) res" where
  "cal_cost v =
     (if \<not> is_number v then Inl CalibrationError
      else case num_float v of
        Inl e \<Rightarrow> Inl (CalRaised e)
      | Inr (Fin x) \<Rightarrow> (if 0 < x then Inr x else Inl CalibrationError)
      | Inr _ \<Rightarrow> Inl CalibrationError)"

definition lower_hex :: "char \<Rightarrow> bool" where
  "lower_hex c = (c \<in> set ''0123456789abcdef'')"

definition cal_sha256 :: "pyval \<Rightarrow> (cal_error, string) res" where
  "cal_sha256 v = rbind (cal_string v) (\<lambda>t.
     if length t \<noteq> 64 \<or> \<not> list_all lower_hex t then Inl CalibrationError else Inr t)"

text \<open>\<open>aware_iso\<close> is \<open>cl_fromisoformat\<close> of the library.\<close>

definition cal_timestamp :: "(string \<Rightarrow> int option) \<Rightarrow> pyval \<Rightarrow> (cal_error, int) res" where
  "cal_timestamp aware_iso v = rbind (cal_string v) (\<lambda>t.
     case aware_iso (concat (map (\<lambda>c. if c = CHR ''Z'' then ''+00:00'' else [c]) t)) of
       Some x \<Rightarrow> Inr x | None \<Rightarrow> Inl CalibrationError)"

definition record_keys :: "string list" where
  "record_keys = [''schema_version'', ''task'', ''rubric_version'', ''raw_confidence'', ''outcome'', ''scenario'',
     ''scenario_version'', ''dataset_sha256'', ''config_fingerprint'', ''pair_id'', ''observed_at'', ''evidence_source'']"

text \<open>\<open>{"schema_version": 2, "evidence_source": "live_benchmark", **values}\<close>.\<close>

definition with_defaults :: "pydict \<Rightarrow> pydict" where
  "with_defaults values = foldl (\<lambda>d (k, v). py_dict_set d k v)
     [(''schema_version'', PInt 2), (''evidence_source'', PStr ''live_benchmark'')] values"

definition build_confidence_record :: "(string \<Rightarrow> int option) \<Rightarrow> pydict \<Rightarrow> (cal_error, confidence_record) res" where
  "build_confidence_record aware_iso values =
     (let p = with_defaults values; get = (\<lambda>k. py_dict_get p k PNone) in
      if fst ` set p \<noteq> set record_keys then Inl CalibrationError
      else if get ''schema_version'' \<notin> {PInt 2, PFloat (Fin 2)} then Inl CalibrationError
      else rbind (cal_string (get ''task'')) (\<lambda>task.
        if task \<notin> set confidence_tasks then Inl CalibrationError
        else rbind (cal_string (get ''evidence_source'')) (\<lambda>source.
          if source \<notin> set evidence_source_names then Inl CalibrationError
          else case get ''outcome'' of
            PBool outcome \<Rightarrow>
              rbind (cal_timestamp aware_iso (get ''observed_at'')) (\<lambda>observed.
              rbind (cal_string (get ''rubric_version'')) (\<lambda>rubric.
              rbind (cal_probability (get ''raw_confidence'')) (\<lambda>raw.
              rbind (cal_string (get ''scenario'')) (\<lambda>scenario.
              rbind (cal_string (get ''scenario_version'')) (\<lambda>scenario_version.
              rbind (cal_sha256 (get ''dataset_sha256'')) (\<lambda>dataset.
              rbind (cal_sha256 (get ''config_fingerprint'')) (\<lambda>fingerprint.
              rbind (cal_string (get ''pair_id'')) (\<lambda>pair.
                Inr \<lparr>cr_task = task, cr_rubric_version = rubric, cr_raw_confidence = raw, cr_outcome = outcome,
                     cr_scenario = scenario, cr_scenario_version = scenario_version, cr_dataset_sha256 = dataset,
                     cr_config_fingerprint = fingerprint, cr_pair_id = pair, cr_observed_at = observed,
                     cr_evidence_source = source\<rparr>))))))))
          | _ \<Rightarrow> Inl CalibrationError)))"

text \<open>\<open>load_confidence_records\<close> on the lines of the file: each line one JSON object, no empty line and no
  repeated (task, pair, fingerprint).\<close>

fun load_record_lines :: "(string \<Rightarrow> int option) \<Rightarrow> (string \<times> string \<times> string) list \<Rightarrow> string list
    \<Rightarrow> (cal_error, confidence_record list) res" where
  "load_record_lines aware_iso seen [] = Inr []"
| "load_record_lines aware_iso seen (l # ls) =
     (if strip l = [] then Inl CalibrationError
      else case json_loads l of
        None \<Rightarrow> Inl CalibrationError
      | Some (PDict d) \<Rightarrow>
          rbind (build_confidence_record aware_iso d) (\<lambda>r.
            let identity = (cr_task r, cr_pair_id r, cr_config_fingerprint r) in
            if identity \<in> set seen then Inl CalibrationError
            else rbind (load_record_lines aware_iso (identity # seen) ls) (\<lambda>rs. Inr (r # rs)))
      | Some _ \<Rightarrow> Inl (CalRaised TypeError))"

definition load_confidence_records :: "(string \<Rightarrow> int option) \<Rightarrow> string list \<Rightarrow> (cal_error, confidence_record list) res" where
  "load_confidence_records aware_iso lines =
     (if lines = [] then Inl CalibrationError else load_record_lines aware_iso [] lines)"

definition task_records :: "confidence_record list \<Rightarrow> string \<Rightarrow> string option \<Rightarrow> (cal_error, confidence_record list) res" where
  "task_records records task fingerprint0 =
     (if task \<notin> set confidence_tasks then Inl CalibrationError
      else rbind (case fingerprint0 of None \<Rightarrow> Inr None | Some f \<Rightarrow> rbind (cal_sha256 (PStr f)) (\<lambda>x. Inr (Some x)))
        (\<lambda>fingerprint.
          let selected = filter (\<lambda>r. cr_task r = task \<and>
                (case fingerprint of None \<Rightarrow> True | Some f \<Rightarrow> cr_config_fingerprint r = f)) records
          in if selected = [] then Inl CalibrationError
             else if length (remdups (map cr_rubric_version selected)) \<noteq> 1 then Inl CalibrationError
             else Inr selected))"

section \<open>Chunks\<close>

text \<open>Advance a cut past records of equal confidence.\<close>

function advance_cut :: "confidence_record list \<Rightarrow> nat \<Rightarrow> nat" where
  "advance_cut sel pos =
     (if pos < length sel \<and> cr_raw_confidence (sel ! (pos - 1)) = cr_raw_confidence (sel ! pos)
      then advance_cut sel (Suc pos) else pos)"
  by pat_completeness auto
termination
  by (relation "measure (\<lambda>(sel, pos). length sel - pos)") auto

declare advance_cut.simps [simp del]

definition add_cut :: "confidence_record list \<Rightarrow> nat \<Rightarrow> nat list \<Rightarrow> nat \<Rightarrow> nat list" where
  "add_cut sel requested cuts index =
     (let pos = advance_cut sel (index * length sel div requested) in
      if pos < length sel \<and> last cuts < pos then cuts @ [pos] else cuts)"

definition make_cuts :: "confidence_record list \<Rightarrow> nat \<Rightarrow> nat list" where
  "make_cuts sel requested = foldl (add_cut sel requested) [0] [1..<requested] @ [length sel]"

definition cut_chunks :: "confidence_record list \<Rightarrow> nat list \<Rightarrow> confidence_record list list" where
  "cut_chunks sel cuts =
     [take (e - s) (drop s sel). (s, e) \<leftarrow> zip cuts (tl cuts), s < e]"

definition chunks_supported :: "nat \<Rightarrow> confidence_record list list \<Rightarrow> bool" where
  "chunks_supported min_samples chunks = (2 \<le> length chunks \<and> (\<forall>c \<in> set chunks. min_samples \<le> length c))"

definition equal_frequency_chunks :: "confidence_record list \<Rightarrow> nat \<Rightarrow> nat \<Rightarrow> (cal_error, confidence_record list list) res" where
  "equal_frequency_chunks sel maximum_bins min_samples =
     (if min_samples = 0 then Inl (CalRaised ZeroDivisionError)
      else let mx = min maximum_bins (length sel div min_samples) in
        case List.find (chunks_supported min_samples)
               (map (\<lambda>requested. cut_chunks sel (make_cuts sel requested)) (rev [2..<Suc mx])) of
          Some chunks \<Rightarrow> Inr chunks
        | None \<Rightarrow> Inl CalibrationError)"

section \<open>Pooling adjacent violators\<close>

record block =
  bl_indices :: "nat list"
  bl_count :: nat
  bl_successes :: nat

definition block_probability :: "block \<Rightarrow> rat" where
  "block_probability b = (of_nat (bl_successes b) + 1) / (of_nat (bl_count b) + 2)"

definition merge_blocks :: "block \<Rightarrow> block \<Rightarrow> block" where
  "merge_blocks l r = \<lparr>bl_indices = bl_indices l @ bl_indices r, bl_count = bl_count l + bl_count r,
     bl_successes = bl_successes l + bl_successes r\<rparr>"

text \<open>The inner loop on the stack of blocks, top first.\<close>

fun pool_top :: "block list \<Rightarrow> block list" where
  "pool_top (r # l # bs) =
     (if block_probability l \<le> block_probability r then r # l # bs else pool_top (merge_blocks l r # bs))"
| "pool_top bs = bs"

definition successes :: "confidence_record list \<Rightarrow> nat" where
  "successes rs = length (filter cr_outcome rs)"

fun pool_chunks :: "nat \<Rightarrow> block list \<Rightarrow> confidence_record list list \<Rightarrow> block list" where
  "pool_chunks i bs [] = bs"
| "pool_chunks i bs (c # cs) =
     pool_chunks (Suc i)
       (pool_top (\<lparr>bl_indices = [i], bl_count = length c, bl_successes = successes c\<rparr> # bs)) cs"

definition assign_block :: "rat list \<Rightarrow> block \<Rightarrow> rat list" where
  "assign_block ps b = foldl (\<lambda>q i. q[i := block_probability b]) ps (bl_indices b)"

definition monotonic_bin_probabilities :: "confidence_record list list \<Rightarrow> rat list" where
  "monotonic_bin_probabilities chunks =
     foldl assign_block (replicate (length chunks) 0) (rev (pool_chunks 0 [] chunks))"

section \<open>Thresholds\<close>

text \<open>\<open>_wilson_lower\<close> with its default z; \<open>sqrtf\<close> is \<open>math.sqrt\<close>.\<close>

definition wilson_z :: rat where
  "wilson_z = 1959963984540054 / 1000000000000000"

definition wilson_lower :: "(rat \<Rightarrow> rat) \<Rightarrow> nat \<Rightarrow> nat \<Rightarrow> rat" where
  "wilson_lower sqrtf s n =
     (let t = of_nat n; p = of_nat s / t; zz = wilson_z * wilson_z;
          denominator = 1 + zz / t;
          center = (p + zz / (2 * t)) / denominator;
          spread = wilson_z * sqrtf (p * (1 - p) / t + zz / (4 * t * t)) / denominator
      in max 0 (center - spread))"

definition score_threshold :: "(rat \<Rightarrow> rat) \<Rightarrow> calibration_bin list \<Rightarrow> cost_model \<Rightarrow> nat \<Rightarrow> rat \<Rightarrow> rat \<Rightarrow> operating_point" where
  "score_threshold sqrtf bins cost min_support required candidate =
     (let total = sum_list (map cb_count bins);
          eligible = filter (\<lambda>b. candidate \<le> cb_probability b) bins;
          autonomous = sum_list (map cb_count eligible);
          true_autonomy = sum_list (map cb_successes eligible);
          false_autonomy = autonomous - true_autonomy;
          abstained = total - autonomous
      in \<lparr>op_threshold = candidate, op_autonomous = autonomous, op_abstained = abstained,
          op_true_autonomy = true_autonomy, op_false_autonomy = false_autonomy,
          op_success_rate = of_nat true_autonomy / of_nat autonomous,
          op_wilson_lower = wilson_lower sqrtf true_autonomy autonomous,
          op_coverage = of_nat autonomous / of_nat total,
          op_expected_cost = (of_nat false_autonomy * false_autonomy_cost cost
                                + of_nat abstained * abstention_cost cost) / of_nat total,
          op_meets_support_floor = (min_support \<le> autonomous),
          op_meets_wilson_floor = (required \<le> wilson_lower sqrtf true_autonomy autonomous)\<rparr>)"

definition threshold_curve :: "(rat \<Rightarrow> rat) \<Rightarrow> calibration_bin list \<Rightarrow> cost_model \<Rightarrow> nat \<Rightarrow> rat \<Rightarrow> operating_point list" where
  "threshold_curve sqrtf bins cost min_support required =
     map (score_threshold sqrtf bins cost min_support required) (sort (remdups (map cb_probability bins)))"

definition op_eligible :: "operating_point \<Rightarrow> bool" where
  "op_eligible p = (op_meets_support_floor p \<and> op_meets_wilson_floor p)"

definition op_key :: "operating_point \<Rightarrow> rat \<times> rat" where
  "op_key p = (op_expected_cost p, - op_threshold p)"

text \<open>\<open>min(xs, key=k)\<close>: the first element with the least key.\<close>

fun min_by_key :: "('a \<Rightarrow> 'k::linorder) \<Rightarrow> 'a \<Rightarrow> 'a list \<Rightarrow> 'a" where
  "min_by_key k x [] = x"
| "min_by_key k x (y # ys) = min_by_key k (if k y < k x then y else x) ys"

definition select_operating_point :: "operating_point list \<Rightarrow> operating_point option" where
  "select_operating_point curve =
     (case filter op_eligible curve of [] \<Rightarrow> None | p # ps \<Rightarrow> Some (min_by_key op_key p ps))"

section \<open>The artifact\<close>

record calibration_options =
  co_minimum_samples :: nat
  co_minimum_bin_samples :: nat
  co_maximum_bins :: nat
  co_minimum_threshold_support :: nat
  co_required_wilson_lower :: rat
  co_false_autonomy_cost :: pyval
  co_abstention_cost :: pyval

definition default_calibration_options :: calibration_options where
  "default_calibration_options = \<lparr>co_minimum_samples = 100, co_minimum_bin_samples = 20, co_maximum_bins = 10,
     co_minimum_threshold_support = 40, co_required_wilson_lower = 9/10,
     co_false_autonomy_cost = PFloat (Fin 20), co_abstention_cost = PFloat (Fin 1)\<rparr>"

definition make_bins :: "confidence_record list list \<Rightarrow> calibration_bin list" where
  "make_bins chunks =
     (let ps = monotonic_bin_probabilities chunks in
      map (\<lambda>(i, c). \<lparr>cb_upper_bound = (if i = length chunks - 1 then 1 else cr_raw_confidence (last c)),
                     cb_count = length c, cb_successes = successes c, cb_probability = ps ! i\<rparr>)
        (enumerate 0 chunks))"

definition not_live_reason :: "string list \<Rightarrow> string" where
  "not_live_reason sources =
     ''autonomy requires evidence observed only from live benchmark runs; this corpus contains '' @ join '', '' sources"

definition no_point_reason :: "runtime \<Rightarrow> nat \<Rightarrow> rat \<Rightarrow> string" where
  "no_point_reason rt min_support required =
     ''no operating point reached '' @ show_int (int min_support)
       @ '' autonomous observations with a Wilson lower bound of '' @ flt_str rt (Fin required)"

definition autonomy_block :: "runtime \<Rightarrow> string list \<Rightarrow> operating_point option \<Rightarrow> nat \<Rightarrow> rat \<Rightarrow> string option" where
  "autonomy_block rt sources point min_support required =
     (if sources \<noteq> [autonomy_evidence] then Some (not_live_reason sources)
      else if point = None then Some (no_point_reason rt min_support required)
      else None)"

text \<open>\<open>asdict\<close> of the data classes inside an artifact, the payload its digest covers and the whole
  dictionary. A missing value is \<open>None\<close>.\<close>

abbreviation pnum :: "rat \<Rightarrow> pyval" where
  "pnum x \<equiv> PFloat (Fin x)"

definition popt :: "('a \<Rightarrow> pyval) \<Rightarrow> 'a option \<Rightarrow> pyval" where
  "popt f x = (case x of None \<Rightarrow> PNone | Some v \<Rightarrow> f v)"

definition bin_dict :: "calibration_bin \<Rightarrow> pyval" where
  "bin_dict b = PDict [(''upper_bound'', pnum (cb_upper_bound b)), (''count'', PInt (int (cb_count b))),
     (''successes'', PInt (int (cb_successes b))), (''calibrated_probability'', pnum (cb_probability b))]"

definition cost_dict :: "cost_model \<Rightarrow> pyval" where
  "cost_dict c = PDict [(''false_autonomy_cost'', pnum (false_autonomy_cost c)), (''abstention_cost'', pnum (abstention_cost c))]"

definition point_dict :: "operating_point \<Rightarrow> pyval" where
  "point_dict p = PDict [(''threshold'', pnum (op_threshold p)), (''autonomous'', PInt (int (op_autonomous p))),
     (''abstained'', PInt (int (op_abstained p))), (''true_autonomy'', PInt (int (op_true_autonomy p))),
     (''false_autonomy'', PInt (int (op_false_autonomy p))), (''autonomous_success_rate'', pnum (op_success_rate p)),
     (''wilson_lower'', pnum (op_wilson_lower p)), (''coverage'', pnum (op_coverage p)),
     (''expected_cost_per_action'', pnum (op_expected_cost p)), (''meets_support_floor'', PBool (op_meets_support_floor p)),
     (''meets_wilson_floor'', PBool (op_meets_wilson_floor p))]"

definition SELECTION_RULE :: string where
  "SELECTION_RULE = ''lowest expected cost per action among operating points whose autonomous '' @
     ''population meets minimum_threshold_support and whose Wilson lower bound '' @
     ''meets required_wilson_lower; ties resolve to the higher threshold''"

definition artifact_payload :: "cal_lib \<Rightarrow> calibration_artifact \<Rightarrow> pydict" where
  "artifact_payload lib a =
     [(''schema_version'', PInt 2), (''artifact_version'', PStr (ca_artifact_version a)), (''task'', PStr (ca_task a)),
      (''rubric_version'', PStr (ca_rubric_version a)), (''config_fingerprint'', PStr (ca_config_fingerprint a)),
      (''source_sha256'', PStr (ca_source_sha256 a)), (''sample_count'', PInt (int (ca_sample_count a))),
      (''bins'', PList (map bin_dict (ca_bins a))), (''autonomy_threshold'', popt pnum (ca_autonomy_threshold a)),
      (''threshold_support'', PInt (int (ca_threshold_support a))),
      (''threshold_wilson_lower'', popt pnum (ca_threshold_wilson_lower a)),
      (''required_wilson_lower'', pnum (ca_required_wilson_lower a)),
      (''minimum_threshold_support'', PInt (int (ca_minimum_threshold_support a))),
      (''cost_model'', cost_dict (ca_cost_model a)), (''threshold_curve'', PList (map point_dict (ca_threshold_curve a))),
      (''always_abstain_cost'', pnum (ca_always_abstain_cost a)),
      (''always_autonomous_cost'', pnum (ca_always_autonomous_cost a)),
      (''selected_cost'', popt pnum (ca_selected_cost a)), (''evidence_sources'', PList (map PStr (ca_evidence_sources a))),
      (''autonomy_blocked_reason'', popt PStr (ca_autonomy_blocked_reason a)), (''selection_rule'', PStr SELECTION_RULE),
      (''built_at'', PStr (cl_isoformat lib (ca_built_at a)))]"

definition payload_digest :: "cal_lib \<Rightarrow> pydict \<Rightarrow> string" where
  "payload_digest lib payload = cl_sha256 lib (json_dumps (cl_rt lib) '','' '':'' True (PDict payload))"

definition artifact_to_dict :: "cal_lib \<Rightarrow> calibration_artifact \<Rightarrow> pydict" where
  "artifact_to_dict lib a = artifact_payload lib a @ [(''artifact_sha256'', PStr (ca_artifact_sha256 a))]"

definition finish_artifact :: "cal_lib \<Rightarrow> int \<Rightarrow> calibration_options \<Rightarrow> confidence_record list
    \<Rightarrow> confidence_record list list \<Rightarrow> cost_model \<Rightarrow> string \<Rightarrow> string \<Rightarrow> string \<Rightarrow> string \<Rightarrow> calibration_artifact" where
  "finish_artifact lib now opts selected chunks cost task source fingerprint version =
     (let bins = make_bins chunks;
          curve = threshold_curve (cl_sqrt lib) bins cost (co_minimum_threshold_support opts) (co_required_wilson_lower opts);
          point = select_operating_point curve;
          sources = sort (remdups (map cr_evidence_source selected));
          blocked = autonomy_block (cl_rt lib) sources point (co_minimum_threshold_support opts) (co_required_wilson_lower opts);
          granted = (if blocked = None then point else None);
          failures = sum_list (map (\<lambda>b. cb_count b - cb_successes b) bins);
          unsigned = \<lparr>ca_artifact_version = version, ca_task = task, ca_rubric_version = cr_rubric_version (hd selected),
          ca_config_fingerprint = fingerprint, ca_source_sha256 = source, ca_sample_count = length selected,
          ca_bins = bins, ca_autonomy_threshold = map_option op_threshold granted,
          ca_threshold_support = (case granted of Some p \<Rightarrow> op_autonomous p | None \<Rightarrow> 0),
          ca_threshold_wilson_lower = map_option op_wilson_lower granted,
          ca_required_wilson_lower = co_required_wilson_lower opts,
          ca_minimum_threshold_support = co_minimum_threshold_support opts, ca_cost_model = cost,
          ca_threshold_curve = curve, ca_always_abstain_cost = abstention_cost cost,
          ca_always_autonomous_cost = of_nat failures * false_autonomy_cost cost / of_nat (length selected),
          ca_selected_cost = map_option op_expected_cost granted, ca_evidence_sources = sources,
          ca_autonomy_blocked_reason = blocked, ca_built_at = now, ca_artifact_sha256 = []\<rparr>
      in unsigned\<lparr>ca_artifact_sha256 := payload_digest lib (artifact_payload lib unsigned)\<rparr>)"

definition build_calibration_artifact :: "cal_lib \<Rightarrow> int \<Rightarrow> calibration_options \<Rightarrow> confidence_record list \<Rightarrow> string
    \<Rightarrow> string \<Rightarrow> string \<Rightarrow> string \<Rightarrow> (cal_error, calibration_artifact) res" where
  "build_calibration_artifact lib now opts records task source_sha256 config_fingerprint artifact_version =
     rbind (cal_sha256 (PStr config_fingerprint)) (\<lambda>fingerprint.
     rbind (task_records records task (Some fingerprint)) (\<lambda>rs.
     let selected = sort_key cr_raw_confidence rs in
     if length selected < co_minimum_samples opts then Inl CalibrationError
     else if co_minimum_bin_samples opts < 2 then Inl CalibrationError
     else if \<not> (0 < co_required_wilson_lower opts \<and> co_required_wilson_lower opts < 1) then Inl CalibrationError
     else if co_maximum_bins opts < 2 then Inl CalibrationError
     else if co_minimum_threshold_support opts < 1 then Inl CalibrationError
     else
       rbind (equal_frequency_chunks selected (co_maximum_bins opts) (co_minimum_bin_samples opts)) (\<lambda>chunks.
       rbind (cal_cost (co_false_autonomy_cost opts)) (\<lambda>fac.
       rbind (cal_cost (co_abstention_cost opts)) (\<lambda>abc.
       rbind (cal_string (PStr artifact_version)) (\<lambda>version.
       rbind (cal_sha256 (PStr source_sha256)) (\<lambda>source.
         Inr (finish_artifact lib now opts selected chunks
               \<lparr>false_autonomy_cost = fac, abstention_cost = abc\<rparr> task source fingerprint version))))))))"

definition autonomy_beats_abstention :: "calibration_artifact \<Rightarrow> bool" where
  "autonomy_beats_abstention a = (case ca_selected_cost a of None \<Rightarrow> False | Some c \<Rightarrow> c < ca_always_abstain_cost a)"

definition select_bin :: "rat \<Rightarrow> calibration_bin list \<Rightarrow> calibration_bin" where
  "select_bin raw bins =
     (case List.find (\<lambda>b. raw \<le> cb_upper_bound b) bins of Some b \<Rightarrow> b | None \<Rightarrow> last bins)"

definition calibrate_confidence :: "pyval \<Rightarrow> calibration_artifact \<Rightarrow> string \<Rightarrow> string
    \<Rightarrow> (cal_error, calibrated_confidence) res" where
  "calibrate_confidence raw_confidence artifact task config_fingerprint =
     rbind (cal_probability raw_confidence) (\<lambda>raw.
       if ca_task artifact \<noteq> task then Inl CalibrationError
       else rbind (cal_sha256 (PStr config_fingerprint)) (\<lambda>fingerprint.
         if ca_config_fingerprint artifact \<noteq> fingerprint then Inl CalibrationError
         else Inr \<lparr>cc_task = task, cc_raw_confidence = raw,
                   cc_calibrated_probability = cb_probability (select_bin raw (ca_bins artifact)),
                   cc_artifact_version = ca_artifact_version artifact,
                   cc_artifact_sha256 = ca_artifact_sha256 artifact,
                   cc_autonomy_threshold = ca_autonomy_threshold artifact,
                   cc_blocked_reason = ca_autonomy_blocked_reason artifact\<rparr>))"

definition autonomy_eligible :: "calibrated_confidence \<Rightarrow> bool" where
  "autonomy_eligible c = (case cc_autonomy_threshold c of None \<Rightarrow> False | Some t \<Rightarrow> t \<le> cc_calibrated_probability c)"

section \<open>Lemmas on chunks\<close>

lemma advance_cut_ge: "pos \<le> advance_cut sel pos"
  by (induction sel pos rule: advance_cut.induct) (subst advance_cut.simps, auto)

lemma advance_cut_le: "pos \<le> length sel \<Longrightarrow> advance_cut sel pos \<le> length sel"
  by (induction sel pos rule: advance_cut.induct) (subst advance_cut.simps, auto)

lemma advance_cut_stop:
  "advance_cut sel pos < length sel \<Longrightarrow>
     cr_raw_confidence (sel ! (advance_cut sel pos - 1)) \<noteq> cr_raw_confidence (sel ! advance_cut sel pos)"
proof (induction sel pos rule: advance_cut.induct)
  case (1 sel pos)
  then show ?case by (cases "pos < length sel \<and> cr_raw_confidence (sel ! (pos - 1)) = cr_raw_confidence (sel ! pos)")
      (auto simp: advance_cut.simps [of sel pos])
qed

text \<open>A list of cuts: it starts at zero, increases, and every inner cut separates two different
  confidences.\<close>

definition cuts_ok :: "confidence_record list \<Rightarrow> nat list \<Rightarrow> bool" where
  "cuts_ok sel cuts = (cuts \<noteq> [] \<and> hd cuts = 0 \<and> sorted_wrt (<) cuts \<and>
     (\<forall>c \<in> set cuts. 0 < c \<longrightarrow> c < length sel \<and> cr_raw_confidence (sel ! (c - 1)) \<noteq> cr_raw_confidence (sel ! c)))"

lemma add_cut_ok: "cuts_ok sel cuts \<Longrightarrow> cuts_ok sel (add_cut sel requested cuts i)"
proof -
  assume ok: "cuts_ok sel cuts"
  have "x < c" if "x \<in> set cuts" "last cuts < c" for x c
  proof -
    have "x \<le> last cuts" using ok that(1)
      by (metis cuts_ok_def last_in_set sorted_wrt_append split_list append_is_Nil_conv last_append last_ConsL
          last_ConsR list.simps(3) order.order_iff_strict sorted_wrt.simps(2))
    with that show ?thesis by simp
  qed
  with ok show ?thesis using advance_cut_stop
    by (auto simp: cuts_ok_def add_cut_def Let_def sorted_wrt_append hd_append)
qed

lemma foldl_add_cut_ok: "cuts_ok sel cuts \<Longrightarrow> cuts_ok sel (foldl (add_cut sel requested) cuts is)"
  by (induction "is" arbitrary: cuts) (auto intro: add_cut_ok)

lemma cut_chunks_single [simp]: "cut_chunks sel [s] = []"
  by (simp add: cut_chunks_def)

lemma cut_chunks_Cons:
  "s < e \<Longrightarrow> cut_chunks sel (s # e # cs) = take (e - s) (drop s sel) # cut_chunks sel (e # cs)"
  by (simp add: cut_chunks_def)

lemma cut_chunks_concat:
  "sorted_wrt (<) (s # cs) \<Longrightarrow> concat (cut_chunks sel (s # cs)) = take (last (s # cs) - s) (drop s sel)"
proof (induction cs arbitrary: s)
  case (Cons e cs)
  have se: "s < e" and st: "sorted_wrt (<) (e # cs)" using Cons.prems by auto
  have le: "e \<le> last (e # cs)" using st by (cases cs) (auto intro: less_imp_le)
  have "take (e - s) (drop s sel) @ take (last (e # cs) - e) (drop e sel)
      = take ((e - s) + (last (e # cs) - e)) (drop s sel)"
    unfolding take_add using se by simp
  moreover have "(e - s) + (last (e # cs) - e) = last (s # e # cs) - s" using se le by simp
  ultimately show ?case using Cons.IH [OF st] se by (simp add: cut_chunks_Cons)
qed simp

lemma boundary_separates:
  assumes "sorted (map cr_raw_confidence sel)" "0 < c" "c < length sel"
    and "cr_raw_confidence (sel ! (c - 1)) \<noteq> cr_raw_confidence (sel ! c)"
    and "x \<in> set (take c sel)" "y \<in> set (drop c sel)"
  shows "cr_raw_confidence x < cr_raw_confidence y"
proof -
  have mono: "cr_raw_confidence (sel ! i) \<le> cr_raw_confidence (sel ! j)" if "i \<le> j" "j < length sel" for i j
    using sorted_nth_mono [OF assms(1), of i j] that by simp
  obtain i where i: "i < c" "x = sel ! i" using assms(3,5) by (auto simp: in_set_conv_nth)
  obtain j where j: "j < length sel - c" "y = sel ! (c + j)" using assms(6) by (auto simp: in_set_conv_nth)
  have "cr_raw_confidence x \<le> cr_raw_confidence (sel ! (c - 1))" using mono [of i "c - 1"] i assms(3) by simp
  moreover have "cr_raw_confidence (sel ! (c - 1)) \<le> cr_raw_confidence (sel ! c)"
    using mono [of "c - 1" c] assms(3) by simp
  moreover have "cr_raw_confidence (sel ! c) \<le> cr_raw_confidence y" using mono [of c "c + j"] j by simp
  ultimately show ?thesis using assms(4) by simp
qed

definition below :: "confidence_record list \<Rightarrow> confidence_record list \<Rightarrow> bool" where
  "below xs ys = (\<forall>x \<in> set xs. \<forall>y \<in> set ys. cr_raw_confidence x < cr_raw_confidence y)"

lemma cut_chunks_below:
  assumes "sorted (map cr_raw_confidence sel)" "sorted_wrt (<) (s # cs)"
    and "\<forall>c \<in> set cs. c < length sel \<longrightarrow> cr_raw_confidence (sel ! (c - 1)) \<noteq> cr_raw_confidence (sel ! c)"
  shows "sorted_wrt below (cut_chunks sel (s # cs)) \<and> (\<forall>ch \<in> set (cut_chunks sel (s # cs)). set ch \<subseteq> set (drop s sel))"
  using assms(2,3)
proof (induction cs arbitrary: s)
  case (Cons e cs)
  have se: "s < e" and st: "sorted_wrt (<) (e # cs)" using Cons.prems by auto
  have IH: "sorted_wrt below (cut_chunks sel (e # cs))"
    "\<forall>ch \<in> set (cut_chunks sel (e # cs)). set ch \<subseteq> set (drop e sel)"
    using Cons.IH [OF st] Cons.prems by auto
  have first: "set (take (e - s) (drop s sel)) \<subseteq> set (take e sel)"
    by (metis Nat.add_diff_assoc2 add_diff_cancel_left' drop_take se less_imp_le set_drop_subset)
  have "below (take (e - s) (drop s sel)) ch" if ch: "ch \<in> set (cut_chunks sel (e # cs))" for ch
    unfolding below_def
  proof (intro ballI)
    fix x y assume x: "x \<in> set (take (e - s) (drop s sel))" and y: "y \<in> set ch"
    have yd: "y \<in> set (drop e sel)" using IH(2) ch y by blast
    then have len: "e < length sel" by (metis drop_all empty_iff list.set(1) not_le_imp_less)
    show "cr_raw_confidence x < cr_raw_confidence y"
      by (rule boundary_separates [OF assms(1) _ len])
         (use se Cons.prems(2) len first x yd in auto)
  qed
  moreover have "set (take (e - s) (drop s sel)) \<subseteq> set (drop s sel)" by (rule set_take_subset)
  moreover have "set (drop e sel) \<subseteq> set (drop s sel)" using se by (simp add: set_drop_subset_set_drop)
  ultimately show ?case using IH se by (fastforce simp: cut_chunks_Cons)
qed simp

lemma make_cuts_ok:
  assumes "sel \<noteq> []"
  shows "\<exists>cs. make_cuts sel requested = 0 # cs \<and> sorted_wrt (<) (0 # cs) \<and> last (0 # cs) = length sel
     \<and> (\<forall>c \<in> set cs. c < length sel \<longrightarrow> cr_raw_confidence (sel ! (c - 1)) \<noteq> cr_raw_confidence (sel ! c))"
proof -
  have ok: "cuts_ok sel (foldl (add_cut sel requested) [0] [1..<requested])"
    by (rule foldl_add_cut_ok) (simp add: cuts_ok_def)
  then obtain ds where ds: "foldl (add_cut sel requested) [0] [1..<requested] = 0 # ds"
    by (cases "foldl (add_cut sel requested) [0] [1..<requested]") (auto simp: cuts_ok_def)
  have pos: "\<forall>d \<in> set ds. 0 < d \<and> d < length sel \<and>
      cr_raw_confidence (sel ! (d - 1)) \<noteq> cr_raw_confidence (sel ! d)"
    using ok unfolding ds by (simp add: cuts_ok_def)
  have "sorted_wrt (<) (0 # ds @ [length sel])"
    using ok pos assms unfolding ds by (auto simp: cuts_ok_def sorted_wrt_append)
  then show ?thesis using pos by (intro exI [of _ "ds @ [length sel]"]) (use ds in \<open>auto simp: make_cuts_def\<close>)
qed

lemma length_foldl_add_cut: "length (foldl (add_cut sel requested) cuts js) \<le> length cuts + length js"
proof (induction js arbitrary: cuts)
  case (Cons j js)
  have "length (add_cut sel requested cuts j) \<le> Suc (length cuts)" by (simp add: add_cut_def Let_def)
  with Cons.IH [of "add_cut sel requested cuts j"] show ?case by simp
qed simp

lemma length_cut_chunks: "length (cut_chunks sel (s # cs)) \<le> length cs"
proof (induction cs arbitrary: s)
  case (Cons e cs)
  then show ?case by (cases "s < e") (auto simp: cut_chunks_def intro: le_SucI)
qed simp

lemma length_make_chunks:
  assumes "sel \<noteq> []" "1 \<le> requested"
  shows "length (cut_chunks sel (make_cuts sel requested)) \<le> requested"
proof -
  obtain cs where cs: "make_cuts sel requested = 0 # cs" using make_cuts_ok [OF assms(1)] by blast
  have "length (make_cuts sel requested) \<le> Suc requested"
    using length_foldl_add_cut [of sel requested "[0]" "[1..<requested]"] assms(2) by (simp add: make_cuts_def)
  then show ?thesis using length_cut_chunks [of sel 0 cs] cs by simp
qed

lemma equal_frequency_chunks_Inr:
  assumes "equal_frequency_chunks sel mb ms = Inr chunks"
  shows "\<exists>requested. 2 \<le> requested \<and> requested \<le> mb \<and> chunks = cut_chunks sel (make_cuts sel requested)
     \<and> 2 \<le> length chunks \<and> (\<forall>c \<in> set chunks. ms \<le> length c) \<and> sel \<noteq> []"
proof -
  let ?mx = "min mb (length sel div ms)"
  have "ms \<noteq> 0" and f: "List.find (chunks_supported ms)
      (map (\<lambda>r. cut_chunks sel (make_cuts sel r)) (rev [2..<Suc ?mx])) = Some chunks"
    using assms by (auto simp: equal_frequency_chunks_def Let_def split: if_splits option.splits)
  from find_Some_mem [OF f] obtain r where "r \<in> set (rev [2..<Suc ?mx])"
    and r': "chunks = cut_chunks sel (make_cuts sel r)" "chunks_supported ms chunks" by fastforce
  then have r: "2 \<le> r" "r \<le> ?mx" by auto
  have "sel \<noteq> []" using r(1,2) by auto
  then show ?thesis using r r' by (auto simp: chunks_supported_def)
qed

section \<open>Lemmas on pooling\<close>

lemma pool_top_indices:
  "concat (map bl_indices (rev (pool_top bs))) = concat (map bl_indices (rev bs))"
  by (induction bs rule: pool_top.induct) (auto simp: merge_blocks_def)

lemma pool_top_sorted:
  "sorted (rev (map block_probability (tl bs))) \<Longrightarrow> sorted (rev (map block_probability (pool_top bs)))"
  by (induction bs rule: pool_top.induct) (fastforce simp: sorted_append)+

lemma pool_top_counts: "\<forall>b \<in> set bs. bl_successes b \<le> bl_count b \<Longrightarrow>
    \<forall>b \<in> set (pool_top bs). bl_successes b \<le> bl_count b"
  by (induction bs rule: pool_top.induct) (auto simp: merge_blocks_def)

lemma pool_chunks_inv:
  assumes "concat (map bl_indices (rev bs)) = [0..<i]" "sorted (rev (map block_probability bs))"
    "\<forall>b \<in> set bs. bl_successes b \<le> bl_count b"
  shows "concat (map bl_indices (rev (pool_chunks i bs cs))) = [0..<i + length cs]
    \<and> sorted (rev (map block_probability (pool_chunks i bs cs)))
    \<and> (\<forall>b \<in> set (pool_chunks i bs cs). bl_successes b \<le> bl_count b)"
  using assms
proof (induction cs arbitrary: i bs)
  case (Cons c cs)
  let ?b = "\<lparr>bl_indices = [i], bl_count = length c, bl_successes = successes c\<rparr>"
  have "\<forall>b \<in> set (?b # bs). bl_successes b \<le> bl_count b"
    using Cons.prems(3) by (auto simp: successes_def)
  then have "\<forall>b \<in> set (pool_top (?b # bs)). bl_successes b \<le> bl_count b" by (rule pool_top_counts)
  moreover have "concat (map bl_indices (rev (pool_top (?b # bs)))) = [0..<Suc i]"
    unfolding pool_top_indices using Cons.prems(1) by simp
  moreover have "sorted (rev (map block_probability (pool_top (?b # bs))))"
    by (rule pool_top_sorted) (simp add: Cons.prems(2))
  ultimately show ?case using Cons.IH [of "pool_top (?b # bs)" "Suc i"] by simp
qed simp

text \<open>A block carries the totals of the chunks whose indices it holds.\<close>

definition block_of :: "confidence_record list list \<Rightarrow> block \<Rightarrow> bool" where
  "block_of chunks b =
     (bl_count b = sum_list (map (\<lambda>i. length (chunks ! i)) (bl_indices b))
      \<and> bl_successes b = sum_list (map (\<lambda>i. successes (chunks ! i)) (bl_indices b)))"

lemma pool_top_totals:
  "\<forall>b \<in> set bs. block_of chunks b \<Longrightarrow> \<forall>b \<in> set (pool_top bs). block_of chunks b"
  by (induction bs rule: pool_top.induct) (auto simp: merge_blocks_def block_of_def)

lemma pool_chunks_totals:
  assumes "\<forall>b \<in> set bs. block_of chunks b" "cs = drop i chunks"
  shows "\<forall>b \<in> set (pool_chunks i bs cs). block_of chunks b"
  using assms
proof (induction cs arbitrary: i bs)
  case (Cons c cs)
  have i: "i < length chunks" "chunks ! i = c" "cs = drop (Suc i) chunks"
    using Cons.prems(2) by (metis Cons_nth_drop_Suc drop_all list.discI list.inject not_le_imp_less)+
  have "\<forall>b \<in> set (\<lparr>bl_indices = [i], bl_count = length c, bl_successes = successes c\<rparr> # bs). block_of chunks b"
    using Cons.prems(1) i(2) by (auto simp: block_of_def)
  from Cons.IH [OF pool_top_totals [OF this] i(3)] show ?case by simp
qed simp

lemma update_range:
  "k + l \<le> length ps \<Longrightarrow> foldl (\<lambda>q i. q[i := p]) ps [k..<k + l] = take k ps @ replicate l p @ drop (k + l) ps"
proof (induction l)
  case (Suc l)
  have "foldl (\<lambda>q i. q[i := p]) ps [k..<k + Suc l] = (take k ps @ replicate l p @ drop (k + l) ps)[k + l := p]"
    using Suc by simp
  also have "\<dots> = take k ps @ replicate l p @ (drop (k + l) ps)[0 := p]"
    using Suc.prems by (simp add: list_update_append)
  also have "(drop (k + l) ps)[0 := p] = p # drop (k + Suc l) ps"
    using Suc.prems by (metis Cons_nth_drop_Suc add_Suc_right list_update_code(2) less_eq_Suc_le)
  finally show ?case by (simp add: replicate_app_Cons_same)
qed simp

lemma assign_blocks:
  assumes "concat (map bl_indices bs) = [k..<n]" "length ps = n" "k \<le> n"
  shows "foldl assign_block ps bs
    = take k ps @ concat (map (\<lambda>b. replicate (length (bl_indices b)) (block_probability b)) bs)"
  using assms
proof (induction bs arbitrary: k ps)
  case Nil
  then have "n \<le> k" by (metis concat.simps(1) list.simps(8) upt_eq_Nil_conv le_zero_eq order_refl)
  then show ?case using Nil by simp
next
  case (Cons b bs)
  let ?l = "length (bl_indices b)"
  have app: "bl_indices b @ concat (map bl_indices bs) = [k..<n]" using Cons.prems by simp
  have l: "k + ?l \<le> n" using arg_cong [OF app, of length] Cons.prems(3) by simp
  have idx: "bl_indices b = [k..<k + ?l]"
    using arg_cong [OF app, of "take ?l"] l by (simp add: take_upt)
  have rest: "concat (map bl_indices bs) = [k + ?l..<n]"
    using arg_cong [OF app, of "drop ?l"] by simp
  have upd: "assign_block ps b = take k ps @ replicate ?l (block_probability b) @ drop (k + ?l) ps"
    using update_range [of k ?l ps "block_probability b"] l Cons.prems(2) idx by (simp add: assign_block_def)
  then show ?case using Cons.IH [OF rest, of "assign_block ps b"] l Cons.prems(2) by simp
qed

lemma sorted_concat_replicate:
  "sorted (map f bs) \<Longrightarrow> sorted (concat (map (\<lambda>b. replicate (g b) (f b)) bs))"
  by (induction bs) (auto simp: sorted_append)

lemma block_probability_bounds: "bl_successes b \<le> bl_count b \<Longrightarrow> 0 < block_probability b \<and> block_probability b < 1"
  by (auto simp: block_probability_def divide_less_eq intro: add_le_less_mono)

lemma monotonic_bin_probabilities_blocks:
  "\<exists>bs. monotonic_bin_probabilities chunks = concat (map (\<lambda>b. replicate (length (bl_indices b)) (block_probability b)) bs)
     \<and> sorted (map block_probability bs) \<and> (\<forall>b \<in> set bs. bl_successes b \<le> bl_count b)
     \<and> concat (map bl_indices bs) = [0..<length chunks] \<and> (\<forall>b \<in> set bs. block_of chunks b)"
proof -
  let ?bs = "rev (pool_chunks 0 [] chunks)"
  have inv: "concat (map bl_indices ?bs) = [0..<length chunks]" "sorted (map block_probability ?bs)"
    "\<forall>b \<in> set ?bs. bl_successes b \<le> bl_count b"
    using pool_chunks_inv [of "[]" 0 chunks] by (auto simp: rev_map)
  then have "monotonic_bin_probabilities chunks
      = concat (map (\<lambda>b. replicate (length (bl_indices b)) (block_probability b)) ?bs)"
    using assign_blocks [OF inv(1), of "replicate (length chunks) 0"] by (simp add: monotonic_bin_probabilities_def)
  moreover have "\<forall>b \<in> set ?bs. block_of chunks b" using pool_chunks_totals [of "[]" chunks chunks 0] by simp
  ultimately show ?thesis using inv by blast
qed

lemma monotonic_bin_probabilities_props:
  "sorted (monotonic_bin_probabilities chunks)" "length (monotonic_bin_probabilities chunks) = length chunks"
  "p \<in> set (monotonic_bin_probabilities chunks) \<Longrightarrow> 0 < p \<and> p < 1"
proof -
  obtain bs where bs: "monotonic_bin_probabilities chunks
      = concat (map (\<lambda>b. replicate (length (bl_indices b)) (block_probability b)) bs)"
    "sorted (map block_probability bs)" "\<forall>b \<in> set bs. bl_successes b \<le> bl_count b"
    "concat (map bl_indices bs) = [0..<length chunks]"
    using monotonic_bin_probabilities_blocks by blast
  show "sorted (monotonic_bin_probabilities chunks)" using bs(1,2) sorted_concat_replicate by simp
  show "length (monotonic_bin_probabilities chunks) = length chunks"
    using arg_cong [OF bs(4), of length] by (simp add: bs(1) length_concat comp_def)
  show "p \<in> set (monotonic_bin_probabilities chunks) \<Longrightarrow> 0 < p \<and> p < 1"
    using bs(1,3) block_probability_bounds by auto
qed

section \<open>Lemmas on thresholds and bins\<close>

lemma min_by_key_least:
  "min_by_key k x ys \<in> set (x # ys) \<and> (\<forall>y \<in> set (x # ys). k (min_by_key k x ys) \<le> k y)"
proof (induction ys arbitrary: x)
  case (Cons y ys)
  let ?z = "if k y < k x then y else x"
  have "k ?z \<le> k x" "k ?z \<le> k y" by auto
  with Cons.IH [of ?z] show ?case by (auto intro: order_trans split: if_splits)
qed simp

lemma select_operating_point_Some:
  "select_operating_point curve = Some p \<Longrightarrow>
     p \<in> set curve \<and> op_eligible p \<and> (\<forall>q \<in> set curve. op_eligible q \<longrightarrow> op_key p \<le> op_key q)"
proof -
  assume a: "select_operating_point curve = Some p"
  then obtain x xs where f: "filter op_eligible curve = x # xs" and p: "p = min_by_key op_key x xs"
    by (auto simp: select_operating_point_def split: list.splits)
  have s: "set (x # xs) = {q \<in> set curve. op_eligible q}" using arg_cong [OF f, of set] by simp
  then show ?thesis using min_by_key_least [of op_key x xs] p by auto
qed

lemma threshold_curve_mem:
  "p \<in> set (threshold_curve sq bins cost ms req) \<longleftrightarrow>
     (\<exists>b \<in> set bins. p = score_threshold sq bins cost ms req (cb_probability b))"
  by (auto simp: threshold_curve_def)

lemma make_bins_length [simp]: "length (make_bins chunks) = length chunks"
  by (simp add: make_bins_def Let_def)

lemma make_bins_nth:
  "i < length chunks \<Longrightarrow> make_bins chunks ! i =
     \<lparr>cb_upper_bound = (if i = length chunks - 1 then 1 else cr_raw_confidence (last (chunks ! i))),
      cb_count = length (chunks ! i), cb_successes = successes (chunks ! i),
      cb_probability = monotonic_bin_probabilities chunks ! i\<rparr>"
  by (simp add: make_bins_def Let_def nth_enumerate_eq)

lemma make_bins_probabilities: "map cb_probability (make_bins chunks) = monotonic_bin_probabilities chunks"
  by (rule nth_equalityI) (simp_all add: monotonic_bin_probabilities_props make_bins_nth)

text \<open>Selecting a bin is monotone when the probabilities are sorted: a larger raw confidence skips at
  least as many bins.\<close>

lemma find_later:
  assumes "\<And>b. b \<in> set bs \<Longrightarrow> Q b \<Longrightarrow> P b" "sorted (map f bs)"
    and "List.find P bs = Some x" "List.find Q bs = Some y"
  shows "f x \<le> f y"
  using assms
proof (induction bs)
  case (Cons b bs)
  show ?case
  proof (cases "P b")
    case True
    then have "x = b" using Cons.prems by simp
    then show ?thesis using Cons.prems find_Some_mem [OF Cons.prems(4)] by auto
  next
    case False
    then have "\<not> Q b" using Cons.prems(1) by auto
    then show ?thesis using Cons False by (auto split: if_splits)
  qed
qed simp

lemma find_le_last:
  assumes "sorted (map f bs)" "List.find P bs = Some x"
  shows "f x \<le> f (last bs)"
proof -
  obtain i where i: "i < length bs" "x = bs ! i" using find_Some_mem [OF assms(2)] by (auto simp: in_set_conv_nth)
  then have "bs \<noteq> []" by auto
  then show ?thesis using sorted_nth_mono [OF assms(1), of i "length bs - 1"] i by (simp add: last_conv_nth)
qed

lemma select_bin_mono:
  assumes "sorted (map cb_probability bins)" "bins \<noteq> []" "r \<le> r'"
  shows "cb_probability (select_bin r bins) \<le> cb_probability (select_bin r' bins)"
proof (cases "List.find (\<lambda>b. r' \<le> cb_upper_bound b) bins")
  case None
  then show ?thesis using find_le_last [OF assms(1)] by (auto simp: select_bin_def split: option.split)
next
  case (Some y)
  then have "List.find (\<lambda>b. r \<le> cb_upper_bound b) bins \<noteq> None"
    using find_Some_mem [OF Some] assms(3) by (auto simp: find_None_all intro!: bexI [of _ y])
  then obtain x where x: "List.find (\<lambda>b. r \<le> cb_upper_bound b) bins = Some x" by blast
  show ?thesis using find_later [OF _ assms(1) x Some] assms(3) Some x by (simp add: select_bin_def)
qed

lemma calibrate_confidence_Inr:
  "calibrate_confidence (PFloat (Fin raw)) artifact task fp = Inr c \<Longrightarrow>
     cc_calibrated_probability c = cb_probability (select_bin raw (ca_bins artifact))"
  by (auto simp: calibrate_confidence_def cal_probability_def is_number_def num_float_def rbind_eq_Inr
      split: if_splits)

lemma build_artifact_Inr:
  assumes "build_calibration_artifact lib now opts rs task src fp ver = Inr a"
  shows "\<exists>sel chunks cost. sorted (map cr_raw_confidence sel) \<and> set sel \<subseteq> set rs
     \<and> equal_frequency_chunks sel (co_maximum_bins opts) (co_minimum_bin_samples opts) = Inr chunks
     \<and> ca_bins a = make_bins chunks
     \<and> ca_threshold_curve a = threshold_curve (cl_sqrt lib) (make_bins chunks) cost
          (co_minimum_threshold_support opts) (co_required_wilson_lower opts)
     \<and> ca_evidence_sources a = sort (remdups (map cr_evidence_source sel))
     \<and> ca_autonomy_blocked_reason a = autonomy_block (cl_rt lib) (ca_evidence_sources a)
          (select_operating_point (ca_threshold_curve a)) (co_minimum_threshold_support opts) (co_required_wilson_lower opts)
     \<and> ca_autonomy_threshold a = map_option op_threshold
          (if ca_autonomy_blocked_reason a = None then select_operating_point (ca_threshold_curve a) else None)"
proof -
  from assms obtain f trs where trs: "task_records rs task (Some f) = Inr trs"
    and rest: "\<exists>chunks cost source version.
      equal_frequency_chunks (sort_key cr_raw_confidence trs) (co_maximum_bins opts) (co_minimum_bin_samples opts) = Inr chunks
      \<and> a = finish_artifact lib now opts (sort_key cr_raw_confidence trs) chunks cost task source f version"
    by (fastforce simp: build_calibration_artifact_def rbind_eq_Inr Let_def split: if_splits)
  have "set trs \<subseteq> set rs"
    using trs by (auto simp: task_records_def rbind_eq_Inr Let_def split: if_splits)
  then show ?thesis using rest
    by (intro exI [of _ "sort_key cr_raw_confidence trs"]) (auto simp: finish_artifact_def Let_def)
qed

section \<open>Sample corpus\<close>

definition sample_sha :: string where
  "sample_sha = replicate 64 (CHR ''a'')"

definition sample_record :: "string \<Rightarrow> rat \<Rightarrow> bool \<Rightarrow> confidence_record" where
  "sample_record pair raw outcome = \<lparr>cr_task = ''remediation'', cr_rubric_version = ''r1'', cr_raw_confidence = raw,
     cr_outcome = outcome, cr_scenario = ''s'', cr_scenario_version = ''1'', cr_dataset_sha256 = sample_sha,
     cr_config_fingerprint = sample_sha, cr_pair_id = pair, cr_observed_at = 0,
     cr_evidence_source = ''live_benchmark''\<rparr>"

definition sample_corpus :: "confidence_record list" where
  "sample_corpus = [sample_record ''a'' (1/2) False, sample_record ''b'' (9/10) True,
     sample_record ''c'' (1/2) True, sample_record ''d'' (9/10) True]"

definition sample_options :: calibration_options where
  "sample_options = \<lparr>co_minimum_samples = 4, co_minimum_bin_samples = 2, co_maximum_bins = 2,
     co_minimum_threshold_support = 1, co_required_wilson_lower = 1/100,
     co_false_autonomy_cost = PInt 20, co_abstention_cost = PInt 1\<rparr>"

text \<open>The artifact of the sample corpus, with a constant in place of the square root.\<close>

definition sample_lib :: cal_lib where
  "sample_lib = \<lparr>cl_sqrt = \<lambda>_. 0, cl_sha256 = \<lambda>_. sample_sha, cl_isoformat = show_int,
     cl_fromisoformat = parse_int, cl_rt = no_runtime\<rparr>"

definition sample_artifact :: "(cal_error, calibration_artifact) res" where
  "sample_artifact = build_calibration_artifact sample_lib 0 sample_options sample_corpus ''remediation''
     sample_sha sample_sha ''v1''"

lemma sample_steps:
  "cal_sha256 (PStr sample_sha) = Inr sample_sha" "cal_string (PStr ''v1'') = Inr ''v1''"
  "cal_cost (PInt 20) = Inr 20" "cal_cost (PInt 1) = Inr 1"
  "task_records sample_corpus ''remediation'' (Some sample_sha) = Inr sample_corpus"
  "equal_frequency_chunks (sort_key cr_raw_confidence sample_corpus) 2 2 =
     Inr [[sample_record ''a'' (1/2) False, sample_record ''c'' (1/2) True],
          [sample_record ''b'' (9/10) True, sample_record ''d'' (9/10) True]]"
  by code_simp+

lemma sample_artifact_eq:
  "sample_artifact = Inr (finish_artifact sample_lib 0 sample_options (sort_key cr_raw_confidence sample_corpus)
     [[sample_record ''a'' (1/2) False, sample_record ''c'' (1/2) True],
      [sample_record ''b'' (9/10) True, sample_record ''d'' (9/10) True]]
     \<lparr>false_autonomy_cost = 20, abstention_cost = 1\<rparr> ''remediation'' sample_sha sample_sha ''v1'')"
proof -
  have "length (sort_key cr_raw_confidence sample_corpus) = 4" by (simp add: sample_corpus_def)
  then show ?thesis
    by (simp add: sample_artifact_def build_calibration_artifact_def sample_steps Let_def)
       (simp add: sample_options_def sample_steps)
qed

lemma sample_threshold: "\<exists>a t. sample_artifact = Inr a \<and> ca_autonomy_threshold a = Some t"
proof -
  let ?chunks = "[[sample_record ''a'' (1/2) False, sample_record ''c'' (1/2) True],
      [sample_record ''b'' (9/10) True, sample_record ''d'' (9/10) True]]"
  let ?cost = "\<lparr>false_autonomy_cost = 20, abstention_cost = 1\<rparr>"
  have bins: "make_bins ?chunks =
     [\<lparr>cb_upper_bound = 1/2, cb_count = 2, cb_successes = 1, cb_probability = 1/2\<rparr>,
      \<lparr>cb_upper_bound = 1, cb_count = 2, cb_successes = 2, cb_probability = 3/4\<rparr>]" by code_simp
  have w: "1/100 \<le> wilson_lower (\<lambda>_. 0) 2 2" by (simp add: wilson_lower_def wilson_z_def)
  let ?p = "score_threshold (\<lambda>_. 0) (make_bins ?chunks) ?cost 1 (1/100) (3/4)"
  have "?p \<in> set (threshold_curve (\<lambda>_. 0) (make_bins ?chunks) ?cost 1 (1/100))"
    unfolding threshold_curve_mem by (auto simp: bins)
  moreover have "op_eligible ?p" using w by (simp add: bins score_threshold_def op_eligible_def)
  ultimately have "select_operating_point (threshold_curve (\<lambda>_. 0) (make_bins ?chunks) ?cost 1 (1/100)) \<noteq> None"
    by (auto simp: select_operating_point_def filter_empty_conv split: list.splits)
  moreover have "sort (remdups (map cr_evidence_source (sort_key cr_raw_confidence sample_corpus)))
      = [''live_benchmark'']" by code_simp
  ultimately show ?thesis unfolding sample_artifact_eq
    by (auto simp: finish_artifact_def Let_def sample_lib_def sample_options_def autonomy_block_def autonomy_evidence_def)
qed

section \<open>Properties\<close>

text \<open>Splitting sorted records into bins loses and reorders nothing, gives at least two and at most
  the requested number of bins, each with the required number of samples, and never puts two
  records of equal confidence into different bins: every confidence of an earlier bin is strictly
  below every confidence of a later one.\<close>

theorem equal_frequency_chunks_partition:
  assumes "equal_frequency_chunks sel maximum_bins min_samples = Inr chunks"
    and "sorted (map cr_raw_confidence sel)"
  shows "concat chunks = sel \<and> 2 \<le> length chunks \<and> length chunks \<le> maximum_bins
    \<and> (\<forall>c \<in> set chunks. min_samples \<le> length c)
    \<and> sorted_wrt (\<lambda>xs ys. \<forall>x \<in> set xs. \<forall>y \<in> set ys. cr_raw_confidence x < cr_raw_confidence y) chunks"
proof -
  obtain r where r: "2 \<le> r" "r \<le> maximum_bins" "chunks = cut_chunks sel (make_cuts sel r)" "2 \<le> length chunks"
    "\<forall>c \<in> set chunks. min_samples \<le> length c" "sel \<noteq> []"
    using equal_frequency_chunks_Inr [OF assms(1)] by blast
  obtain cs where cs: "make_cuts sel r = 0 # cs" "sorted_wrt (<) (0 # cs)" "last (0 # cs) = length sel"
    "\<forall>c \<in> set cs. c < length sel \<longrightarrow> cr_raw_confidence (sel ! (c - 1)) \<noteq> cr_raw_confidence (sel ! c)"
    using make_cuts_ok [OF r(6)] by blast
  have "concat chunks = sel" using cut_chunks_concat [OF cs(2), of sel] cs(1,3) r(3) by simp
  moreover have "sorted_wrt below chunks" using cut_chunks_below [OF assms(2) cs(2,4)] cs(1) r(3) by simp
  moreover have "length chunks \<le> maximum_bins" using length_make_chunks [OF r(6), of r] r by simp
  ultimately show ?thesis using r by (simp add: below_def [abs_def])
qed

theorem equal_frequency_chunks_partition_witness:
  "\<exists>chunks. equal_frequency_chunks (sort_key cr_raw_confidence sample_corpus) 2 2 = Inr chunks
     \<and> concat chunks = sort_key cr_raw_confidence sample_corpus"
proof -
  have "is_ok (equal_frequency_chunks (sort_key cr_raw_confidence sample_corpus) 2 2)" by code_simp
  then obtain chunks where c: "equal_frequency_chunks (sort_key cr_raw_confidence sample_corpus) 2 2 = Inr chunks"
    by (auto simp: is_ok_iff)
  have "sorted (map cr_raw_confidence (sort_key cr_raw_confidence sample_corpus))" by simp
  from equal_frequency_chunks_partition [OF c this] c show ?thesis by blast
qed

text \<open>Pooling adjacent violators gives every bin a probability, never decreasing from bin to bin and
  strictly between zero and one; the bins are grouped into consecutive blocks and each bin carries
  the smoothed success rate of its whole block.\<close>

theorem monotonic_bin_probabilities_isotone:
  "sorted (monotonic_bin_probabilities chunks)
   \<and> length (monotonic_bin_probabilities chunks) = length chunks
   \<and> list_all (\<lambda>p. 0 < p \<and> p < 1) (monotonic_bin_probabilities chunks)
   \<and> (\<exists>bs. concat (map bl_indices bs) = [0..<length chunks] \<and> list_all (block_of chunks) bs
        \<and> monotonic_bin_probabilities chunks =
            concat (map (\<lambda>b. replicate (length (bl_indices b)) (block_probability b)) bs))"
proof -
  have "list_all (\<lambda>p. 0 < p \<and> p < 1) (monotonic_bin_probabilities chunks)"
    using monotonic_bin_probabilities_props(3) by (auto simp: list_all_iff)
  then show ?thesis using monotonic_bin_probabilities_props(1,2) monotonic_bin_probabilities_blocks [of chunks]
    unfolding list_all_iff by blast
qed

text \<open>An artifact that carries an autonomy threshold rests on live-benchmark evidence alone, and its
  threshold is a point of its own curve that has the required number of observations and the
  required Wilson lower bound, costs no more than any other such point, and is the calibrated
  probability of one of its bins.\<close>

theorem autonomy_threshold_justified:
  assumes "build_calibration_artifact lib now opts records task source fp version = Inr a"
    and "ca_autonomy_threshold a = Some t"
  shows "ca_evidence_sources a = [''live_benchmark'']
    \<and> (\<exists>p \<in> set (ca_threshold_curve a). op_threshold p = t
         \<and> co_minimum_threshold_support opts \<le> op_autonomous p
         \<and> co_required_wilson_lower opts \<le> wilson_lower (cl_sqrt lib) (op_true_autonomy p) (op_autonomous p)
         \<and> (\<forall>q \<in> set (ca_threshold_curve a). op_eligible q \<longrightarrow> op_expected_cost p \<le> op_expected_cost q))
    \<and> t \<in> cb_probability ` set (ca_bins a)"
proof -
  obtain chunks cost where c: "ca_bins a = make_bins chunks"
    "ca_threshold_curve a = threshold_curve (cl_sqrt lib) (make_bins chunks) cost
        (co_minimum_threshold_support opts) (co_required_wilson_lower opts)"
    "ca_autonomy_blocked_reason a = autonomy_block (cl_rt lib) (ca_evidence_sources a)
        (select_operating_point (ca_threshold_curve a)) (co_minimum_threshold_support opts) (co_required_wilson_lower opts)"
    "ca_autonomy_threshold a = map_option op_threshold
        (if ca_autonomy_blocked_reason a = None then select_operating_point (ca_threshold_curve a) else None)"
    using build_artifact_Inr [OF assms(1)] by blast
  obtain p where p: "ca_autonomy_blocked_reason a = None"
    "select_operating_point (ca_threshold_curve a) = Some p" "t = op_threshold p"
  proof (cases "select_operating_point (ca_threshold_curve a)")
    case (Some q)
    then show thesis using that [of q] c(4) assms(2) by (simp split: if_splits)
  qed (use c(4) assms(2) in \<open>simp split: if_splits\<close>)
  have src: "ca_evidence_sources a = [''live_benchmark'']"
    using c(3) p(1) by (auto simp: autonomy_block_def autonomy_evidence_def split: if_splits)
  note sel = select_operating_point_Some [OF p(2)]
  then obtain b where b: "b \<in> set (make_bins chunks)" "p = score_threshold (cl_sqrt lib) (make_bins chunks) cost
      (co_minimum_threshold_support opts) (co_required_wilson_lower opts) (cb_probability b)"
    unfolding c(2) threshold_curve_mem by blast
  have "op_threshold p = cb_probability b" "co_minimum_threshold_support opts \<le> op_autonomous p"
    "co_required_wilson_lower opts \<le> wilson_lower (cl_sqrt lib) (op_true_autonomy p) (op_autonomous p)"
    using sel b(2) by (auto simp: score_threshold_def Let_def op_eligible_def)
  moreover have "\<forall>q \<in> set (ca_threshold_curve a). op_eligible q \<longrightarrow> op_expected_cost p \<le> op_expected_cost q"
    using sel by (auto simp: op_key_def)
  ultimately show ?thesis using src sel p(3) b(1) c(1) by auto
qed

theorem autonomy_threshold_justified_witness:
  "\<exists>a t. sample_artifact = Inr a \<and> ca_autonomy_threshold a = Some t \<and> ca_evidence_sources a = [''live_benchmark'']"
proof -
  obtain a t where a: "sample_artifact = Inr a" "ca_autonomy_threshold a = Some t"
    using sample_threshold by blast
  from autonomy_threshold_justified [OF a(1) [unfolded sample_artifact_def] a(2)] a show ?thesis by blast
qed

text \<open>Calibration with a built artifact is monotone: a higher raw confidence never gets a lower
  calibrated probability, and every calibrated probability lies strictly between zero and one.\<close>

theorem calibrate_confidence_monotone:
  assumes "build_calibration_artifact lib now opts records task source fp version = Inr a"
    and "calibrate_confidence (PFloat (Fin raw)) a task' fp' = Inr c"
    and "calibrate_confidence (PFloat (Fin raw')) a task' fp' = Inr c'" and "raw \<le> raw'"
  shows "cc_calibrated_probability c \<le> cc_calibrated_probability c'
    \<and> 0 < cc_calibrated_probability c \<and> cc_calibrated_probability c' < 1"
proof -
  obtain sel chunks where ch: "ca_bins a = make_bins chunks"
    "equal_frequency_chunks sel (co_maximum_bins opts) (co_minimum_bin_samples opts) = Inr chunks"
    using build_artifact_Inr [OF assms(1)] by blast
  have ne: "make_bins chunks \<noteq> []" using equal_frequency_chunks_Inr [OF ch(2)]
    by (metis length_0_conv make_bins_length not_numeral_le_zero)
  have srt: "sorted (map cb_probability (make_bins chunks))"
    unfolding make_bins_probabilities by (rule monotonic_bin_probabilities_props)
  have bounds: "0 < cb_probability (select_bin r (make_bins chunks)) \<and> cb_probability (select_bin r (make_bins chunks)) < 1" for r
  proof -
    have "select_bin r (make_bins chunks) \<in> set (make_bins chunks)"
      using ne find_Some_mem by (fastforce simp: select_bin_def split: option.split)
    then have "cb_probability (select_bin r (make_bins chunks)) \<in> set (monotonic_bin_probabilities chunks)"
      by (simp flip: make_bins_probabilities)
    then show ?thesis by (rule monotonic_bin_probabilities_props)
  qed
  show ?thesis using select_bin_mono [OF srt ne assms(4)] bounds
      calibrate_confidence_Inr [OF assms(2)] calibrate_confidence_Inr [OF assms(3)] ch(1) by simp
qed

theorem calibrate_confidence_monotone_witness:
  "\<exists>a c c'. sample_artifact = Inr a \<and> calibrate_confidence (PFloat (Fin (1/4))) a ''remediation'' sample_sha = Inr c
     \<and> calibrate_confidence (PFloat (Fin 1)) a ''remediation'' sample_sha = Inr c'
     \<and> cc_calibrated_probability c \<le> cc_calibrated_probability c'"
proof -
  obtain a where a: "sample_artifact = Inr a" using sample_threshold by blast
  have fields: "ca_task a = ''remediation''" "ca_config_fingerprint a = sample_sha"
    using a unfolding sample_artifact_eq by (auto simp: finish_artifact_def Let_def)
  then obtain c c' where "calibrate_confidence (PFloat (Fin (1/4))) a ''remediation'' sample_sha = Inr c"
    "calibrate_confidence (PFloat (Fin 1)) a ''remediation'' sample_sha = Inr c'"
    by (auto simp: calibrate_confidence_def sample_steps cal_probability_def is_number_def num_float_def)
  note a = a this
  from calibrate_confidence_monotone [OF a(1) [unfolded sample_artifact_def] a(2,3)] a show ?thesis by auto
qed

end
