(* ===== verification/Redis_State_Store.thy ===== *)
theory Redis_State_Store
  imports Py_Json
begin

text \<open>
  The Redis-backed state store (\<open>src/src/sre_agent/redis_state_store.py\<close>). The Redis client library
  is a parameter: a record of the commands the store issues, each a function on an abstract server
  state that gives a reply or raises. The store keeps no state of its own besides the client and
  the default time to live, so every operation is a function on the server state.

  What the store relies on is stated as the locale \<open>redis_claims\<close>: the documented behaviour of
  \<open>SET key value NX EX ttl\<close>, \<open>PING\<close> and \<open>EXISTS\<close>, in terms of the remaining life of a key. The
  client's contract \<open>claim_store\<close> (a claim is granted to at most one caller while it lives) follows
  from it for \<open>set_idempotency\<close>. The laws are interpreted on a reference server that implements the
  documented commands over a map.
\<close>

section \<open>The client library\<close>

datatype 'a reply = Raised | Reply 'a

record 'st redis_client =
  rc_ping :: "'st \<Rightarrow> unit reply \<times> 'st"
  rc_set :: "string \<Rightarrow> string \<Rightarrow> 'st \<Rightarrow> unit reply \<times> 'st"
  rc_set_nx_ex :: "string \<Rightarrow> string \<Rightarrow> int \<Rightarrow> 'st \<Rightarrow> bool reply \<times> 'st"
  rc_setex :: "string \<Rightarrow> int \<Rightarrow> string \<Rightarrow> 'st \<Rightarrow> unit reply \<times> 'st"
  rc_get :: "string \<Rightarrow> 'st \<Rightarrow> string option reply \<times> 'st"
  rc_delete :: "string \<Rightarrow> 'st \<Rightarrow> int reply \<times> 'st"
  rc_exists :: "string \<Rightarrow> 'st \<Rightarrow> int reply \<times> 'st"
  rc_ttl :: "string \<Rightarrow> 'st \<Rightarrow> int reply \<times> 'st"
  rc_rpush :: "string \<Rightarrow> string \<Rightarrow> 'st \<Rightarrow> int reply \<times> 'st"
  rc_llen :: "string \<Rightarrow> 'st \<Rightarrow> int reply \<times> 'st"
  rc_expire :: "string \<Rightarrow> int \<Rightarrow> 'st \<Rightarrow> unit reply \<times> 'st"
  rc_lrange :: "string \<Rightarrow> 'st \<Rightarrow> string list reply \<times> 'st"

text \<open>\<open>redis_client\<close> is \<open>None\<close> when the package is missing or the first connection failed.\<close>

record 'st state_store =
  ss_client :: "'st redis_client option"
  ss_default_ttl :: int

section \<open>Operations\<close>

definition is_available :: "'st state_store \<Rightarrow> 'st \<Rightarrow> bool \<times> 'st" where
  "is_available s st =
     (case ss_client s of
        None \<Rightarrow> (False, st)
      | Some c \<Rightarrow> (case rc_ping c st of (Reply _, st') \<Rightarrow> (True, st') | (Raised, st') \<Rightarrow> (False, st')))"

text \<open>The shape of every operation: the fallback when Redis is down or the command raises.\<close>

definition guarded :: "'st state_store \<Rightarrow> 'b \<Rightarrow> ('st redis_client \<Rightarrow> 'st \<Rightarrow> 'a reply \<times> 'st) \<Rightarrow> ('a \<Rightarrow> 'b) \<Rightarrow> 'st \<Rightarrow> 'b \<times> 'st" where
  "guarded s fallback cmd f st =
     (let (ok, st1) = is_available s st in
      case ss_client s of
        Some c \<Rightarrow> (if ok then (case cmd c st1 of (Reply r, st2) \<Rightarrow> (f r, st2) | (Raised, st2) \<Rightarrow> (fallback, st2))
                   else (fallback, st1))
      | None \<Rightarrow> (fallback, st1))"

definition approval_key :: "string \<Rightarrow> string" where
  "approval_key k = ''sre_agent:approval:'' @ k"

definition store_set :: "runtime \<Rightarrow> 'st state_store \<Rightarrow> string \<Rightarrow> pyval \<Rightarrow> int option \<Rightarrow> 'st \<Rightarrow> bool \<times> 'st" where
  "store_set rt s key value ttl =
     guarded s False
       (\<lambda>c. rc_setex c (approval_key key) (case ttl of Some t \<Rightarrow> t | None \<Rightarrow> ss_default_ttl s)
              (json_dumps rt '', '' '': '' False value))
       (\<lambda>_. True)"

definition store_get :: "'st state_store \<Rightarrow> string \<Rightarrow> 'st \<Rightarrow> pyval option \<times> 'st" where
  "store_get s key =
     guarded s None (\<lambda>c. rc_get c (approval_key key))
       (\<lambda>r. case r of None \<Rightarrow> None | Some text \<Rightarrow> json_loads text)"

definition store_delete :: "'st state_store \<Rightarrow> string \<Rightarrow> 'st \<Rightarrow> bool \<times> 'st" where
  "store_delete s key = guarded s False (\<lambda>c. rc_delete c (approval_key key)) (\<lambda>n. 0 < n)"

definition store_exists :: "'st state_store \<Rightarrow> string \<Rightarrow> 'st \<Rightarrow> bool \<times> 'st" where
  "store_exists s key = guarded s False (\<lambda>c. rc_exists c (approval_key key)) (\<lambda>n. 0 < n)"

definition get_ttl :: "'st state_store \<Rightarrow> string \<Rightarrow> 'st \<Rightarrow> int option \<times> 'st" where
  "get_ttl s key = guarded s None (\<lambda>c. rc_ttl c (approval_key key)) (\<lambda>t. if 0 \<le> t then Some t else None)"

definition logs_key :: "string \<Rightarrow> string" where
  "logs_key k = ''sre_agent:logs:'' @ k"

text \<open>Push, read the length, and set a time to live on the first entry.\<close>

definition push_log :: "int \<Rightarrow> string \<Rightarrow> string \<Rightarrow> 'st redis_client \<Rightarrow> 'st \<Rightarrow> unit reply \<times> 'st" where
  "push_log ttl k message c st =
     (case rc_rpush c k message st of
        (Raised, st1) \<Rightarrow> (Raised, st1)
      | (Reply _, st1) \<Rightarrow>
          (case rc_llen c k st1 of
             (Raised, st2) \<Rightarrow> (Raised, st2)
           | (Reply n, st2) \<Rightarrow> (if n = 1 then rc_expire c k ttl st2 else (Reply (), st2))))"

definition append_log :: "'st state_store \<Rightarrow> string \<Rightarrow> string \<Rightarrow> 'st \<Rightarrow> bool \<times> 'st" where
  "append_log s key message =
     guarded s False (push_log (ss_default_ttl s) (logs_key key) message) (\<lambda>_. True)"

definition get_logs :: "'st state_store \<Rightarrow> string \<Rightarrow> 'st \<Rightarrow> string list \<times> 'st" where
  "get_logs s key = guarded s [] (\<lambda>c. rc_lrange c (logs_key key)) (\<lambda>ls. ls)"

definition lock_key :: "string \<Rightarrow> string" where
  "lock_key cluster_id = ''CLUSTER_LOCK:'' @ cluster_id"

definition set_cluster_lock :: "'st state_store \<Rightarrow> string \<Rightarrow> bool \<Rightarrow> 'st \<Rightarrow> bool \<times> 'st" where
  "set_cluster_lock s cluster_id locked =
     guarded s False
       (\<lambda>c st. if locked then rc_set c (lock_key cluster_id) ''LOCKED'' st
               else (case rc_delete c (lock_key cluster_id) st of
                       (Reply _, st') \<Rightarrow> (Reply (), st') | (Raised, st') \<Rightarrow> (Raised, st')))
       (\<lambda>_. True)"

definition is_cluster_locked :: "'st state_store \<Rightarrow> string \<Rightarrow> 'st \<Rightarrow> bool \<times> 'st" where
  "is_cluster_locked s cluster_id = guarded s False (\<lambda>c. rc_exists c (lock_key cluster_id)) (\<lambda>n. 0 < n)"

definition topology_key :: "string \<Rightarrow> string" where
  "topology_key cluster_id = ''sre_agent:topology:'' @ cluster_id"

definition set_topology_cache :: "runtime \<Rightarrow> 'st state_store \<Rightarrow> string \<Rightarrow> pyval \<Rightarrow> int \<Rightarrow> 'st \<Rightarrow> bool \<times> 'st" where
  "set_topology_cache rt s cluster_id adjacency ttl st =
     (if cluster_id = [] \<or> ttl \<le> 0 then (False, st)
      else guarded s False
             (\<lambda>c. rc_setex c (topology_key cluster_id) ttl (json_dumps rt '', '' '': '' False adjacency))
             (\<lambda>_. True) st)"

definition get_topology_cache :: "'st state_store \<Rightarrow> string \<Rightarrow> 'st \<Rightarrow> pyval option \<times> 'st" where
  "get_topology_cache s cluster_id st =
     (if cluster_id = [] then (None, st)
      else guarded s None (\<lambda>c. rc_get c (topology_key cluster_id))
             (\<lambda>r. case r of None \<Rightarrow> None | Some text \<Rightarrow> json_loads text) st)"

definition idempotency_key_name :: "string \<Rightarrow> string" where
  "idempotency_key_name k = ''sre_agent:idempotency:'' @ k"

definition set_idempotency :: "'st state_store \<Rightarrow> string \<Rightarrow> int \<Rightarrow> 'st \<Rightarrow> bool \<times> 'st" where
  "set_idempotency s key ttl st =
     (if key = [] \<or> ttl \<le> 0 then (False, st)
      else guarded s False (\<lambda>c. rc_set_nx_ex c (idempotency_key_name key) ''CLAIMED'' ttl) (\<lambda>b. b) st)"

section \<open>Contracts\<close>

text \<open>What a holder of claims promises: a live claim is never granted again, a granted claim lives for
  its time, and neither claiming nor looking shortens the life of a claim; letting time pass
  shortens it by no more than the time passed.\<close>

locale claim_store =
  fixes claim :: "string \<Rightarrow> int \<Rightarrow> 'st \<Rightarrow> bool \<times> 'st"
    and life :: "'st \<Rightarrow> string \<Rightarrow> int"
    and elapse :: "int \<Rightarrow> 'st \<Rightarrow> 'st"
    and observes :: "('st \<Rightarrow> 'st) \<Rightarrow> bool"
  assumes claim_exclusive: "claim k ttl st = (True, st') \<Longrightarrow> life st k \<le> 0"
    and claim_lives: "claim k ttl st = (True, st') \<Longrightarrow> ttl \<le> life st' k"
    and claim_keeps: "claim k ttl st = (b, st') \<Longrightarrow> 0 < life st j \<Longrightarrow> life st j \<le> life st' j"
    and observe_same: "observes f \<Longrightarrow> life (f st) j = life st j"
    and elapse_life: "0 \<le> d \<Longrightarrow> life st j - d \<le> life (elapse d st) j"
begin

lemma claim_refused: "0 < life st k \<Longrightarrow> fst (claim k ttl st) = False"
  using claim_exclusive [of k ttl st "snd (claim k ttl st)"] by (cases "claim k ttl st") fastforce

lemma life_after_elapse: "0 \<le> d \<Longrightarrow> d < life st j \<Longrightarrow> 0 < life (elapse d st) j"
  using elapse_life [of d st j] by simp

end

text \<open>The documented behaviour of the commands that claims rest on.\<close>

locale redis_claims =
  fixes client :: "'st redis_client"
    and remaining :: "'st \<Rightarrow> string \<Rightarrow> int"
    and elapse :: "int \<Rightarrow> 'st \<Rightarrow> 'st"
  assumes nx_absent: "rc_set_nx_ex client k v ttl st = (Reply True, st') \<Longrightarrow> remaining st k \<le> 0"
    and nx_ttl: "rc_set_nx_ex client k v ttl st = (Reply True, st') \<Longrightarrow> ttl \<le> remaining st' k"
    and nx_keeps: "rc_set_nx_ex client k v ttl st = (r, st') \<Longrightarrow> 0 < remaining st j \<Longrightarrow> remaining st j \<le> remaining st' j"
    and ping_same: "remaining (snd (rc_ping client st)) j = remaining st j"
    and exists_same: "remaining (snd (rc_exists client k st)) j = remaining st j"
    and elapse_remaining: "0 \<le> d \<Longrightarrow> remaining st j - d \<le> remaining (elapse d st) j"

text \<open>The documented behaviour of the commands that the emergency lock rests on: a key that was set is
  present until it is deleted, and \<open>EXISTS\<close> counts it.\<close>

locale redis_keys =
  fixes client :: "'st redis_client"
    and has_key :: "'st \<Rightarrow> string \<Rightarrow> bool"
  assumes set_present: "rc_set client k v st = (Reply (), st') \<Longrightarrow> has_key st' k"
    and delete_absent: "rc_delete client k st = (Reply n, st') \<Longrightarrow> \<not> has_key st' k"
    and exists_counts: "rc_exists client k st = (Reply n, st') \<Longrightarrow> 0 < n \<longleftrightarrow> has_key st k"
    and ping_keeps: "has_key (snd (rc_ping client st)) k = has_key st k"
    and exists_keeps: "has_key (snd (rc_exists client j st)) k = has_key st k"

text \<open>The remaining life of an idempotency claim, and the calls that only observe the store.\<close>

definition claim_life :: "('st \<Rightarrow> string \<Rightarrow> int) \<Rightarrow> 'st \<Rightarrow> string \<Rightarrow> int" where
  "claim_life remaining st key = remaining st (idempotency_key_name key)"

inductive observes :: "'st state_store \<Rightarrow> ('st \<Rightarrow> 'st) \<Rightarrow> bool" for s where
  observe_available: "observes s (\<lambda>st. snd (is_available s st))"
| observe_locked: "observes s (\<lambda>st. snd (is_cluster_locked s cid st))"

section \<open>A reference server\<close>

text \<open>The documented commands over a map. \<open>ms_outcomes\<close> says for the next commands whether they reach the
  server; a command that does not raises and changes nothing. A key carries its remaining life in
  seconds, or none when it does not expire.\<close>

record mem_server =
  ms_outcomes :: "bool list"
  ms_keys :: "string \<Rightarrow> (string \<times> int option) option"
  ms_lists :: "string \<Rightarrow> string list"

definition mem_cmd :: "(mem_server \<Rightarrow> 'a reply \<times> mem_server) \<Rightarrow> mem_server \<Rightarrow> 'a reply \<times> mem_server" where
  "mem_cmd f m =
     (case ms_outcomes m of
        [] \<Rightarrow> f m
      | ok # rest \<Rightarrow> (if ok then f (m\<lparr>ms_outcomes := rest\<rparr>) else (Raised, m\<lparr>ms_outcomes := rest\<rparr>)))"

definition mem_put :: "string \<Rightarrow> (string \<times> int option) option \<Rightarrow> mem_server \<Rightarrow> mem_server" where
  "mem_put k e m = m\<lparr>ms_keys := (ms_keys m)(k := e)\<rparr>"

definition mem_client :: "mem_server redis_client" where
  "mem_client =
     \<lparr>rc_ping = mem_cmd (\<lambda>m. (Reply (), m)),
      rc_set = (\<lambda>k v. mem_cmd (\<lambda>m. (Reply (), mem_put k (Some (v, None)) m))),
      rc_set_nx_ex = (\<lambda>k v ttl. mem_cmd (\<lambda>m. if ttl \<le> 0 then (Raised, m)
          else if ms_keys m k \<noteq> None then (Reply False, m) else (Reply True, mem_put k (Some (v, Some ttl)) m))),
      rc_setex = (\<lambda>k ttl v. mem_cmd (\<lambda>m. if ttl \<le> 0 then (Raised, m) else (Reply (), mem_put k (Some (v, Some ttl)) m))),
      rc_get = (\<lambda>k. mem_cmd (\<lambda>m. (Reply (map_option fst (ms_keys m k)), m))),
      rc_delete = (\<lambda>k. mem_cmd (\<lambda>m. (Reply (if ms_keys m k = None then 0 else 1), mem_put k None m))),
      rc_exists = (\<lambda>k. mem_cmd (\<lambda>m. (Reply (if ms_keys m k = None then 0 else 1), m))),
      rc_ttl = (\<lambda>k. mem_cmd (\<lambda>m. (Reply (case ms_keys m k of None \<Rightarrow> -2 | Some (_, None) \<Rightarrow> -1 | Some (_, Some t) \<Rightarrow> t), m))),
      rc_rpush = (\<lambda>k v. mem_cmd (\<lambda>m. (Reply (int (length (ms_lists m k)) + 1),
                    m\<lparr>ms_lists := (ms_lists m)(k := ms_lists m k @ [v])\<rparr>))),
      rc_llen = (\<lambda>k. mem_cmd (\<lambda>m. (Reply (int (length (ms_lists m k))), m))),
      rc_expire = (\<lambda>k ttl. mem_cmd (\<lambda>m. (Reply (), m))),
      rc_lrange = (\<lambda>k. mem_cmd (\<lambda>m. (Reply (ms_lists m k), m)))\<rparr>"

definition mem_remaining :: "mem_server \<Rightarrow> string \<Rightarrow> int" where
  "mem_remaining m k = (case ms_keys m k of None \<Rightarrow> 0 | Some (_, None) \<Rightarrow> 1 | Some (_, Some t) \<Rightarrow> max 1 t)"

definition mem_elapse :: "int \<Rightarrow> mem_server \<Rightarrow> mem_server" where
  "mem_elapse d m = m\<lparr>ms_keys := (\<lambda>k. case ms_keys m k of
      Some (v, Some t) \<Rightarrow> (if max 1 t \<le> d then None else Some (v, Some (max 1 t - d)))
    | e \<Rightarrow> e)\<rparr>"

definition mem_has_key :: "mem_server \<Rightarrow> string \<Rightarrow> bool" where
  "mem_has_key m k = (ms_keys m k \<noteq> None)"

definition mem_store :: "mem_server state_store" where
  "mem_store = \<lparr>ss_client = Some mem_client, ss_default_ttl = 3600\<rparr>"

definition empty_server :: mem_server where
  "empty_server = \<lparr>ms_outcomes = [], ms_keys = \<lambda>_. None, ms_lists = \<lambda>_. []\<rparr>"

section \<open>The contract of set_idempotency\<close>

context redis_claims
begin

lemma is_available_same:
  "remaining (snd (is_available \<lparr>ss_client = Some client, ss_default_ttl = t\<rparr> st)) j = remaining st j"
  using ping_same [of st j] by (auto simp: is_available_def split: prod.splits reply.splits)

lemma is_cluster_locked_same:
  "remaining (snd (is_cluster_locked \<lparr>ss_client = Some client, ss_default_ttl = t\<rparr> cid st)) j = remaining st j"
  using is_available_same [of t st j] exists_same
  by (auto simp: is_cluster_locked_def guarded_def split: prod.splits reply.splits) (metis snd_conv)+

lemma set_idempotency_True:
  assumes "set_idempotency \<lparr>ss_client = Some client, ss_default_ttl = t\<rparr> k ttl st = (True, st')"
  obtains st1 where "rc_set_nx_ex client (idempotency_key_name k) ''CLAIMED'' ttl st1 = (Reply True, st')"
    "\<And>j. remaining st1 j = remaining st j"
proof -
  obtain ok st1 where av: "is_available \<lparr>ss_client = Some client, ss_default_ttl = t\<rparr> st = (ok, st1)"
    by (cases "is_available \<lparr>ss_client = Some client, ss_default_ttl = t\<rparr> st")
  have "rc_set_nx_ex client (idempotency_key_name k) ''CLAIMED'' ttl st1 = (Reply True, st')"
    using assms av by (auto simp: set_idempotency_def guarded_def split: if_splits prod.splits reply.splits)
  moreover have "remaining st1 j = remaining st j" for j using is_available_same [of t st j] av by simp
  ultimately show thesis by (rule that)
qed

lemma set_idempotency_keeps:
  assumes "set_idempotency \<lparr>ss_client = Some client, ss_default_ttl = t\<rparr> k ttl st = (b, st')" "0 < remaining st j"
  shows "remaining st j \<le> remaining st' j"
proof (cases "k = [] \<or> ttl \<le> 0")
  case True
  then show ?thesis using assms by (auto simp: set_idempotency_def)
next
  case False
  obtain ok st1 where av: "is_available \<lparr>ss_client = Some client, ss_default_ttl = t\<rparr> st = (ok, st1)"
    by (cases "is_available \<lparr>ss_client = Some client, ss_default_ttl = t\<rparr> st")
  have same: "remaining st1 j = remaining st j" using is_available_same [of t st j] av by simp
  obtain r st2 where nx: "rc_set_nx_ex client (idempotency_key_name k) ''CLAIMED'' ttl st1 = (r, st2)"
    by (cases "rc_set_nx_ex client (idempotency_key_name k) ''CLAIMED'' ttl st1")
  have "st' = (if ok then st2 else st1)"
    using assms(1) av nx False
    by (auto simp: set_idempotency_def guarded_def split: if_splits prod.splits reply.splits)
  then show ?thesis using nx_keeps [OF nx, of j] same assms(2) by auto
qed

end

sublocale redis_claims \<subseteq> idem: claim_store
  "set_idempotency \<lparr>ss_client = Some client, ss_default_ttl = t\<rparr>" "claim_life remaining" elapse
  "observes \<lparr>ss_client = Some client, ss_default_ttl = t\<rparr>" for t
proof unfold_locales
  fix k j :: string and ttl d :: int and st st' and b :: bool and f
  let ?s = "\<lparr>ss_client = Some client, ss_default_ttl = t\<rparr>"
  show "set_idempotency ?s k ttl st = (True, st') \<Longrightarrow> claim_life remaining st k \<le> 0"
    and "set_idempotency ?s k ttl st = (True, st') \<Longrightarrow> ttl \<le> claim_life remaining st' k"
    by (metis set_idempotency_True nx_absent nx_ttl claim_life_def)+
  show "set_idempotency ?s k ttl st = (b, st') \<Longrightarrow> 0 < claim_life remaining st j \<Longrightarrow>
      claim_life remaining st j \<le> claim_life remaining st' j"
    unfolding claim_life_def by (rule set_idempotency_keeps)
  show "observes ?s f \<Longrightarrow> claim_life remaining (f st) j = claim_life remaining st j"
    by (induction rule: observes.induct) (simp_all add: claim_life_def is_available_same is_cluster_locked_same)
  show "0 \<le> d \<Longrightarrow> claim_life remaining st j - d \<le> claim_life remaining (elapse d st) j"
    unfolding claim_life_def by (rule elapse_remaining)
qed

interpretation mem: redis_claims mem_client mem_remaining mem_elapse
  by unfold_locales
     (auto simp: mem_client_def mem_cmd_def mem_remaining_def mem_put_def mem_elapse_def
       split: list.splits if_splits option.splits)

section \<open>The emergency lock\<close>

context redis_keys
begin

lemma is_available_keeps:
  "is_available \<lparr>ss_client = Some client, ss_default_ttl = t\<rparr> st = (ok, st') \<Longrightarrow> has_key st' k = has_key st k"
  using ping_keeps [of st k] by (auto simp: is_available_def split: prod.splits reply.splits)

lemma is_cluster_locked_True:
  assumes "is_cluster_locked \<lparr>ss_client = Some client, ss_default_ttl = t\<rparr> cid st = (True, st')"
  shows "has_key st (lock_key cid)"
proof -
  obtain ok st1 where av: "is_available \<lparr>ss_client = Some client, ss_default_ttl = t\<rparr> st = (ok, st1)"
    by (cases "is_available \<lparr>ss_client = Some client, ss_default_ttl = t\<rparr> st")
  obtain r st2 where ex: "rc_exists client (lock_key cid) st1 = (r, st2)"
    by (cases "rc_exists client (lock_key cid) st1")
  have "\<exists>n. r = Reply n \<and> 0 < n"
    using assms av ex by (auto simp: is_cluster_locked_def guarded_def split: if_splits reply.splits)
  then show ?thesis using exists_counts [of "lock_key cid" st1] ex is_available_keeps [OF av] by auto
qed

text \<open>With the lock key present, the check answers no only when a command failed.\<close>

lemma is_cluster_locked_False:
  assumes "is_cluster_locked \<lparr>ss_client = Some client, ss_default_ttl = t\<rparr> cid st = (False, st')"
    and "has_key st (lock_key cid)"
  shows "fst (rc_ping client st) = Raised \<or> fst (rc_exists client (lock_key cid) (snd (rc_ping client st))) = Raised"
proof -
  obtain r st1 where p: "rc_ping client st = (r, st1)" by (cases "rc_ping client st")
  obtain q st2 where ex: "rc_exists client (lock_key cid) st1 = (q, st2)"
    by (cases "rc_exists client (lock_key cid) st1")
  have "has_key st1 (lock_key cid)" using ping_keeps [of st "lock_key cid"] p assms(2) by simp
  then show ?thesis using assms(1) p ex exists_counts [of "lock_key cid" st1]
    by (auto simp: is_cluster_locked_def guarded_def is_available_def split: reply.splits if_splits)
qed

end

interpretation mem_keys: redis_keys mem_client mem_has_key
  by unfold_locales
     (auto simp: mem_client_def mem_cmd_def mem_has_key_def mem_put_def split: list.splits if_splits option.splits)

section \<open>Properties\<close>

text \<open>The emergency lock works while Redis answers and fails open when it does not: with the lock
  set, the check says locked unless the ping or the lookup itself raised, and when the ping raises
  the check says unlocked whatever the state.\<close>

theorem cluster_lock_check:
  assumes "redis_keys client has_key" "s = \<lparr>ss_client = Some client, ss_default_ttl = t\<rparr>"
    and "set_cluster_lock s cid True st = (True, st1)"
  shows "(fst (is_cluster_locked s cid st1) = False \<longrightarrow>
      fst (rc_ping client st1) = Raised \<or> fst (rc_exists client (lock_key cid) (snd (rc_ping client st1))) = Raised)
    \<and> (fst (rc_ping client st1) = Raised \<longrightarrow> fst (is_cluster_locked s cid st1) = False)"
proof -
  have present: "has_key st1 (lock_key cid)"
    using assms redis_keys.set_present [OF assms(1)]
    by (auto simp: set_cluster_lock_def guarded_def split: prod.splits if_splits reply.splits)
  have "fst (rc_ping client st1) = Raised \<Longrightarrow> fst (is_cluster_locked s cid st1) = False"
    by (cases "rc_ping client st1") (simp add: assms(2) is_cluster_locked_def guarded_def is_available_def)
  moreover have "fst (is_cluster_locked s cid st1) = False \<Longrightarrow>
      fst (rc_ping client st1) = Raised \<or> fst (rc_exists client (lock_key cid) (snd (rc_ping client st1))) = Raised"
    using redis_keys.is_cluster_locked_False [OF assms(1) _ present] assms(2)
    by (cases "is_cluster_locked s cid st1") fastforce
  ultimately show ?thesis by blast
qed

theorem cluster_lock_check_witness:
  "\<exists>st1. set_cluster_lock mem_store ''c1'' True empty_server = (True, st1)
     \<and> fst (is_cluster_locked mem_store ''c1'' st1) = True"
proof -
  obtain b st1 where s: "set_cluster_lock mem_store ''c1'' True empty_server = (b, st1)"
    by (cases "set_cluster_lock mem_store ''c1'' True empty_server")
  have b: "b = True" and up: "ms_outcomes st1 = []"
    using s by (auto simp: set_cluster_lock_def guarded_def is_available_def mem_store_def mem_client_def mem_cmd_def
        empty_server_def mem_put_def)
  have st: "mem_store = \<lparr>ss_client = Some mem_client, ss_default_ttl = 3600\<rparr>" by (simp add: mem_store_def)
  have "fst (rc_ping mem_client st1) \<noteq> Raised"
    "fst (rc_exists mem_client (lock_key ''c1'') (snd (rc_ping mem_client st1))) \<noteq> Raised"
    using up by (simp_all add: mem_client_def mem_cmd_def)
  with cluster_lock_check [OF mem_keys.redis_keys_axioms st, of "''c1''" empty_server st1] s b show ?thesis by auto
qed

end
