(* ===== verification/Investigation_Write_Guard.thy ===== *)
theory Investigation_Write_Guard
  imports Executor
begin

text \<open>
  Investigating specialists may read and never write
  (\<open>src/src/sre_agent/investigation_write_guard.py\<close>). The set of remediation-only tools is derived
  from the executor's dispatch maps; a tool in it is wrapped so that every call is refused before
  the tool is reached. A tool is its name and its two optional entry points, each from an input to
  an outcome; \<open>'o\<close> is what a real call yields.

  Shown here: exactly the mutating tools of the dispatch are guarded, and a guarded tool refuses
  every call.
\<close>

datatype 'o tool_outcome = Called 'o | ToolNotAuthorizedError string

record ('i, 'o) tool =
  tl_name :: string
  tl_invoke :: "('i \<Rightarrow> 'o tool_outcome) option"
  tl_ainvoke :: "('i \<Rightarrow> 'o tool_outcome) option"

definition remediation_only_tools :: "string set" where
  "remediation_only_tools =
     snd ` set (filter (\<lambda>(action, tool). action \<notin> NON_MUTATING_ACTIONS) EXECUTOR_TOOL_MAP)
     \<union> {''patch_deployment_env''}
     \<union> snd ` set GITHUB_EXEC_TOOL_MAP
     \<union> {''create_fix_pr''}
     \<union> snd ` set (filter (\<lambda>(action, tool). action \<in> {''provision'', ''teardown''}) SANDBOX_TOOL_MAP)"

definition is_remediation_only :: "string \<Rightarrow> bool" where
  "is_remediation_only tool_name = (tool_name \<in> remediation_only_tools)"

definition wrap_tool_with_write_guard :: "('i, 'o) tool \<Rightarrow> ('i, 'o) tool" where
  "wrap_tool_with_write_guard t =
     (if \<not> is_remediation_only (tl_name t) then t
      else t\<lparr>tl_invoke := map_option (\<lambda>_ _. ToolNotAuthorizedError (tl_name t)) (tl_invoke t),
             tl_ainvoke := map_option (\<lambda>_ _. ToolNotAuthorizedError (tl_name t)) (tl_ainvoke t)\<rparr>)"

section \<open>Lemmas\<close>

lemma remediation_only_tools_eq:
  "remediation_only_tools =
     {''restart_deployment'', ''scale_deployment'', ''rollback_deployment'', ''patch_resource_limits'',
      ''recreate_pod'', ''patch_deployment_env'', ''create_revert_pr'', ''comment_on_pr'', ''create_fix_pr'',
      ''sandbox_provision'', ''sandbox_teardown''}"
  by (auto simp: remediation_only_tools_def EXECUTOR_TOOL_MAP_def GITHUB_EXEC_TOOL_MAP_def SANDBOX_TOOL_MAP_def
      NON_MUTATING_ACTIONS_def NOTIFY_ONLY_ACTIONS_def READ_ONLY_ACTIONS_def)

lemma live_tool_guarded:
  "live_tool_for_action rt a = Some tool \<Longrightarrow> tool \<noteq> ''get_deployment_config'' \<Longrightarrow> tool \<in> remediation_only_tools"
  by (auto simp: live_tool_for_action_def Let_def EXECUTOR_TOOL_MAP_def remediation_only_tools_eq
      split: option.splits if_splits)

section \<open>Properties\<close>

text \<open>C40. Whatever the approved path can call to change something, an investigating specialist cannot
  call at all: every tool that dispatch can route an action to, except the configuration read, is
  remediation-only, and wrapping a tool of that name leaves no entry point that reaches it.\<close>

theorem dispatch_tools_are_guarded:
  assumes "route_action rt a = Inr (Dispatch (be, tool, args))" "tool \<noteq> ''get_deployment_config''"
    and "tl_name t = tool"
  shows "(\<forall>f. tl_invoke (wrap_tool_with_write_guard t) = Some f \<longrightarrow> f x = ToolNotAuthorizedError tool)
    \<and> (\<forall>f. tl_ainvoke (wrap_tool_with_write_guard t) = Some f \<longrightarrow> f x = ToolNotAuthorizedError tool)"
proof -
  have "tool \<in> remediation_only_tools"
    using route_dispatch [OF assms(1)] live_tool_guarded [of rt a tool] assms(2)
    by (auto simp: GITHUB_EXEC_TOOL_MAP_def remediation_only_tools_eq split: if_splits)
  then show ?thesis using assms(3) by (auto simp: wrap_tool_with_write_guard_def is_remediation_only_def)
qed

theorem dispatch_tools_are_guarded_witness:
  "\<exists>args. route_action no_runtime restart_checkout = Inr (Dispatch (Executor_backend, ''restart_deployment'', args))
     \<and> (\<forall>f. tl_invoke (wrap_tool_with_write_guard
              \<lparr>tl_name = ''restart_deployment'', tl_invoke = Some (\<lambda>_::nat. Called (0::nat)), tl_ainvoke = None\<rparr>) = Some f
           \<longrightarrow> f 0 = ToolNotAuthorizedError ''restart_deployment'')"
proof -
  have "case route_action no_runtime restart_checkout of
      Inr (Dispatch (Executor_backend, tool, args)) \<Rightarrow> tool = ''restart_deployment'' | _ \<Rightarrow> False" by code_simp
  then obtain args where a: "route_action no_runtime restart_checkout
      = Inr (Dispatch (Executor_backend, ''restart_deployment'', args))"
    by (auto split: sum.splits route.splits prod.splits backend.splits)
  let ?t = "\<lparr>tl_name = ''restart_deployment'', tl_invoke = Some (\<lambda>_::nat. Called (0::nat)), tl_ainvoke = None\<rparr>"
  have "tl_name ?t = ''restart_deployment''" by simp
  from dispatch_tools_are_guarded [OF a _ this] a show ?thesis by auto
qed

text \<open>The guard forbids nothing that only reads: a tool is wrapped exactly when it is one of the eleven
  tools that change the cluster, the repository or a sandbox, and any other tool is returned as it
  is.\<close>

theorem write_guard_exact:
  "wrap_tool_with_write_guard t =
     (if tl_name t \<in>
        {''restart_deployment'', ''scale_deployment'', ''rollback_deployment'', ''patch_resource_limits'',
         ''recreate_pod'', ''patch_deployment_env'', ''create_revert_pr'', ''comment_on_pr'', ''create_fix_pr'',
         ''sandbox_provision'', ''sandbox_teardown''}
      then \<lparr>tl_name = tl_name t, tl_invoke = map_option (\<lambda>_ _. ToolNotAuthorizedError (tl_name t)) (tl_invoke t),
            tl_ainvoke = map_option (\<lambda>_ _. ToolNotAuthorizedError (tl_name t)) (tl_ainvoke t)\<rparr>
      else t)"
  by (simp add: wrap_tool_with_write_guard_def is_remediation_only_def remediation_only_tools_eq)

end
