(* ===== verification/Incident_Status.thy ===== *)
theory Incident_Status
  imports Executor
begin

text \<open>
  The status of an incident (\<open>src/src/sre_agent/incident_status.py\<close>,
  \<open>src/src/sre_agent/alert_resolution.py\<close> and the \<open>IncidentStatus\<close> enumeration of
  \<open>src/src/backend/models.py\<close>): the status a finished graph run computes from its report and its
  verification outcome, how that is reconciled with what was persisted meanwhile, and what a
  clearing alert does to an incident. Reports are dictionaries; a missing report or outcome is
  \<open>PNone\<close>.

  Shown here: a graph run never resolves an incident and asks for acknowledgment only after a
  verified fix, a resolved incident is never reopened by a run, and a clearing alert never masks a
  failed remediation or a crash.
\<close>

section \<open>Data\<close>

datatype incident_status =
    OPEN
  | INVESTIGATING
  | INVESTIGATED
  | AWAITING_APPROVAL
  | REMEDIATION_IN_PROGRESS
  | REMEDIATION_FAILED
  | VERIFICATION_UNKNOWN
  | PENDING_ACKNOWLEDGMENT
  | RESOLVED

fun status_value :: "incident_status \<Rightarrow> string" where
  "status_value OPEN = ''open''"
| "status_value INVESTIGATING = ''investigating''"
| "status_value INVESTIGATED = ''investigated''"
| "status_value AWAITING_APPROVAL = ''awaiting_approval''"
| "status_value REMEDIATION_IN_PROGRESS = ''remediation_in_progress''"
| "status_value REMEDIATION_FAILED = ''remediation_failed''"
| "status_value VERIFICATION_UNKNOWN = ''verification_unknown''"
| "status_value PENDING_ACKNOWLEDGMENT = ''pending_acknowledgment''"
| "status_value RESOLVED = ''resolved''"

section \<open>Status of a finished run\<close>

text \<open>\<open>_get(obj, key, default)\<close> on a dictionary or \<open>None\<close>.\<close>

definition get_field :: "pyval \<Rightarrow> string \<Rightarrow> pyval \<Rightarrow> pyval" where
  "get_field obj key dflt = (case obj of PDict d \<Rightarrow> py_dict_get d key dflt | _ \<Rightarrow> dflt)"

text \<open>The dictionary entries of \<open>live_results or []\<close>.\<close>

definition result_entries :: "pyval \<Rightarrow> pydict list" where
  "result_entries live_results = (case live_results of PList xs \<Rightarrow> [d. PDict d \<leftarrow> xs] | _ \<Rightarrow> [])"

definition is_mutation_entry :: "runtime \<Rightarrow> pydict \<Rightarrow> bool" where
  "is_mutation_entry rt d = (lower (py_str rt (py_dict_get d ''action_type'' (PStr []))) \<notin> NON_MUTATING_ACTIONS)"

definition mutations_executed :: "runtime \<Rightarrow> pyval \<Rightarrow> bool" where
  "mutations_executed rt live_results =
     (\<exists>d \<in> set (result_entries live_results).
        py_str rt (py_dict_get d ''status'' PNone) = ''EXECUTED'' \<and> is_mutation_entry rt d)"

definition mutations_errored :: "runtime \<Rightarrow> pyval \<Rightarrow> bool" where
  "mutations_errored rt live_results =
     (\<exists>d \<in> set (result_entries live_results).
        upper (py_str rt (py_dict_get d ''status'' PNone)) = ''ERROR'' \<and> is_mutation_entry rt d)"

definition human_approved :: "pyval \<Rightarrow> bool" where
  "human_approved report =
     (get_field (py_or (get_field report ''approval'' (PDict [])) (PDict [])) ''status'' PNone = PStr ''approved'')"

definition compute_incident_status :: "runtime \<Rightarrow> pyval \<Rightarrow> pyval \<Rightarrow> incident_status" where
  "compute_incident_status rt report outcome =
     (let live_results = get_field report ''live_results'' PNone in
      if \<not> truthy (get_field report ''plan_present'' (PBool False)) then INVESTIGATED
      else if get_field report ''aggregate_decision'' PNone \<noteq> PStr ''autonomous'' \<and> \<not> human_approved report
      then AWAITING_APPROVAL
      else if human_approved report \<and> \<not> truthy live_results then INVESTIGATED
      else if truthy live_results \<and> \<not> mutations_executed rt live_results
      then (if mutations_errored rt live_results then REMEDIATION_FAILED else INVESTIGATED)
      else if outcome = PNone then REMEDIATION_IN_PROGRESS
      else (let s = upper (py_str rt (py_or (get_field outcome ''status'' (PStr [])) (PStr []))) in
            if s = ''RESOLVED'' then PENDING_ACKNOWLEDGMENT
            else if s = ''FAILED'' then REMEDIATION_FAILED
            else VERIFICATION_UNKNOWN))"

definition resolved_at_for_status :: "incident_status \<Rightarrow> int \<Rightarrow> int option" where
  "resolved_at_for_status status now = (if status = RESOLVED then Some now else None)"

definition effective_status_after_run :: "incident_status \<Rightarrow> incident_status \<Rightarrow> incident_status" where
  "effective_status_after_run persisted computed = (if status_value persisted = ''resolved'' then RESOLVED else computed)"

section \<open>Clearing alerts\<close>

definition active_values :: "string list" where
  "active_values = [''open'', ''investigating'', ''investigated'', ''awaiting_approval'',
     ''remediation_in_progress'', ''remediation_failed'', ''verification_unknown'']"

datatype resolution_reason =
    NoActiveIncident | AlertClearedButRemediationFailed | AlertClearedByWorkloadCrash
  | AlertClearedExternalLifecycle

record resolved_alert_decision =
  ra_matched :: bool
  ra_previous_status :: "string option"
  ra_new_status :: "string option"
  ra_mark_resolved :: bool
  ra_masked_failed_remediation :: bool
  ra_reason :: resolution_reason
  ra_cleared_by_workload_crash :: bool

definition is_active_incident_status :: "incident_status option \<Rightarrow> bool" where
  "is_active_incident_status status =
     (case status of None \<Rightarrow> False | Some s \<Rightarrow> status_value s \<in> set active_values)"

definition reconcile_resolved_alert :: "incident_status option \<Rightarrow> bool \<Rightarrow> resolved_alert_decision" where
  "reconcile_resolved_alert current workload_crashed =
     (let value = map_option status_value current;
          mk = (\<lambda>matched new mark masked why crash.
            \<lparr>ra_matched = matched, ra_previous_status = value, ra_new_status = new, ra_mark_resolved = mark,
             ra_masked_failed_remediation = masked, ra_reason = why, ra_cleared_by_workload_crash = crash\<rparr>)
      in case value of
           None \<Rightarrow> mk False None False False NoActiveIncident False
         | Some v \<Rightarrow>
             (if v \<notin> set active_values then mk False None False False NoActiveIncident False
              else if v = ''remediation_failed''
              then mk True (Some ''remediation_failed'') False True AlertClearedButRemediationFailed False
              else if workload_crashed then mk True (Some v) False False AlertClearedByWorkloadCrash True
              else mk True (Some ''resolved'') True False AlertClearedExternalLifecycle False))"

section \<open>Lemmas\<close>

lemma status_value_inject [simp]: "status_value a = status_value b \<longleftrightarrow> a = b"
  by (cases a; cases b) simp_all

lemma active_values_iff: "status_value s \<in> set active_values \<longleftrightarrow> s \<notin> {PENDING_ACKNOWLEDGMENT, RESOLVED}"
  by (cases s) (simp_all add: active_values_def)

section \<open>Properties\<close>

text \<open>A graph run never marks an incident resolved. It asks for acknowledgment exactly when there is a
  plan that was autonomous or approved by a human, what ran live (if anything did) included a
  mutation that executed, an approved plan did run something, and verification reported
  \<open>RESOLVED\<close>; every other run leaves the incident investigated, waiting, in progress, failed or
  unverified.\<close>

theorem compute_incident_status_spec:
  "compute_incident_status rt report outcome \<notin> {RESOLVED, OPEN, INVESTIGATING}
   \<and> (compute_incident_status rt report outcome = PENDING_ACKNOWLEDGMENT \<longleftrightarrow>
       truthy (get_field report ''plan_present'' (PBool False))
       \<and> (get_field report ''aggregate_decision'' PNone = PStr ''autonomous'' \<or> human_approved report)
       \<and> \<not> (human_approved report \<and> \<not> truthy (get_field report ''live_results'' PNone))
       \<and> \<not> (truthy (get_field report ''live_results'' PNone)
            \<and> \<not> mutations_executed rt (get_field report ''live_results'' PNone))
       \<and> outcome \<noteq> PNone
       \<and> upper (py_str rt (py_or (get_field outcome ''status'' (PStr [])) (PStr []))) = ''RESOLVED'')"
  by (auto simp: compute_incident_status_def Let_def)

text \<open>Persisting the outcome of a run never reopens an incident: one that was resolved meanwhile stays
  resolved, any other takes the computed status, and the resolution time is present exactly when
  the resulting status is resolved.\<close>

theorem run_never_reopens:
  "effective_status_after_run persisted computed = (if persisted = RESOLVED then RESOLVED else computed)
   \<and> (resolved_at_for_status (effective_status_after_run persisted (compute_incident_status rt report outcome)) now \<noteq> None
        \<longleftrightarrow> persisted = RESOLVED)"
proof -
  have "status_value persisted = ''resolved'' \<longleftrightarrow> persisted = RESOLVED" by (cases persisted) simp_all
  moreover have "compute_incident_status rt report outcome \<noteq> RESOLVED"
    by (auto simp: compute_incident_status_def Let_def)
  ultimately show ?thesis by (auto simp: effective_status_after_run_def resolved_at_for_status_def)
qed

text \<open>A clearing alert resolves an incident exactly when it is active, its remediation has not failed and
  its workload has not crashed; a failed remediation stays failed, a crash keeps the status, and an
  incident that is resolved or waits for acknowledgment is left alone.\<close>

theorem reconcile_resolved_alert_spec:
  "let d = reconcile_resolved_alert (Some s) crashed in
     (ra_mark_resolved d \<longleftrightarrow> s \<notin> {PENDING_ACKNOWLEDGMENT, RESOLVED, REMEDIATION_FAILED} \<and> \<not> crashed)
     \<and> (ra_new_status d = (if s \<in> {PENDING_ACKNOWLEDGMENT, RESOLVED} then None
          else if s = REMEDIATION_FAILED \<or> crashed then Some (status_value s) else Some (status_value RESOLVED)))
     \<and> ra_matched d = is_active_incident_status (Some s)"
  by (cases s; cases crashed)
     (simp_all add: reconcile_resolved_alert_def is_active_incident_status_def active_values_def Let_def)

end
