(* ===== verification/Py_Uuid.thy ===== *)
theory Py_Uuid
  imports Sentinel_Prelude
begin

text \<open>
  \<open>uuid.UUID\<close>: a UUID is the number it denotes. \<open>parse_uuid\<close> is the constructor from a text, with none
  where Python raises \<open>ValueError\<close>, and \<open>uuid_str\<close> is \<open>str()\<close> of a UUID. The main fact is that
  reading a rendered UUID gives it back (\<open>parse_uuid_str\<close>).
\<close>

section \<open>Definitions\<close>

text \<open>\<open>s.replace(p, "")\<close> for a non-empty \<open>p\<close>.\<close>

fun remove_text :: "string \<Rightarrow> string \<Rightarrow> string" where
  "remove_text (x # p) (c # s) =
     (if c = x \<and> take (length p) s = p then remove_text (x # p) (drop (length p) s) else c # remove_text (x # p) s)"
| "remove_text p s = s"

definition hex_val :: "char \<Rightarrow> int option" where
  "hex_val c = map_of (zip ''0123456789abcdef'' [0..15]) (lower_char c)"

fun hex_digits_ok :: "bool \<Rightarrow> string \<Rightarrow> bool" where
  "hex_digits_ok after_digit [] = after_digit"
| "hex_digits_ok after_digit (c # s) =
     (if hex_val c \<noteq> None then hex_digits_ok True s else after_digit \<and> c = CHR ''_'' \<and> hex_digits_ok False s)"

definition hex_step :: "int \<Rightarrow> char \<Rightarrow> int" where
  "hex_step acc c = (case hex_val c of Some d \<Rightarrow> 16 * acc + d | None \<Rightarrow> acc)"

definition hex_value :: "string \<Rightarrow> int" where
  "hex_value s = foldl hex_step 0 s"

text \<open>\<open>int(s, 16)\<close> of a text without a minus sign: whitespace is stripped, and a plus sign, the prefix
  \<open>0x\<close> and single underscores between digits are accepted.\<close>

definition parse_hex :: "string \<Rightarrow> int option" where
  "parse_hex s0 =
     (let s = strip s0;
          t = (if take 1 s = ''+'' then drop 1 s else s);
          u = (if lower (take 2 t) = ''0x'' then (if take 1 (drop 2 t) = ''_'' then drop 3 t else drop 2 t) else t)
      in if hex_digits_ok False u then Some (hex_value u) else None)"

text \<open>The texts \<open>urn:\<close> and \<open>uuid:\<close> and the hyphens are removed wherever they stand, braces at the ends, and
  32 characters must be left.\<close>

definition parse_uuid :: "string \<Rightarrow> int option" where
  "parse_uuid s =
     (let h = filter (\<lambda>c. c \<noteq> CHR ''-'')
                (strip_where (\<lambda>c. c = CHR ''{'' \<or> c = CHR ''}'') (remove_text ''uuid:'' (remove_text ''urn:'' s)))
      in if length h = 32 then parse_hex h else None)"

fun hex_digits :: "nat \<Rightarrow> int \<Rightarrow> string" where
  "hex_digits 0 n = []"
| "hex_digits (Suc k) n = hex_digits k (n div 16) @ [hex_digit (nat (n mod 16))]"

definition uuid_str :: "int \<Rightarrow> string" where
  "uuid_str u =
     (let h = hex_digits 32 u
      in take 8 h @ ''-'' @ take 4 (drop 8 h) @ ''-'' @ take 4 (drop 12 h) @ ''-'' @ take 4 (drop 16 h) @ ''-'' @ drop 20 h)"

definition is_uuid :: "int \<Rightarrow> bool" where
  "is_uuid u = (0 \<le> u \<and> u < 2 ^ 128)"

section \<open>The round trip\<close>

lemma length_hex_digits [simp]: "length (hex_digits k n) = k"
  by (induction k arbitrary: n) auto

lemma hex_digit_table:
  "list_all (\<lambda>n. List.member ''0123456789abcdef'' (hex_digit n) \<and> hex_val (hex_digit n) = Some (int n))
     [0, 1, 2, 3, 4, 5, 6, 7, 8, 9, 10, 11, 12, 13, 14, 15]"
  by code_simp

lemma hex_digit_cases:
  assumes "n < 16"
  shows "hex_digit n \<in> set ''0123456789abcdef'' \<and> hex_val (hex_digit n) = Some (int n)"
proof -
  have "n \<in> set [0, 1, 2, 3, 4, 5, 6, 7, 8, 9, 10, 11, 12, 13, 14, 15]" using assms by (simp, arith)
  with hex_digit_table show ?thesis unfolding list_all_iff List.member_iff by blast
qed

lemma set_hex_digits: "set (hex_digits k n) \<subseteq> set ''0123456789abcdef''"
proof (induction k arbitrary: n)
  case (Suc k)
  then show ?case using hex_digit_cases [of "nat (n mod 16)"] by simp
qed simp

lemma hex_digits_value: "foldl hex_step acc (hex_digits k n) = 16 ^ k * acc + n mod 16 ^ k"
proof (induction k arbitrary: n)
  case (Suc k)
  have d: "hex_val (hex_digit (nat (n mod 16))) = Some (n mod 16)" using hex_digit_cases [of "nat (n mod 16)"] by simp
  have "n mod 16 ^ Suc k = 16 * (n div 16 mod 16 ^ k) + n mod 16"
    using zmod_zmult2_eq [of "16 ^ k" n 16] by (simp add: mult.commute)
  then show ?case by (simp add: Suc hex_step_def [of _ "hex_digit _"] d algebra_simps)
qed simp

lemma hex_digits_ok_all: "(\<forall>c \<in> set s. hex_val c \<noteq> None) \<Longrightarrow> hex_digits_ok b s \<longleftrightarrow> b \<or> s \<noteq> []"
  by (induction s arbitrary: b) auto

lemma remove_text_absent: "x \<notin> set s \<Longrightarrow> remove_text (x # p) s = s"
  by (induction s) auto

lemma dropWhile_none: "(\<And>c. c \<in> set s \<Longrightarrow> \<not> p c) \<Longrightarrow> dropWhile p s = s"
  by (cases s) auto

lemma strip_where_none: "(\<And>c. c \<in> set s \<Longrightarrow> \<not> p c) \<Longrightarrow> strip_where p s = s"
  using dropWhile_none [of s p] dropWhile_none [of "rev s" p] by (simp add: strip_where_def)

lemma hex_text_table:
  "list_all (\<lambda>c. hex_val c \<noteq> None \<and> \<not> is_space c \<and> c \<noteq> CHR ''-'' \<and> c \<noteq> CHR ''+'' \<and> lower_char c \<noteq> CHR ''x''
     \<and> c \<noteq> CHR ''u'' \<and> c \<noteq> CHR ''{'' \<and> c \<noteq> CHR ''}'') ''0123456789abcdef''"
  by code_simp

lemmas hex_text = hex_text_table [unfolded list_all_iff, rule_format]

lemma parse_hex_digits:
  assumes "set h \<subseteq> set ''0123456789abcdef''" "h \<noteq> []"
  shows "parse_hex h = Some (hex_value h)"
proof -
  have t: "c \<in> set h \<Longrightarrow> hex_val c \<noteq> None \<and> \<not> is_space c \<and> c \<noteq> CHR ''+'' \<and> lower_char c \<noteq> CHR ''x''" for c
    using hex_text [of c] assms(1) by blast
  have s: "strip h = h" unfolding strip_def by (rule strip_where_none) (use t in blast)
  have p: "take 1 h \<noteq> ''+''" using t assms(2) by (cases h) auto
  have x: "lower (take 2 h) \<noteq> ''0x''"
  proof
    assume x: "lower (take 2 h) = ''0x''"
    then obtain y z where "take 2 h = [y, z]" "lower_char z = CHR ''x''" by (auto simp: lower_def map_eq_Cons_conv)
    moreover from this have "z \<in> set (take 2 h)" by simp
    ultimately show False using t in_set_takeD by fast
  qed
  have "hex_digits_ok False h" using hex_digits_ok_all t assms(2) by blast
  with s p x show ?thesis by (simp add: parse_hex_def Let_def)
qed

lemma split_hyphens:
  "take 8 h @ take 4 (drop 8 h) @ take 4 (drop 12 h) @ take 4 (drop 16 h) @ drop 20 h = h"
proof -
  have "take 4 (drop (k + 4) h) @ drop (k + 8) h = drop (k + 4) h" for k
    using append_take_drop_id [of 4 "drop (k + 4) h"] by (simp add: add.commute)
  from this [of 4] this [of 8] this [of 12] show ?thesis by simp
qed

text \<open>Reading the rendered form of a UUID gives the UUID back.\<close>

lemma parse_uuid_str:
  assumes "is_uuid u"
  shows "parse_uuid (uuid_str u) = Some u"
proof -
  let ?h = "hex_digits 32 u"
  have hex: "set ?h \<subseteq> set ''0123456789abcdef''" by (rule set_hex_digits)
  have "set (uuid_str u) \<subseteq> insert (CHR ''-'') (set ?h)"
    unfolding uuid_str_def Let_def by (auto dest: in_set_takeD in_set_dropD)
  then have chars: "c \<in> set (uuid_str u) \<Longrightarrow> c \<in> set ''0123456789abcdef'' \<or> c = CHR ''-''" for c
    using hex by blast
  have u: "CHR ''u'' \<notin> set (uuid_str u)" using chars hex_text by blast
  have b: "c \<in> set (uuid_str u) \<Longrightarrow> \<not> (c = CHR ''{'' \<or> c = CHR ''}'')" for c
    using chars [of c] hex_text [of c] by auto
  have keep: "filter (\<lambda>c. c \<noteq> CHR ''-'') xs = xs" if "set xs \<subseteq> set ?h" for xs
    using that hex hex_text by (auto intro!: filter_eq_all)
  have f: "filter (\<lambda>c. c \<noteq> CHR ''-'') (uuid_str u) = ?h"
    using split_hyphens [of ?h]
    by (simp add: uuid_str_def Let_def keep set_take_subset set_drop_subset subset_trans [OF set_take_subset set_drop_subset])
  have "hex_value ?h = u"
    using assms hex_digits_value [of 0 32 u] by (simp add: hex_value_def is_uuid_def)
  moreover have "parse_hex ?h = Some (hex_value ?h)"
    by (rule parse_hex_digits [OF hex]) (metis length_hex_digits list.size(3) zero_neq_numeral)
  ultimately show ?thesis
    using remove_text_absent [OF u] strip_where_none [OF b] f by (simp add: parse_uuid_def Let_def)
qed

end
