(* ===== verification/Mutation_Gateway.thy ===== *)
theory Mutation_Gateway
  imports Py_Uuid Namespace_Scope Confidence_Calibration Redis_State_Store Incident_Status
begin

text \<open>
  The sole boundary for live mutations (\<open>src/src/sre_agent/mutation_gateway.py\<close>).
  \<open>authorize_and_execute\<close> distrusts what the caller decided: it checks the lock, recomputes the
  gate decision, verifies the scope, refuses a resolved incident, claims the idempotency key and
  only then dispatches and audits. The world it acts on is the Redis server state; the database
  (the row lock on the incident and the insertion of the audit event) and the file that holds the
  calibration artifact are arguments of \<open>gateway_env\<close>, each with the outcomes the source handles.
  Every run reports the tool calls it made, the audit events it stored and the new server state.

  Shown here: a tool is called only for a freshly authorized, in-scope, unresolved and newly
  claimed action, a rejection or a retryable failure leaves no claim and no call, and a key
  dispatches at most once while its claim lives.
\<close>

section \<open>Data\<close>

datatype reject_code =
    StaleGateBlocked | StateUnavailable | ClusterLocked | InvalidGateContext | PolicyBlocked
  | ApprovalRequired | ScopeMismatch | UnsupportedAction | IncidentResolved | InvalidIdempotencyKey

datatype gateway_error =
    MutationRejected reject_code
  | MutationPreDispatchError
  | MutationRetryUnsafe
  | MutationAuditError

text \<open>What the core raises before the outer function classifies it.\<close>

datatype core_error = Rejected reject_code | AuditFailed | OtherException

text \<open>The context carries an environment, which the gateway never reads: it takes the one of the
  execution context.\<close>

record mutation_gate_context =
  mg_decision :: pyval
  mg_severity :: pyval
  mg_environment :: pyval
  mg_risk_score :: pyval
  mg_approved :: pyval
  mg_actor :: pyval
  mg_incident_id :: pyval
  mg_raw_action_confidence :: pyval

record audit_event =
  ae_cluster_id :: int
  ae_organization_id :: int
  ae_actor_id :: string
  ae_action_type :: string
  ae_resource_target :: string
  ae_outcome :: exec_status
  ae_detail :: exec_detail
  ae_rollback_command :: "string option"
  ae_human_approved :: bool
  ae_audit :: pydict

text \<open>The surroundings of a run. \<open>ge_lookup incident cluster\<close> is the locked row's status, none when no
  row matches, and an error when the database fails; \<open>ge_persist\<close> says whether an audit event could
  be stored; \<open>ge_load\<close> is the outcome of loading the calibration artifact at a path.\<close>

record 'st gateway_env =
  ge_rt :: runtime
  ge_store :: "'st state_store"
  ge_severity_config :: severity_config
  ge_load :: "string \<Rightarrow> (cal_error, calibration_artifact) res"
  ge_lookup :: "int \<Rightarrow> int \<Rightarrow> (unit, incident_status option) res"
  ge_persist :: "audit_event \<Rightarrow> bool"
  ge_sha256 :: "string \<Rightarrow> string"
  ge_now_iso :: string

datatype phase = PreClaim | ClaimStarted | DispatchStarted

record 'st core_run =
  cr_result :: "(core_error, execution_result) res"
  cr_phase :: phase
  cr_calls :: "tool_call list"
  cr_events :: "audit_event list"
  cr_state :: 'st

record 'st gateway_run =
  gr_result :: "(gateway_error, execution_result) res"
  gr_calls :: "tool_call list"
  gr_events :: "audit_event list"
  gr_state :: 'st

section \<open>Reading the gate context\<close>

text \<open>\<open>_severity\<close>: a member is its integer; a name is looked up, anything else goes through \<open>int()\<close>.
  \<open>Severity\<close> is an \<open>IntEnum\<close>, so a member arrives as \<open>PInt\<close>.\<close>

definition severity_names :: "(string \<times> severity) list" where
  "severity_names = [(''SEV1'', SEV1), (''SEV2'', SEV2), (''SEV3'', SEV3), (''SEV4'', SEV4)]"

definition severity_of_number :: "pyval \<Rightarrow> (core_error, severity) res" where
  "severity_of_number v =
     (case py_int v of
        Inl OverflowError \<Rightarrow> Inl OtherException
      | Inl _ \<Rightarrow> Inl (Rejected InvalidGateContext)
      | Inr i \<Rightarrow> (case severity_of_int i of Some s \<Rightarrow> Inr s | None \<Rightarrow> Inl (Rejected InvalidGateContext)))"

definition gate_severity :: "pyval \<Rightarrow> (core_error, severity) res" where
  "gate_severity v =
     (case v of
        PStr s \<Rightarrow>
          (let token = upper s in
           if token = ''UNKNOWN'' then Inr UNKNOWN
           else if take 3 token = ''SEV''
           then (case map_of severity_names token of Some x \<Rightarrow> Inr x | None \<Rightarrow> Inl (Rejected InvalidGateContext))
           else severity_of_number v)
      | _ \<Rightarrow> severity_of_number v)"

definition decision_text :: "runtime \<Rightarrow> pyval \<Rightarrow> string" where
  "decision_text rt v = lower (py_str rt (py_or v (PStr [])))"

definition idempotency_ttl :: "runtime \<Rightarrow> int" where
  "idempotency_ttl rt =
     (case parse_int (getenv rt ''MUTATION_IDEMPOTENCY_TTL_SECONDS'' ''86400'') of
        Some n \<Rightarrow> max 1 n | None \<Rightarrow> 86400)"

definition gate_risk_score :: "pyval \<Rightarrow> (core_error, flt) res" where
  "gate_risk_score v =
     (case py_float (py_or v (PFloat (Fin 0))) of
        Inr x \<Rightarrow> Inr x
      | Inl OverflowError \<Rightarrow> Inl OtherException
      | Inl _ \<Rightarrow> Inl (Rejected InvalidGateContext))"

definition runtime_remediation_calibration :: "'st gateway_env \<Rightarrow> pyval \<Rightarrow> (core_error, pyval \<times> pyval) res" where
  "runtime_remediation_calibration ge raw =
     (if \<not> is_number raw then Inr (PNone, PNone)
      else case num_float raw of
        Inl _ \<Rightarrow> Inl OtherException
      | Inr x \<Rightarrow>
          (if \<not> (flt_le (Fin 0) x \<and> flt_le x (Fin 1)) then Inr (PNone, PNone)
           else
             (let configured = strip (getenv (ge_rt ge) ''REMEDIATION_CONFIDENCE_CALIBRATION_PATH'' []);
                  fp = strip (getenv (ge_rt ge) ''SENTINEL_CONFIG_FINGERPRINT'' [])
              in if configured = [] \<or> fp = [] then Inr (PNone, PNone)
                 else case rbind (ge_load ge configured) (\<lambda>artifact.
                        calibrate_confidence (PFloat x) artifact ''remediation'' fp) of
                   Inl CalibrationError \<Rightarrow> Inr (PNone, PNone)
                 | Inl CalOSError \<Rightarrow> Inr (PNone, PNone)
                 | Inl (CalRaised _) \<Rightarrow> Inl OtherException
                 | Inr c \<Rightarrow> Inr (PFloat (Fin (cc_calibrated_probability c)),
                                 case cc_autonomy_threshold c of None \<Rightarrow> PNone | Some t \<Rightarrow> PFloat (Fin t)))))"

section \<open>Scope\<close>

definition scope_field_ok :: "runtime \<Rightarrow> pydict \<Rightarrow> string \<Rightarrow> string \<Rightarrow> bool" where
  "scope_field_ok rt params field expected =
     (let supplied = py_dict_get params field PNone in supplied = PNone \<or> py_str rt supplied = expected)"

definition context_namespaces :: "execution_context \<Rightarrow> string list" where
  "context_namespaces ctx =
     ec_allowlist ctx @ (case ec_namespace ctx of Some n \<Rightarrow> (if n \<noteq> [] then [n] else []) | None \<Rightarrow> [])"

definition action_namespace_text :: "runtime \<Rightarrow> remediation_action \<Rightarrow> string" where
  "action_namespace_text rt a = strip (text_of rt (params_get a ''namespace''))"

text \<open>\<open>_verify_scope\<close> gives the action back, with the cluster's namespace filled in where it was
  missing.\<close>

definition verify_scope :: "runtime \<Rightarrow> remediation_action \<Rightarrow> execution_context \<Rightarrow> (core_error, remediation_action) res" where
  "verify_scope rt a ctx =
     (if ec_organization_id ctx = [] \<or> ec_cluster_id ctx = [] then Inl (Rejected ScopeMismatch)
      else case params_dict a of
        None \<Rightarrow> Inl (Rejected ScopeMismatch)
      | Some params \<Rightarrow>
          (if \<not> scope_field_ok rt params ''organization_id'' (ec_organization_id ctx)
              \<or> \<not> scope_field_ok rt params ''cluster_id'' (ec_cluster_id ctx) then Inl (Rejected ScopeMismatch)
           else if strip (target a) = [] then Inl (Rejected ScopeMismatch)
           else if map_of EXECUTOR_TOOL_MAP (lower (action_type a)) \<noteq> None then
             (if live_tool_for_action rt a = None then Inl (Rejected UnsupportedAction)
              else case assert_action_namespace rt a ctx of
                Inl _ \<Rightarrow> Inl (Rejected ScopeMismatch)
              | Inr a' \<Rightarrow>
                  (let namespace = action_namespace_text rt a' in
                   if context_namespaces ctx = [] then Inl (Rejected ScopeMismatch)
                   else if namespace = [] \<or> namespace \<notin> set (context_namespaces ctx) then Inl (Rejected ScopeMismatch)
                   else Inr a'))
           else if map_of GITHUB_EXEC_TOOL_MAP (lower (action_type a)) = None then Inl (Rejected UnsupportedAction)
           else Inr a))"

section \<open>Authorization\<close>

record authorization =
  au_context :: execution_context
  au_action :: remediation_action
  au_approved :: bool
  au_decision :: autonomy_decision

text \<open>The fresh decision and everything it needs, once the store has answered.\<close>

definition fresh_authorization :: "'st gateway_env \<Rightarrow> execution_context \<Rightarrow> remediation_action \<Rightarrow> mutation_gate_context
    \<Rightarrow> (core_error, authorization) res" where
  "fresh_authorization ge ctx a mg =
     rbind (gate_severity (mg_severity mg)) (\<lambda>sev.
     rbind (gate_risk_score (mg_risk_score mg)) (\<lambda>risk.
     let approved = truthy (mg_approved mg) in
     rbind (runtime_remediation_calibration ge (mg_raw_action_confidence mg)) (\<lambda>(p, m).
     case decide (ge_severity_config ge) evaluate_action a sev False (ec_environment ctx) risk p m of
       Inl _ \<Rightarrow> Inl OtherException
     | Inr fresh \<Rightarrow>
         (if gd_decision fresh = BLOCKED then Inl (Rejected PolicyBlocked)
          else if gd_decision fresh = REQUIRES_APPROVAL \<and> \<not> approved then Inl (Rejected ApprovalRequired)
          else rbind (verify_scope (ge_rt ge) a ctx) (\<lambda>a'.
            Inr \<lparr>au_context = ctx, au_action = a', au_approved = approved, au_decision = gd_decision fresh\<rparr>)))))"

definition authorize :: "'st gateway_env \<Rightarrow> remediation_action \<Rightarrow> mutation_gate_context \<Rightarrow> execution_context option \<Rightarrow> 'st
    \<Rightarrow> (core_error, authorization) res \<times> 'st" where
  "authorize ge a mg ctx0 st =
     (case require_execution_context (ge_rt ge) ctx0 of
        Inl _ \<Rightarrow> (Inl OtherException, st)
      | Inr ctx \<Rightarrow>
          (if decision_text (ge_rt ge) (mg_decision mg) \<notin> {''autonomous'', ''requires_approval''}
           then (Inl (Rejected StaleGateBlocked), st)
           else (let (available, st1) = is_available (ge_store ge) st in
             if \<not> available then (Inl (Rejected StateUnavailable), st1)
             else (let (locked, st2) = is_cluster_locked (ge_store ge) (ec_cluster_id ctx) st1 in
               if locked then (Inl (Rejected ClusterLocked), st2)
               else (fresh_authorization ge ctx a mg, st2)))))"

section \<open>The incident guard\<close>

definition incident_mutation_guard :: "'st gateway_env \<Rightarrow> pyval \<Rightarrow> execution_context \<Rightarrow> (core_error, unit) res" where
  "incident_mutation_guard ge incident_id ctx =
     (if \<not> truthy incident_id then Inr ()
      else case parse_uuid (py_str (ge_rt ge) incident_id) of
        None \<Rightarrow> Inl (Rejected InvalidGateContext)
      | Some iid \<Rightarrow>
          (case parse_uuid (ec_cluster_id ctx) of
             None \<Rightarrow> Inl OtherException
           | Some cid \<Rightarrow>
               (case ge_lookup ge iid cid of
                  Inl _ \<Rightarrow> Inl OtherException
                | Inr None \<Rightarrow> Inl (Rejected ScopeMismatch)
                | Inr (Some status) \<Rightarrow> (if status = RESOLVED then Inl (Rejected IncidentResolved) else Inr ()))))"

section \<open>Audit, claim and dispatch\<close>

definition make_audit_event :: "runtime \<Rightarrow> execution_context \<Rightarrow> execution_result \<Rightarrow> bool \<Rightarrow> audit_event option" where
  "make_audit_event rt ctx r approved =
     (case (parse_uuid (ec_cluster_id ctx), parse_uuid (ec_organization_id ctx)) of
        (Some cid, Some oid) \<Rightarrow>
          Some \<lparr>ae_cluster_id = cid, ae_organization_id = oid,
            ae_actor_id = py_str rt (py_or (py_dict_get (er_audit r) ''actor'' PNone) (PStr ''sre-agent'')),
            ae_action_type = upper (er_action_type r), ae_resource_target = er_target r, ae_outcome = er_status r,
            ae_detail = er_detail r, ae_rollback_command = er_rollback_command r, ae_human_approved = approved,
            ae_audit = er_audit r\<rparr>
      | _ \<Rightarrow> None)"

definition duplicate_result :: "runtime \<Rightarrow> remediation_action \<Rightarrow> string \<Rightarrow> execution_result" where
  "duplicate_result rt a command =
     \<lparr>er_action_type = lower (action_type a), er_target = target a, er_command = command, er_mode = LIVE_MODE,
      er_status = Skipped, er_audit = [], er_rollback_command = build_rollback_command rt a, er_detail = DuplicateClaim\<rparr>"

text \<open>\<open>incident_id\<close> is passed on as it is; the executor's record holds a string.\<close>

definition incident_text :: "runtime \<Rightarrow> pyval \<Rightarrow> string option" where
  "incident_text rt v = (if v = PNone then None else Some (py_str rt v))"

definition dispatch_and_audit :: "'st gateway_env \<Rightarrow> mutation_gate_context \<Rightarrow> authorization \<Rightarrow> caller option \<Rightarrow> caller option
    \<Rightarrow> 'st \<Rightarrow> 'st core_run" where
  "dispatch_and_audit ge mg au tool_caller github_caller st =
     (let rt = ge_rt ge;
          ex = \<lparr>ex_actor = py_str rt (py_or (mg_actor mg) (PStr ''sre-agent'')),
                ex_incident_id = incident_text rt (mg_incident_id mg)\<rparr>;
          run = (\<lambda>res calls events. \<lparr>cr_result = res, cr_phase = DispatchStarted, cr_calls = calls, cr_events = events, cr_state = st\<rparr>)
      in case aexecute_unchecked rt (ge_sha256 ge) (ge_now_iso ge) ex (au_action au)
                (if au_approved au then ''approved'' else decision_value (au_decision au)) False tool_caller github_caller of
           Inl _ \<Rightarrow> run (Inl OtherException) [] []
         | Inr (r, calls) \<Rightarrow>
             (case make_audit_event rt (au_context au) r (au_approved au) of
                None \<Rightarrow> run (Inl AuditFailed) calls []
              | Some e \<Rightarrow> (if ge_persist ge e then run (Inr r) calls [e] else run (Inl AuditFailed) calls [])))"

definition claim_and_dispatch :: "'st gateway_env \<Rightarrow> mutation_gate_context \<Rightarrow> authorization \<Rightarrow> caller option \<Rightarrow> caller option
    \<Rightarrow> string \<Rightarrow> 'st \<Rightarrow> 'st core_run" where
  "claim_and_dispatch ge mg au tool_caller github_caller key st =
     (let stop = (\<lambda>res ph s. \<lparr>cr_result = res, cr_phase = ph, cr_calls = [], cr_events = [], cr_state = s\<rparr>) in
      if strip key = [] then stop (Inl (Rejected InvalidIdempotencyKey)) PreClaim st
      else (let (claimed, st1) = set_idempotency (ge_store ge) key (idempotency_ttl (ge_rt ge)) st in
        if \<not> claimed then
          (let (available, st2) = is_available (ge_store ge) st1 in
           if \<not> available then stop (Inl (Rejected StateUnavailable)) ClaimStarted st2
           else (case build_command (ge_rt ge) (au_action au) of
                   Inl _ \<Rightarrow> stop (Inl OtherException) ClaimStarted st2
                 | Inr command \<Rightarrow> stop (Inr (duplicate_result (ge_rt ge) (au_action au) command)) ClaimStarted st2))
        else dispatch_and_audit ge mg au tool_caller github_caller st1))"

definition authorize_and_execute_unclassified :: "'st gateway_env \<Rightarrow> remediation_action \<Rightarrow> mutation_gate_context
    \<Rightarrow> execution_context option \<Rightarrow> caller option \<Rightarrow> caller option \<Rightarrow> string \<Rightarrow> 'st \<Rightarrow> 'st core_run" where
  "authorize_and_execute_unclassified ge a mg ctx0 tool_caller github_caller key st =
     (let stop = (\<lambda>e s. \<lparr>cr_result = Inl e, cr_phase = PreClaim, cr_calls = [], cr_events = [], cr_state = s\<rparr>) in
      case authorize ge a mg ctx0 st of
        (Inl e, st1) \<Rightarrow> stop e st1
      | (Inr au, st1) \<Rightarrow>
          (case incident_mutation_guard ge (mg_incident_id mg) (au_context au) of
             Inl e \<Rightarrow> stop e st1
           | Inr _ \<Rightarrow> claim_and_dispatch ge mg au tool_caller github_caller key st1))"

definition classify_failure :: "phase \<Rightarrow> core_error \<Rightarrow> gateway_error" where
  "classify_failure ph e =
     (case e of
        Rejected c \<Rightarrow> MutationRejected c
      | AuditFailed \<Rightarrow> MutationAuditError
      | OtherException \<Rightarrow> (if ph = PreClaim then MutationPreDispatchError else MutationRetryUnsafe))"

definition authorize_and_execute :: "'st gateway_env \<Rightarrow> remediation_action \<Rightarrow> mutation_gate_context
    \<Rightarrow> execution_context option \<Rightarrow> caller option \<Rightarrow> caller option \<Rightarrow> string \<Rightarrow> 'st \<Rightarrow> 'st gateway_run" where
  "authorize_and_execute ge a mg ctx0 tool_caller github_caller key st =
     (let c = authorize_and_execute_unclassified ge a mg ctx0 tool_caller github_caller key st
      in \<lparr>gr_result = (case cr_result c of Inr r \<Rightarrow> Inr r | Inl e \<Rightarrow> Inl (classify_failure (cr_phase c) e)),
          gr_calls = cr_calls c, gr_events = cr_events c, gr_state = cr_state c\<rparr>)"

section \<open>Sequences of attempts\<close>

text \<open>Attempts to run mutations under one key, each after some seconds have passed: everything but the key
  and the server may differ between them.\<close>

record 'st attempt =
  at_delay :: int
  at_env :: "'st gateway_env"
  at_action :: remediation_action
  at_gate :: mutation_gate_context
  at_context :: "execution_context option"
  at_tool_caller :: "caller option"
  at_github_caller :: "caller option"

definition run_attempt :: "string \<Rightarrow> 'st attempt \<Rightarrow> 'st \<Rightarrow> 'st gateway_run" where
  "run_attempt key x st =
     authorize_and_execute (at_env x) (at_action x) (at_gate x) (at_context x) (at_tool_caller x) (at_github_caller x) key st"

fun run_attempts :: "(int \<Rightarrow> 'st \<Rightarrow> 'st) \<Rightarrow> string \<Rightarrow> 'st attempt list \<Rightarrow> 'st \<Rightarrow> tool_call list list" where
  "run_attempts elapse key [] st = []"
| "run_attempts elapse key (x # xs) st =
     (let r = run_attempt key x (elapse (at_delay x) st)
      in gr_calls r # run_attempts elapse key xs (gr_state r))"

section \<open>Lemmas on one run\<close>

lemma authorize_cases:
  assumes "authorize ge a mg ctx0 st = (res, st')"
  obtains (stay) e where "res = Inl e" "st' = st"
  | (pinged) "res = Inl (Rejected StateUnavailable)" "st' = snd (is_available (ge_store ge) st)"
  | (checked) ctx locked st1 where "require_execution_context (ge_rt ge) ctx0 = Inr ctx"
      "decision_text (ge_rt ge) (mg_decision mg) \<in> {''autonomous'', ''requires_approval''}"
      "is_available (ge_store ge) st = (True, st1)" "is_cluster_locked (ge_store ge) (ec_cluster_id ctx) st1 = (locked, st')"
      "res = (if locked then Inl (Rejected ClusterLocked) else fresh_authorization ge ctx a mg)"
proof (cases "require_execution_context (ge_rt ge) ctx0")
  case (Inl e)
  then show thesis using assms stay by (auto simp: authorize_def)
next
  case (Inr ctx)
  show thesis
  proof (cases "decision_text (ge_rt ge) (mg_decision mg) \<in> {''autonomous'', ''requires_approval''}")
    case False
    then show thesis using assms Inr stay by (auto simp: authorize_def)
  next
    case dec: True
    obtain av st1 where av: "is_available (ge_store ge) st = (av, st1)" by (cases "is_available (ge_store ge) st")
    obtain locked st2 where lk: "is_cluster_locked (ge_store ge) (ec_cluster_id ctx) st1 = (locked, st2)"
      by (cases "is_cluster_locked (ge_store ge) (ec_cluster_id ctx) st1")
    have eq: "(res, st') = (if \<not> av then (Inl (Rejected StateUnavailable), st1)
        else (if locked then Inl (Rejected ClusterLocked) else fresh_authorization ge ctx a mg, st2))"
      unfolding assms [symmetric] authorize_def using Inr dec av lk by simp
    show thesis
    proof (cases av)
      case True
      then show thesis using checked [OF Inr dec, of st1 locked] eq av lk by auto
    next
      case False
      then show thesis using pinged eq av by simp
    qed
  qed
qed

lemma fresh_authorization_Inr:
  assumes "fresh_authorization ge ctx a mg = Inr au"
  shows "\<exists>sev risk p m fresh. gate_severity (mg_severity mg) = Inr sev \<and> gate_risk_score (mg_risk_score mg) = Inr risk
    \<and> runtime_remediation_calibration ge (mg_raw_action_confidence mg) = Inr (p, m)
    \<and> decide (ge_severity_config ge) evaluate_action a sev False (ec_environment ctx) risk p m = Inr fresh
    \<and> gd_decision fresh \<noteq> BLOCKED \<and> (gd_decision fresh = AUTONOMOUS \<or> truthy (mg_approved mg))
    \<and> verify_scope (ge_rt ge) a ctx = Inr (au_action au) \<and> au_context au = ctx
    \<and> au_approved au = truthy (mg_approved mg) \<and> au_decision au = gd_decision fresh"
proof -
  from assms obtain sev risk p m where s: "gate_severity (mg_severity mg) = Inr sev"
    "gate_risk_score (mg_risk_score mg) = Inr risk"
    "runtime_remediation_calibration ge (mg_raw_action_confidence mg) = Inr (p, m)"
    by (auto simp: fresh_authorization_def rbind_eq_Inr Let_def)
  with assms obtain fresh where f: "decide (ge_severity_config ge) evaluate_action a sev False (ec_environment ctx) risk p m = Inr fresh"
    by (auto simp: fresh_authorization_def Let_def split: sum.splits)
  with assms s show ?thesis
    by (cases "gd_decision fresh") (auto simp: fresh_authorization_def Let_def rbind_eq_Inr split: if_splits)
qed

lemma dispatch_calls:
  "cr_calls (dispatch_and_audit ge mg au tc gc st) \<noteq> [] \<Longrightarrow>
     \<exists>call. cr_calls (dispatch_and_audit ge mg au tc gc st) = [call] \<and> route_action (ge_rt ge) (au_action au) = Inr (Dispatch call)"
proof -
  let ?ex = "\<lparr>ex_actor = py_str (ge_rt ge) (py_or (mg_actor mg) (PStr ''sre-agent'')),
              ex_incident_id = incident_text (ge_rt ge) (mg_incident_id mg)\<rparr>"
  let ?x = "aexecute_unchecked (ge_rt ge) (ge_sha256 ge) (ge_now_iso ge) ?ex (au_action au)
     (if au_approved au then ''approved'' else decision_value (au_decision au)) False tc gc"
  assume a: "cr_calls (dispatch_and_audit ge mg au tc gc st) \<noteq> []"
  then obtain r calls where x: "?x = Inr (r, calls)"
    by (cases ?x) (auto simp: dispatch_and_audit_def Let_def)
  have c: "cr_calls (dispatch_and_audit ge mg au tc gc st) = calls"
    using x by (simp add: dispatch_and_audit_def Let_def split: option.splits)
  from x a show ?thesis unfolding c
    by (cases rule: aexecute_cases) (use a c call_tool_calls in fastforce)+
qed

lemma dispatch_state [simp]:
  "cr_state (dispatch_and_audit ge mg au tc gc st) = st"
  "cr_phase (dispatch_and_audit ge mg au tc gc st) = DispatchStarted"
  by (auto simp: dispatch_and_audit_def Let_def split: sum.split prod.split option.split)

lemma claim_and_dispatch_cases:
  fixes ge key st
  defines "cl \<equiv> set_idempotency (ge_store ge) key (idempotency_ttl (ge_rt ge)) st"
  obtains (blank) "strip key = []"
      "claim_and_dispatch ge mg au tc gc key st =
         \<lparr>cr_result = Inl (Rejected InvalidIdempotencyKey), cr_phase = PreClaim, cr_calls = [], cr_events = [], cr_state = st\<rparr>"
  | (refused) res where "fst cl = False"
      "claim_and_dispatch ge mg au tc gc key st =
         \<lparr>cr_result = res, cr_phase = ClaimStarted, cr_calls = [], cr_events = [],
          cr_state = snd (is_available (ge_store ge) (snd cl))\<rparr>"
  | (granted) "fst cl = True" "strip key \<noteq> []"
      "claim_and_dispatch ge mg au tc gc key st = dispatch_and_audit ge mg au tc gc (snd cl)"
proof (cases "strip key = []")
  case True
  then show thesis using blank by (simp add: claim_and_dispatch_def Let_def)
next
  case False
  obtain b st1 where b: "cl = (b, st1)" by (cases cl)
  show thesis
  proof (cases b)
    case True
    then show thesis using granted False b by (simp add: claim_and_dispatch_def Let_def cl_def)
  next
    case nb: False
    let ?run = "claim_and_dispatch ge mg au tc gc key st"
    obtain av st2 where av: "is_available (ge_store ge) st1 = (av, st2)" by (cases "is_available (ge_store ge) st1")
    have "?run = \<lparr>cr_result = cr_result ?run, cr_phase = ClaimStarted, cr_calls = [], cr_events = [],
        cr_state = snd (is_available (ge_store ge) (snd cl))\<rparr>"
      using False b nb av
      by (cases av; cases "build_command (ge_rt ge) (au_action au)") (simp_all add: claim_and_dispatch_def cl_def)
    then show thesis using refused [of "cr_result ?run"] nb b by simp
  qed
qed

lemma core_cases:
  fixes ge a mg ctx0 tc gc key st
  defines "run \<equiv> authorize_and_execute_unclassified ge a mg ctx0 tc gc key st"
  obtains (stopped) res st1 e where "authorize ge a mg ctx0 st = (res, st1)" "cr_calls run = []" "cr_events run = []"
      "cr_phase run = PreClaim" "cr_state run = st1" "cr_result run = Inl e"
  | (claiming) au st1 where "authorize ge a mg ctx0 st = (Inr au, st1)"
      "incident_mutation_guard ge (mg_incident_id mg) (au_context au) = Inr ()"
      "run = claim_and_dispatch ge mg au tc gc key st1"
proof -
  obtain res st1 where a: "authorize ge a mg ctx0 st = (res, st1)" by (cases "authorize ge a mg ctx0 st")
  show thesis
  proof (cases res)
    case (Inl e)
    then show thesis using stopped [of res st1 e] a
      by (simp add: run_def authorize_and_execute_unclassified_def Let_def)
  next
    case (Inr au)
    show thesis
    proof (cases "incident_mutation_guard ge (mg_incident_id mg) (au_context au)")
      case (Inl e)
      then show thesis using stopped [of res st1 e] a Inr
        by (simp add: run_def authorize_and_execute_unclassified_def Let_def)
    next
      case g: (Inr u)
      then show thesis using claiming [of au st1] a Inr
        by (simp add: run_def authorize_and_execute_unclassified_def Let_def)
    qed
  qed
qed

lemma gateway_fields:
  "gr_calls (authorize_and_execute ge a mg ctx0 tc gc key st) = cr_calls (authorize_and_execute_unclassified ge a mg ctx0 tc gc key st)"
  "gr_events (authorize_and_execute ge a mg ctx0 tc gc key st) = cr_events (authorize_and_execute_unclassified ge a mg ctx0 tc gc key st)"
  "gr_state (authorize_and_execute ge a mg ctx0 tc gc key st) = cr_state (authorize_and_execute_unclassified ge a mg ctx0 tc gc key st)"
  by (simp_all add: authorize_and_execute_def Let_def)

section \<open>Claims over time\<close>

context redis_claims
begin

abbreviation the_store :: "int \<Rightarrow> 'st state_store" where
  "the_store t \<equiv> \<lparr>ss_client = Some client, ss_default_ttl = t\<rparr>"

lemma authorize_life:
  assumes "authorize ge a mg ctx0 st = (res, st')" "ge_store ge = the_store t"
  shows "claim_life remaining st' j = claim_life remaining st j"
  using assms(1)
proof (cases rule: authorize_cases)
  case stay
  then show ?thesis by simp
next
  case pinged
  then show ?thesis using is_available_same assms(2) by (simp add: claim_life_def)
next
  case (checked ctx locked st1)
  have "claim_life remaining st1 j = claim_life remaining st j"
    using is_available_same [of t st "idempotency_key_name j"] checked(3) assms(2) by (simp add: claim_life_def)
  moreover have "claim_life remaining st' j = claim_life remaining st1 j"
    using is_cluster_locked_same [of t "ec_cluster_id ctx" st1 "idempotency_key_name j"] checked(4) assms(2)
    by (simp add: claim_life_def)
  ultimately show ?thesis by simp
qed

lemma run_keeps_life:
  assumes "ge_store ge = the_store t" "0 < claim_life remaining st j"
  shows "claim_life remaining st j \<le> claim_life remaining (gr_state (authorize_and_execute ge a mg ctx0 tc gc key st)) j"
proof (cases rule: core_cases [of ge a mg ctx0 st tc gc key])
  case (stopped res st1 e)
  then show ?thesis using authorize_life [OF stopped(1) assms(1), of j] by (simp add: gateway_fields)
next
  case (claiming au st1)
  have same: "claim_life remaining st1 j = claim_life remaining st j" by (rule authorize_life [OF claiming(1) assms(1)])
  let ?cl = "set_idempotency (ge_store ge) key (idempotency_ttl (ge_rt ge)) st1"
  have kept: "claim_life remaining st1 j \<le> claim_life remaining (snd ?cl) j"
    using idem.claim_keeps [of t key _ st1 "fst ?cl" "snd ?cl" j] same assms by simp
  have ping: "claim_life remaining (snd (is_available (ge_store ge) s)) j = claim_life remaining s j" for s
    using is_available_same assms(1) by (simp add: claim_life_def)
  have "claim_life remaining st j \<le> claim_life remaining (cr_state (claim_and_dispatch ge mg au tc gc key st1)) j"
    by (cases rule: claim_and_dispatch_cases [of key ge mg au tc gc st1]) (use same kept ping in simp_all)
  then show ?thesis by (simp add: gateway_fields claiming(3))
qed

lemma run_calls_life:
  assumes "ge_store ge = the_store t" "gr_calls (authorize_and_execute ge a mg ctx0 tc gc key st) \<noteq> []"
  shows "claim_life remaining st key \<le> 0"
    and "idempotency_ttl (ge_rt ge) \<le> claim_life remaining (gr_state (authorize_and_execute ge a mg ctx0 tc gc key st)) key"
proof -
  let ?run = "authorize_and_execute_unclassified ge a mg ctx0 tc gc key st"
  have ne: "cr_calls ?run \<noteq> []" using assms(2) by (simp add: gateway_fields)
  then obtain au st1 where c: "authorize ge a mg ctx0 st = (Inr au, st1)"
    "?run = claim_and_dispatch ge mg au tc gc key st1"
    by (cases rule: core_cases [of ge a mg ctx0 st tc gc key]) auto
  let ?cl = "set_idempotency (ge_store ge) key (idempotency_ttl (ge_rt ge)) st1"
  have g: "fst ?cl = True" "?run = dispatch_and_audit ge mg au tc gc (snd ?cl)"
    using ne unfolding c(2) by (cases rule: claim_and_dispatch_cases [of key ge mg au tc gc st1]; simp)+
  then have cl: "set_idempotency (the_store t) key (idempotency_ttl (ge_rt ge)) st1 = (True, snd ?cl)"
    using assms(1) by (metis prod.collapse)
  show "claim_life remaining st key \<le> 0"
    using idem.claim_exclusive [OF cl] authorize_life [OF c(1) assms(1), of key] by simp
  show "idempotency_ttl (ge_rt ge) \<le> claim_life remaining (gr_state (authorize_and_execute ge a mg ctx0 tc gc key st)) key"
    using idem.claim_lives [OF cl] g(2) by (simp add: gateway_fields)
qed

text \<open>While a claim lives, no attempt under its key calls a tool.\<close>

lemma attempts_blocked:
  assumes "\<forall>x \<in> set xs. ge_store (at_env x) = the_store t \<and> 0 \<le> at_delay x"
    and "sum_list (map at_delay xs) < claim_life remaining st key"
  shows "filter (\<lambda>c. c \<noteq> []) (run_attempts elapse key xs st) = []"
  using assms
proof (induction xs arbitrary: st)
  case (Cons x xs)
  let ?st = "elapse (at_delay x) st"
  let ?r = "run_attempt key x ?st"
  have store: "ge_store (at_env x) = the_store t" and d: "0 \<le> at_delay x" using Cons.prems by auto
  have nn: "0 \<le> sum_list (map at_delay xs)" using Cons.prems(1) by (intro sum_list_nonneg) auto
  have life: "claim_life remaining st key - at_delay x \<le> claim_life remaining ?st key"
    by (rule idem.elapse_life [OF d])
  then have pos: "0 < claim_life remaining ?st key" using Cons.prems(2) nn by simp
  have "gr_calls ?r = []" using run_calls_life(1) [OF store] pos by (fastforce simp: run_attempt_def)
  moreover have "claim_life remaining ?st key \<le> claim_life remaining (gr_state ?r) key"
    using run_keeps_life [OF store pos] by (simp add: run_attempt_def)
  ultimately show ?case using Cons.IH [of "gr_state ?r"] Cons.prems life by (simp add: Let_def)
qed simp

lemma attempts_at_most_once:
  assumes "\<forall>x \<in> set xs. ge_store (at_env x) = the_store t \<and> 0 \<le> at_delay x \<and> ttl \<le> idempotency_ttl (ge_rt (at_env x))"
    and "sum_list (map at_delay xs) < ttl"
  shows "length (filter (\<lambda>c. c \<noteq> []) (run_attempts elapse key xs st)) \<le> 1"
  using assms
proof (induction xs arbitrary: st)
  case (Cons x xs)
  let ?st = "elapse (at_delay x) st"
  let ?r = "run_attempt key x ?st"
  have store: "ge_store (at_env x) = the_store t" and d: "0 \<le> at_delay x"
    and ttl: "ttl \<le> idempotency_ttl (ge_rt (at_env x))" using Cons.prems by auto
  have total: "sum_list (map at_delay xs) < ttl" using Cons.prems d by simp
  show ?case
  proof (cases "gr_calls ?r = []")
    case True
    then show ?thesis using Cons.IH [of "gr_state ?r"] Cons.prems total by (simp add: Let_def)
  next
    case False
    then have "ttl \<le> claim_life remaining (gr_state ?r) key"
      using run_calls_life(2) [OF store] ttl by (fastforce simp: run_attempt_def)
    then have "filter (\<lambda>c. c \<noteq> []) (run_attempts elapse key xs (gr_state ?r)) = []"
      using attempts_blocked [of xs t "gr_state ?r" key] Cons.prems(1) total by auto
    then show ?thesis by (simp add: Let_def)
  qed
qed simp

end

text \<open>What a run that called a tool went through.\<close>

lemma gateway_call_facts:
  assumes "gr_calls (authorize_and_execute ge a mg ctx0 tc gc key st) \<noteq> []"
  shows "\<exists>ctx st1 st2 st3 sev risk p m fresh a' call.
      require_execution_context (ge_rt ge) ctx0 = Inr ctx
    \<and> decision_text (ge_rt ge) (mg_decision mg) \<in> {''autonomous'', ''requires_approval''}
    \<and> is_available (ge_store ge) st = (True, st1)
    \<and> is_cluster_locked (ge_store ge) (ec_cluster_id ctx) st1 = (False, st2)
    \<and> gate_severity (mg_severity mg) = Inr sev \<and> gate_risk_score (mg_risk_score mg) = Inr risk
    \<and> runtime_remediation_calibration ge (mg_raw_action_confidence mg) = Inr (p, m)
    \<and> decide (ge_severity_config ge) evaluate_action a sev False (ec_environment ctx) risk p m = Inr fresh
    \<and> gd_decision fresh \<noteq> BLOCKED \<and> (gd_decision fresh = AUTONOMOUS \<or> truthy (mg_approved mg))
    \<and> verify_scope (ge_rt ge) a ctx = Inr a'
    \<and> incident_mutation_guard ge (mg_incident_id mg) ctx = Inr ()
    \<and> set_idempotency (ge_store ge) key (idempotency_ttl (ge_rt ge)) st2 = (True, st3)
    \<and> gr_calls (authorize_and_execute ge a mg ctx0 tc gc key st) = [call]
    \<and> route_action (ge_rt ge) a' = Inr (Dispatch call)"
proof -
  let ?run = "authorize_and_execute_unclassified ge a mg ctx0 tc gc key st"
  have ne: "cr_calls ?run \<noteq> []" using assms by (simp add: gateway_fields)
  then obtain au st2 where c: "authorize ge a mg ctx0 st = (Inr au, st2)"
    "incident_mutation_guard ge (mg_incident_id mg) (au_context au) = Inr ()"
    "?run = claim_and_dispatch ge mg au tc gc key st2"
    by (cases rule: core_cases [of ge a mg ctx0 st tc gc key]) auto
  obtain ctx st1 where chk: "require_execution_context (ge_rt ge) ctx0 = Inr ctx"
    "decision_text (ge_rt ge) (mg_decision mg) \<in> {''autonomous'', ''requires_approval''}"
    "is_available (ge_store ge) st = (True, st1)" "is_cluster_locked (ge_store ge) (ec_cluster_id ctx) st1 = (False, st2)"
    "fresh_authorization ge ctx a mg = Inr au"
    using c(1) by (cases rule: authorize_cases) (auto split: if_splits)
  let ?cl = "set_idempotency (ge_store ge) key (idempotency_ttl (ge_rt ge)) st2"
  have g: "fst ?cl = True" "?run = dispatch_and_audit ge mg au tc gc (snd ?cl)"
    using ne unfolding c(3) by (cases rule: claim_and_dispatch_cases [of key ge mg au tc gc st2]; simp)+
  obtain call where call: "cr_calls ?run = [call]" "route_action (ge_rt ge) (au_action au) = Inr (Dispatch call)"
    using dispatch_calls [of ge mg au tc gc "snd ?cl"] ne unfolding g(2) by blast
  have cl: "?cl = (True, snd ?cl)" using g(1) by (metis prod.collapse)
  have calls: "gr_calls (authorize_and_execute ge a mg ctx0 tc gc key st) = [call]" using call(1) by (simp add: gateway_fields)
  from fresh_authorization_Inr [OF chk(5)] obtain sev risk p m fresh where
    f: "gate_severity (mg_severity mg) = Inr sev" "gate_risk_score (mg_risk_score mg) = Inr risk"
      "runtime_remediation_calibration ge (mg_raw_action_confidence mg) = Inr (p, m)"
      "decide (ge_severity_config ge) evaluate_action a sev False (ec_environment ctx) risk p m = Inr fresh"
      "gd_decision fresh \<noteq> BLOCKED" "gd_decision fresh = AUTONOMOUS \<or> truthy (mg_approved mg)"
      "verify_scope (ge_rt ge) a ctx = Inr (au_action au)" and actx: "au_context au = ctx"
    by blast
  have guard: "incident_mutation_guard ge (mg_incident_id mg) ctx = Inr ()" using c(2) actx by simp
  show ?thesis using chk(1-4) f guard cl calls call(2) by blast
qed

section \<open>Sample run\<close>

definition sample_uuid :: string where
  "sample_uuid = replicate 32 (CHR ''1'')"

definition sample_context :: execution_context where
  "sample_context = shop_context\<lparr>ec_organization_id := sample_uuid, ec_cluster_id := sample_uuid\<rparr>"

definition sample_gate :: mutation_gate_context where
  "sample_gate = \<lparr>mg_decision = PStr ''requires_approval'', mg_severity = PInt 2, mg_environment = PStr ''dev'', mg_risk_score = PNone,
     mg_approved = PBool True, mg_actor = PNone, mg_incident_id = PNone, mg_raw_action_confidence = PNone\<rparr>"

definition sample_env :: "mem_server gateway_env" where
  "sample_env = \<lparr>ge_rt = no_runtime, ge_store = mem_store, ge_severity_config = default_severity_config,
     ge_load = \<lambda>_. Inl CalibrationError, ge_lookup = \<lambda>_ _. Inr None, ge_persist = \<lambda>_. True,
     ge_sha256 = \<lambda>_. ''h'', ge_now_iso = ''now''\<rparr>"

definition sample_run :: "mem_server gateway_run" where
  "sample_run = authorize_and_execute sample_env restart_checkout sample_gate (Some sample_context)
     (Some (\<lambda>_ _. Inr applied_response)) None ''k1'' empty_server"

definition sample_attempt :: "mem_server attempt" where
  "sample_attempt = \<lparr>at_delay = 60, at_env = sample_env, at_action = restart_checkout, at_gate = sample_gate,
     at_context = Some sample_context, at_tool_caller = Some (\<lambda>_ _. Inr applied_response), at_github_caller = None\<rparr>"

section \<open>Properties\<close>

text \<open>C1. Every tool call the gateway makes is freshly authorized. If a run called anything, then the prior
  decision was an authorization, the store answered and the lock check said unlocked, the policy
  gate recomputed on this action and the operator's environment did not block it, it was autonomous
  or a human approved it, the action passed the scope check, its incident (when it names one) was
  found and not resolved, the idempotency claim was granted to this run, and the one call is the
  one that dispatch routes the scoped action to.\<close>

theorem gateway_calls_are_authorized:
  assumes "gr_calls (authorize_and_execute ge a mg ctx0 tc gc key st) \<noteq> []"
  shows "\<exists>ctx st1 st2 st3 sev risk p m fresh a' call.
      require_execution_context (ge_rt ge) ctx0 = Inr ctx
    \<and> decision_text (ge_rt ge) (mg_decision mg) \<in> {''autonomous'', ''requires_approval''}
    \<and> is_available (ge_store ge) st = (True, st1)
    \<and> is_cluster_locked (ge_store ge) (ec_cluster_id ctx) st1 = (False, st2)
    \<and> gate_severity (mg_severity mg) = Inr sev \<and> gate_risk_score (mg_risk_score mg) = Inr risk
    \<and> runtime_remediation_calibration ge (mg_raw_action_confidence mg) = Inr (p, m)
    \<and> decide (ge_severity_config ge) evaluate_action a sev False (ec_environment ctx) risk p m = Inr fresh
    \<and> gd_decision fresh \<noteq> BLOCKED \<and> (gd_decision fresh = AUTONOMOUS \<or> truthy (mg_approved mg))
    \<and> verify_scope (ge_rt ge) a ctx = Inr a'
    \<and> incident_mutation_guard ge (mg_incident_id mg) ctx = Inr ()
    \<and> set_idempotency (ge_store ge) key (idempotency_ttl (ge_rt ge)) st2 = (True, st3)
    \<and> gr_calls (authorize_and_execute ge a mg ctx0 tc gc key st) = [call]
    \<and> route_action (ge_rt ge) a' = Inr (Dispatch call)"
  by (rule gateway_call_facts [OF assms])

theorem gateway_calls_are_authorized_witness:
  "gr_calls sample_run \<noteq> [] \<and> (\<exists>call. gr_calls sample_run = [call])"
proof -
  have ne: "gr_calls sample_run \<noteq> []" by code_simp
  from gateway_calls_are_authorized [OF ne [unfolded sample_run_def]] ne show ?thesis
    unfolding sample_run_def by blast
qed

text \<open>The scope check lets an infrastructure action through only with a namespace of the execution
  context: the action it returns names, after the cluster's namespace was filled in where it was
  missing, a non-blank namespace on the context's list, and differs from the proposed action in
  nothing but that parameter.\<close>

theorem verify_scope_confines_namespace:
  assumes "verify_scope rt a ctx = Inr a'" and "map_of EXECUTOR_TOOL_MAP (lower (action_type a)) \<noteq> None"
  shows "action_namespace_text rt a' \<noteq> [] \<and> action_namespace_text rt a' \<in> set (context_namespaces ctx)
    \<and> action_type a' = action_type a \<and> target a' = target a \<and> rollback_plan a' = rollback_plan a
    \<and> (\<forall>k. k \<noteq> ''namespace'' \<longrightarrow> params_get a' k = params_get a k)"
proof -
  obtain params where p: "params_dict a = Some params" using assms by (auto simp: verify_scope_def split: if_splits option.splits)
  obtain b where b: "assert_action_namespace rt a ctx = Inr b"
    using assms by (auto simp: verify_scope_def split: if_splits option.splits sum.splits)
  have ab: "a' = b" "action_namespace_text rt a' \<noteq> []" "action_namespace_text rt a' \<in> set (context_namespaces ctx)"
    using assms b by (auto simp: verify_scope_def Let_def split: if_splits option.splits)
  have "b = a \<or> (\<exists>v. b = a\<lparr>parameters := PDict (py_dict_set params ''namespace'' v)\<rparr>)"
    using b p by (auto simp: assert_action_namespace_def rbind_eq_Inr Let_def split: if_splits)
  then show ?thesis using ab p
    by (auto simp: params_get_def params_dict_PDict py_dict_get_set)
qed

theorem verify_scope_confines_namespace_witness:
  "\<exists>a'. verify_scope no_runtime restart_checkout sample_context = Inr a' \<and> action_namespace_text no_runtime a' \<in> {''shop''}"
proof -
  have "is_ok (verify_scope no_runtime restart_checkout sample_context)" by code_simp
  then obtain a' where a: "verify_scope no_runtime restart_checkout sample_context = Inr a'" by (auto simp: is_ok_iff)
  have t: "map_of EXECUTOR_TOOL_MAP (lower (action_type restart_checkout)) \<noteq> None" by code_simp
  have "set (context_namespaces sample_context) = {''shop''}"
    by (simp add: context_namespaces_def sample_context_def shop_context_def)
  with verify_scope_confines_namespace [OF a t] a show ?thesis by auto
qed

text \<open>C37. A rejection and a failure that may be retried are clean: no tool was called and no audit event
  written, and a retryable failure also left every idempotency claim exactly as it was.\<close>

theorem gateway_failures_are_clean:
  assumes "redis_claims client remaining elapse" "ge_store ge = \<lparr>ss_client = Some client, ss_default_ttl = t\<rparr>"
    and "run = authorize_and_execute ge a mg ctx0 tc gc key st"
  shows "(gr_result run = Inl (MutationRejected c) \<or> gr_result run = Inl MutationPreDispatchError \<longrightarrow>
            gr_calls run = [] \<and> gr_events run = [])
    \<and> (gr_result run = Inl MutationPreDispatchError \<longrightarrow>
            claim_life remaining (gr_state run) j = claim_life remaining st j)"
proof -
  let ?core = "authorize_and_execute_unclassified ge a mg ctx0 tc gc key st"
  have dispatch: "cr_result (dispatch_and_audit ge mg au tc gc s) \<noteq> Inl (Rejected d)" for au s d
    by (auto simp: dispatch_and_audit_def Let_def split: sum.split prod.split option.split)
  have res: "gr_result run = (case cr_result ?core of Inr r \<Rightarrow> Inr r | Inl e \<Rightarrow> Inl (classify_failure (cr_phase ?core) e))"
    and eq: "gr_calls run = cr_calls ?core" "gr_events run = cr_events ?core" "gr_state run = cr_state ?core"
    by (simp_all add: assms(3) authorize_and_execute_def Let_def)
  show ?thesis
  proof (cases rule: core_cases [of ge a mg ctx0 st tc gc key])
    case (stopped r st1 e)
    then show ?thesis
      using redis_claims.authorize_life [OF assms(1) stopped(1) assms(2), of j] eq by simp
  next
    case (claiming au st1)
    show ?thesis
    proof (cases rule: claim_and_dispatch_cases [of key ge mg au tc gc st1])
      case blank
      then show ?thesis using claiming res eq by (simp add: classify_failure_def)
    next
      case (refused r)
      then show ?thesis using claiming res eq
        by (auto simp: classify_failure_def split: sum.splits core_error.splits)
    next
      case granted
      have ph: "cr_phase ?core = DispatchStarted" using granted claiming by simp
      have "gr_result run \<noteq> Inl (MutationRejected d)" for d
        using res dispatch claiming granted by (auto simp: classify_failure_def split: sum.splits core_error.splits if_splits)
      moreover have "gr_result run \<noteq> Inl MutationPreDispatchError"
        using res ph by (auto simp: classify_failure_def split: sum.splits core_error.splits)
      ultimately show ?thesis by simp
    qed
  qed
qed

theorem gateway_failures_are_clean_witness:
  "gr_calls (authorize_and_execute sample_env restart_checkout (sample_gate\<lparr>mg_approved := PBool False\<rparr>)
      (Some sample_context) (Some (\<lambda>_ _. Inr applied_response)) None ''k1'' empty_server) = []"
proof -
  let ?run = "authorize_and_execute sample_env restart_checkout (sample_gate\<lparr>mg_approved := PBool False\<rparr>)
      (Some sample_context) (Some (\<lambda>_ _. Inr applied_response)) None ''k1'' empty_server"
  have r: "gr_result ?run = Inl (MutationRejected ApprovalRequired)" by code_simp
  have s: "ge_store sample_env = \<lparr>ss_client = Some mem_client, ss_default_ttl = 3600\<rparr>"
    by (simp add: sample_env_def mem_store_def)
  show ?thesis using gateway_failures_are_clean [OF mem.redis_claims_axioms s refl] r by blast
qed

text \<open>C2. A mutation runs at most once per idempotency key. Over any sequence of attempts under one key
  (with different actions, gate contexts, callers or environments) that together last less than the
  claim's time to live, at most one attempt calls a tool, provided the server keeps the documented
  behaviour of \<open>SET NX EX\<close>.\<close>

theorem mutation_at_most_once:
  assumes "redis_claims client remaining elapse"
    and "\<forall>x \<in> set attempts. ge_store (at_env x) = \<lparr>ss_client = Some client, ss_default_ttl = t\<rparr> \<and> 0 \<le> at_delay x
           \<and> ttl \<le> idempotency_ttl (ge_rt (at_env x))"
    and "sum_list (map at_delay attempts) < ttl"
  shows "length (filter (\<lambda>calls. calls \<noteq> []) (run_attempts elapse key attempts st)) \<le> 1"
  by (rule redis_claims.attempts_at_most_once [OF assms])

theorem mutation_at_most_once_witness:
  "length (filter (\<lambda>calls. calls \<noteq> [])
     (run_attempts mem_elapse ''k1'' [sample_attempt, sample_attempt, sample_attempt] empty_server)) \<le> 1"
proof (rule mutation_at_most_once [OF mem.redis_claims_axioms, of _ 3600 86400])
  have ttl: "idempotency_ttl no_runtime = 86400" by code_simp
  show "\<forall>x \<in> set [sample_attempt, sample_attempt, sample_attempt].
      ge_store (at_env x) = \<lparr>ss_client = Some mem_client, ss_default_ttl = 3600\<rparr> \<and> 0 \<le> at_delay x
      \<and> 86400 \<le> idempotency_ttl (ge_rt (at_env x))"
    using ttl by (simp add: sample_attempt_def sample_env_def mem_store_def)
  show "sum_list (map at_delay [sample_attempt, sample_attempt, sample_attempt]) < 86400"
    by (simp add: sample_attempt_def)
qed

end
