(* ===== verification/Job_Lifecycle.thy ===== *)
theory Job_Lifecycle
  imports Sentinel_Prelude
begin

text \<open>
  What a durable job may do, whichever store keeps it. The life of a job is an abstract state (waiting,
  leased to an owner until a time, or retired, with the attempts used and a cancellation flag) and a
  step relation indexed by the clock. The locale \<open>job_queue\<close> is the contract of a store: every
  operation moves every job along the life steps, a new job starts fresh, and an operation of
  another worker leaves a lease that has not expired alone. The facts proved in it once hold for
  the in-memory store and for the database store, which both interpret it.
\<close>

section \<open>The life of a job\<close>

datatype job_status = PENDING | RUNNING | COMPLETED | DEGRADED | FAILED | CANCELLED | DEAD_LETTER

datatype job_type = TOOL_CALL | INVESTIGATION | REMEDIATION

fun job_type_value :: "job_type \<Rightarrow> string" where
  "job_type_value TOOL_CALL = ''tool_call''"
| "job_type_value INVESTIGATION = ''investigation''"
| "job_type_value REMEDIATION = ''remediation''"

datatype life_phase = Waiting | Leased "string option" "int option" | Retired job_status

record life =
  lf_phase :: life_phase
  lf_attempts :: int
  lf_max :: int
  lf_cancel :: bool

text \<open>The abstract state of a job with these columns.\<close>

definition phase_of :: "job_status \<Rightarrow> string option \<Rightarrow> int option \<Rightarrow> life_phase" where
  "phase_of st owner expires = (case st of PENDING \<Rightarrow> Waiting | RUNNING \<Rightarrow> Leased owner expires | s \<Rightarrow> Retired s)"

definition fresh_life :: "life \<Rightarrow> bool" where
  "fresh_life l = (lf_phase l = Waiting \<and> lf_attempts l = 0 \<and> 1 \<le> lf_max l \<and> \<not> lf_cancel l)"

inductive life_step :: "int \<Rightarrow> life \<Rightarrow> life \<Rightarrow> bool" for now where
  claimed: "lf_phase l = Waiting \<Longrightarrow> \<not> lf_cancel l \<Longrightarrow> now < expires \<Longrightarrow>
    life_step now l (l\<lparr>lf_phase := Leased (Some w) (Some expires), lf_attempts := lf_attempts l + 1\<rparr>)"
| renewed: "lf_phase l = Leased (Some w) x \<Longrightarrow> \<not> lf_cancel l \<Longrightarrow> (\<forall>t. x = Some t \<longrightarrow> now \<le> t) \<Longrightarrow>
    life_step now l (l\<lparr>lf_phase := Leased (Some w) (Some expires)\<rparr>)"
| finished: "lf_phase l = Leased (Some w) x \<Longrightarrow> life_step now l (l\<lparr>lf_phase := Retired COMPLETED\<rparr>)"
| failed_cancelled: "lf_phase l = Leased (Some w) x \<Longrightarrow> lf_cancel l \<Longrightarrow>
    life_step now l (l\<lparr>lf_phase := Retired CANCELLED\<rparr>)"
| failed_dead: "lf_phase l = Leased (Some w) x \<Longrightarrow> \<not> lf_cancel l \<Longrightarrow> lf_max l \<le> lf_attempts l \<Longrightarrow>
    life_step now l (l\<lparr>lf_phase := Retired DEAD_LETTER\<rparr>)"
| failed_retry: "lf_phase l = Leased (Some w) x \<Longrightarrow> \<not> lf_cancel l \<Longrightarrow> lf_attempts l < lf_max l \<Longrightarrow>
    life_step now l (l\<lparr>lf_phase := Waiting\<rparr>)"
| expired_dead: "lf_phase l = Leased w (Some t) \<Longrightarrow> t \<le> now \<Longrightarrow> lf_max l \<le> lf_attempts l \<Longrightarrow>
    life_step now l (l\<lparr>lf_phase := Retired DEAD_LETTER\<rparr>)"
| expired_retry: "lf_phase l = Leased w (Some t) \<Longrightarrow> t \<le> now \<Longrightarrow> lf_attempts l < lf_max l \<Longrightarrow>
    life_step now l (l\<lparr>lf_phase := Waiting\<rparr>)"
| cancelled_waiting: "lf_phase l = Waiting \<Longrightarrow> life_step now l (l\<lparr>lf_phase := Retired CANCELLED, lf_cancel := True\<rparr>)"
| cancelled_running: "lf_phase l = Leased w x \<Longrightarrow> life_step now l (l\<lparr>lf_cancel := True\<rparr>)"
| cancelled_late: "lf_phase l = Retired st \<Longrightarrow> st \<in> {DEGRADED, FAILED} \<Longrightarrow> life_step now l (l\<lparr>lf_cancel := True\<rparr>)"
| swept: "lf_phase l = Waiting \<Longrightarrow> lf_cancel l \<Longrightarrow> life_step now l (l\<lparr>lf_phase := Retired CANCELLED\<rparr>)"

abbreviation life_steps :: "int \<Rightarrow> life \<Rightarrow> life \<Rightarrow> bool" where
  "life_steps now \<equiv> (life_step now)\<^sup>*\<^sup>*"

text \<open>Attempts are bounded by the maximum: one may be missing while waiting, none is exceeded.\<close>

definition life_inv :: "life \<Rightarrow> bool" where
  "life_inv l = (0 \<le> lf_attempts l \<and>
     (case lf_phase l of
        Waiting \<Rightarrow> lf_attempts l < lf_max l
      | Leased _ _ \<Rightarrow> 1 \<le> lf_attempts l \<and> lf_attempts l \<le> lf_max l
      | Retired _ \<Rightarrow> lf_attempts l \<le> lf_max l))"

lemma fresh_life_inv: "fresh_life l \<Longrightarrow> life_inv l"
  by (simp add: fresh_life_def life_inv_def)

lemma life_step_inv: "life_step now l l' \<Longrightarrow> life_inv l \<Longrightarrow> life_inv l'"
  by (induction rule: life_step.induct) (auto simp: life_inv_def)

lemma life_step_frame:
  "life_step now l l' \<Longrightarrow> lf_max l' = lf_max l \<and> lf_attempts l \<le> lf_attempts l' \<and> (lf_cancel l \<longrightarrow> lf_cancel l')"
  by (induction rule: life_step.induct) auto

lemma life_step_retired:
  "life_step now l l' \<Longrightarrow> lf_phase l = Retired st \<Longrightarrow> lf_phase l' = Retired st \<and> lf_attempts l' = lf_attempts l"
  by (induction rule: life_step.induct) auto

lemma life_steps_inv: "life_steps now l l' \<Longrightarrow> life_inv l \<Longrightarrow> life_inv l'"
  by (induction rule: rtranclp_induct) (auto intro: life_step_inv)

lemma life_steps_frame:
  "life_steps now l l' \<Longrightarrow> lf_max l' = lf_max l \<and> lf_attempts l \<le> lf_attempts l' \<and> (lf_cancel l \<longrightarrow> lf_cancel l')"
  by (induction rule: rtranclp_induct) (auto dest: life_step_frame)

lemma life_steps_retired:
  "life_steps now l l' \<Longrightarrow> lf_phase l = Retired st \<Longrightarrow> lf_phase l' = Retired st \<and> lf_attempts l' = lf_attempts l"
  by (induction rule: rtranclp_induct) (auto dest: life_step_retired)

section \<open>The contract of a store\<close>

text \<open>\<open>step\<close> runs an operation on a store, \<open>life_at\<close> is the abstract state of the job with an
  identifier, \<open>clock\<close> and \<open>actor\<close> are the time and the worker of an operation, and \<open>ok\<close> says that the
  identifier an operation generates is not in use.\<close>

locale job_queue =
  fixes step :: "'e \<Rightarrow> 's \<Rightarrow> 's"
    and life_at :: "'s \<Rightarrow> 'i \<Rightarrow> life option"
    and clock :: "'e \<Rightarrow> int"
    and actor :: "'e \<Rightarrow> string option"
    and ok :: "'e \<Rightarrow> 's \<Rightarrow> bool"
  assumes refines: "ok e s \<Longrightarrow> life_at s i = Some l \<Longrightarrow>
      \<exists>l'. life_at (step e s) i = Some l' \<and> life_steps (clock e) l l'"
    and created: "ok e s \<Longrightarrow> life_at s i = None \<Longrightarrow> life_at (step e s) i = Some l \<Longrightarrow> fresh_life l"
    and lease_kept: "ok e s \<Longrightarrow> life_at s i = Some l \<Longrightarrow> lf_phase l = Leased (Some w) (Some x) \<Longrightarrow>
      clock e < x \<Longrightarrow> actor e \<noteq> Some w \<Longrightarrow>
      \<exists>l'. life_at (step e s) i = Some l' \<and> lf_phase l' = Leased (Some w) (Some x)"
begin

fun run :: "'e list \<Rightarrow> 's \<Rightarrow> 's" where
  "run [] s = s"
| "run (e # es) s = run es (step e s)"

fun run_ok :: "'e list \<Rightarrow> 's \<Rightarrow> bool" where
  "run_ok [] s = True"
| "run_ok (e # es) s = (ok e s \<and> run_ok es (step e s))"

definition all_inv :: "'s \<Rightarrow> bool" where
  "all_inv s = (\<forall>i l. life_at s i = Some l \<longrightarrow> life_inv l)"

lemma step_inv:
  assumes "all_inv s" "ok e s"
  shows "all_inv (step e s)"
  unfolding all_inv_def
proof (intro allI impI)
  fix i l
  assume l: "life_at (step e s) i = Some l"
  show "life_inv l"
  proof (cases "life_at s i")
    case None
    then show ?thesis using created [OF assms(2) None l] by (simp add: fresh_life_inv)
  next
    case (Some l0)
    then have "life_steps (clock e) l0 l" using refines [OF assms(2) Some] l by auto
    then show ?thesis using assms(1) Some by (auto simp: all_inv_def intro: life_steps_inv)
  qed
qed

lemma run_inv: "all_inv s \<Longrightarrow> run_ok es s \<Longrightarrow> all_inv (run es s)"
  by (induction es arbitrary: s) (auto intro: step_inv)

lemma run_frame:
  assumes "run_ok es s" "life_at s i = Some l"
  shows "\<exists>l'. life_at (run es s) i = Some l' \<and> lf_max l' = lf_max l \<and> lf_attempts l \<le> lf_attempts l'
    \<and> (lf_cancel l \<longrightarrow> lf_cancel l') \<and> (\<forall>st. lf_phase l = Retired st \<longrightarrow> lf_phase l' = Retired st \<and> lf_attempts l' = lf_attempts l)"
  using assms
proof (induction es arbitrary: s l)
  case (Cons e es)
  then obtain l1 where 1: "life_at (step e s) i = Some l1" "life_steps (clock e) l l1"
    using refines [of e s i l] by auto
  from Cons.IH [OF _ 1(1)] Cons.prems obtain l2 where 2: "life_at (run es (step e s)) i = Some l2"
    "lf_max l2 = lf_max l1" "lf_attempts l1 \<le> lf_attempts l2" "lf_cancel l1 \<longrightarrow> lf_cancel l2"
    "\<forall>st. lf_phase l1 = Retired st \<longrightarrow> lf_phase l2 = Retired st \<and> lf_attempts l2 = lf_attempts l1" by auto
  have fr: "lf_max l1 = lf_max l" "lf_attempts l \<le> lf_attempts l1" "lf_cancel l \<longrightarrow> lf_cancel l1"
    using life_steps_frame [OF 1(2)] by auto
  have re: "\<forall>st. lf_phase l = Retired st \<longrightarrow> lf_phase l1 = Retired st \<and> lf_attempts l1 = lf_attempts l" using life_steps_retired [OF 1(2)] by blast
  have "lf_attempts l \<le> lf_attempts l2" using fr 2 by linarith
  with 2 fr re show ?case by auto
qed auto

lemma run_lease_kept:
  assumes "run_ok es s" "life_at s i = Some l" "lf_phase l = Leased (Some w) (Some x)"
    and "\<forall>e \<in> set es. clock e < x \<and> actor e \<noteq> Some w"
  shows "\<exists>l'. life_at (run es s) i = Some l' \<and> lf_phase l' = Leased (Some w) (Some x)"
  using assms
proof (induction es arbitrary: s l)
  case (Cons e es)
  then obtain l1 where "life_at (step e s) i = Some l1" "lf_phase l1 = Leased (Some w) (Some x)"
    using lease_kept [of e s i l w x] by auto
  with Cons show ?case by auto
qed auto

end

section \<open>Keyed lists\<close>

text \<open>A table as the list of its rows: the row with a key, and an assignment to the fields of that row.\<close>

definition lookup_by :: "('a \<Rightarrow> 'i) \<Rightarrow> 'a list \<Rightarrow> 'i \<Rightarrow> 'a option" where
  "lookup_by key xs i = List.find (\<lambda>x. key x = i) xs"

definition update_by :: "('a \<Rightarrow> 'i) \<Rightarrow> 'i \<Rightarrow> ('a \<Rightarrow> 'a) \<Rightarrow> 'a list \<Rightarrow> 'a list" where
  "update_by key i f xs = map (\<lambda>x. if key x = i then f x else x) xs"

lemma lookup_by_key: "lookup_by key xs i = Some x \<Longrightarrow> key x = i \<and> x \<in> set xs"
  using find_Some_mem [of _ xs x] by (auto simp: lookup_by_def)

lemma lookup_by_map: "(\<And>x. key (g x) = key x) \<Longrightarrow> lookup_by key (map g xs) i = map_option g (lookup_by key xs i)"
  by (induction xs) (auto simp: lookup_by_def)

lemma lookup_by_update:
  "(\<And>x. key (f x) = key x) \<Longrightarrow>
     lookup_by key (update_by key i f xs) k = map_option (\<lambda>x. if k = i then f x else x) (lookup_by key xs k)"
  unfolding update_by_def by (subst lookup_by_map) (auto intro!: option.map_cong0 dest: lookup_by_key)

lemma lookup_by_append:
  "lookup_by key xs (key x) = None \<Longrightarrow> lookup_by key (xs @ [x]) k = (if k = key x then Some x else lookup_by key xs k)"
  by (induction xs) (auto simp: lookup_by_def split: if_splits)

section \<open>Choosing fairly\<close>

text \<open>The loop over \<open>seen_orgs\<close>: the first job of each tenant, and the others.\<close>

fun fair_split :: "('a \<Rightarrow> string) \<Rightarrow> string set \<Rightarrow> 'a list \<Rightarrow> 'a list \<times> 'a list" where
  "fair_split key seen [] = ([], [])"
| "fair_split key seen (x # xs) =
     (if key x \<in> seen then (let (f, r) = fair_split key seen xs in (f, x # r))
      else (let (f, r) = fair_split key (insert (key x) seen) xs in (x # f, r)))"

definition fair_order :: "('a \<Rightarrow> string) \<Rightarrow> 'a list \<Rightarrow> 'a list" where
  "fair_order key xs = (let (f, r) = fair_split key {} xs in f @ r)"

lemma fair_split_set: "set (fst (fair_split key seen xs)) \<union> set (snd (fair_split key seen xs)) = set xs"
  by (induction key seen xs rule: fair_split.induct) (auto simp: split_def Let_def)

lemma fair_split_length:
  "length (fst (fair_split key seen xs)) + length (snd (fair_split key seen xs)) = length xs"
  by (induction key seen xs rule: fair_split.induct) (auto simp: split_def Let_def)

lemma fair_split_keys: "key ` set (fst (fair_split key seen xs)) = key ` set xs - seen"
  by (induction key seen xs rule: fair_split.induct) (auto simp: split_def Let_def)

lemma fair_split_distinct: "distinct (map key (fst (fair_split key seen xs)))"
  by (induction key seen xs rule: fair_split.induct) (auto simp: split_def Let_def fair_split_keys)

lemma set_fair_order [simp]: "set (fair_order key xs) = set xs"
  using fair_split_set [of key "{}" xs] by (simp add: fair_order_def split_def Let_def)

lemma length_fair_order [simp]: "length (fair_order key xs) = length xs"
  using fair_split_length [of key "{}" xs] by (simp add: fair_order_def split_def Let_def)

lemma hd_fair_order: "xs \<noteq> [] \<Longrightarrow> hd (fair_order key xs) = hd xs"
  by (cases xs) (auto simp: fair_order_def split_def Let_def)

lemma distinct_fair_order: "distinct xs \<Longrightarrow> distinct (fair_order key xs)"
  by (metis card_distinct distinct_card length_fair_order set_fair_order)

text \<open>Fairness: among the first jobs chosen, a tenant gets a second one only when every tenant that
  waits got one.\<close>

lemma fair_order_take:
  assumes "\<not> distinct (map key (take n (fair_order key xs)))"
  shows "key ` set (take n (fair_order key xs)) = key ` set xs"
proof -
  let ?f = "fst (fair_split key {} xs)" and ?r = "snd (fair_split key {} xs)"
  have o: "fair_order key xs = ?f @ ?r" by (simp add: fair_order_def split_def Let_def)
  have "length ?f < n"
  proof (rule ccontr)
    assume "\<not> length ?f < n"
    then have "map key (take n (fair_order key xs)) = take n (map key ?f)" by (simp add: o take_map)
    with assms fair_split_distinct [of key "{}" xs] show False by (metis distinct_take)
  qed
  then have "set ?f \<subseteq> set (take n (fair_order key xs))" by (auto simp: o)
  then have "key ` set xs \<subseteq> key ` set (take n (fair_order key xs))"
    using fair_split_keys [of key "{}" xs] by blast
  then show ?thesis using set_take_subset [of n "fair_order key xs"] by auto
qed

end
