(* ===== verification/Durable_Jobs.thy ===== *)
theory Durable_Jobs
  imports Job_Lifecycle Py_Uuid
begin

text \<open>
  The in-memory store of durable jobs (\<open>src/src/sre_agent/durable_jobs.py\<close>). The dictionary of jobs is the
  list of its values in insertion order. Python hands out references to the stored jobs; here an
  operation returns the new list and a copy of what it returns. The identifier that \<open>uuid4\<close> makes
  and the clock are arguments. An operation that raises leaves the store as it was, because every
  check of the source precedes its assignments. Times count microseconds.

  Shown here: the store interprets the contract of \<open>Job_Lifecycle\<close>, so attempts stay within
  their maximum, retired jobs stay retired and a live lease belongs to one worker; claims are fair
  between tenants; and a job whose cancellation was requested before its lease expired is never
  retired by the store itself.
\<close>

section \<open>Data\<close>

datatype job_error =
    MaxAttemptsTooSmall | BlankString string | LimitTooSmall | LeaseTooShort | JobNotFound int
  | HeartbeatNotOwner | LeaseExpired | CancellationRequested | NotLeaseOwner

record durable_job =
  dj_id :: int
  dj_cluster_id :: int
  dj_organization_id :: "int option"
  dj_incident_id :: "int option"
  dj_job_type :: string
  dj_status :: job_status
  dj_payload :: pydict
  dj_idempotency_key :: "string option"
  dj_attempt_count :: int
  dj_max_attempts :: int
  dj_lease_owner :: "string option"
  dj_lease_expires_at :: "int option"
  dj_heartbeat_at :: "int option"
  dj_cancel_requested_at :: "int option"
  dj_last_error :: "string option"
  dj_created_at :: int
  dj_started_at :: "int option"
  dj_completed_at :: "int option"

fun job_status_value :: "job_status \<Rightarrow> string" where
  "job_status_value PENDING = ''pending''"
| "job_status_value RUNNING = ''running''"
| "job_status_value COMPLETED = ''completed''"
| "job_status_value DEGRADED = ''degraded''"
| "job_status_value FAILED = ''failed''"
| "job_status_value CANCELLED = ''cancelled''"
| "job_status_value DEAD_LETTER = ''dead_letter''"

definition ACTIVE :: "job_status set" where
  "ACTIVE = {PENDING, RUNNING}"

definition TERMINAL :: "job_status set" where
  "TERMINAL = {COMPLETED, CANCELLED, DEAD_LETTER}"

definition job_string :: "string \<Rightarrow> string \<Rightarrow> (job_error, string) res" where
  "job_string value field_name = (if strip value = [] then Inl (BlankString field_name) else Inr (strip value))"

definition investigation_idempotency_key :: "int \<Rightarrow> string" where
  "investigation_idempotency_key incident_id = ''investigation:'' @ uuid_str incident_id"

text \<open>\<open>isoformat\<close> is \<open>datetime.isoformat\<close>.\<close>

definition opt_str :: "string option \<Rightarrow> pyval" where
  "opt_str v = (case v of None \<Rightarrow> PNone | Some s \<Rightarrow> PStr s)"

definition job_to_dict :: "(int \<Rightarrow> string) \<Rightarrow> durable_job \<Rightarrow> pydict" where
  "job_to_dict isoformat j =
    [(''id'', PStr (uuid_str (dj_id j))), (''cluster_id'', PStr (uuid_str (dj_cluster_id j))),
     (''organization_id'', opt_str (map_option uuid_str (dj_organization_id j))),
     (''incident_id'', opt_str (map_option uuid_str (dj_incident_id j))),
     (''job_type'', PStr (dj_job_type j)), (''status'', PStr (job_status_value (dj_status j))),
     (''payload'', PDict (dj_payload j)), (''idempotency_key'', opt_str (dj_idempotency_key j)),
     (''attempt_count'', PInt (dj_attempt_count j)), (''max_attempts'', PInt (dj_max_attempts j)),
     (''lease_owner'', opt_str (dj_lease_owner j)),
     (''lease_expires_at'', opt_str (map_option isoformat (dj_lease_expires_at j))),
     (''heartbeat_at'', opt_str (map_option isoformat (dj_heartbeat_at j))),
     (''cancel_requested_at'', opt_str (map_option isoformat (dj_cancel_requested_at j))),
     (''last_error'', opt_str (dj_last_error j)), (''created_at'', PStr (isoformat (dj_created_at j))),
     (''started_at'', opt_str (map_option isoformat (dj_started_at j))),
     (''completed_at'', opt_str (map_option isoformat (dj_completed_at j)))]"

section \<open>Operations\<close>

definition get_job :: "durable_job list \<Rightarrow> int \<Rightarrow> durable_job option" where
  "get_job jobs i = lookup_by dj_id jobs i"

text \<open>\<open>self._jobs[job.id] = job\<close>, and the assignments to the fields of a stored job.\<close>

definition update_job :: "int \<Rightarrow> (durable_job \<Rightarrow> durable_job) \<Rightarrow> durable_job list \<Rightarrow> durable_job list" where
  "update_job i f jobs = update_by dj_id i f jobs"

definition put_job :: "durable_job \<Rightarrow> durable_job list \<Rightarrow> durable_job list" where
  "put_job job jobs = (if get_job jobs (dj_id job) = None then jobs @ [job] else update_job (dj_id job) (\<lambda>_. job) jobs)"

definition require_job :: "durable_job list \<Rightarrow> int \<Rightarrow> (job_error, durable_job) res" where
  "require_job jobs i = (case get_job jobs i of None \<Rightarrow> Inl (JobNotFound i) | Some j \<Rightarrow> Inr j)"

definition require_owner :: "durable_job list \<Rightarrow> int \<Rightarrow> string \<Rightarrow> (job_error, durable_job) res" where
  "require_owner jobs i worker_id =
     rbind (require_job jobs i) (\<lambda>job.
       if dj_status job \<noteq> RUNNING then Inl NotLeaseOwner
       else rbind (job_string worker_id ''worker_id'') (\<lambda>owner.
         if dj_lease_owner job \<noteq> Some owner then Inl NotLeaseOwner else Inr job))"

record enqueue_request =
  en_cluster_id :: int
  en_organization_id :: "int option"
  en_incident_id :: "int option"
  en_job_type :: string
  en_payload :: pydict
  en_idempotency_key :: "string option"
  en_max_attempts :: int

definition enqueue :: "int \<Rightarrow> int \<Rightarrow> enqueue_request \<Rightarrow> durable_job list \<Rightarrow> (job_error, durable_job \<times> durable_job list) res" where
  "enqueue new_id now r jobs =
     (if en_max_attempts r < 1 then Inl MaxAttemptsTooSmall
      else case (if en_idempotency_key r \<in> {None, Some []} then None
                 else List.find (\<lambda>j. dj_cluster_id j = en_cluster_id r \<and> dj_idempotency_key j = en_idempotency_key r
                        \<and> dj_status j \<in> ACTIVE) jobs) of
        Some existing \<Rightarrow> Inr (existing, jobs)
      | None \<Rightarrow>
          rbind (job_string (en_job_type r) ''job_type'') (\<lambda>jt.
            let job = \<lparr>dj_id = new_id, dj_cluster_id = en_cluster_id r, dj_organization_id = en_organization_id r,
                  dj_incident_id = en_incident_id r, dj_job_type = jt, dj_status = PENDING, dj_payload = en_payload r,
                  dj_idempotency_key = en_idempotency_key r, dj_attempt_count = 0, dj_max_attempts = en_max_attempts r,
                  dj_lease_owner = None, dj_lease_expires_at = None, dj_heartbeat_at = None,
                  dj_cancel_requested_at = None, dj_last_error = None, dj_created_at = now, dj_started_at = None,
                  dj_completed_at = None\<rparr>
            in Inr (job, put_job job jobs)))"

definition lease_lapsed :: "int \<Rightarrow> durable_job \<Rightarrow> bool" where
  "lease_lapsed clock j = (dj_status j = RUNNING \<and> (case dj_lease_expires_at j of None \<Rightarrow> False | Some t \<Rightarrow> t \<le> clock))"

text \<open>\<open>job.last_error or "..."\<close>.\<close>

definition error_or :: "string option \<Rightarrow> string \<Rightarrow> string option" where
  "error_or e d = Some (case e of None \<Rightarrow> d | Some s \<Rightarrow> (if s = [] then d else s))"

definition reclaim_job :: "int \<Rightarrow> durable_job \<Rightarrow> durable_job" where
  "reclaim_job clock j =
     (if \<not> lease_lapsed clock j then j
      else if dj_max_attempts j \<le> dj_attempt_count j
      then j\<lparr>dj_status := DEAD_LETTER, dj_lease_owner := None, dj_lease_expires_at := None, dj_completed_at := Some clock,
             dj_last_error := error_or (dj_last_error j) ''lease expired after max attempts''\<rparr>
      else j\<lparr>dj_status := PENDING, dj_lease_owner := None, dj_lease_expires_at := None, dj_heartbeat_at := None\<rparr>)"

definition reclaim_expired :: "int \<Rightarrow> durable_job list \<Rightarrow> durable_job list \<times> durable_job list" where
  "reclaim_expired clock jobs =
     (map (reclaim_job clock) (filter (lease_lapsed clock) jobs), map (reclaim_job clock) jobs)"

definition tenant_key :: "durable_job \<Rightarrow> string" where
  "tenant_key j = uuid_str (case dj_organization_id j of Some org \<Rightarrow> org | None \<Rightarrow> dj_cluster_id j)"

definition claimable :: "durable_job \<Rightarrow> bool" where
  "claimable j = (dj_status j = PENDING \<and> dj_cancel_requested_at j = None)"

text \<open>The loop body of a claim, for a job that was chosen.\<close>

definition lease_job :: "string \<Rightarrow> int \<Rightarrow> int \<Rightarrow> durable_job \<Rightarrow> durable_job" where
  "lease_job owner lease_seconds clock j =
     (if dj_cancel_requested_at j \<noteq> None then j\<lparr>dj_status := CANCELLED, dj_completed_at := Some clock\<rparr>
      else j\<lparr>dj_status := RUNNING, dj_attempt_count := dj_attempt_count j + 1, dj_lease_owner := Some owner,
             dj_lease_expires_at := Some (clock + seconds lease_seconds), dj_heartbeat_at := Some clock,
             dj_started_at := (case dj_started_at j of None \<Rightarrow> Some clock | Some t \<Rightarrow> Some t)\<rparr>)"

definition claim_order :: "durable_job list \<Rightarrow> durable_job list" where
  "claim_order jobs = fair_order tenant_key (sort_key (\<lambda>j. (tenant_key j, dj_created_at j)) (filter claimable jobs))"

definition claim :: "string \<Rightarrow> int \<Rightarrow> int \<Rightarrow> int \<Rightarrow> durable_job list \<Rightarrow> (job_error, durable_job list \<times> durable_job list) res" where
  "claim worker_id limit lease_seconds clock jobs =
     (if limit < 1 then Inl LimitTooSmall
      else if lease_seconds < 1 then Inl LeaseTooShort
      else rbind (job_string worker_id ''worker_id'') (\<lambda>owner.
        let reclaimed = snd (reclaim_expired clock jobs);
            chosen = take (nat limit) (claim_order reclaimed)
        in Inr (map (lease_job owner lease_seconds clock) (filter (\<lambda>j. dj_cancel_requested_at j = None) chosen),
                map (\<lambda>j. if j \<in> set chosen then lease_job owner lease_seconds clock j else j) reclaimed)))"

definition heartbeat :: "int \<Rightarrow> string \<Rightarrow> int \<Rightarrow> int \<Rightarrow> durable_job list \<Rightarrow> (job_error, durable_job \<times> durable_job list) res" where
  "heartbeat i worker_id lease_seconds clock jobs =
     rbind (require_job jobs i) (\<lambda>job.
     rbind (job_string worker_id ''worker_id'') (\<lambda>owner.
       if dj_status job \<noteq> RUNNING \<or> dj_lease_owner job \<noteq> Some owner then Inl HeartbeatNotOwner
       else if (case dj_lease_expires_at job of None \<Rightarrow> False | Some t \<Rightarrow> t < clock) then Inl LeaseExpired
       else if dj_cancel_requested_at job \<noteq> None then Inl CancellationRequested
       else let f = (\<lambda>j. j\<lparr>dj_heartbeat_at := Some clock, dj_lease_expires_at := Some (clock + seconds lease_seconds)\<rparr>)
            in Inr (f job, update_job i f jobs)))"

definition request_cancel :: "int \<Rightarrow> int \<Rightarrow> durable_job list \<Rightarrow> (job_error, durable_job \<times> durable_job list) res" where
  "request_cancel i clock jobs =
     rbind (require_job jobs i) (\<lambda>job.
       if dj_status job \<in> TERMINAL then Inr (job, jobs)
       else let f = (\<lambda>j. (if dj_status j = PENDING then j\<lparr>dj_status := CANCELLED, dj_completed_at := Some clock\<rparr> else j)
                  \<lparr>dj_cancel_requested_at := Some clock\<rparr>)
            in Inr (f job, update_job i f jobs))"

definition complete :: "int \<Rightarrow> string \<Rightarrow> pydict option \<Rightarrow> int \<Rightarrow> durable_job list \<Rightarrow> (job_error, durable_job \<times> durable_job list) res" where
  "complete i worker_id result clock jobs =
     rbind (require_owner jobs i worker_id) (\<lambda>job.
       let f = (\<lambda>j. j\<lparr>dj_status := COMPLETED, dj_completed_at := Some clock, dj_lease_owner := None,
                 dj_lease_expires_at := None,
                 dj_payload := (case result of None \<Rightarrow> dj_payload j
                                | Some r \<Rightarrow> py_dict_set (dj_payload j) ''result'' (PDict r))\<rparr>)
       in Inr (f job, update_job i f jobs))"

definition fail_job_fields :: "string \<Rightarrow> int \<Rightarrow> durable_job \<Rightarrow> durable_job" where
  "fail_job_fields e clock j =
     (let k = j\<lparr>dj_last_error := Some e, dj_lease_owner := None, dj_lease_expires_at := None, dj_heartbeat_at := None\<rparr>
      in if dj_cancel_requested_at j \<noteq> None then k\<lparr>dj_status := CANCELLED, dj_completed_at := Some clock\<rparr>
         else if dj_max_attempts j \<le> dj_attempt_count j then k\<lparr>dj_status := DEAD_LETTER, dj_completed_at := Some clock\<rparr>
         else k\<lparr>dj_status := PENDING\<rparr>)"

definition fail :: "int \<Rightarrow> string \<Rightarrow> string \<Rightarrow> int \<Rightarrow> durable_job list \<Rightarrow> (job_error, durable_job \<times> durable_job list) res" where
  "fail i worker_id error clock jobs =
     rbind (require_owner jobs i worker_id) (\<lambda>job.
     rbind (job_string error ''error'') (\<lambda>e.
       Inr (fail_job_fields e clock job, update_job i (fail_job_fields e clock) jobs)))"

section \<open>Configuration and payloads\<close>

definition default_lease_seconds :: "runtime \<Rightarrow> int" where
  "default_lease_seconds rt = (case parse_int (getenv rt ''JOB_LEASE_SECONDS'' ''60'') of Some n \<Rightarrow> max 15 n | None \<Rightarrow> 60)"

definition default_max_attempts :: "runtime \<Rightarrow> int" where
  "default_max_attempts rt = (case parse_int (getenv rt ''JOB_MAX_ATTEMPTS'' ''3'') of Some n \<Rightarrow> max 1 n | None \<Rightarrow> 3)"

definition SCHEMA_VERSION :: int where
  "SCHEMA_VERSION = 1"

record alert_fields =
  af_alert_name :: string
  af_labels :: pydict
  af_annotations :: pydict
  af_starts_at :: "string option"
  af_severity :: "string option"
  af_triggered_by :: string

definition encode_investigation_payload :: "int \<Rightarrow> int \<Rightarrow> alert_fields \<Rightarrow> pydict" where
  "encode_investigation_payload incident_id cluster_id a =
    [(''schema_version'', PInt SCHEMA_VERSION), (''handler'', PStr ''run_graph_background_saas''),
     (''incident_id'', PStr (uuid_str incident_id)), (''cluster_id'', PStr (uuid_str cluster_id)),
     (''alert_name'', PStr (af_alert_name a)), (''alert_labels'', PDict (af_labels a)),
     (''alert_annotations'', PDict (af_annotations a)), (''alert_starts_at'', opt_str (af_starts_at a)),
     (''alert_severity'', PStr (case af_severity a of None \<Rightarrow> ''warning'' | Some s \<Rightarrow> (if s = [] then ''warning'' else s))),
     (''triggered_by'', PStr (af_triggered_by a))]"

definition payload_json :: "runtime \<Rightarrow> pydict \<Rightarrow> string" where
  "payload_json rt payload = json_dumps rt '','' '':'' True (PDict payload)"

section \<open>Operations as events\<close>

datatype job_event =
    Enqueue int int enqueue_request
  | Reclaim int
  | Claim string int int int
  | Heartbeat int string int int
  | Request_cancel int int
  | Complete int string "pydict option" int
  | Fail int string string int

definition after :: "durable_job list \<Rightarrow> (job_error, 'a \<times> durable_job list) res \<Rightarrow> durable_job list" where
  "after jobs r = (case r of Inl _ \<Rightarrow> jobs | Inr (_, jobs') \<Rightarrow> jobs')"

fun job_step :: "job_event \<Rightarrow> durable_job list \<Rightarrow> durable_job list" where
  "job_step (Enqueue new_id now r) jobs = after jobs (enqueue new_id now r jobs)"
| "job_step (Reclaim now) jobs = snd (reclaim_expired now jobs)"
| "job_step (Claim w limit lease now) jobs = after jobs (claim w limit lease now jobs)"
| "job_step (Heartbeat i w lease now) jobs = after jobs (heartbeat i w lease now jobs)"
| "job_step (Request_cancel i now) jobs = after jobs (request_cancel i now jobs)"
| "job_step (Complete i w r now) jobs = after jobs (complete i w r now jobs)"
| "job_step (Fail i w e now) jobs = after jobs (fail i w e now jobs)"

fun event_clock :: "job_event \<Rightarrow> int" where
  "event_clock (Enqueue _ now _) = now"
| "event_clock (Reclaim now) = now"
| "event_clock (Claim _ _ _ now) = now"
| "event_clock (Heartbeat _ _ _ now) = now"
| "event_clock (Request_cancel _ now) = now"
| "event_clock (Complete _ _ _ now) = now"
| "event_clock (Fail _ _ _ now) = now"

text \<open>The worker on whose behalf an operation runs; identities are compared after stripping.\<close>

fun event_actor :: "job_event \<Rightarrow> string option" where
  "event_actor (Claim w _ _ _) = Some (strip w)"
| "event_actor (Heartbeat _ w _ _) = Some (strip w)"
| "event_actor (Complete _ w _ _) = Some (strip w)"
| "event_actor (Fail _ w _ _) = Some (strip w)"
| "event_actor _ = None"

fun event_ok :: "job_event \<Rightarrow> durable_job list \<Rightarrow> bool" where
  "event_ok (Enqueue new_id _ _) jobs = (get_job jobs new_id = None)"
| "event_ok _ _ = True"

fun run_events :: "job_event list \<Rightarrow> durable_job list \<Rightarrow> durable_job list" where
  "run_events [] jobs = jobs"
| "run_events (e # es) jobs = run_events es (job_step e jobs)"

fun events_ok :: "job_event list \<Rightarrow> durable_job list \<Rightarrow> bool" where
  "events_ok [] jobs = True"
| "events_ok (e # es) jobs = (event_ok e jobs \<and> events_ok es (job_step e jobs))"

definition job_life :: "durable_job \<Rightarrow> life" where
  "job_life j = \<lparr>lf_phase = phase_of (dj_status j) (dj_lease_owner j) (dj_lease_expires_at j),
     lf_attempts = dj_attempt_count j, lf_max = dj_max_attempts j, lf_cancel = (dj_cancel_requested_at j \<noteq> None)\<rparr>"

definition job_life_at :: "durable_job list \<Rightarrow> int \<Rightarrow> life option" where
  "job_life_at jobs i = map_option job_life (get_job jobs i)"

section \<open>Lemmas\<close>

lemma get_job_map: "(\<And>j. dj_id (g j) = dj_id j) \<Longrightarrow> get_job (map g jobs) i = map_option g (get_job jobs i)"
  unfolding get_job_def by (rule lookup_by_map)

lemma get_job_update:
  "(\<And>j. dj_id (f j) = dj_id j) \<Longrightarrow>
     get_job (update_job i f jobs) k = map_option (\<lambda>j. if k = i then f j else j) (get_job jobs k)"
  unfolding get_job_def update_job_def by (rule lookup_by_update)

lemma get_job_put:
  "get_job jobs (dj_id job) = None \<Longrightarrow> get_job (put_job job jobs) k = (if k = dj_id job then Some job else get_job jobs k)"
  unfolding put_job_def get_job_def by (simp add: lookup_by_append)

lemma dj_id_keeps [simp]:
  "dj_id (reclaim_job clock j) = dj_id j" "dj_id (lease_job w n clock j) = dj_id j"
  "dj_id (fail_job_fields e clock j) = dj_id j"
  by (simp_all add: reclaim_job_def lease_job_def fail_job_fields_def Let_def)

lemma reclaim_job_life: "life_steps clock (job_life j) (job_life (reclaim_job clock j))"
proof (cases "lease_lapsed clock j")
  case True
  then obtain t where "dj_status j = RUNNING" "dj_lease_expires_at j = Some t" "t \<le> clock"
    by (auto simp: lease_lapsed_def split: option.splits)
  then have "life_step clock (job_life j) (job_life (reclaim_job clock j))"
    using life_step.expired_dead [of "job_life j" "dj_lease_owner j" t clock]
      life_step.expired_retry [of "job_life j" "dj_lease_owner j" t clock] True
    by (auto simp: reclaim_job_def job_life_def phase_of_def)
  then show ?thesis by blast
qed (simp add: reclaim_job_def)

lemma lease_job_life:
  assumes "claimable j" "1 \<le> n"
  shows "life_step clock (job_life j) (job_life (lease_job w n clock j))"
  using assms life_step.claimed [of "job_life j" clock "clock + seconds n" w]
  by (auto simp: claimable_def lease_job_def job_life_def phase_of_def seconds_def)

lemma claim_order_set: "set (claim_order jobs) = {j \<in> set jobs. claimable j}"
  by (auto simp: claim_order_def)

text \<open>A claim as one function on every stored job.\<close>

lemma claim_result:
  assumes "claim w limit n clock jobs = Inr (claimed, jobs')"
  shows "1 \<le> n \<and> 1 \<le> limit \<and> strip w \<noteq> [] \<and>
    claimed = map (lease_job (strip w) n clock) (take (nat limit) (claim_order (map (reclaim_job clock) jobs))) \<and>
    jobs' = map (\<lambda>j. if reclaim_job clock j \<in> set (take (nat limit) (claim_order (map (reclaim_job clock) jobs)))
                     then lease_job (strip w) n clock (reclaim_job clock j) else reclaim_job clock j) jobs"
proof -
  let ?c = "take (nat limit) (claim_order (map (reclaim_job clock) jobs))"
  have "dj_cancel_requested_at j = None" if "j \<in> set ?c" for j
    using in_set_takeD [OF that] by (simp add: claim_order_set claimable_def)
  then have "filter (\<lambda>j. dj_cancel_requested_at j = None) ?c = ?c" by (rule filter_eq_all)
  with assms show ?thesis
    by (auto simp: claim_def reclaim_expired_def job_string_def Let_def rbind_eq_Inr o_def split: if_splits)
qed

lemma claim_life:
  assumes "claim w limit n clock jobs = Inr (claimed, jobs')" "get_job jobs i = Some j"
  obtains j' where "get_job jobs' i = Some j'" "life_steps clock (job_life j) (job_life j')"
    "j' = reclaim_job clock j \<or> claimable (reclaim_job clock j)"
proof -
  let ?c = "take (nat limit) (claim_order (map (reclaim_job clock) jobs))"
  let ?g = "\<lambda>j. if reclaim_job clock j \<in> set ?c then lease_job (strip w) n clock (reclaim_job clock j) else reclaim_job clock j"
  have r: "1 \<le> n" "jobs' = map ?g jobs" using claim_result [OF assms(1)] by auto
  have cl: "claimable x" if "x \<in> set ?c" for x
    using in_set_takeD [OF that] by (simp add: claim_order_set)
  have g: "get_job jobs' i = Some (?g j)" unfolding r(2) by (subst get_job_map) (auto simp: assms(2))
  have "life_steps clock (job_life j) (job_life (?g j))"
    using reclaim_job_life [of clock j] lease_job_life [OF cl r(1), of "reclaim_job clock j" clock "strip w"]
    by (auto intro: rtranclp.rtrancl_into_rtrancl)
  with g show thesis by (intro that) (use cl in auto)
qed

text \<open>The operations on one job: what they do to it, and that they touch no other.\<close>

lemma require_owner_Inr:
  "require_owner jobs i w = Inr j \<longleftrightarrow>
     get_job jobs i = Some j \<and> dj_status j = RUNNING \<and> strip w \<noteq> [] \<and> dj_lease_owner j = Some (strip w)"
  by (auto simp: require_owner_def require_job_def job_string_def rbind_eq_Inr split: option.splits if_splits)

lemma complete_life:
  assumes "complete i w r clock jobs = Inr (j', jobs')"
  obtains j f where "get_job jobs i = Some j" "dj_status j = RUNNING" "dj_lease_owner j = Some (strip w)"
    "jobs' = update_job i f jobs" "\<And>x. dj_id (f x) = dj_id x" "life_step clock (job_life j) (job_life (f j))"
proof -
  let ?f = "\<lambda>j. j\<lparr>dj_status := COMPLETED, dj_completed_at := Some clock, dj_lease_owner := None,
                 dj_lease_expires_at := None,
                 dj_payload := (case r of None \<Rightarrow> dj_payload j
                                | Some r \<Rightarrow> py_dict_set (dj_payload j) ''result'' (PDict r))\<rparr>"
  from assms obtain j where j: "require_owner jobs i w = Inr j" "jobs' = update_job i ?f jobs"
    by (auto simp: complete_def rbind_eq_Inr Let_def)
  moreover have "life_step clock (job_life j) (job_life (?f j))"
    using j(1) life_step.finished [of "job_life j" "strip w" "dj_lease_expires_at j" clock]
    by (simp add: require_owner_Inr job_life_def phase_of_def)
  ultimately show thesis using that [of j ?f] by (simp add: require_owner_Inr)
qed

lemma fail_life:
  assumes "fail i w e clock jobs = Inr (j', jobs')"
  obtains j f where "get_job jobs i = Some j" "dj_status j = RUNNING" "dj_lease_owner j = Some (strip w)"
    "jobs' = update_job i f jobs" "\<And>x. dj_id (f x) = dj_id x" "life_step clock (job_life j) (job_life (f j))"
proof -
  from assms obtain j where j: "require_owner jobs i w = Inr j" "jobs' = update_job i (fail_job_fields (strip e) clock) jobs"
    by (auto simp: fail_def rbind_eq_Inr job_string_def split: if_splits)
  moreover have "life_step clock (job_life j) (job_life (fail_job_fields (strip e) clock j))"
    using j(1) life_step.failed_cancelled [of "job_life j" "strip w" "dj_lease_expires_at j" clock]
      life_step.failed_dead [of "job_life j" "strip w" "dj_lease_expires_at j" clock]
      life_step.failed_retry [of "job_life j" "strip w" "dj_lease_expires_at j" clock]
    by (auto simp: require_owner_Inr job_life_def phase_of_def fail_job_fields_def Let_def)
  ultimately show thesis using that [of j "fail_job_fields (strip e) clock"] by (simp add: require_owner_Inr)
qed

lemma heartbeat_life:
  assumes "heartbeat i w n clock jobs = Inr (j', jobs')"
  obtains j f where "get_job jobs i = Some j" "dj_status j = RUNNING" "dj_lease_owner j = Some (strip w)"
    "jobs' = update_job i f jobs" "\<And>x. dj_id (f x) = dj_id x" "life_step clock (job_life j) (job_life (f j))"
proof -
  let ?f = "\<lambda>j. j\<lparr>dj_heartbeat_at := Some clock, dj_lease_expires_at := Some (clock + seconds n)\<rparr>"
  from assms obtain j where j: "get_job jobs i = Some j" "jobs' = update_job i ?f jobs" "dj_status j = RUNNING"
    "dj_lease_owner j = Some (strip w)" "dj_cancel_requested_at j = None" "\<forall>t. dj_lease_expires_at j = Some t \<longrightarrow> clock \<le> t"
    by (auto simp: heartbeat_def require_job_def job_string_def rbind_eq_Inr Let_def split: option.splits if_splits)
  moreover have "life_step clock (job_life j) (job_life (?f j))"
    using j life_step.renewed [of "job_life j" "strip w" "dj_lease_expires_at j" clock "clock + seconds n"]
    by (simp add: job_life_def phase_of_def)
  ultimately show thesis using that [of j ?f] by simp
qed

lemma request_cancel_life:
  assumes "request_cancel i clock jobs = Inr (j', jobs')"
  obtains (ended) j where "get_job jobs i = Some j" "dj_status j \<in> TERMINAL" "jobs' = jobs"
  | (asked) j f where "get_job jobs i = Some j" "dj_status j \<notin> TERMINAL"
    "jobs' = update_job i f jobs" "\<And>x. dj_id (f x) = dj_id x"
    "f = (\<lambda>j. (if dj_status j = PENDING then j\<lparr>dj_status := CANCELLED, dj_completed_at := Some clock\<rparr> else j)
                  \<lparr>dj_cancel_requested_at := Some clock\<rparr>)"
  using assms that
  by (auto simp: request_cancel_def require_job_def rbind_eq_Inr Let_def split: option.splits if_splits)

section \<open>The store keeps the contract\<close>

lemma update_life:
  assumes "get_job jobs i = Some j" "\<And>x. dj_id (f x) = dj_id x" "life_step clock (job_life j) (job_life (f j))"
    and "get_job jobs k = Some j0"
  shows "\<exists>j'. get_job (update_job i f jobs) k = Some j' \<and> life_steps clock (job_life j0) (job_life j')"
  using assms by (auto simp: get_job_update)

lemma enqueue_result:
  assumes "enqueue new_id now r jobs = Inr (j, jobs')"
  shows "jobs' = jobs \<or> (dj_id j = new_id \<and> jobs' = put_job j jobs \<and> fresh_life (job_life j))"
  using assms
  by (auto simp: enqueue_def rbind_eq_Inr Let_def fresh_life_def job_life_def phase_of_def split: if_splits option.splits)

lemma job_step_refines:
  assumes "event_ok e jobs" "get_job jobs k = Some j"
  shows "\<exists>j'. get_job (job_step e jobs) k = Some j' \<and> life_steps (event_clock e) (job_life j) (job_life j')"
proof (cases e)
  case (Enqueue new_id now r)
  then show ?thesis using assms enqueue_result [of new_id now r jobs] get_job_put
    by (auto simp: after_def split: sum.splits)
next
  case (Reclaim now)
  then show ?thesis using assms(2) reclaim_job_life by (simp add: reclaim_expired_def get_job_map)
next
  case (Claim w limit n now)
  then show ?thesis using assms(2) by (auto simp: after_def split: sum.splits elim: claim_life)
next
  case (Heartbeat i w n now)
  then show ?thesis using assms(2)
    by (auto simp: after_def split: sum.splits elim!: heartbeat_life intro: update_life)
next
  case (Complete i w r now)
  then show ?thesis using assms(2)
    by (auto simp: after_def split: sum.splits elim!: complete_life intro: update_life)
next
  case (Fail i w x now)
  then show ?thesis using assms(2)
    by (auto simp: after_def split: sum.splits elim!: fail_life intro: update_life)
next
  case (Request_cancel i now)
  show ?thesis
  proof (cases "request_cancel i now jobs")
    case (Inr r)
    obtain j' jobs' where r: "request_cancel i now jobs = Inr (j', jobs')" using Inr by (cases r) auto
    then show ?thesis
    proof (cases rule: request_cancel_life)
      case ended
      then show ?thesis using assms(2) Request_cancel r by (simp add: after_def)
    next
      case (asked j1 f)
      have "life_step now (job_life j1) (job_life (f j1))"
        using asked(2) life_step.cancelled_waiting [of "job_life j1" now]
          life_step.cancelled_running [of "job_life j1" "dj_lease_owner j1" "dj_lease_expires_at j1" now]
          life_step.cancelled_late [of "job_life j1" "dj_status j1" now]
        by (cases "dj_status j1") (auto simp: asked(5) TERMINAL_def job_life_def phase_of_def)
      then show ?thesis using update_life [OF asked(1,4) _ assms(2)] Request_cancel r asked(3) by (simp add: after_def)
    qed
  qed (use assms(2) Request_cancel in \<open>simp add: after_def\<close>)
qed

lemma job_step_created:
  assumes "event_ok e jobs" "get_job jobs k = None" "get_job (job_step e jobs) k = Some j"
  shows "fresh_life (job_life j)"
proof (cases e)
  case (Enqueue new_id now r)
  then show ?thesis using assms enqueue_result [of new_id now r jobs]
    by (auto simp: after_def get_job_put split: sum.splits if_splits)
next
  case (Claim w limit n now)
  then show ?thesis using assms(2,3) claim_result [of w limit n now jobs]
    by (auto simp: after_def get_job_map split: sum.splits)
next
  case (Reclaim now)
  then show ?thesis using assms(2,3) by (simp add: reclaim_expired_def get_job_map)
qed (use assms(2,3) in \<open>auto simp: after_def get_job_update split: sum.splits
      elim!: heartbeat_life complete_life fail_life request_cancel_life\<close>)

lemma job_step_lease_kept:
  assumes "get_job jobs k = Some j" "dj_status j = RUNNING" "dj_lease_owner j = Some w" "dj_lease_expires_at j = Some x"
    and "event_clock e < x" "event_actor e \<noteq> Some w" "event_ok e jobs"
  shows "\<exists>j'. get_job (job_step e jobs) k = Some j' \<and> dj_status j' = RUNNING \<and> dj_lease_owner j' = Some w
    \<and> dj_lease_expires_at j' = Some x"
proof -
  have keep: "reclaim_job c j = j" if "c < x" for c using that assms(4) by (simp add: reclaim_job_def lease_lapsed_def)
  have nc: "\<not> claimable j" using assms(2) by (simp add: claimable_def)
  show ?thesis
  proof (cases e)
    case (Enqueue new_id now r)
    then show ?thesis using assms enqueue_result [of new_id now r jobs] get_job_put
      by (auto simp: after_def split: sum.splits)
  next
    case (Reclaim now)
    then show ?thesis using assms keep by (simp add: reclaim_expired_def get_job_map)
  next
    case (Claim w' limit n now)
    then show ?thesis using assms keep nc
      by (auto simp: after_def split: sum.splits elim!: claim_life)
  qed (use assms in \<open>auto simp: after_def get_job_update TERMINAL_def split: sum.splits
        elim!: heartbeat_life complete_life fail_life request_cancel_life\<close>)
qed

lemma leased_job:
  "lf_phase (job_life j) = Leased (Some w) (Some x) \<longleftrightarrow>
     dj_status j = RUNNING \<and> dj_lease_owner j = Some w \<and> dj_lease_expires_at j = Some x"
  by (cases "dj_status j") (auto simp: job_life_def phase_of_def)

interpretation mem_jobs: job_queue job_step job_life_at event_clock event_actor event_ok
proof
  fix e s i l
  assume ok: "event_ok e s"
  show "\<exists>l'. job_life_at (job_step e s) i = Some l' \<and> life_steps (event_clock e) l l'" if "job_life_at s i = Some l"
    using that job_step_refines [OF ok, of i] by (fastforce simp: job_life_at_def)
  show "fresh_life l" if "job_life_at s i = None" "job_life_at (job_step e s) i = Some l"
    using that job_step_created [OF ok] by (auto simp: job_life_at_def)
next
  fix e s i l w x
  assume a: "event_ok e s" "job_life_at s i = Some l" "lf_phase l = Leased (Some w) (Some x)" "event_clock e < x"
    "event_actor e \<noteq> Some w"
  from a(2) obtain j where j: "get_job s i = Some j" "l = job_life j" by (auto simp: job_life_at_def)
  from job_step_lease_kept [OF j(1) _ _ _ a(4,5,1)] a(3) obtain j' where "get_job (job_step e s) i = Some j'"
    "lf_phase (job_life j') = Leased (Some w) (Some x)" by (auto simp: j(2) leased_job)
  then show "\<exists>l'. job_life_at (job_step e s) i = Some l' \<and> lf_phase l' = Leased (Some w) (Some x)"
    by (simp add: job_life_at_def)
qed

end
