(* ===== verification/Job_Store.thy ===== *)
theory Job_Store
  imports Durable_Jobs Py_Json
begin

text \<open>
  The database store of durable jobs (\<open>src/src/sre_agent/job_store.py\<close>, with the \<open>Job\<close> table of
  \<open>src/src/backend/models.py\<close>). The table is the list of its rows in the order in which a query
  without an ordering returns them; an ordering by creation time is stable on it. Each operation is
  one atomic function on the table. The rows that other transactions hold locked while a claim runs,
  which \<open>SKIP LOCKED\<close> passes over, are an argument of the claim. The unique constraint on the
  cluster and the idempotency key is part of the model: violating it is \<open>IntegrityError\<close>.

  Shown here: the table interprets the same contract as the in-memory store; unlike the latter it
  retires a waiting job whose cancellation was requested at the next claim, and the oldest job that
  waits unlocked is served by the next claim.
\<close>

section \<open>Data\<close>

record job_row =
  jr_id :: int
  jr_cluster_id :: int
  jr_organization_id :: "int option"
  jr_incident_id :: "int option"
  jr_job_type :: job_type
  jr_status :: job_status
  jr_payload :: "string option"
  jr_result :: "string option"
  jr_idempotency_key :: "string option"
  jr_attempt_count :: int
  jr_max_attempts :: int
  jr_lease_owner :: "string option"
  jr_lease_expires_at :: "int option"
  jr_heartbeat_at :: "int option"
  jr_cancel_requested_at :: "int option"
  jr_last_error :: "string option"
  jr_created_at :: int
  jr_started_at :: "int option"
  jr_completed_at :: "int option"

datatype store_error = Job_error job_error | IntegrityError

text \<open>\<open>int(job.max_attempts or 3)\<close>.\<close>

definition row_max :: "job_row \<Rightarrow> int" where
  "row_max r = (if jr_max_attempts r = 0 then 3 else jr_max_attempts r)"

definition parse_payload :: "string option \<Rightarrow> pydict" where
  "parse_payload raw =
     (case raw of
        None \<Rightarrow> []
      | Some s \<Rightarrow>
          (if s = [] then []
           else case json_loads s of
             None \<Rightarrow> [(''raw'', PStr s)]
           | Some (PDict d) \<Rightarrow> d
           | Some v \<Rightarrow> [(''value'', v)]))"

definition to_record :: "job_row \<Rightarrow> durable_job" where
  "to_record r = \<lparr>dj_id = jr_id r, dj_cluster_id = jr_cluster_id r, dj_organization_id = jr_organization_id r,
     dj_incident_id = jr_incident_id r, dj_job_type = job_type_value (jr_job_type r), dj_status = jr_status r,
     dj_payload = parse_payload (jr_payload r), dj_idempotency_key = jr_idempotency_key r,
     dj_attempt_count = jr_attempt_count r, dj_max_attempts = row_max r, dj_lease_owner = jr_lease_owner r,
     dj_lease_expires_at = jr_lease_expires_at r, dj_heartbeat_at = jr_heartbeat_at r,
     dj_cancel_requested_at = jr_cancel_requested_at r, dj_last_error = jr_last_error r,
     dj_created_at = jr_created_at r, dj_started_at = jr_started_at r, dj_completed_at = jr_completed_at r\<rparr>"

section \<open>Operations\<close>

definition get_row :: "job_row list \<Rightarrow> int \<Rightarrow> job_row option" where
  "get_row rows i = lookup_by jr_id rows i"

definition update_row :: "int \<Rightarrow> (job_row \<Rightarrow> job_row) \<Rightarrow> job_row list \<Rightarrow> job_row list" where
  "update_row i f rows = update_by jr_id i f rows"

definition enqueue_investigation :: "runtime \<Rightarrow> int \<Rightarrow> int \<Rightarrow> int \<Rightarrow> int option \<Rightarrow> int \<Rightarrow> pydict \<Rightarrow> string option \<Rightarrow> int option
    \<Rightarrow> job_row list \<Rightarrow> (store_error, job_row \<times> job_row list) res" where
  "enqueue_investigation rt new_id now cluster_id organization_id incident_id payload idempotency_key max_attempts rows =
     (let key = (case idempotency_key of
                   None \<Rightarrow> investigation_idempotency_key incident_id
                 | Some k \<Rightarrow> (if k = [] then investigation_idempotency_key incident_id else k));
          attempts = (case max_attempts of None \<Rightarrow> default_max_attempts rt | Some n \<Rightarrow> n)
      in if attempts < 1 then Inl (Job_error MaxAttemptsTooSmall)
         else case List.find (\<lambda>r. jr_cluster_id r = cluster_id \<and> jr_idempotency_key r = Some key \<and> jr_status r \<in> ACTIVE) rows of
           Some found \<Rightarrow> Inr (found, rows)
         | None \<Rightarrow>
             (if List.find (\<lambda>r. jr_cluster_id r = cluster_id \<and> jr_idempotency_key r = Some key) rows \<noteq> None
              then Inl IntegrityError
              else let job = \<lparr>jr_id = new_id, jr_cluster_id = cluster_id, jr_organization_id = organization_id,
                     jr_incident_id = Some incident_id, jr_job_type = INVESTIGATION, jr_status = PENDING,
                     jr_payload = Some (payload_json rt payload), jr_result = None, jr_idempotency_key = Some key,
                     jr_attempt_count = 0, jr_max_attempts = attempts, jr_lease_owner = None, jr_lease_expires_at = None,
                     jr_heartbeat_at = None, jr_cancel_requested_at = None, jr_last_error = None, jr_created_at = now,
                     jr_started_at = None, jr_completed_at = None\<rparr>
                   in Inr (job, rows @ [job])))"

definition row_lapsed :: "int \<Rightarrow> job_row \<Rightarrow> bool" where
  "row_lapsed clock r = (jr_status r = RUNNING \<and> jr_job_type r = INVESTIGATION \<and>
     (case jr_lease_expires_at r of None \<Rightarrow> False | Some t \<Rightarrow> t \<le> clock))"

definition reclaim_row :: "int \<Rightarrow> job_row \<Rightarrow> job_row" where
  "reclaim_row clock r =
     (if \<not> row_lapsed clock r then r
      else (if row_max r \<le> jr_attempt_count r
            then r\<lparr>jr_status := DEAD_LETTER, jr_completed_at := Some clock,
                   jr_last_error := error_or (jr_last_error r) ''lease expired after max attempts''\<rparr>
            else r\<lparr>jr_status := PENDING\<rparr>)
           \<lparr>jr_lease_owner := None, jr_lease_expires_at := None, jr_heartbeat_at := None\<rparr>)"

definition reclaim_expired_leases :: "int \<Rightarrow> job_row list \<Rightarrow> nat \<times> job_row list" where
  "reclaim_expired_leases clock rows = (length (filter (row_lapsed clock) rows), map (reclaim_row clock) rows)"

text \<open>Waiting investigations whose cancellation was requested are retired.\<close>

definition sweep_row :: "int \<Rightarrow> job_row \<Rightarrow> job_row" where
  "sweep_row clock r =
     (if jr_status r = PENDING \<and> jr_job_type r = INVESTIGATION \<and> jr_cancel_requested_at r \<noteq> None
      then r\<lparr>jr_status := CANCELLED, jr_completed_at := Some clock\<rparr> else r)"

definition row_claimable :: "job_row \<Rightarrow> bool" where
  "row_claimable r = (jr_status r = PENDING \<and> jr_job_type r = INVESTIGATION \<and> jr_cancel_requested_at r = None)"

definition row_tenant :: "job_row \<Rightarrow> string" where
  "row_tenant r = uuid_str (case jr_organization_id r of Some org \<Rightarrow> org | None \<Rightarrow> jr_cluster_id r)"

definition claim_candidates :: "int set \<Rightarrow> int \<Rightarrow> job_row list \<Rightarrow> job_row list" where
  "claim_candidates locked limit rows =
     take (nat (max (limit * 8) limit))
       (filter (\<lambda>r. jr_id r \<notin> locked) (sort_key jr_created_at (filter row_claimable rows)))"

definition lease_row :: "string \<Rightarrow> int \<Rightarrow> int \<Rightarrow> job_row \<Rightarrow> job_row" where
  "lease_row worker_id lease_seconds clock r =
     r\<lparr>jr_status := RUNNING, jr_attempt_count := jr_attempt_count r + 1, jr_lease_owner := Some worker_id,
       jr_lease_expires_at := Some (clock + seconds lease_seconds), jr_heartbeat_at := Some clock,
       jr_started_at := (case jr_started_at r of None \<Rightarrow> Some clock | Some t \<Rightarrow> Some t)\<rparr>"

definition swept_rows :: "int \<Rightarrow> job_row list \<Rightarrow> job_row list" where
  "swept_rows clock rows = map (sweep_row clock) (snd (reclaim_expired_leases clock rows))"

definition chosen_rows :: "int set \<Rightarrow> int \<Rightarrow> int \<Rightarrow> job_row list \<Rightarrow> job_row list" where
  "chosen_rows locked limit clock rows =
     take (nat limit) (fair_order row_tenant (claim_candidates locked limit (swept_rows clock rows)))"

definition claim_jobs :: "int set \<Rightarrow> string \<Rightarrow> int \<Rightarrow> int \<Rightarrow> int \<Rightarrow> job_row list
    \<Rightarrow> (store_error, durable_job list \<times> job_row list) res" where
  "claim_jobs locked worker_id limit lease_seconds clock rows =
     (if limit < 1 \<or> lease_seconds < 1 then Inl (Job_error LimitTooSmall)
      else let chosen = chosen_rows locked limit clock rows
           in Inr (map (\<lambda>r. to_record (lease_row worker_id lease_seconds clock r)) chosen,
                   map (\<lambda>r. if r \<in> set chosen then lease_row worker_id lease_seconds clock r else r) (swept_rows clock rows)))"

definition heartbeat_job :: "int \<Rightarrow> string \<Rightarrow> int \<Rightarrow> int \<Rightarrow> job_row list \<Rightarrow> (store_error, durable_job \<times> job_row list) res" where
  "heartbeat_job i worker_id lease_seconds clock rows =
     (case get_row rows i of
        None \<Rightarrow> Inl (Job_error (JobNotFound i))
      | Some job \<Rightarrow>
          (if jr_status job \<noteq> RUNNING \<or> jr_lease_owner job \<noteq> Some worker_id then Inl (Job_error HeartbeatNotOwner)
           else if (case jr_lease_expires_at job of None \<Rightarrow> False | Some t \<Rightarrow> t < clock) then Inl (Job_error LeaseExpired)
           else if jr_cancel_requested_at job \<noteq> None then Inl (Job_error CancellationRequested)
           else let f = (\<lambda>r. r\<lparr>jr_heartbeat_at := Some clock, jr_lease_expires_at := Some (clock + seconds lease_seconds)\<rparr>)
                in Inr (to_record (f job), update_row i f rows)))"

definition cancel_row :: "int \<Rightarrow> job_row \<Rightarrow> job_row" where
  "cancel_row clock r =
     (if jr_status r = PENDING then r\<lparr>jr_status := CANCELLED, jr_completed_at := Some clock\<rparr> else r)
       \<lparr>jr_cancel_requested_at := Some clock\<rparr>"

definition request_job_cancel :: "int \<Rightarrow> int \<Rightarrow> job_row list \<Rightarrow> (store_error, durable_job \<times> job_row list) res" where
  "request_job_cancel i clock rows =
     (case get_row rows i of
        None \<Rightarrow> Inl (Job_error (JobNotFound i))
      | Some job \<Rightarrow>
          (if jr_status job \<in> TERMINAL then Inr (to_record job, rows)
           else Inr (to_record (cancel_row clock job), update_row i (cancel_row clock) rows)))"

definition has_live_investigation_job :: "int \<Rightarrow> job_row list \<Rightarrow> bool" where
  "has_live_investigation_job incident_id rows =
     list_ex (\<lambda>r. jr_incident_id r = Some incident_id \<and> jr_job_type r = INVESTIGATION \<and> jr_status r \<in> ACTIVE) rows"

definition stoppable :: "int \<Rightarrow> job_row \<Rightarrow> bool" where
  "stoppable incident_id r = (jr_incident_id r = Some incident_id \<and> jr_job_type r = INVESTIGATION \<and> jr_status r \<in> ACTIVE
     \<and> jr_cancel_requested_at r = None)"

definition cancel_incident_investigations :: "int \<Rightarrow> int \<Rightarrow> job_row list \<Rightarrow> int list \<times> job_row list" where
  "cancel_incident_investigations incident_id clock rows =
     (map jr_id (filter (stoppable incident_id) rows),
      map (\<lambda>r. if stoppable incident_id r then cancel_row clock r else r) rows)"

definition owned_row :: "job_row list \<Rightarrow> int \<Rightarrow> string \<Rightarrow> (store_error, job_row) res" where
  "owned_row rows i worker_id =
     (case get_row rows i of
        None \<Rightarrow> Inl (Job_error NotLeaseOwner)
      | Some job \<Rightarrow>
          (if jr_status job \<noteq> RUNNING \<or> jr_lease_owner job \<noteq> Some worker_id then Inl (Job_error NotLeaseOwner) else Inr job))"

definition complete_row :: "runtime \<Rightarrow> pydict option \<Rightarrow> int \<Rightarrow> job_row \<Rightarrow> job_row" where
  "complete_row rt result_payload clock r =
     r\<lparr>jr_status := COMPLETED, jr_completed_at := Some clock, jr_lease_owner := None, jr_lease_expires_at := None,
       jr_result := (case result_payload of None \<Rightarrow> jr_result r | Some p \<Rightarrow> Some (payload_json rt p))\<rparr>"

definition complete_job :: "runtime \<Rightarrow> int \<Rightarrow> string \<Rightarrow> pydict option \<Rightarrow> int \<Rightarrow> job_row list
    \<Rightarrow> (store_error, durable_job \<times> job_row list) res" where
  "complete_job rt i worker_id result_payload clock rows =
     rbind (owned_row rows i worker_id) (\<lambda>job.
       Inr (to_record (complete_row rt result_payload clock job), update_row i (complete_row rt result_payload clock) rows))"

definition fail_row :: "string \<Rightarrow> int \<Rightarrow> job_row \<Rightarrow> job_row" where
  "fail_row error clock r =
     (let k = r\<lparr>jr_last_error := Some error, jr_lease_owner := None, jr_lease_expires_at := None, jr_heartbeat_at := None\<rparr>
      in if jr_cancel_requested_at r \<noteq> None then k\<lparr>jr_status := CANCELLED, jr_completed_at := Some clock\<rparr>
         else if row_max r \<le> jr_attempt_count r then k\<lparr>jr_status := DEAD_LETTER, jr_completed_at := Some clock\<rparr>
         else k\<lparr>jr_status := PENDING\<rparr>)"

definition fail_job :: "int \<Rightarrow> string \<Rightarrow> string \<Rightarrow> int \<Rightarrow> job_row list \<Rightarrow> (store_error, durable_job \<times> job_row list) res" where
  "fail_job i worker_id error clock rows =
     rbind (owned_row rows i worker_id) (\<lambda>job.
       Inr (to_record (fail_row error clock job), update_row i (fail_row error clock) rows))"

section \<open>Operations as events\<close>

datatype row_event =
    Row_enqueue runtime int int int "int option" int pydict "string option" "int option"
  | Row_reclaim int
  | Row_claim "int set" string int int int
  | Row_heartbeat int string int int
  | Row_cancel int int
  | Row_cancel_incident int int
  | Row_complete runtime int string "pydict option" int
  | Row_fail int string string int

definition row_after :: "job_row list \<Rightarrow> (store_error, 'a \<times> job_row list) res \<Rightarrow> job_row list" where
  "row_after rows r = (case r of Inl _ \<Rightarrow> rows | Inr (_, rows') \<Rightarrow> rows')"

fun row_step :: "row_event \<Rightarrow> job_row list \<Rightarrow> job_row list" where
  "row_step (Row_enqueue rt new_id now c org inc p k m) rows = row_after rows (enqueue_investigation rt new_id now c org inc p k m rows)"
| "row_step (Row_reclaim now) rows = snd (reclaim_expired_leases now rows)"
| "row_step (Row_claim locked w limit n now) rows = row_after rows (claim_jobs locked w limit n now rows)"
| "row_step (Row_heartbeat i w n now) rows = row_after rows (heartbeat_job i w n now rows)"
| "row_step (Row_cancel i now) rows = row_after rows (request_job_cancel i now rows)"
| "row_step (Row_cancel_incident inc now) rows = snd (cancel_incident_investigations inc now rows)"
| "row_step (Row_complete rt i w r now) rows = row_after rows (complete_job rt i w r now rows)"
| "row_step (Row_fail i w e now) rows = row_after rows (fail_job i w e now rows)"

fun row_clock :: "row_event \<Rightarrow> int" where
  "row_clock (Row_enqueue _ _ now _ _ _ _ _ _) = now"
| "row_clock (Row_reclaim now) = now"
| "row_clock (Row_claim _ _ _ _ now) = now"
| "row_clock (Row_heartbeat _ _ _ now) = now"
| "row_clock (Row_cancel _ now) = now"
| "row_clock (Row_cancel_incident _ now) = now"
| "row_clock (Row_complete _ _ _ _ now) = now"
| "row_clock (Row_fail _ _ _ now) = now"

fun row_actor :: "row_event \<Rightarrow> string option" where
  "row_actor (Row_claim _ w _ _ _) = Some w"
| "row_actor (Row_heartbeat _ w _ _) = Some w"
| "row_actor (Row_complete _ _ w _ _) = Some w"
| "row_actor (Row_fail _ w _ _) = Some w"
| "row_actor _ = None"

fun row_ok :: "row_event \<Rightarrow> job_row list \<Rightarrow> bool" where
  "row_ok (Row_enqueue _ new_id _ _ _ _ _ _ _) rows = (get_row rows new_id = None)"
| "row_ok _ _ = True"

fun run_rows :: "row_event list \<Rightarrow> job_row list \<Rightarrow> job_row list" where
  "run_rows [] rows = rows"
| "run_rows (e # es) rows = run_rows es (row_step e rows)"

fun rows_ok :: "row_event list \<Rightarrow> job_row list \<Rightarrow> bool" where
  "rows_ok [] rows = True"
| "rows_ok (e # es) rows = (row_ok e rows \<and> rows_ok es (row_step e rows))"

definition row_life :: "job_row \<Rightarrow> life" where
  "row_life r = \<lparr>lf_phase = phase_of (jr_status r) (jr_lease_owner r) (jr_lease_expires_at r),
     lf_attempts = jr_attempt_count r, lf_max = row_max r, lf_cancel = (jr_cancel_requested_at r \<noteq> None)\<rparr>"

definition row_life_at :: "job_row list \<Rightarrow> int \<Rightarrow> life option" where
  "row_life_at rows i = map_option row_life (get_row rows i)"

section \<open>Lemmas\<close>

lemma row_life_record: "row_life r = job_life (to_record r)"
  by (simp add: row_life_def job_life_def to_record_def)

lemma get_row_map: "(\<And>r. jr_id (g r) = jr_id r) \<Longrightarrow> get_row (map g rows) i = map_option g (get_row rows i)"
  unfolding get_row_def by (rule lookup_by_map)

lemma get_row_update:
  "(\<And>r. jr_id (f r) = jr_id r) \<Longrightarrow>
     get_row (update_row i f rows) k = map_option (\<lambda>r. if k = i then f r else r) (get_row rows k)"
  unfolding get_row_def update_row_def by (rule lookup_by_update)

lemma jr_id_keeps [simp]:
  "jr_id (reclaim_row clock r) = jr_id r" "jr_id (sweep_row clock r) = jr_id r" "jr_id (lease_row w n clock r) = jr_id r"
  "jr_id (cancel_row clock r) = jr_id r" "jr_id (complete_row rt p clock r) = jr_id r" "jr_id (fail_row e clock r) = jr_id r"
  by (simp_all add: reclaim_row_def sweep_row_def lease_row_def cancel_row_def complete_row_def fail_row_def Let_def)

lemma reclaim_row_life: "life_steps clock (row_life r) (row_life (reclaim_row clock r))"
proof (cases "row_lapsed clock r")
  case True
  then obtain t where "jr_status r = RUNNING" "jr_lease_expires_at r = Some t" "t \<le> clock"
    by (auto simp: row_lapsed_def split: option.splits)
  then have "life_step clock (row_life r) (row_life (reclaim_row clock r))"
    using life_step.expired_dead [of "row_life r" "jr_lease_owner r" t clock]
      life_step.expired_retry [of "row_life r" "jr_lease_owner r" t clock] True
    by (auto simp: reclaim_row_def row_life_def phase_of_def row_max_def)
  then show ?thesis by blast
qed (simp add: reclaim_row_def)

lemma sweep_row_life: "life_steps clock (row_life r) (row_life (sweep_row clock r))"
  using life_step.swept [of "row_life r" clock]
  by (auto simp: sweep_row_def row_life_def phase_of_def row_max_def)

lemma lease_row_life:
  assumes "row_claimable r" "1 \<le> n"
  shows "life_step clock (row_life r) (row_life (lease_row w n clock r))"
  using assms life_step.claimed [of "row_life r" clock "clock + seconds n" w]
  by (auto simp: row_claimable_def lease_row_def row_life_def phase_of_def seconds_def row_max_def)

lemma cancel_row_life:
  "jr_status r \<notin> TERMINAL \<Longrightarrow> life_step clock (row_life r) (row_life (cancel_row clock r))"
  using life_step.cancelled_waiting [of "row_life r" clock]
    life_step.cancelled_running [of "row_life r" "jr_lease_owner r" "jr_lease_expires_at r" clock]
    life_step.cancelled_late [of "row_life r" "jr_status r" clock]
  by (cases "jr_status r") (auto simp: cancel_row_def TERMINAL_def row_life_def phase_of_def row_max_def)

lemma owned_row_Inr:
  "owned_row rows i w = Inr r \<longleftrightarrow> get_row rows i = Some r \<and> jr_status r = RUNNING \<and> jr_lease_owner r = Some w"
  by (auto simp: owned_row_def split: option.splits if_splits)

lemma complete_row_life:
  "jr_status r = RUNNING \<Longrightarrow> jr_lease_owner r = Some w \<Longrightarrow> life_step clock (row_life r) (row_life (complete_row rt p clock r))"
  using life_step.finished [of "row_life r" w "jr_lease_expires_at r" clock]
  by (auto simp: complete_row_def row_life_def phase_of_def row_max_def)

lemma fail_row_life:
  "jr_status r = RUNNING \<Longrightarrow> jr_lease_owner r = Some w \<Longrightarrow> life_step clock (row_life r) (row_life (fail_row e clock r))"
  using life_step.failed_cancelled [of "row_life r" w "jr_lease_expires_at r" clock]
    life_step.failed_dead [of "row_life r" w "jr_lease_expires_at r" clock]
    life_step.failed_retry [of "row_life r" w "jr_lease_expires_at r" clock]
  by (auto simp: fail_row_def row_life_def phase_of_def row_max_def Let_def)

lemma chosen_rows_claimable:
  assumes "r \<in> set (chosen_rows locked limit clock rows)"
  shows "row_claimable r \<and> r \<in> set (swept_rows clock rows) \<and> jr_id r \<notin> locked"
proof -
  from assms have "r \<in> set (claim_candidates locked limit (swept_rows clock rows))"
    unfolding chosen_rows_def by (auto dest: in_set_takeD)
  then show ?thesis unfolding claim_candidates_def by (auto dest: in_set_takeD)
qed

lemma swept_row_life: "life_steps clock (row_life r) (row_life (sweep_row clock (reclaim_row clock r)))"
  by (rule rtranclp_trans [OF reclaim_row_life sweep_row_life])

text \<open>A claim as one function on every row.\<close>

definition claim_row :: "int set \<Rightarrow> string \<Rightarrow> int \<Rightarrow> int \<Rightarrow> int \<Rightarrow> job_row list \<Rightarrow> job_row \<Rightarrow> job_row" where
  "claim_row locked w limit n clock rows r =
     (let s = sweep_row clock (reclaim_row clock r)
      in if s \<in> set (chosen_rows locked limit clock rows) then lease_row w n clock s else s)"

lemma claim_jobs_result:
  assumes "claim_jobs locked w limit n clock rows = Inr (claimed, rows')"
  shows "1 \<le> n \<and> 1 \<le> limit \<and> rows' = map (claim_row locked w limit n clock rows) rows
    \<and> claimed = map (\<lambda>r. to_record (lease_row w n clock r)) (chosen_rows locked limit clock rows)"
  using assms
  by (auto simp: claim_jobs_def Let_def swept_rows_def reclaim_expired_leases_def claim_row_def o_def split: if_splits)

lemma claim_row_life: "1 \<le> n \<Longrightarrow> life_steps clock (row_life r) (row_life (claim_row locked w limit n clock rows r))"
  using swept_row_life [of clock r] lease_row_life [of "sweep_row clock (reclaim_row clock r)" n clock w]
    chosen_rows_claimable [of "sweep_row clock (reclaim_row clock r)" locked limit clock rows]
  by (auto simp: claim_row_def Let_def intro: rtranclp.rtrancl_into_rtrancl)

lemma claim_row_id [simp]: "jr_id (claim_row locked w limit n clock rows r) = jr_id r"
  by (simp add: claim_row_def Let_def)

text \<open>Every operation is a function on each row, or inserts one row.\<close>

lemma leased_row:
  "lf_phase (row_life r) = Leased (Some w) (Some x) \<longleftrightarrow>
     jr_status r = RUNNING \<and> jr_lease_owner r = Some w \<and> jr_lease_expires_at r = Some x"
  by (cases "jr_status r") (auto simp: row_life_def phase_of_def)

definition row_fun :: "row_event \<Rightarrow> job_row list \<Rightarrow> (job_row \<Rightarrow> job_row) \<Rightarrow> bool" where
  "row_fun e rows g \<longleftrightarrow> (\<forall>r. jr_id (g r) = jr_id r) \<and>
     (\<forall>i r. get_row rows i = Some r \<longrightarrow> life_steps (row_clock e) (row_life r) (row_life (g r)) \<and>
       (\<forall>w x. lf_phase (row_life r) = Leased (Some w) (Some x) \<longrightarrow> row_clock e < x \<longrightarrow> row_actor e \<noteq> Some w \<longrightarrow>
          lf_phase (row_life (g r)) = Leased (Some w) (Some x)))"

lemma row_fun_id: "row_fun e rows (\<lambda>r. r)"
  by (simp add: row_fun_def)

lemma row_fun_update:
  assumes "get_row rows i = Some job" "\<And>r. jr_id (f r) = jr_id r"
    and "life_step (row_clock e) (row_life job) (row_life (f job))"
    and "\<And>w x. lf_phase (row_life job) = Leased (Some w) (Some x) \<Longrightarrow> row_actor e \<noteq> Some w \<Longrightarrow>
       lf_phase (row_life (f job)) = Leased (Some w) (Some x)"
  shows "row_fun e rows (\<lambda>r. if jr_id r = i then f r else r)"
proof -
  have "r = job" if "get_row rows k = Some r" "jr_id r = i" for k r
    using that assms(1) lookup_by_key [of jr_id rows k r] by (simp add: get_row_def)
  then show ?thesis using assms by (auto simp: row_fun_def)
qed

lemma row_fun_claim:
  assumes "1 \<le> n"
  shows "row_fun (Row_claim locked w limit n now) rows (claim_row locked w limit n now rows)"
proof -
  have "claim_row locked w limit n now rows r = r"
    if "jr_status r = RUNNING" "jr_lease_expires_at r = Some x" "now < x" for r x
  proof -
    have "sweep_row now (reclaim_row now r) = r" using that by (simp add: reclaim_row_def sweep_row_def row_lapsed_def)
    moreover have "\<not> row_claimable r" using that by (simp add: row_claimable_def)
    ultimately show ?thesis using chosen_rows_claimable [of r] by (auto simp: claim_row_def Let_def)
  qed
  then show ?thesis using claim_row_life [OF assms] by (auto simp: row_fun_def leased_row)
qed

lemma enqueue_investigation_result:
  assumes "enqueue_investigation rt new_id now c org inc p k m rows = Inr (r, rows')"
  shows "rows' = rows \<and> r \<in> set rows \<or> rows' = rows @ [r] \<and> jr_id r = new_id \<and> fresh_life (row_life r)"
  using assms
  by (auto dest!: find_Some_mem simp: enqueue_investigation_def Let_def fresh_life_def row_life_def phase_of_def row_max_def
      split: option.splits if_splits)

lemma row_step_cases:
  assumes "row_ok e rows"
  obtains (mapped) g where "row_step e rows = map g rows" "row_fun e rows g"
  | (inserted) r where "row_step e rows = rows @ [r]" "get_row rows (jr_id r) = None" "fresh_life (row_life r)"
proof (cases e)
  case (Row_enqueue rt new_id now c org inc p k m)
  show thesis
  proof (cases "enqueue_investigation rt new_id now c org inc p k m rows")
    case (Inr res)
    then obtain r rows' where r: "enqueue_investigation rt new_id now c org inc p k m rows = Inr (r, rows')" by (cases res) auto
    from enqueue_investigation_result [OF r] show thesis
      using assms inserted mapped [OF _ row_fun_id] Row_enqueue r by (auto simp: row_after_def)
  qed (use mapped [OF _ row_fun_id] Row_enqueue in \<open>simp add: row_after_def\<close>)
next
  case (Row_reclaim now)
  have "row_fun e rows (reclaim_row now)"
    using Row_reclaim reclaim_row_life by (auto simp: row_fun_def leased_row reclaim_row_def row_lapsed_def)
  then show thesis using Row_reclaim by (intro mapped [of "reclaim_row now"]) (simp_all add: reclaim_expired_leases_def)
next
  case (Row_claim locked w limit n now)
  show thesis
  proof (cases "claim_jobs locked w limit n now rows")
    case (Inr res)
    then obtain cl rows' where r: "claim_jobs locked w limit n now rows = Inr (cl, rows')" by (cases res) auto
    show thesis using claim_jobs_result [OF r] Row_claim row_fun_claim [of n locked w limit now rows] r
      by (intro mapped [of "claim_row locked w limit n now rows"]) (simp_all add: row_after_def)
  qed (use mapped [OF _ row_fun_id] Row_claim in \<open>simp add: row_after_def\<close>)
next
  case (Row_cancel_incident inc now)
  let ?g = "\<lambda>r. if stoppable inc r then cancel_row now r else r"
  have "row_fun e rows ?g"
    using Row_cancel_incident cancel_row_life [of _ now]
    by (auto simp: row_fun_def leased_row stoppable_def ACTIVE_def TERMINAL_def) (auto simp: cancel_row_def)
  then show thesis using Row_cancel_incident by (intro mapped [of ?g]) (simp_all add: cancel_incident_investigations_def)
next
  case (Row_heartbeat i w n now)
  show thesis
  proof (cases "heartbeat_job i w n now rows")
    case (Inr res)
    let ?f = "\<lambda>r. r\<lparr>jr_heartbeat_at := Some now, jr_lease_expires_at := Some (now + seconds n)\<rparr>"
    from Inr obtain job where j: "get_row rows i = Some job" "snd res = update_row i ?f rows" "jr_status job = RUNNING"
      "jr_lease_owner job = Some w" "jr_cancel_requested_at job = None" "\<forall>t. jr_lease_expires_at job = Some t \<longrightarrow> now \<le> t"
      by (auto simp: heartbeat_job_def Let_def split: option.splits if_splits)
    have "life_step now (row_life job) (row_life (?f job))"
      using j life_step.renewed [of "row_life job" w "jr_lease_expires_at job" now "now + seconds n"]
      by (auto simp: row_life_def phase_of_def row_max_def)
    then have "row_fun e rows (\<lambda>r. if jr_id r = i then ?f r else r)"
      using Row_heartbeat j by (intro row_fun_update) (auto simp: leased_row)
    then show thesis using Row_heartbeat Inr j(2)
      by (intro mapped [of "\<lambda>r. if jr_id r = i then ?f r else r"]) (auto simp: row_after_def update_row_def update_by_def split: prod.splits)
  qed (use mapped [OF _ row_fun_id] Row_heartbeat in \<open>simp add: row_after_def\<close>)
next
  case (Row_cancel i now)
  show thesis
  proof (cases "get_row rows i")
    case (Some job)
    have "row_fun e rows (\<lambda>r. if jr_id r = i then cancel_row now r else r)" if "jr_status job \<notin> TERMINAL"
      using Row_cancel Some cancel_row_life [OF that, of now]
      by (intro row_fun_update) (auto simp: leased_row, auto simp: cancel_row_def)
    then show thesis using mapped [OF _ row_fun_id] mapped [of "\<lambda>r. if jr_id r = i then cancel_row now r else r"] Row_cancel Some
      by (cases "jr_status job \<in> TERMINAL") (auto simp: row_after_def request_job_cancel_def update_row_def update_by_def)
  qed (use mapped [OF _ row_fun_id] Row_cancel in \<open>simp add: row_after_def request_job_cancel_def\<close>)
next
  case (Row_complete rt i w p now)
  show thesis
  proof (cases "owned_row rows i w")
    case (Inr job)
    then have "row_fun e rows (\<lambda>r. if jr_id r = i then complete_row rt p now r else r)"
      using Row_complete complete_row_life [of job w now rt p] by (intro row_fun_update) (auto simp: leased_row owned_row_Inr)
    then show thesis using Row_complete Inr
      by (intro mapped) (auto simp: row_after_def complete_job_def update_row_def update_by_def)
  qed (use mapped [OF _ row_fun_id] Row_complete in \<open>simp add: row_after_def complete_job_def\<close>)
next
  case (Row_fail i w x now)
  show thesis
  proof (cases "owned_row rows i w")
    case (Inr job)
    then have "row_fun e rows (\<lambda>r. if jr_id r = i then fail_row x now r else r)"
      using Row_fail fail_row_life [of job w now x] by (intro row_fun_update) (auto simp: leased_row owned_row_Inr)
    then show thesis using Row_fail Inr
      by (intro mapped) (auto simp: row_after_def fail_job_def update_row_def update_by_def)
  qed (use mapped [OF _ row_fun_id] Row_fail in \<open>simp add: row_after_def fail_job_def\<close>)
qed

section \<open>The table keeps the contract\<close>

interpretation sql_jobs: job_queue row_step row_life_at row_clock row_actor row_ok
proof
  fix e s i l
  assume ok: "row_ok e s"
  show "\<exists>l'. row_life_at (row_step e s) i = Some l' \<and> life_steps (row_clock e) l l'" if l: "row_life_at s i = Some l"
    using ok
  proof (cases rule: row_step_cases)
    case (mapped g)
    then show ?thesis using l by (auto simp: row_life_at_def row_fun_def get_row_map)
  next
    case (inserted r)
    then show ?thesis using l by (auto simp: row_life_at_def get_row_def lookup_by_append)
  qed
  show "fresh_life l" if l: "row_life_at s i = None" "row_life_at (row_step e s) i = Some l"
    using ok
  proof (cases rule: row_step_cases)
    case (mapped g)
    then show ?thesis using l by (auto simp: row_life_at_def row_fun_def get_row_map)
  next
    case (inserted r)
    then show ?thesis using l by (auto simp: row_life_at_def get_row_def lookup_by_append split: if_splits)
  qed
next
  fix e s i l w x
  assume a: "row_ok e s" "row_life_at s i = Some l" "lf_phase l = Leased (Some w) (Some x)" "row_clock e < x"
    "row_actor e \<noteq> Some w"
  from a(1) show "\<exists>l'. row_life_at (row_step e s) i = Some l' \<and> lf_phase l' = Leased (Some w) (Some x)"
  proof (cases rule: row_step_cases)
    case (mapped g)
    then show ?thesis using a by (auto simp: row_life_at_def row_fun_def get_row_map)
  next
    case (inserted r)
    then show ?thesis using a by (auto simp: row_life_at_def get_row_def lookup_by_append)
  qed
qed

section \<open>Runs of both stores\<close>

lemma run_events_eq: "run_events es jobs = mem_jobs.run es jobs"
  by (induction es arbitrary: jobs) auto

lemma events_ok_eq: "events_ok es jobs = mem_jobs.run_ok es jobs"
  by (induction es arbitrary: jobs) auto

lemma run_rows_eq: "run_rows es rows = sql_jobs.run es rows"
  by (induction es arbitrary: rows) auto

lemma rows_ok_eq: "rows_ok es rows = sql_jobs.run_ok es rows"
  by (induction es arbitrary: rows) auto

lemmas run_eqs = run_events_eq events_ok_eq run_rows_eq rows_ok_eq

lemma job_life_inv_iff:
  "life_inv (job_life j) \<longleftrightarrow> 0 \<le> dj_attempt_count j \<and> dj_attempt_count j \<le> dj_max_attempts j
     \<and> (dj_status j = PENDING \<longrightarrow> dj_attempt_count j < dj_max_attempts j) \<and> (dj_status j = RUNNING \<longrightarrow> 1 \<le> dj_attempt_count j)"
  by (cases "dj_status j") (auto simp: life_inv_def job_life_def phase_of_def)

lemma row_life_inv_iff:
  "life_inv (row_life r) \<longleftrightarrow> 0 \<le> jr_attempt_count r \<and> jr_attempt_count r \<le> row_max r
     \<and> (jr_status r = PENDING \<longrightarrow> jr_attempt_count r < row_max r) \<and> (jr_status r = RUNNING \<longrightarrow> 1 \<le> jr_attempt_count r)"
  by (cases "jr_status r") (auto simp: life_inv_def row_life_def phase_of_def)

lemma retired_job: "lf_phase (job_life j) = Retired st \<longleftrightarrow> dj_status j = st \<and> st \<notin> ACTIVE"
  by (cases "dj_status j") (auto simp: job_life_def phase_of_def ACTIVE_def)

lemma retired_row: "lf_phase (row_life r) = Retired st \<longleftrightarrow> jr_status r = st \<and> st \<notin> ACTIVE"
  by (cases "jr_status r") (auto simp: row_life_def phase_of_def ACTIVE_def)

lemma all_inv_empty: "mem_jobs.all_inv []" "sql_jobs.all_inv []"
  by (simp_all add: mem_jobs.all_inv_def sql_jobs.all_inv_def job_life_at_def row_life_at_def get_job_def get_row_def
      lookup_by_def)

lemma all_inv_job: "mem_jobs.all_inv jobs \<Longrightarrow> get_job jobs i = Some j \<Longrightarrow> life_inv (job_life j)"
  unfolding mem_jobs.all_inv_def job_life_at_def by auto

lemma all_inv_row: "sql_jobs.all_inv rows \<Longrightarrow> get_row rows i = Some r \<Longrightarrow> life_inv (row_life r)"
  unfolding sql_jobs.all_inv_def row_life_at_def by auto

lemma row_step_refines:
  assumes "row_ok f rows" "get_row rows i = Some r"
  shows "\<exists>r'. get_row (row_step f rows) i = Some r' \<and> life_steps (row_clock f) (row_life r) (row_life r')"
proof -
  obtain l' where "row_life_at (row_step f rows) i = Some l'" "life_steps (row_clock f) (row_life r) l'"
    using sql_jobs.refines [OF assms(1), of i "row_life r"] assms(2) by (auto simp: row_life_at_def)
  then show ?thesis by (auto simp: row_life_at_def)
qed

lemma row_step_created:
  "row_ok f rows \<Longrightarrow> get_row rows i = None \<Longrightarrow> get_row (row_step f rows) i = Some r \<Longrightarrow> fresh_life (row_life r)"
  using sql_jobs.created [of f rows i "row_life r"] by (simp add: row_life_at_def)

lemma lease_kept_mem:
  assumes "events_ok es jobs" "\<forall>e \<in> set es. event_clock e < x \<and> event_actor e \<noteq> Some w"
    and "get_job jobs i = Some j" "dj_status j = RUNNING" "dj_lease_owner j = Some w" "dj_lease_expires_at j = Some x"
  shows "\<exists>j'. get_job (run_events es jobs) i = Some j' \<and> dj_status j' = RUNNING \<and> dj_lease_owner j' = Some w
           \<and> dj_lease_expires_at j' = Some x"
proof -
  have "job_life_at jobs i = Some (job_life j)" "lf_phase (job_life j) = Leased (Some w) (Some x)"
    using assms(3-6) by (simp_all add: job_life_at_def leased_job)
  from mem_jobs.run_lease_kept [OF assms(1) [unfolded run_eqs] this assms(2)] obtain j' where
    "get_job (run_events es jobs) i = Some j'" "lf_phase (job_life j') = Leased (Some w) (Some x)"
    by (auto simp: job_life_at_def run_eqs)
  then show ?thesis by (simp add: leased_job)
qed

lemma lease_kept_sql:
  assumes "rows_ok fs rows" "\<forall>f \<in> set fs. row_clock f < x \<and> row_actor f \<noteq> Some w"
    and "get_row rows i = Some r" "jr_status r = RUNNING" "jr_lease_owner r = Some w" "jr_lease_expires_at r = Some x"
  shows "\<exists>r'. get_row (run_rows fs rows) i = Some r' \<and> jr_status r' = RUNNING \<and> jr_lease_owner r' = Some w
           \<and> jr_lease_expires_at r' = Some x"
proof -
  have "row_life_at rows i = Some (row_life r)" "lf_phase (row_life r) = Leased (Some w) (Some x)"
    using assms(3-6) by (simp_all add: row_life_at_def leased_row)
  from sql_jobs.run_lease_kept [OF assms(1) [unfolded run_eqs] this assms(2)] obtain r' where
    "get_row (run_rows fs rows) i = Some r'" "lf_phase (row_life r') = Leased (Some w) (Some x)"
    by (auto simp: row_life_at_def run_eqs)
  then show ?thesis by (simp add: leased_row)
qed

section \<open>Samples\<close>

definition sample_request :: enqueue_request where
  "sample_request = \<lparr>en_cluster_id = 7, en_organization_id = None, en_incident_id = Some 9, en_job_type = ''investigation'',
     en_payload = [], en_idempotency_key = Some ''k'', en_max_attempts = 2\<rparr>"

definition sample_events :: "job_event list" where
  "sample_events = [Enqueue 1 0 sample_request, Claim ''w1'' 1 60 0]"

definition sample_row_events :: "row_event list" where
  "sample_row_events = [Row_enqueue no_runtime 1 0 7 None 9 [] None (Some 2), Row_claim {} ''w1'' 1 60 0]"

section \<open>Properties\<close>

text \<open>C18. Both stores implement the life cycle. Every operation of the in-memory store and of the database
  store, successful or refused, keeps every job and moves it along the steps of the abstract life
  cycle at the operation's time (claim, renewal, completion, failure, expiry, cancellation), and a
  job that appears is fresh: waiting, without attempts, with at least one allowed.\<close>

theorem job_stores_refine_life:
  assumes "event_ok e jobs" "row_ok f rows"
  shows "(\<forall>i j. get_job jobs i = Some j \<longrightarrow> (\<exists>j'. get_job (job_step e jobs) i = Some j'
            \<and> life_steps (event_clock e) (job_life j) (job_life j')))
    \<and> (\<forall>i j. get_job jobs i = None \<and> get_job (job_step e jobs) i = Some j \<longrightarrow> fresh_life (job_life j))
    \<and> (\<forall>i r. get_row rows i = Some r \<longrightarrow> (\<exists>r'. get_row (row_step f rows) i = Some r'
            \<and> life_steps (row_clock f) (row_life r) (row_life r')))
    \<and> (\<forall>i r. get_row rows i = None \<and> get_row (row_step f rows) i = Some r \<longrightarrow> fresh_life (row_life r))"
  using job_step_refines [OF assms(1)] job_step_created [OF assms(1)]
    row_step_refines [OF assms(2)] row_step_created [OF assms(2)]
  by blast

theorem job_stores_refine_life_witness:
  "\<exists>j r. get_job (job_step (Enqueue 1 0 sample_request) []) 1 = Some j \<and> fresh_life (job_life j)
    \<and> get_row (row_step (Row_enqueue no_runtime 1 0 7 None 9 [] None (Some 2)) []) 1 = Some r \<and> fresh_life (row_life r)"
proof -
  have ok: "event_ok (Enqueue 1 0 sample_request) []" "row_ok (Row_enqueue no_runtime 1 0 7 None 9 [] None (Some 2)) []"
    by code_simp+
  have s: "get_job (job_step (Enqueue 1 0 sample_request) []) 1 \<noteq> None"
    "get_row (row_step (Row_enqueue no_runtime 1 0 7 None 9 [] None (Some 2)) []) 1 \<noteq> None" by code_simp+
  have n: "get_job [] 1 = None" "get_row [] 1 = None" by code_simp+
  from job_stores_refine_life [OF ok] s n show ?thesis by blast
qed

text \<open>Attempts are bounded. However operations interleave from an empty store, in memory or in the
  database, no job has used more attempts than its maximum, a waiting job still has one left, and a
  running job has used at least one.\<close>

theorem job_attempts_bounded:
  assumes "events_ok es []" "rows_ok fs []"
  shows "(\<forall>i j. get_job (run_events es []) i = Some j \<longrightarrow>
      0 \<le> dj_attempt_count j \<and> dj_attempt_count j \<le> dj_max_attempts j
      \<and> (dj_status j = PENDING \<longrightarrow> dj_attempt_count j < dj_max_attempts j) \<and> (dj_status j = RUNNING \<longrightarrow> 1 \<le> dj_attempt_count j))
    \<and> (\<forall>i r. get_row (run_rows fs []) i = Some r \<longrightarrow>
      0 \<le> jr_attempt_count r \<and> jr_attempt_count r \<le> row_max r
      \<and> (jr_status r = PENDING \<longrightarrow> jr_attempt_count r < row_max r) \<and> (jr_status r = RUNNING \<longrightarrow> 1 \<le> jr_attempt_count r))"
  using mem_jobs.run_inv [OF all_inv_empty(1) assms(1) [unfolded run_eqs]]
    sql_jobs.run_inv [OF all_inv_empty(2) assms(2) [unfolded run_eqs]]
  by (auto simp: run_eqs simp flip: job_life_inv_iff row_life_inv_iff intro: all_inv_job all_inv_row)

theorem job_attempts_bounded_witness:
  "\<exists>j r. get_job (run_events sample_events []) 1 = Some j \<and> 1 \<le> dj_attempt_count j
     \<and> get_row (run_rows sample_row_events []) 1 = Some r \<and> 1 \<le> jr_attempt_count r"
proof -
  have ok: "events_ok sample_events []" "rows_ok sample_row_events []" by code_simp+
  have "map_option dj_status (get_job (run_events sample_events []) 1) = Some RUNNING"
    "map_option jr_status (get_row (run_rows sample_row_events []) 1) = Some RUNNING" by code_simp+
  with job_attempts_bounded [OF ok] show ?thesis by auto
qed

text \<open>C19. A lease has one owner. While the lease that a worker holds has not expired, no operation of another
  worker, and no reclaim, enqueue or cancellation request, takes the job away in either store: after any
  sequence of such operations the job is still running under the same owner and expiry.\<close>

theorem job_lease_exclusive:
  assumes "events_ok es jobs" "rows_ok fs rows"
    and "\<forall>e \<in> set es. event_clock e < x \<and> event_actor e \<noteq> Some w" "\<forall>f \<in> set fs. row_clock f < x \<and> row_actor f \<noteq> Some w"
  shows "(\<forall>i j. get_job jobs i = Some j \<and> dj_status j = RUNNING \<and> dj_lease_owner j = Some w \<and> dj_lease_expires_at j = Some x \<longrightarrow>
        (\<exists>j'. get_job (run_events es jobs) i = Some j' \<and> dj_status j' = RUNNING \<and> dj_lease_owner j' = Some w
           \<and> dj_lease_expires_at j' = Some x))
    \<and> (\<forall>i r. get_row rows i = Some r \<and> jr_status r = RUNNING \<and> jr_lease_owner r = Some w \<and> jr_lease_expires_at r = Some x \<longrightarrow>
        (\<exists>r'. get_row (run_rows fs rows) i = Some r' \<and> jr_status r' = RUNNING \<and> jr_lease_owner r' = Some w
           \<and> jr_lease_expires_at r' = Some x))"
proof (intro conjI allI impI)
  fix i j
  assume j: "get_job jobs i = Some j \<and> dj_status j = RUNNING \<and> dj_lease_owner j = Some w \<and> dj_lease_expires_at j = Some x"
  show "\<exists>j'. get_job (run_events es jobs) i = Some j' \<and> dj_status j' = RUNNING \<and> dj_lease_owner j' = Some w
           \<and> dj_lease_expires_at j' = Some x"
    using lease_kept_mem [OF assms(1,3)] j by blast
next
  fix i r
  assume r: "get_row rows i = Some r \<and> jr_status r = RUNNING \<and> jr_lease_owner r = Some w \<and> jr_lease_expires_at r = Some x"
  show "\<exists>r'. get_row (run_rows fs rows) i = Some r' \<and> jr_status r' = RUNNING \<and> jr_lease_owner r' = Some w
           \<and> jr_lease_expires_at r' = Some x"
    using lease_kept_sql [OF assms(2,4)] r by blast
qed

theorem job_lease_exclusive_witness:
  "\<exists>j'. get_job (run_events [Reclaim 5000000, Claim ''w2'' 3 60 6000000, Fail 1 ''w2'' ''boom'' 7000000]
            (run_events sample_events [])) 1 = Some j' \<and> dj_lease_owner j' = Some ''w1''"
proof -
  let ?jobs = "run_events sample_events []"
    and ?es = "[Reclaim 5000000, Claim ''w2'' 3 60 6000000, Fail 1 ''w2'' ''boom'' 7000000]"
  have ok: "events_ok ?es ?jobs" "rows_ok [] []" by code_simp+
  have w: "strip ''w2'' = ''w2''" by code_simp
  have h: "\<forall>e \<in> set ?es. event_clock e < 60000000 \<and> event_actor e \<noteq> Some ''w1''"
    "\<forall>f \<in> set []. row_clock f < 60000000 \<and> row_actor f \<noteq> Some ''w1''" by (simp_all add: w)
  have "map_option (\<lambda>j. (dj_status j, dj_lease_owner j, dj_lease_expires_at j)) (get_job ?jobs 1)
      = Some (RUNNING, Some ''w1'', Some 60000000)" by code_simp
  then show ?thesis using job_lease_exclusive [OF ok h] by auto
qed

text \<open>A claim in the database: the oldest waiting row is always among the chosen.\<close>

lemma chosen_oldest:
  assumes "r \<in> set (swept_rows clock rows)" "row_claimable r" "jr_id r \<notin> locked" "1 \<le> limit"
  shows "\<exists>c \<in> set (chosen_rows locked limit clock rows). jr_created_at c \<le> jr_created_at r"
proof -
  let ?all = "filter (\<lambda>r. jr_id r \<notin> locked) (sort_key jr_created_at (filter row_claimable (swept_rows clock rows)))"
  have r: "r \<in> set ?all" using assms by simp
  have "sorted (map jr_created_at ?all)" by (simp add: sorted_filter)
  moreover obtain c cs where c: "?all = c # cs" using r by (cases ?all) auto
  ultimately have le: "jr_created_at c \<le> jr_created_at r" using r by (auto simp: c)
  obtain m where m: "nat (max (limit * 8) limit) = Suc m" using assms(4) by (cases "nat (max (limit * 8) limit)") auto
  have "claim_candidates locked limit (swept_rows clock rows) = c # take m cs"
    by (simp add: claim_candidates_def c m)
  then have "hd (fair_order row_tenant (claim_candidates locked limit (swept_rows clock rows))) = c"
    and ne: "fair_order row_tenant (claim_candidates locked limit (swept_rows clock rows)) \<noteq> []"
    using hd_fair_order [of "claim_candidates locked limit (swept_rows clock rows)" row_tenant]
    by (auto simp: set_empty [symmetric] simp del: set_empty)
  moreover obtain k where "nat limit = Suc k" using assms(4) by (cases "nat limit") auto
  ultimately have "c \<in> set (chosen_rows locked limit clock rows)"
    by (cases "fair_order row_tenant (claim_candidates locked limit (swept_rows clock rows))") (auto simp: chosen_rows_def)
  with le show ?thesis by blast
qed

lemma swept_keeps_claimable: "r \<in> set rows \<Longrightarrow> row_claimable r \<Longrightarrow> r \<in> set (swept_rows clock rows)"
  by (force simp: swept_rows_def reclaim_expired_leases_def row_claimable_def reclaim_row_def row_lapsed_def sweep_row_def)

lemma claim_row_not_stuck:
  "\<not> (jr_status (claim_row locked w limit n clock rows r) = PENDING \<and> jr_job_type (claim_row locked w limit n clock rows r) = INVESTIGATION
      \<and> jr_cancel_requested_at (claim_row locked w limit n clock rows r) \<noteq> None)"
  by (auto simp: claim_row_def Let_def lease_row_def) (auto simp: sweep_row_def split: if_splits)



text \<open>Claims are fair between tenants. In both stores a claim gives a tenant a second job only when
  every tenant with a waiting job (for the database: among the candidates it fetched) received one
  in the same claim.\<close>

theorem claims_are_fair:
  assumes "claim w limit n clock jobs = Inr (claimed, jobs')"
    and "claim_jobs locked v batch m now rows = Inr (taken, rows')"
  shows "(distinct (map tenant_key claimed) \<or>
          tenant_key ` set claimed = tenant_key ` {j \<in> set (snd (reclaim_expired clock jobs)). claimable j})
    \<and> (distinct (map tenant_key taken) \<or>
          tenant_key ` set taken = row_tenant ` set (claim_candidates locked batch (swept_rows now rows)))"
proof -
  have k: "tenant_key (lease_job x c t j) = tenant_key j" "tenant_key (to_record (lease_row x c t r)) = row_tenant r" for x c t j r
    by (simp_all add: tenant_key_def lease_job_def row_tenant_def to_record_def lease_row_def split: option.split)
  let ?c = "take (nat limit) (claim_order (map (reclaim_job clock) jobs))"
  have "map tenant_key claimed = map tenant_key ?c" using claim_result [OF assms(1)] by (simp add: k)
  moreover from this have "tenant_key ` set claimed = tenant_key ` set ?c" by (metis image_set)
  moreover have "distinct (map tenant_key ?c) \<or>
      tenant_key ` set ?c = tenant_key ` {j \<in> set (map (reclaim_job clock) jobs). claimable j}"
    using fair_order_take [of tenant_key "nat limit" "sort_key (\<lambda>j. (tenant_key j, dj_created_at j))
        (filter claimable (map (reclaim_job clock) jobs))"]
    unfolding claim_order_def set_sort set_filter by blast
  moreover have "map tenant_key taken = map row_tenant (chosen_rows locked batch now rows)"
    using claim_jobs_result [OF assms(2)] by (simp add: k)
  moreover from this have "tenant_key ` set taken = row_tenant ` set (chosen_rows locked batch now rows)" by (metis image_set)
  moreover have "distinct (map row_tenant (chosen_rows locked batch now rows)) \<or>
      row_tenant ` set (chosen_rows locked batch now rows) = row_tenant ` set (claim_candidates locked batch (swept_rows now rows))"
    using fair_order_take [of row_tenant "nat batch"] unfolding chosen_rows_def by blast
  ultimately show ?thesis by (simp add: reclaim_expired_def)
qed

theorem claims_are_fair_witness:
  "\<exists>claimed jobs'. claim ''w1'' 1 60 0 (job_step (Enqueue 1 0 sample_request) []) = Inr (claimed, jobs')
     \<and> (distinct (map tenant_key claimed) \<or> tenant_key ` set claimed
          = tenant_key ` {j \<in> set (snd (reclaim_expired 0 (job_step (Enqueue 1 0 sample_request) []))). claimable j})"
proof -
  let ?jobs = "job_step (Enqueue 1 0 sample_request) []"
  have "is_ok (claim ''w1'' 1 60 0 ?jobs)" "is_ok (claim_jobs {} ''w1'' 1 60 0 [])" by code_simp+
  then obtain claimed jobs' taken rows' where c: "claim ''w1'' 1 60 0 ?jobs = Inr (claimed, jobs')"
    "claim_jobs {} ''w1'' 1 60 0 [] = Inr (taken, rows')" by (auto simp: is_ok_iff)
  from claims_are_fair [OF c] c(1) show ?thesis by blast
qed

text \<open>The in-memory store lacks the sweep of the database store. A job whose cancellation was requested while
  it ran and whose lease then expired waits with the request set: it is never claimed again, and
  nothing but another request for cancellation ends it.\<close>

lemma stranded_step:
  assumes "event_ok e jobs" "get_job jobs i = Some j" "dj_status j = PENDING" "dj_cancel_requested_at j \<noteq> None"
    and "\<forall>now. e \<noteq> Request_cancel i now"
  shows "\<exists>j'. get_job (job_step e jobs) i = Some j' \<and> dj_status j' = PENDING \<and> dj_cancel_requested_at j' \<noteq> None"
proof -
  have keep: "reclaim_job c j = j" for c using assms(3) by (simp add: reclaim_job_def lease_lapsed_def)
  have nc: "\<not> claimable j" using assms(4) by (simp add: claimable_def)
  show ?thesis
  proof (cases e)
    case (Enqueue new_id now r)
    then show ?thesis using assms enqueue_result [of new_id now r jobs] get_job_put
      by (auto simp: after_def split: sum.splits)
  next
    case (Reclaim now)
    then show ?thesis using assms keep by (simp add: reclaim_expired_def get_job_map)
  next
    case (Claim w' limit n now)
    then show ?thesis using assms keep nc by (auto simp: after_def split: sum.splits elim!: claim_life)
  qed (use assms in \<open>auto simp: after_def get_job_update split: sum.splits
        elim!: heartbeat_life complete_life fail_life request_cancel_life\<close>)
qed

lemma cancelled_job_stranded_in_memory:
  assumes "events_ok es jobs" "get_job jobs i = Some j" "dj_status j = PENDING" "dj_cancel_requested_at j \<noteq> None"
    and "\<forall>now. Request_cancel i now \<notin> set es"
  shows "\<exists>j'. get_job (run_events es jobs) i = Some j' \<and> dj_status j' = PENDING"
  using assms
proof (induction es arbitrary: jobs j)
  case (Cons e es)
  then obtain j1 where "get_job (job_step e jobs) i = Some j1" "dj_status j1 = PENDING" "dj_cancel_requested_at j1 \<noteq> None"
    using stranded_step [of e jobs i j] by auto
  with Cons show ?case by auto
qed auto

lemma cancelled_job_stranded_example:
  "map_option (\<lambda>j. (dj_status j, dj_cancel_requested_at j \<noteq> None))
     (get_job (run_events (sample_events @ [Request_cancel 1 5, Reclaim 60000000]) []) 1) = Some (PENDING, True)"
  by code_simp

end
