(* ===== verification/Admission.thy ===== *)
theory Admission
  imports Py_Json
begin

text \<open>
  Admission of investigations (\<open>src/src/sre_agent/concurrency.py\<close>): the in-process slot allocator
  \<open>InvestigationLimiter\<close> and the lease-backed \<open>LeaseAdmissionController\<close> with optional quotas per
  organization. A dictionary of leases is an association list in insertion order; clocks are
  arguments. The waiting loop \<open>acquire_or_fail\<close> reads two clocks and shares the controller with
  other tasks, so it runs against a schedule: the readings at each poll and what the others did
  before it. The temporary directories of \<open>create_sandbox\<close> are not modelled.

  Shown here: both allocators keep the contract \<open>slot_allocator\<close>, so capacity is never exceeded;
  quotas hold; an expired lease blocks nobody; and the waiting loop ends, with a lease it holds or
  with an error at the deadline.
\<close>

section \<open>Configuration\<close>

definition default_max_concurrent :: "runtime \<Rightarrow> int" where
  "default_max_concurrent rt =
     (case parse_int (getenv rt ''MAX_CONCURRENT_INVESTIGATIONS'' ''5'') of Some n \<Rightarrow> max 1 n | None \<Rightarrow> 5)"

definition default_max_per_organization :: "runtime \<Rightarrow> int" where
  "default_max_per_organization rt =
     (case parse_int (getenv rt ''MAX_CONCURRENT_INVESTIGATIONS_PER_ORG'' ''0'') of Some n \<Rightarrow> max 1 n | None \<Rightarrow> 0)"

definition default_admission_lease_seconds :: "runtime \<Rightarrow> int" where
  "default_admission_lease_seconds rt =
     (case parse_int (getenv rt ''INVESTIGATION_ADMISSION_LEASE_SECONDS'' ''120'') of Some n \<Rightarrow> max 15 n | None \<Rightarrow> 120)"

text \<open>\<open>max(0.0, float(...))\<close> keeps its first argument when the second is not a number.\<close>

definition default_admission_wait_seconds :: "runtime \<Rightarrow> flt" where
  "default_admission_wait_seconds rt =
     (case float_of_string (getenv rt ''INVESTIGATION_ADMISSION_WAIT_SECONDS'' ''120'') of
        Some x \<Rightarrow> py_max (Fin 0) x | None \<Rightarrow> Fin 120)"

section \<open>The slot allocator\<close>

record limiter =
  il_max :: int
  il_active :: "string set"

datatype admission_error = AtCapacityError

definition new_limiter :: "runtime \<Rightarrow> int option \<Rightarrow> limiter" where
  "new_limiter rt max_concurrent =
     \<lparr>il_max = (case max_concurrent of Some n \<Rightarrow> n | None \<Rightarrow> default_max_concurrent rt), il_active = {}\<rparr>"

definition try_acquire_slot :: "string \<Rightarrow> limiter \<Rightarrow> bool \<times> limiter" where
  "try_acquire_slot incident_id l =
     (if incident_id \<in> il_active l then (True, l)
      else if il_max l \<le> int (card (il_active l)) then (False, l)
      else (True, l\<lparr>il_active := insert incident_id (il_active l)\<rparr>))"

definition release_slot :: "string \<Rightarrow> limiter \<Rightarrow> limiter" where
  "release_slot incident_id l = l\<lparr>il_active := il_active l - {incident_id}\<rparr>"

record limiter_stats =
  ls_active :: nat
  ls_capacity :: int
  ls_available :: int

definition slot_stats :: "limiter \<Rightarrow> limiter_stats" where
  "slot_stats l = \<lparr>ls_active = card (il_active l), ls_capacity = il_max l,
     ls_available = max 0 (il_max l - int (card (il_active l)))\<rparr>"

text \<open>\<open>with limiter.slot(incident_id)\<close> around a body: refused at capacity, otherwise the slot is released
  after the body, whether the body raised or not.\<close>

definition with_slot :: "string \<Rightarrow> (limiter \<Rightarrow> 'a \<times> limiter) \<Rightarrow> limiter \<Rightarrow> (admission_error, 'a) res \<times> limiter" where
  "with_slot incident_id body l =
     (case try_acquire_slot incident_id l of
        (False, l1) \<Rightarrow> (Inl AtCapacityError, l1)
      | (True, l1) \<Rightarrow> (case body l1 of (r, l2) \<Rightarrow> (Inr r, release_slot incident_id l2)))"

section \<open>The lease controller\<close>

record admission_lease =
  al_incident_id :: string
  al_organization_id :: string
  al_owner :: string
  al_acquired_at :: int
  al_expires_at :: int

record controller =
  lc_max :: int
  lc_max_per_organization :: "int option"
  lc_lease_seconds :: int
  lc_leases :: "(string \<times> admission_lease) list"

definition new_controller :: "runtime \<Rightarrow> int option \<Rightarrow> int option \<Rightarrow> int option \<Rightarrow> controller" where
  "new_controller rt max_concurrent max_per_organization lease_seconds =
     (let per_org = (case max_per_organization of Some n \<Rightarrow> n | None \<Rightarrow> default_max_per_organization rt)
      in \<lparr>lc_max = (case max_concurrent of Some n \<Rightarrow> n | None \<Rightarrow> default_max_concurrent rt),
          lc_max_per_organization = (if 0 < per_org then Some per_org else None),
          lc_lease_seconds = (case lease_seconds of Some n \<Rightarrow> n | None \<Rightarrow> default_admission_lease_seconds rt),
          lc_leases = []\<rparr>)"

definition expired_lease :: "int \<Rightarrow> string \<times> admission_lease \<Rightarrow> bool" where
  "expired_lease clock e = (al_expires_at (snd e) \<le> clock)"

definition admission_reclaim :: "int \<Rightarrow> controller \<Rightarrow> nat \<times> controller" where
  "admission_reclaim clock c =
     (length (filter (expired_lease clock) (lc_leases c)),
      c\<lparr>lc_leases := filter (\<lambda>e. \<not> expired_lease clock e) (lc_leases c)\<rparr>)"

definition org_count :: "string \<Rightarrow> controller \<Rightarrow> nat" where
  "org_count org c = length (filter (\<lambda>e. al_organization_id (snd e) = org) (lc_leases c))"

definition try_acquire :: "string \<Rightarrow> string \<Rightarrow> string \<Rightarrow> int \<Rightarrow> controller \<Rightarrow> admission_lease option \<times> controller" where
  "try_acquire incident_id org owner clock c0 =
     (let c = snd (admission_reclaim clock c0); expires = clock + seconds (lc_lease_seconds c) in
      case map_of (lc_leases c) incident_id of
        Some existing \<Rightarrow>
          (let l = existing\<lparr>al_expires_at := expires, al_owner := owner\<rparr>
           in (Some l, c\<lparr>lc_leases := py_dict_set (lc_leases c) incident_id l\<rparr>))
      | None \<Rightarrow>
          (if lc_max c \<le> int (length (lc_leases c)) then (None, c)
           else if (case lc_max_per_organization c of None \<Rightarrow> False | Some q \<Rightarrow> q \<le> int (org_count org c)) then (None, c)
           else let l = \<lparr>al_incident_id = incident_id, al_organization_id = org, al_owner = owner,
                         al_acquired_at = clock, al_expires_at = expires\<rparr>
                in (Some l, c\<lparr>lc_leases := py_dict_set (lc_leases c) incident_id l\<rparr>)))"

definition admission_heartbeat :: "string \<Rightarrow> string \<Rightarrow> int \<Rightarrow> controller \<Rightarrow> (admission_error, admission_lease) res \<times> controller" where
  "admission_heartbeat incident_id owner clock c0 =
     (let c = snd (admission_reclaim clock c0) in
      case map_of (lc_leases c) incident_id of
        None \<Rightarrow> (Inl AtCapacityError, c)
      | Some lease \<Rightarrow>
          (if al_owner lease \<noteq> owner then (Inl AtCapacityError, c)
           else let l = lease\<lparr>al_expires_at := clock + seconds (lc_lease_seconds c)\<rparr>
                in (Inr l, c\<lparr>lc_leases := py_dict_set (lc_leases c) incident_id l\<rparr>)))"

definition admission_release :: "string \<Rightarrow> string option \<Rightarrow> controller \<Rightarrow> (admission_error, unit) res \<times> controller" where
  "admission_release incident_id owner c =
     (case map_of (lc_leases c) incident_id of
        None \<Rightarrow> (Inr (), c)
      | Some lease \<Rightarrow>
          (if owner \<noteq> None \<and> owner \<noteq> Some (al_owner lease) then (Inl AtCapacityError, c)
           else (Inr (), c\<lparr>lc_leases := py_dict_del (lc_leases c) incident_id\<rparr>)))"

definition admission_owner :: "string \<Rightarrow> int \<Rightarrow> controller \<Rightarrow> string option \<times> controller" where
  "admission_owner incident_id clock c0 =
     (let c = snd (admission_reclaim clock c0) in (map_option al_owner (map_of (lc_leases c) incident_id), c))"

record admission_stats_record =
  as_active :: nat
  as_capacity :: int
  as_available :: int
  as_per_organization_capacity :: "int option"
  as_organization_active :: "nat option"
  as_lease_seconds :: int

definition admission_stats :: "string option \<Rightarrow> int \<Rightarrow> controller \<Rightarrow> admission_stats_record \<times> controller" where
  "admission_stats organization_id clock c0 =
     (let c = snd (admission_reclaim clock c0); active = length (lc_leases c)
      in (\<lparr>as_active = active, as_capacity = lc_max c, as_available = max 0 (lc_max c - int active),
           as_per_organization_capacity = lc_max_per_organization c,
           as_organization_active = map_option (\<lambda>org. org_count org c) organization_id,
           as_lease_seconds = lc_lease_seconds c\<rparr>, c))"

section \<open>Waiting for a slot\<close>

text \<open>The schedule of a wait: the monotonic reading after the poll, the wall clock at the poll, and what
  other tasks did to the controller before it, for each poll.\<close>

record schedule =
  sc_start :: rat
  sc_monotonic :: "nat \<Rightarrow> rat"
  sc_wall :: "nat \<Rightarrow> int"
  sc_others :: "nat \<Rightarrow> controller \<Rightarrow> controller"

text \<open>The loop from poll \<open>k\<close> on; running out of fuel is none.\<close>

fun acquire_loop :: "nat \<Rightarrow> nat \<Rightarrow> schedule \<Rightarrow> rat \<Rightarrow> string \<Rightarrow> string \<Rightarrow> string \<Rightarrow> controller
    \<Rightarrow> ((admission_error, admission_lease) res \<times> controller) option" where
  "acquire_loop 0 k sc deadline incident_id org owner c = None"
| "acquire_loop (Suc fuel) k sc deadline incident_id org owner c =
     (case try_acquire incident_id org owner (sc_wall sc k) (sc_others sc k c) of
        (Some lease, c1) \<Rightarrow> Some (Inr lease, c1)
      | (None, c1) \<Rightarrow>
          (if deadline - sc_monotonic sc k \<le> 0
           then Some (Inl AtCapacityError, snd (admission_stats (Some org) (sc_wall sc k) c1))
           else acquire_loop fuel (Suc k) sc deadline incident_id org owner c1))"

definition acquire_budget :: "runtime \<Rightarrow> rat option \<Rightarrow> flt" where
  "acquire_budget rt wait_seconds =
     (case wait_seconds of None \<Rightarrow> default_admission_wait_seconds rt | Some w \<Rightarrow> py_max (Fin 0) (Fin w))"

definition acquire_or_fail :: "nat \<Rightarrow> schedule \<Rightarrow> rat \<Rightarrow> string \<Rightarrow> string \<Rightarrow> string \<Rightarrow> controller
    \<Rightarrow> ((admission_error, admission_lease) res \<times> controller) option" where
  "acquire_or_fail fuel sc budget incident_id org owner c =
     acquire_loop fuel 0 sc (sc_start sc + budget) incident_id org owner c"

text \<open>Sleeping for \<open>min(poll_seconds, remaining)\<close> advances the monotonic clock by at least that much.\<close>

definition clock_advances :: "schedule \<Rightarrow> rat \<Rightarrow> rat \<Rightarrow> bool" where
  "clock_advances sc deadline poll = (\<forall>k. sc_monotonic sc k < deadline \<longrightarrow>
     sc_monotonic sc k + min poll (deadline - sc_monotonic sc k) \<le> sc_monotonic sc (Suc k))"

section \<open>The contract of an allocator\<close>

text \<open>\<open>holders\<close> are the incidents that hold a slot, \<open>capacity\<close> is the configured bound.\<close>

locale slot_allocator =
  fixes step :: "'e \<Rightarrow> 's \<Rightarrow> 's"
    and holders :: "'s \<Rightarrow> string set"
    and capacity :: "'s \<Rightarrow> int"
    and inv :: "'s \<Rightarrow> bool"
  assumes step_inv: "inv s \<Longrightarrow> inv (step e s)"
    and step_capacity: "capacity (step e s) = capacity s"
    and step_holders: "inv s \<Longrightarrow> int (card (holders (step e s))) \<le> max (capacity s) (int (card (holders s)))"
begin

fun run :: "'e list \<Rightarrow> 's \<Rightarrow> 's" where
  "run [] s = s"
| "run (e # es) s = run es (step e s)"

lemma run_within_capacity:
  "inv s \<Longrightarrow> int (card (holders s)) \<le> capacity s \<Longrightarrow>
     inv (run es s) \<and> capacity (run es s) = capacity s \<and> int (card (holders (run es s))) \<le> capacity s"
proof (induction es arbitrary: s)
  case (Cons e es)
  have "int (card (holders (step e s))) \<le> capacity (step e s)"
    using step_holders [OF Cons.prems(1), of e] Cons.prems(2) by (simp add: step_capacity)
  from Cons.IH [OF step_inv [OF Cons.prems(1)] this] show ?case by (simp add: step_capacity)
qed simp

end

section \<open>Operations as events\<close>

datatype slot_event = Slot_acquire string | Slot_release string

fun slot_step :: "slot_event \<Rightarrow> limiter \<Rightarrow> limiter" where
  "slot_step (Slot_acquire i) l = snd (try_acquire_slot i l)"
| "slot_step (Slot_release i) l = release_slot i l"

datatype admission_event =
    Adm_reclaim int
  | Adm_acquire string string string int
  | Adm_heartbeat string string int
  | Adm_release string "string option"

fun admission_step :: "admission_event \<Rightarrow> controller \<Rightarrow> controller" where
  "admission_step (Adm_reclaim now) c = snd (admission_reclaim now c)"
| "admission_step (Adm_acquire i org owner now) c = snd (try_acquire i org owner now c)"
| "admission_step (Adm_heartbeat i owner now) c = snd (admission_heartbeat i owner now c)"
| "admission_step (Adm_release i owner) c = snd (admission_release i owner c)"

fun run_slots :: "slot_event list \<Rightarrow> limiter \<Rightarrow> limiter" where
  "run_slots [] l = l"
| "run_slots (e # es) l = run_slots es (slot_step e l)"

fun run_admission :: "admission_event list \<Rightarrow> controller \<Rightarrow> controller" where
  "run_admission [] c = c"
| "run_admission (e # es) c = run_admission es (admission_step e c)"

definition lease_holders :: "controller \<Rightarrow> string set" where
  "lease_holders c = set (map fst (lc_leases c))"

definition admission_inv :: "controller \<Rightarrow> bool" where
  "admission_inv c = (distinct (map fst (lc_leases c)) \<and>
     (\<forall>q. lc_max_per_organization c = Some q \<longrightarrow> (\<forall>org. int (org_count org c) \<le> max 0 q)))"

section \<open>Lemmas\<close>

lemma dict_set_new: "map_of d k = None \<Longrightarrow> py_dict_set d k v = d @ [(k, v)]"
  by (induction d k v rule: py_dict_set.induct) (auto split: if_splits)

lemma dict_set_same_filter:
  "map_of d k = Some old \<Longrightarrow> P (k, old) = P (k, v) \<Longrightarrow> length (filter P (py_dict_set d k v)) = length (filter P d)"
  by (induction d k v rule: py_dict_set.induct) (auto split: if_splits)

lemma dict_set_length: "length (py_dict_set d k v) = length d + (if map_of d k = None then 1 else 0)"
  by (induction d k v rule: py_dict_set.induct) auto

lemma card_holders: "admission_inv c \<Longrightarrow> card (lease_holders c) = length (lc_leases c)"
  using distinct_card [of "map fst (lc_leases c)"] by (simp add: admission_inv_def lease_holders_def)

lemma shrink_inv:
  assumes "admission_inv c" "distinct (map fst ls)" "\<And>org. length (filter (\<lambda>e. al_organization_id (snd e) = org) ls) \<le> org_count org c"
  shows "admission_inv (c\<lparr>lc_leases := ls\<rparr>)"
  unfolding admission_inv_def
proof (intro conjI allI impI)
  show "distinct (map fst (lc_leases (c\<lparr>lc_leases := ls\<rparr>)))" using assms(2) by simp
  fix q org assume "lc_max_per_organization (c\<lparr>lc_leases := ls\<rparr>) = Some q"
  then have "int (org_count org c) \<le> max 0 q" using assms(1) by (simp add: admission_inv_def)
  then show "int (org_count org (c\<lparr>lc_leases := ls\<rparr>)) \<le> max 0 q" using assms(3) [of org] by (simp add: org_count_def)
qed

lemma filter_inv:
  assumes "admission_inv c"
  shows "admission_inv (c\<lparr>lc_leases := filter P (lc_leases c)\<rparr>)"
proof (rule shrink_inv [OF assms])
  show "distinct (map fst (filter P (lc_leases c)))" using assms by (simp add: admission_inv_def distinct_map_filter)
  show "length (filter (\<lambda>e. al_organization_id (snd e) = org) (filter P (lc_leases c))) \<le> org_count org c" for org
    unfolding org_count_def filter_filter by (rule sum_list_filter_le) simp
qed

lemma update_inv:
  assumes "admission_inv c" "map_of (lc_leases c) i = Some old" "al_organization_id l = al_organization_id old"
  shows "admission_inv (c\<lparr>lc_leases := py_dict_set (lc_leases c) i l\<rparr>)"
proof (rule shrink_inv [OF assms(1)])
  show "distinct (map fst (py_dict_set (lc_leases c) i l))" using assms(1) by (simp add: admission_inv_def distinct_py_dict_set)
  show "length (filter (\<lambda>e. al_organization_id (snd e) = org) (py_dict_set (lc_leases c) i l)) \<le> org_count org c" for org
    using dict_set_same_filter [OF assms(2)] assms(3) by (simp add: org_count_def)
qed

lemma reclaim_facts:
  assumes "admission_inv c0" "c = snd (admission_reclaim clock c0)"
  shows "admission_inv c" "lc_max c = lc_max c0" "length (lc_leases c) \<le> length (lc_leases c0)"
    "lc_max_per_organization c = lc_max_per_organization c0" "lc_lease_seconds c = lc_lease_seconds c0"
  using assms filter_inv [OF assms(1)] by (simp_all add: admission_reclaim_def)

lemma try_acquire_inv:
  assumes "admission_inv c0"
  shows "admission_inv (snd (try_acquire i org owner clock c0))"
proof -
  let ?c = "snd (admission_reclaim clock c0)"
  have inv: "admission_inv ?c" by (rule reclaim_facts [OF assms refl])
  have new: "admission_inv (?c\<lparr>lc_leases := py_dict_set (lc_leases ?c) i l\<rparr>)"
    if "map_of (lc_leases ?c) i = None" "\<not> (case lc_max_per_organization ?c of None \<Rightarrow> False | Some q \<Rightarrow> q \<le> int (org_count org ?c))"
      "al_organization_id l = org" for l
  proof -
    have "i \<notin> set (map fst (lc_leases ?c))" using that(1) by (simp add: map_of_eq_None_iff)
    then show ?thesis
      using inv that by (auto simp: admission_inv_def dict_set_new org_count_def)
  qed
  show ?thesis
    using inv update_inv [OF inv] new
    by (auto simp: try_acquire_def Let_def split: option.split if_splits)
qed

lemma try_acquire_length:
  "int (length (lc_leases (snd (try_acquire i org owner clock c0)))) \<le> max (lc_max c0) (int (length (lc_leases c0)))"
proof -
  let ?n = "int (length (filter (\<lambda>e. \<not> expired_lease clock e) (lc_leases c0)))"
  have "?n \<le> max (lc_max c0) (int (length (lc_leases c0)))" by (simp add: max.coboundedI2)
  then show ?thesis
    by (auto simp: try_acquire_def Let_def admission_reclaim_def dict_set_length split: option.split)
qed

lemma try_acquire_config:
  "lc_max (snd (try_acquire i org owner clock c)) = lc_max c"
  "lc_max_per_organization (snd (try_acquire i org owner clock c)) = lc_max_per_organization c"
  "lc_lease_seconds (snd (try_acquire i org owner clock c)) = lc_lease_seconds c"
  by (simp_all add: try_acquire_def Let_def admission_reclaim_def split: option.split)

lemma heartbeat_inv:
  assumes "admission_inv c0"
  shows "admission_inv (snd (admission_heartbeat i owner clock c0))"
    "length (lc_leases (snd (admission_heartbeat i owner clock c0))) \<le> length (lc_leases c0)"
proof -
  have inv: "admission_inv (snd (admission_reclaim clock c0))" by (rule reclaim_facts [OF assms refl])
  show "admission_inv (snd (admission_heartbeat i owner clock c0))"
    using inv update_inv [OF inv] by (auto simp: admission_heartbeat_def Let_def split: option.split)
  show "length (lc_leases (snd (admission_heartbeat i owner clock c0))) \<le> length (lc_leases c0)"
    using reclaim_facts(3) [OF assms refl, of clock]
    by (auto simp: admission_heartbeat_def Let_def dict_set_length split: option.split)
qed

lemma release_inv:
  assumes "admission_inv c"
  shows "admission_inv (snd (admission_release i owner c))"
    "length (lc_leases (snd (admission_release i owner c))) \<le> length (lc_leases c)"
  using assms filter_inv [OF assms, of "\<lambda>e. fst e \<noteq> i"]
  by (auto simp: admission_release_def py_dict_del_def split: option.split)

interpretation limiter_slots: slot_allocator slot_step il_active il_max "\<lambda>l::limiter. finite (il_active l)"
proof
  fix e and s :: limiter
  assume fin: "finite (il_active s)"
  show "finite (il_active (slot_step e s))" using fin by (cases e) (auto simp: try_acquire_slot_def release_slot_def)
  show "int (card (il_active (slot_step e s))) \<le> max (il_max s) (int (card (il_active s)))"
  proof (cases e)
    case (Slot_acquire i)
    then show ?thesis using fin by (auto simp: try_acquire_slot_def)
  next
    case (Slot_release i)
    then show ?thesis using card_Diff1_le [of "il_active s" i] by (simp add: release_slot_def max.coboundedI2)
  qed
next
  show "il_max (slot_step e s) = il_max s" for e s
    by (cases e) (auto simp: try_acquire_slot_def release_slot_def)
qed

interpretation lease_slots: slot_allocator admission_step lease_holders lc_max admission_inv
proof
  fix e s
  assume inv: "admission_inv s"
  show inv': "admission_inv (admission_step e s)"
    using inv reclaim_facts(1) [OF inv refl] try_acquire_inv heartbeat_inv(1) release_inv(1) by (cases e) auto
  have "int (length (lc_leases (admission_step e s))) \<le> max (lc_max s) (int (length (lc_leases s)))"
    using reclaim_facts(3) [OF inv refl] heartbeat_inv(2) [OF inv] release_inv(2) [OF inv] try_acquire_length
    by (cases e) (auto simp: le_max_iff_disj)
  then show "int (card (lease_holders (admission_step e s))) \<le> max (lc_max s) (int (card (lease_holders s)))"
    by (simp add: card_holders inv inv')
next
  show "lc_max (admission_step e s) = lc_max s" for e s
    by (cases e) (auto simp: admission_reclaim_def try_acquire_config admission_heartbeat_def admission_release_def
        Let_def split: option.split)
qed

lemma run_slots_eq: "run_slots es l = limiter_slots.run es l"
  by (induction es arbitrary: l) auto

lemma run_admission_eq: "run_admission es c = lease_slots.run es c"
  by (induction es arbitrary: c) auto

lemma admission_step_quota: "lc_max_per_organization (admission_step e c) = lc_max_per_organization c"
  by (cases e) (auto simp: admission_reclaim_def try_acquire_config admission_heartbeat_def admission_release_def
      Let_def split: option.split)

lemma run_admission_quota: "lc_max_per_organization (run_admission es c) = lc_max_per_organization c"
  by (induction es arbitrary: c) (auto simp: admission_step_quota)

lemma new_controller_facts:
  "admission_inv (new_controller rt m q n)" "lc_leases (new_controller rt m q n) = []"
  "lc_max_per_organization (new_controller rt m q n) = Some p \<Longrightarrow> 0 < p"
  by (auto simp: new_controller_def admission_inv_def org_count_def Let_def split: if_splits)

lemma try_acquire_lease:
  "try_acquire i org owner clock c = (Some l, c') \<Longrightarrow> map_of (lc_leases c') i = Some l \<and> al_owner l = owner
     \<and> al_expires_at l = clock + seconds (lc_lease_seconds c)"
  by (auto simp: try_acquire_def Let_def admission_reclaim_def map_of_py_dict_set split: option.splits if_splits)

text \<open>One more unit of fuel than the polls that fit into the remaining time is enough.\<close>

lemma acquire_loop_returns:
  assumes "0 < poll" "clock_advances sc deadline poll" "deadline - sc_monotonic sc k \<le> of_nat n * poll"
  shows "\<exists>r c'. acquire_loop (Suc n) k sc deadline i org owner c = Some (r, c')
    \<and> (case r of Inr l \<Rightarrow> map_of (lc_leases c') i = Some l \<and> al_owner l = owner
        | Inl _ \<Rightarrow> \<exists>m. deadline \<le> sc_monotonic sc m)"
  using assms(3)
proof (induction n arbitrary: k c)
  case 0
  then show ?case by (auto split: option.split prod.split dest: try_acquire_lease)
next
  case (Suc n)
  let ?rem = "deadline - sc_monotonic sc k"
  show ?case
  proof (cases "?rem \<le> 0")
    case True
    then show ?thesis by (auto split: option.split prod.split dest: try_acquire_lease)
  next
    case False
    then have "sc_monotonic sc k + min poll ?rem \<le> sc_monotonic sc (Suc k)"
      using assms(2) by (simp add: clock_advances_def)
    moreover have "?rem \<le> of_nat n * poll + poll" using Suc.prems by (simp add: algebra_simps)
    moreover have "0 \<le> of_nat n * poll" using assms(1) by simp
    ultimately have "deadline - sc_monotonic sc (Suc k) \<le> of_nat n * poll" by (auto simp: min_def split: if_splits)
    from Suc.IH [OF this] False show ?thesis
      by (subst acquire_loop.simps) (auto split: option.split prod.split dest: try_acquire_lease)
  qed
qed

section \<open>Samples\<close>

definition small_controller :: controller where
  "small_controller = new_controller no_runtime (Some 1) (Some 1) (Some 60)"

definition steady_schedule :: schedule where
  "steady_schedule = \<lparr>sc_start = 0, sc_monotonic = (\<lambda>k. of_nat k / 4), sc_wall = (\<lambda>k. int k * 250000),
     sc_others = (\<lambda>k c. c)\<rparr>"

lemma steady_schedule_advances: "clock_advances steady_schedule 1 (1/4)"
  by (simp add: clock_advances_def steady_schedule_def field_simps)

section \<open>Properties\<close>

text \<open>C30. Capacity is never exceeded. Whatever sequence of operations runs on a new lease controller or a new
  slot allocator, at most the configured number of incidents hold a slot, each at most once, and no
  organization with a quota holds more than its quota.\<close>

theorem admission_within_capacity:
  assumes "0 \<le> lc_max (new_controller rt m q n)" "0 \<le> il_max (new_limiter rt k)"
  shows "int (length (lc_leases (run_admission es (new_controller rt m q n)))) \<le> lc_max (new_controller rt m q n)
    \<and> distinct (map fst (lc_leases (run_admission es (new_controller rt m q n))))
    \<and> (\<forall>p org. lc_max_per_organization (new_controller rt m q n) = Some p \<longrightarrow>
          int (org_count org (run_admission es (new_controller rt m q n))) \<le> p)
    \<and> int (card (il_active (run_slots fs (new_limiter rt k)))) \<le> il_max (new_limiter rt k)"
proof -
  let ?c0 = "new_controller rt m q n" and ?l0 = "new_limiter rt k"
  define c where "c = run_admission es ?c0"
  have "int (card (lease_holders ?c0)) \<le> lc_max ?c0" using assms(1) by (simp add: lease_holders_def new_controller_facts)
  from lease_slots.run_within_capacity [OF new_controller_facts(1) this, of es]
  have inv: "admission_inv c" "int (card (lease_holders c)) \<le> lc_max ?c0" by (simp_all add: run_admission_eq c_def)
  have "int (org_count org c) \<le> p" if "lc_max_per_organization ?c0 = Some p" for p org
    using inv(1) new_controller_facts(3) [OF that] that by (auto simp: admission_inv_def run_admission_quota c_def)
  moreover have "int (card (il_active (run_slots fs ?l0))) \<le> il_max ?l0"
    using limiter_slots.run_within_capacity [of ?l0 fs] assms(2) by (simp add: run_slots_eq new_limiter_def)
  ultimately show ?thesis using inv card_holders [OF inv(1)] by (auto simp: admission_inv_def c_def [symmetric])
qed

theorem admission_within_capacity_witness:
  "int (length (lc_leases (run_admission [Adm_acquire ''i1'' ''o'' ''w'' 0, Adm_acquire ''i2'' ''o'' ''w'' 0]
      (new_controller no_runtime (Some 1) (Some 1) (Some 60))))) \<le> 1"
proof -
  have "0 \<le> lc_max (new_controller no_runtime (Some 1) (Some 1) (Some 60))" "0 \<le> il_max (new_limiter no_runtime (Some 1))"
    by code_simp+
  from admission_within_capacity [OF this, of "[Adm_acquire ''i1'' ''o'' ''w'' 0, Adm_acquire ''i2'' ''o'' ''w'' 0]"]
  show ?thesis by (simp add: new_controller_def)
qed

text \<open>Waiting for a slot ends and fails closed. With a positive poll interval and a clock that advances by
  at least what the loop sleeps, one poll more than fit into the wait budget suffices, whatever
  other tasks do meanwhile; the loop then returns a lease that the controller holds for this
  incident and this owner, or fails, and it fails only once the deadline has passed.\<close>

theorem acquire_or_fail_returns:
  assumes "0 < poll" "clock_advances sc (sc_start sc + budget) poll" "sc_start sc \<le> sc_monotonic sc 0"
    and "budget \<le> of_nat polls * poll"
  shows "\<exists>r c'. acquire_or_fail (Suc polls) sc budget i org owner c = Some (r, c')
    \<and> (case r of Inr l \<Rightarrow> map_of (lc_leases c') i = Some l \<and> al_owner l = owner
        | Inl _ \<Rightarrow> \<exists>m. sc_start sc + budget \<le> sc_monotonic sc m)"
  unfolding acquire_or_fail_def using assms by (intro acquire_loop_returns) auto

theorem acquire_or_fail_returns_witness:
  "\<exists>r c'. acquire_or_fail 5 steady_schedule 1 ''i1'' ''o'' ''w'' small_controller = Some (r, c')
    \<and> (case r of Inr l \<Rightarrow> map_of (lc_leases c') ''i1'' = Some l \<and> al_owner l = ''w''
        | Inl _ \<Rightarrow> \<exists>m. sc_start steady_schedule + 1 \<le> sc_monotonic steady_schedule m)"
proof -
  have h: "(0::rat) < 1/4" "clock_advances steady_schedule (sc_start steady_schedule + 1) (1/4)"
    "sc_start steady_schedule \<le> sc_monotonic steady_schedule 0" "1 \<le> of_nat 4 * (1/4 :: rat)"
    using steady_schedule_advances by (simp_all add: steady_schedule_def)
  from acquire_or_fail_returns [OF h] show ?thesis by simp
qed

text \<open>Crashed owners cannot consume capacity for good. Once every lease has expired, the next request for
  a slot is granted, provided the capacity and the quota are positive, and the lease it gets runs
  for the configured time.\<close>

theorem expired_leases_free_capacity:
  assumes "\<forall>e \<in> set (lc_leases c). al_expires_at (snd e) \<le> clock"
    and "1 \<le> lc_max c" "\<forall>q. lc_max_per_organization c = Some q \<longrightarrow> 1 \<le> q"
  shows "\<exists>l c'. try_acquire i org owner clock c = (Some l, c') \<and> al_owner l = owner
    \<and> al_expires_at l = clock + seconds (lc_lease_seconds c) \<and> lc_leases c' = [(i, l)]"
proof -
  have f: "filter (\<lambda>e. \<not> expired_lease clock e) (lc_leases c) = []"
    using assms(1) by (auto simp: filter_empty_conv expired_lease_def)
  show ?thesis using assms(2,3)
    by (auto simp: try_acquire_def Let_def admission_reclaim_def f org_count_def split: option.split)
qed

theorem expired_leases_free_capacity_witness:
  "\<exists>l c'. try_acquire ''i2'' ''o'' ''w'' 60000000 (run_admission [Adm_acquire ''i1'' ''o'' ''w'' 0] small_controller) = (Some l, c')
     \<and> lc_leases c' = [(''i2'', l)]"
proof -
  let ?c = "run_admission [Adm_acquire ''i1'' ''o'' ''w'' 0] small_controller"
  have "list_all (\<lambda>e. al_expires_at (snd e) \<le> 60000000) (lc_leases ?c)" "1 \<le> lc_max ?c"
    "lc_max_per_organization ?c = Some 1" by code_simp+
  then show ?thesis using expired_leases_free_capacity [of ?c 60000000 "''i2''" "''o''" "''w''"]
    by (auto simp: list_all_iff)
qed

text \<open>The default of the variable for the quota, zero, stands for no quota in the constructor, but the reading
  raises it to one: without configuration every organization is limited to a single investigation.\<close>

lemma default_quota_is_one: "lc_max_per_organization (new_controller no_runtime None None None) = Some 1"
  by code_simp

end
