(* ===== verification/Verification.thy ===== *)
theory Verification
  imports Executor
begin

text \<open>
  Did the remediation work (\<open>src/src/sre_agent/verification.py\<close>). The metric server is a parameter: for the
  polling loop, its answer at each number of seconds waited. Waiting itself is not modelled beyond
  the count. Detail texts are constructors.

  Shown here: a verdict of \<open>RESOLVED\<close> rests on a reading without a firing series taken after the settling
  time, \<open>FAILED\<close> on a firing series at the deadline, and doubt is \<open>UNKNOWN\<close>; an alert that stays
  clear from some time within the budget on is recognized; and a metric verdict follows the comparison
  with the threshold.
\<close>

section \<open>Responses\<close>

definition text_field :: "pyval \<Rightarrow> string option" where
  "text_field v = (case v of PDict d \<Rightarrow> (case py_dict_get d ''text'' PNone of PStr t \<Rightarrow> Some t | _ \<Rightarrow> None) | _ \<Rightarrow> None)"

definition content_block_text :: "mcp_value \<Rightarrow> string option" where
  "content_block_text item =
     (case item of
        MObj t \<Rightarrow> (case t of Some (PStr s) \<Rightarrow> Some s | _ \<Rightarrow> None)
      | MVal v \<Rightarrow> text_field v
      | _ \<Rightarrow> None)"

text \<open>The elements of a response that is a list.\<close>

definition response_list :: "mcp_value \<Rightarrow> mcp_value list option" where
  "response_list r = (case r of MSeq xs \<Rightarrow> Some xs | MVal (PList xs) \<Rightarrow> Some (map MVal xs) | _ \<Rightarrow> None)"

definition series_of :: "mcp_value \<Rightarrow> mcp_value list option" where
  "series_of data =
     (case data of
        MVal (PDict d) \<Rightarrow> (case py_dict_get d ''result'' PNone of PList xs \<Rightarrow> Some (map MVal xs) | _ \<Rightarrow> None)
      | _ \<Rightarrow> response_list data)"

definition parse_prom_result :: "mcp_value \<Rightarrow> mcp_value list option" where
  "parse_prom_result resp =
     (let block = (case content_block_text resp of
                     Some t \<Rightarrow> Some t
                   | None \<Rightarrow> (case response_list resp of Some (x # xs) \<Rightarrow> content_block_text x | _ \<Rightarrow> None));
          data = (case block of Some t \<Rightarrow> MVal (PStr t) | None \<Rightarrow> resp)
      in case data of
           MVal (PStr s) \<Rightarrow>
             (let stripped = strip s
              in if lower (take 5 stripped) = ''error'' then None
                 else (case json_loads stripped of None \<Rightarrow> None | Some v \<Rightarrow> series_of (MVal v)))
         | _ \<Rightarrow> series_of data)"

text \<open>\<open>float(v)\<close> with \<open>ValueError\<close> and \<open>TypeError\<close> caught.\<close>

definition float_or_none :: "pyval \<Rightarrow> (py_error, flt option) res" where
  "float_or_none v =
     (case py_float v of
        Inr x \<Rightarrow> Inr (Some x)
      | Inl OverflowError \<Rightarrow> Inl OverflowError
      | Inl _ \<Rightarrow> Inr None)"

text \<open>The value of the first series; \<open>None\<close> in the left column means that the loop falls through.\<close>

definition series_value :: "pydict \<Rightarrow> (py_error, flt option) res option" where
  "series_value first =
     (case py_dict_get first ''value'' PNone of
        PList (t # v # vs) \<Rightarrow> Some (float_or_none v)
      | _ \<Rightarrow>
          (let values = py_dict_get first ''values'' PNone
           in if \<not> truthy values then None
              else case values of
                PList xs \<Rightarrow> (case last xs of PList (t # v # vs) \<Rightarrow> Some (float_or_none v) | _ \<Rightarrow> None)
              | PStr _ \<Rightarrow> None
              | PDict _ \<Rightarrow> Some (Inl KeyError)
              | _ \<Rightarrow> Some (Inl TypeError)))"

definition scalar_response :: "mcp_value \<Rightarrow> (py_error, flt option) res" where
  "scalar_response resp =
     (case resp of
        MVal (PInt i) \<Rightarrow> rbind (num_float (PInt i)) (\<lambda>x. Inr (Some x))
      | MVal (PFloat x) \<Rightarrow> Inr (Some x)
      | _ \<Rightarrow> Inr None)"

definition parse_prom_value :: "mcp_value \<Rightarrow> (py_error, flt option) res" where
  "parse_prom_value resp =
     (case parse_prom_result resp of
        Some (MVal (PDict first) # rest) \<Rightarrow>
          (case series_value first of Some r \<Rightarrow> r | None \<Rightarrow> scalar_response resp)
      | _ \<Rightarrow> scalar_response resp)"

section \<open>Verdicts\<close>

datatype verdict = V_RESOLVED | V_FAILED | V_UNKNOWN

datatype verification_detail =
    NoCurrentValue | NoThreshold | BelowThreshold | AtOrAboveThreshold | MetricQueryFailed string
  | AlertQueryFailed string | AlertUnreadable | AlertCleared int | ClearInsideFloor int | StillFiring int

record verification_outcome =
  vo_status :: verdict
  vo_original_value :: "flt option"
  vo_current_value :: "flt option"
  vo_threshold :: "flt option"
  vo_improvement_pct :: flt
  vo_detail :: verification_detail

fun flt_sub :: "flt \<Rightarrow> flt \<Rightarrow> flt" where
  "flt_sub (Fin a) (Fin b) = Fin (a - b)"
| "flt_sub NaN _ = NaN"
| "flt_sub _ NaN = NaN"
| "flt_sub PosInf PosInf = NaN"
| "flt_sub NegInf NegInf = NaN"
| "flt_sub PosInf _ = PosInf"
| "flt_sub NegInf _ = NegInf"
| "flt_sub (Fin a) PosInf = NegInf"
| "flt_sub (Fin a) NegInf = PosInf"

text \<open>\<open>((original - current) / original) * 100.0\<close> for a positive original value.\<close>

definition improvement_pct :: "flt \<Rightarrow> flt \<Rightarrow> flt" where
  "improvement_pct original current =
     (case (flt_sub original current, original) of
        (Fin d, Fin r) \<Rightarrow> Fin (d / r * 100)
      | (Fin d, _) \<Rightarrow> Fin 0
      | (x, Fin r) \<Rightarrow> x
      | _ \<Rightarrow> NaN)"

definition evaluate_verification :: "flt option \<Rightarrow> flt option \<Rightarrow> flt option \<Rightarrow> verification_outcome" where
  "evaluate_verification original current threshold =
     (case current of
        None \<Rightarrow> \<lparr>vo_status = V_UNKNOWN, vo_original_value = original, vo_current_value = None, vo_threshold = threshold,
                 vo_improvement_pct = Fin 0, vo_detail = NoCurrentValue\<rparr>
      | Some cur \<Rightarrow>
          (let improvement = (case original of
                 Some orig \<Rightarrow> (if flt_less (Fin 0) orig then improvement_pct orig cur else Fin 0) | None \<Rightarrow> Fin 0);
               (status, detail) = (case threshold of
                 None \<Rightarrow> (V_UNKNOWN, NoThreshold)
               | Some t \<Rightarrow> (if flt_less cur t then (V_RESOLVED, BelowThreshold) else (V_FAILED, AtOrAboveThreshold)))
           in \<lparr>vo_status = status, vo_original_value = original, vo_current_value = current, vo_threshold = threshold,
               vo_improvement_pct = improvement, vo_detail = detail\<rparr>))"

definition verify_remediation :: "string \<Rightarrow> flt option \<Rightarrow> caller \<Rightarrow> flt option \<Rightarrow> string \<Rightarrow> (py_error, verification_outcome) res" where
  "verify_remediation promql threshold tool_caller original_value metric_tool =
     (case tool_caller metric_tool [(''query'', PStr promql)] of
        Inl e \<Rightarrow> Inr \<lparr>vo_status = V_UNKNOWN, vo_original_value = original_value, vo_current_value = None,
                    vo_threshold = threshold, vo_improvement_pct = Fin 0, vo_detail = MetricQueryFailed e\<rparr>
      | Inr resp \<Rightarrow> rbind (parse_prom_value resp) (\<lambda>current. Inr (evaluate_verification original_value current threshold)))"

section \<open>Waiting for the alert to clear\<close>

definition alert_state_promql :: "string \<Rightarrow> string \<Rightarrow> string" where
  "alert_state_promql alert_name service =
     (let q = [CHR 0x22];
          selector = ''alertname='' @ q @ alert_name @ q @ '',alertstate='' @ q @ ''firing'' @ q @
            (if service \<noteq> [] \<and> service \<noteq> ''unknown'' then '',service='' @ q @ service @ q else [])
      in ''ALERTS{'' @ selector @ ''}'')"

definition alert_outcome :: "verdict \<Rightarrow> rat option \<Rightarrow> rat \<Rightarrow> verification_detail \<Rightarrow> verification_outcome" where
  "alert_outcome status current improvement detail =
     \<lparr>vo_status = status, vo_original_value = Some (Fin 1), vo_current_value = map_option Fin current,
      vo_threshold = Some (Fin 1), vo_improvement_pct = Fin improvement, vo_detail = detail\<rparr>"

text \<open>\<open>query t\<close> is the answer to the poll made after \<open>t\<close> seconds; \<open>interval\<close> is at least one.\<close>

function alert_loop :: "(int \<Rightarrow> (string, mcp_value) res) \<Rightarrow> int \<Rightarrow> int \<Rightarrow> int \<Rightarrow> int \<Rightarrow> verification_outcome" where
  "alert_loop query interval budget floor_seconds waited =
     (case query waited of
        Inl e \<Rightarrow> alert_outcome V_UNKNOWN None 0 (AlertQueryFailed e)
      | Inr resp \<Rightarrow>
          (let series = parse_prom_result resp
           in if series = Some [] \<and> floor_seconds \<le> waited then alert_outcome V_RESOLVED (Some 0) 100 (AlertCleared waited)
              else if budget \<le> waited
              then (case series of
                      None \<Rightarrow> alert_outcome V_UNKNOWN None 0 AlertUnreadable
                    | Some [] \<Rightarrow> alert_outcome V_FAILED (Some 1) 0 (ClearInsideFloor waited)
                    | Some _ \<Rightarrow> alert_outcome V_FAILED (Some 1) 0 (StillFiring waited))
              else alert_loop query interval budget floor_seconds (waited + min (max 1 interval) (budget - waited))))"
  by pat_completeness auto
termination
  by (relation "measure (\<lambda>(query, interval, budget, floor_seconds, waited). nat (budget - waited))") auto

declare alert_loop.simps [simp del]

definition verify_alert_cleared :: "string \<Rightarrow> string \<Rightarrow> (int \<Rightarrow> caller) \<Rightarrow> int \<Rightarrow> int \<Rightarrow> int \<Rightarrow> int \<Rightarrow> string \<Rightarrow> verification_outcome" where
  "verify_alert_cleared alert_name service tool_caller settle_seconds timeout_seconds poll_seconds min_clear_seconds metric_tool =
     (let promql = alert_state_promql alert_name service;
          deadline_budget = max 0 timeout_seconds;
          clear_floor = min (max 0 min_clear_seconds) deadline_budget
      in alert_loop (\<lambda>t. tool_caller t metric_tool [(''query'', PStr promql)]) (max 1 poll_seconds) deadline_budget clear_floor
           (max 0 settle_seconds))"

section \<open>Lemmas\<close>

text \<open>What each verdict of the loop rests on: a reading at a time that was actually polled.\<close>

definition verdict_evidence :: "(int \<Rightarrow> (string, mcp_value) res) \<Rightarrow> int \<Rightarrow> int \<Rightarrow> int \<Rightarrow> verification_outcome \<Rightarrow> bool" where
  "verdict_evidence query budget floor_seconds waited out \<longleftrightarrow>
     (\<exists>t. waited \<le> t \<and> t \<le> max waited budget \<and>
        (case vo_status out of
           V_RESOLVED \<Rightarrow> floor_seconds \<le> t \<and> (\<exists>resp. query t = Inr resp \<and> parse_prom_result resp = Some [])
         | V_FAILED \<Rightarrow> budget \<le> t \<and> (\<exists>resp x xs. query t = Inr resp \<and> parse_prom_result resp = Some (x # xs))
         | V_UNKNOWN \<Rightarrow> (\<exists>e. query t = Inl e) \<or> budget \<le> t \<and> (\<exists>resp. query t = Inr resp \<and> parse_prom_result resp = None)))"

lemma alert_loop_evidence:
  assumes "floor_seconds \<le> budget"
  shows "verdict_evidence query budget floor_seconds waited (alert_loop query interval budget floor_seconds waited)"
  using assms
proof (induction query interval budget "floor_seconds" waited rule: alert_loop.induct)
  case (1 query interval budget floor_seconds waited)
  show ?case
  proof (cases "query waited")
    case (Inl e)
    then show ?thesis
      by (subst alert_loop.simps) (auto simp: verdict_evidence_def alert_outcome_def intro!: exI [of _ waited])
  next
    case (Inr resp)
    let ?step = "min (max 1 interval) (budget - waited)"
    show ?thesis
    proof (cases "parse_prom_result resp = Some [] \<and> floor_seconds \<le> waited \<or> budget \<le> waited")
      case True
      with Inr "1.prems" show ?thesis
        by (subst alert_loop.simps)
           (auto simp: verdict_evidence_def alert_outcome_def Let_def split: option.split list.split intro!: exI [of _ waited])
    next
      case False
      then have eq: "alert_loop query interval budget floor_seconds waited
          = alert_loop query interval budget floor_seconds (waited + ?step)"
        using Inr by (subst alert_loop.simps) (auto simp: Let_def)
      have "verdict_evidence query budget floor_seconds (waited + ?step)
          (alert_loop query interval budget floor_seconds (waited + ?step))"
        using False by (intro "1.IH" [OF Inr refl]) (auto simp: "1.prems")
      moreover have "waited \<le> waited + ?step" "max (waited + ?step) budget \<le> max waited budget" using False by auto
      ultimately show ?thesis unfolding eq verdict_evidence_def by (meson order_trans)
    qed
  qed
qed

text \<open>An alert that stays clear is recognized.\<close>

lemma alert_loop_clear:
  assumes "floor_seconds \<le> budget" "clear_from \<le> budget" "\<And>t. \<exists>resp. query t = Inr resp"
    and "\<And>t resp. clear_from \<le> t \<Longrightarrow> query t = Inr resp \<Longrightarrow> parse_prom_result resp = Some []"
  shows "vo_status (alert_loop query interval budget floor_seconds waited) = V_RESOLVED"
  using assms
proof (induction query interval budget "floor_seconds" waited rule: alert_loop.induct)
  case (1 query interval budget floor_seconds waited)
  obtain resp where r: "query waited = Inr resp" using "1.prems"(3) by blast
  show ?case
  proof (cases "parse_prom_result resp = Some [] \<and> floor_seconds \<le> waited")
    case True
    then show ?thesis using r by (subst alert_loop.simps) (auto simp: alert_outcome_def Let_def)
  next
    case False
    then have less: "\<not> budget \<le> waited" using "1.prems"(1,2,4) r by (meson order_trans)
    have "vo_status (alert_loop query interval budget floor_seconds (waited + min (max 1 interval) (budget - waited))) = V_RESOLVED"
      using "1.IH" [OF r refl False less "1.prems"] .
    then show ?thesis using r False less by (subst alert_loop.simps) (auto simp: Let_def)
  qed
qed

section \<open>Samples\<close>

definition clear_after :: "int \<Rightarrow> int \<Rightarrow> caller" where
  "clear_after n t tool args =
     Inr (MVal (PDict [(''result'', PList (if t < n then [PDict [(''metric'', PDict [])]] else []))]))"

section \<open>Properties\<close>

text \<open>C31. The verdict about an alert rests on evidence. The loop always ends, within the settling time and the
  timeout. \<open>RESOLVED\<close> means a readable answer without a firing series, taken no earlier than the
  settling floor; \<open>FAILED\<close> means an answer at the deadline that shows a firing series; anything else,
  a failed query or an unreadable last answer, is \<open>UNKNOWN\<close>. Conversely, when every query is
  answered and the alert is clear from some time within the timeout on, the verdict is \<open>RESOLVED\<close>.\<close>

theorem verify_alert_cleared_evidence:
  assumes "query = (\<lambda>t. caller t tool [(''query'', PStr (alert_state_promql name service))])"
    and "out = verify_alert_cleared name service caller settle timeout poll min_clear tool"
  shows "verdict_evidence query (max 0 timeout) (min (max 0 min_clear) (max 0 timeout)) (max 0 settle) out
    \<and> ((\<forall>t. \<exists>resp. query t = Inr resp) \<and>
       (\<exists>t0 \<le> max 0 timeout. \<forall>t resp. t0 \<le> t \<and> query t = Inr resp \<longrightarrow> parse_prom_result resp = Some []) \<longrightarrow>
       vo_status out = V_RESOLVED)"
proof -
  let ?floor = "min (max 0 min_clear) (max 0 timeout)"
  have out: "out = alert_loop query (max 1 poll) (max 0 timeout) ?floor (max 0 settle)"
    by (simp add: assms verify_alert_cleared_def Let_def)
  have "verdict_evidence query (max 0 timeout) ?floor (max 0 settle) out" unfolding out by (rule alert_loop_evidence) simp
  moreover have "vo_status out = V_RESOLVED" if "\<forall>t. \<exists>resp. query t = Inr resp" "t0 \<le> max 0 timeout"
    "\<forall>t resp. t0 \<le> t \<and> query t = Inr resp \<longrightarrow> parse_prom_result resp = Some []" for t0
    unfolding out by (rule alert_loop_clear [of _ _ t0]) (use that in auto)
  ultimately show ?thesis by blast
qed

theorem verify_alert_cleared_evidence_witness:
  "vo_status (verify_alert_cleared ''HighErrors'' ''checkout'' (clear_after 70) 0 300 30 120 ''get_metric'') = V_RESOLVED"
proof -
  let ?q = "\<lambda>t. clear_after 70 t ''get_metric'' [(''query'', PStr (alert_state_promql ''HighErrors'' ''checkout''))]"
  have "parse_prom_result resp = Some []" if "70 \<le> t \<and> ?q t = Inr resp" for t resp
    using that by (auto simp: clear_after_def parse_prom_result_def content_block_text_def text_field_def response_list_def
        series_of_def py_dict_get_def Let_def)
  moreover have "\<exists>resp. ?q t = Inr resp" for t by (simp add: clear_after_def)
  ultimately show ?thesis
    using verify_alert_cleared_evidence [OF refl refl, of "clear_after 70" "''get_metric''" "''HighErrors''" "''checkout''" 300 120 0 30]
    by (metis max_def numeral_le_iff zero_le_numeral semiring_norm(68,69,70,71,72,73,74,75,76,77,78,79,80))
qed

text \<open>The verdict about a metric is the comparison with its threshold: without a current value or a
  threshold it is \<open>UNKNOWN\<close>, strictly below the threshold \<open>RESOLVED\<close>, and otherwise, an unordered value
  included, \<open>FAILED\<close>; a failed query is \<open>UNKNOWN\<close>; and for finite values the improvement is the
  relative drop in percent.\<close>

theorem evaluate_verification_spec:
  "vo_status (evaluate_verification orig cur thr) =
     (case (cur, thr) of (Some c, Some t) \<Rightarrow> (if flt_less c t then V_RESOLVED else V_FAILED) | _ \<Rightarrow> V_UNKNOWN)
   \<and> vo_improvement_pct (evaluate_verification (Some (Fin a)) (Some (Fin b)) thr) = Fin (if 0 < a then (a - b) / a * 100 else 0)
   \<and> (case caller tool [(''query'', PStr q)] of
        Inl e \<Rightarrow> \<exists>out. verify_remediation q thr caller orig tool = Inr out \<and> vo_status out = V_UNKNOWN
      | Inr resp \<Rightarrow> verify_remediation q thr caller orig tool =
          rbind (parse_prom_value resp) (\<lambda>v. Inr (evaluate_verification orig v thr)))"
  by (auto simp: evaluate_verification_def improvement_pct_def verify_remediation_def Let_def split: option.split sum.split)

end
