(* ===== verification/Incident_Correlation.thy ===== *)
theory Incident_Correlation
  imports Sentinel_Prelude
begin

text \<open>
  Which open incidents an alert belongs to (\<open>src/src/sre_agent/incident_correlation.py\<close>): a pure score over
  time proximity, service topology and text similarity. The adjacency map is an association list,
  times count microseconds, and sorting by descending score is stable, as in Python.

  Shown here: only incidents of the same cluster and time window match, the best match is reported,
  and the part that is acted upon is exactly the same-service matches.
\<close>

section \<open>Definitions\<close>

definition DEFAULT_WINDOW_MINUTES :: int where
  "DEFAULT_WINDOW_MINUTES = 15"

definition DEFAULT_SIMILARITY_THRESHOLD :: rat where
  "DEFAULT_SIMILARITY_THRESHOLD = 35 / 100"

definition TOPOLOGY_MATCH_FLOOR :: rat where
  "TOPOLOGY_MATCH_FLOOR = 10 / 100"

definition stopwords :: "string list" where
  "stopwords = [''the'', ''a'', ''an'', ''is'', ''are'', ''was'', ''were'', ''on'', ''in'', ''of'', ''to'',
     ''for'', ''and'', ''or'', ''at'', ''by'', ''with'', ''has'', ''have'', ''had'', ''this'',
     ''that'', ''it'', ''its'', ''labels'', ''service'']"

text \<open>The group of \<open>^\[([^\]]+)\]\<close>: a non-empty text between the opening bracket and the first closing one.\<close>

definition title_service :: "string \<Rightarrow> string option" where
  "title_service title =
     (case title of
        c # rest \<Rightarrow>
          (let inner = takeWhile (\<lambda>d. d \<noteq> CHR '']'') rest
           in if c = CHR ''['' \<and> inner \<noteq> [] \<and> length inner < length rest then Some inner else None)
      | [] \<Rightarrow> None)"

definition extract_service :: "string \<Rightarrow> string" where
  "extract_service title = lower (strip (case title_service title of Some s \<Rightarrow> s | None \<Rightarrow> title))"

definition token_char :: "char \<Rightarrow> bool" where
  "token_char c = (is_digit c \<or> (is_alpha c \<and> lower_char c = c))"

text \<open>The maximal runs of lower-case letters and digits.\<close>

function token_runs :: "string \<Rightarrow> string list" where
  "token_runs s =
     (let t = dropWhile (\<lambda>c. \<not> token_char c) s
      in if t = [] then [] else takeWhile token_char t # token_runs (dropWhile token_char t))"
  by pat_completeness auto
termination
proof (relation "measure length", simp)
  fix s t
  assume t: "t = dropWhile (\<lambda>c. \<not> token_char c) s" "t \<noteq> []"
  then have "token_char (hd t)" using hd_dropWhile [of "\<lambda>c. \<not> token_char c" s] by auto
  then have "length (dropWhile token_char t) < length t"
    using t(2) by (cases t) (auto simp: le_imp_less_Suc length_dropWhile_le)
  then show "(dropWhile token_char t, s) \<in> measure length" using length_dropWhile_le [of "\<lambda>c. \<not> token_char c" s] t(1) by simp
qed

declare token_runs.simps [simp del]

definition tokens :: "string \<Rightarrow> string set" where
  "tokens text = set (filter (\<lambda>t. t \<notin> set stopwords \<and> 2 < length t) (token_runs (lower text)))"

definition jaccard_similarity :: "string set \<Rightarrow> string set \<Rightarrow> rat" where
  "jaccard_similarity a b =
     (if a = {} \<and> b = {} then 0 else if a \<union> b = {} then 0 else of_nat (card (a \<inter> b)) / of_nat (card (a \<union> b)))"

record candidate =
  cd_incident_id :: string
  cd_cluster_id :: string
  cd_title :: string
  cd_description :: string
  cd_created_at :: "int option"

datatype topology_reason = SameService string | AdjacentServices string string

record correlation_match =
  cm_incident_id :: string
  cm_score :: rat
  cm_topology :: "topology_reason option"
  cm_text :: "rat option"

datatype correlation_decision = Bundle | Separate

record correlation_result =
  co_decision :: correlation_decision
  co_bundle_with :: "string option"
  co_best_score :: rat
  co_matches :: "correlation_match list"

type_synonym adjacency = "(string \<times> string list) list"

definition neighbors :: "adjacency \<Rightarrow> string \<Rightarrow> string list" where
  "neighbors adj s = (case map_of adj s of Some ns \<Rightarrow> ns | None \<Rightarrow> [])"

definition service_adjacency_score :: "string \<Rightarrow> string \<Rightarrow> adjacency option \<Rightarrow> rat \<times> topology_reason option" where
  "service_adjacency_score cs os adj =
     (if cs \<noteq> [] \<and> cs = os then (1, Some (SameService cs))
      else case adj of
        None \<Rightarrow> (0, None)
      | Some m \<Rightarrow>
          (if m = [] then (0, None)
           else let ns = set (neighbors m cs) \<union> set (neighbors m os)
                in if os \<in> ns \<or> cs \<in> ns then (6 / 10, Some (AdjacentServices cs os)) else (0, None)))"

definition within_window :: "int \<Rightarrow> candidate \<Rightarrow> candidate \<Rightarrow> bool" where
  "within_window window_minutes c x =
     (case (cd_created_at c, cd_created_at x) of
        (Some t, Some u) \<Rightarrow> \<bar>t - u\<bar> \<le> seconds (60 * window_minutes)
      | _ \<Rightarrow> True)"

definition combined_score :: "rat \<Rightarrow> rat \<Rightarrow> rat" where
  "combined_score topology_score text_score =
     (if 0 < topology_score
      then (if TOPOLOGY_MATCH_FLOOR \<le> text_score then max topology_score text_score else topology_score)
      else text_score)"

text \<open>The loop body for one open incident: a match or nothing.\<close>

definition score_candidate :: "candidate \<Rightarrow> int \<Rightarrow> adjacency option \<Rightarrow> rat \<Rightarrow> candidate \<Rightarrow> correlation_match option" where
  "score_candidate c window_minutes adj threshold x =
     (if cd_incident_id x = cd_incident_id c \<or> cd_cluster_id x \<noteq> cd_cluster_id c \<or> \<not> within_window window_minutes c x then None
      else
        let (topology_score, topology_reason) =
              service_adjacency_score (extract_service (cd_title c)) (extract_service (cd_title x)) adj;
            text_score = jaccard_similarity (tokens (cd_title c @ '' '' @ cd_description c))
                           (tokens (cd_title x @ '' '' @ cd_description x));
            combined = combined_score topology_score text_score
        in if threshold \<le> combined \<or> 1 \<le> topology_score
           then Some \<lparr>cm_incident_id = cd_incident_id x, cm_score = combined, cm_topology = topology_reason,
                      cm_text = (if 0 < text_score then Some text_score else None)\<rparr>
           else None)"

definition correlate :: "candidate \<Rightarrow> candidate list \<Rightarrow> int \<Rightarrow> adjacency option \<Rightarrow> rat \<Rightarrow> correlation_result" where
  "correlate c open_incidents window_minutes adj threshold =
     (let matches = List.map_filter (score_candidate c window_minutes adj threshold) open_incidents
      in if matches = [] then \<lparr>co_decision = Separate, co_bundle_with = None, co_best_score = 0, co_matches = []\<rparr>
         else let ranked = sort_key (\<lambda>m. - cm_score m) matches; best = hd ranked
              in \<lparr>co_decision = Bundle, co_bundle_with = Some (cm_incident_id best), co_best_score = cm_score best,
                  co_matches = ranked\<rparr>)"

text \<open>\<open>by_id\<close>: of several incidents with one identifier the last counts.\<close>

definition by_id :: "candidate list \<Rightarrow> string \<Rightarrow> candidate option" where
  "by_id xs i = List.find (\<lambda>x. cd_incident_id x = i) (rev xs)"

definition actionable_bundle :: "candidate \<Rightarrow> candidate list \<Rightarrow> int \<Rightarrow> adjacency option \<Rightarrow> rat \<Rightarrow> correlation_match option" where
  "actionable_bundle c open_incidents window_minutes adj threshold =
     (let service = extract_service (cd_title c)
      in if service = [] then None
         else let result = correlate c open_incidents window_minutes adj threshold
              in if co_decision result \<noteq> Bundle then None
                 else List.find (\<lambda>m. case by_id open_incidents (cm_incident_id m) of
                        None \<Rightarrow> False | Some x \<Rightarrow> extract_service (cd_title x) = service) (co_matches result))"

section \<open>Lemmas\<close>

lemma jaccard_bounds: "finite a \<Longrightarrow> finite b \<Longrightarrow> 0 \<le> jaccard_similarity a b \<and> jaccard_similarity a b \<le> 1"
  using card_mono [of "a \<union> b" "a \<inter> b"] by (auto simp: jaccard_similarity_def divide_le_eq)

lemma jaccard_sym: "jaccard_similarity a b = jaccard_similarity b a"
  by (simp add: jaccard_similarity_def Int_commute Un_commute conj_commute)

lemma finite_tokens [simp]: "finite (tokens t)"
  by (simp add: tokens_def)

lemma by_id_unique:
  assumes "distinct (map cd_incident_id xs)" "x \<in> set xs"
  shows "by_id xs (cd_incident_id x) = Some x"
proof -
  obtain y where y: "by_id xs (cd_incident_id x) = Some y"
    using assms(2) find_None_all [of "\<lambda>y. cd_incident_id y = cd_incident_id x" "rev xs"] by (fastforce simp: by_id_def)
  then have "y \<in> set xs" "cd_incident_id y = cd_incident_id x" using find_Some_mem by (fastforce simp: by_id_def)+
  then have "y = x" using assms by (meson inj_on_def distinct_map)
  with y show ?thesis by simp
qed

lemma score_candidate_Some:
  assumes "score_candidate c w adj thr x = Some m"
  shows "cm_incident_id m = cd_incident_id x \<and> cd_incident_id x \<noteq> cd_incident_id c \<and> cd_cluster_id x = cd_cluster_id c
    \<and> within_window w c x \<and> (thr \<le> cm_score m \<or> (extract_service (cd_title c) \<noteq> [] \<and> extract_service (cd_title c) = extract_service (cd_title x)))"
  using assms
  by (auto simp: score_candidate_def service_adjacency_score_def Let_def split: if_splits option.splits prod.splits)

lemma score_candidate_same_service:
  assumes "cd_incident_id x \<noteq> cd_incident_id c" "cd_cluster_id x = cd_cluster_id c" "within_window w c x"
    and "extract_service (cd_title x) = extract_service (cd_title c)" "extract_service (cd_title c) \<noteq> []"
  shows "\<exists>m. score_candidate c w adj thr x = Some m \<and> cm_incident_id m = cd_incident_id x \<and> cm_score m = 1"
proof -
  have "jaccard_similarity (tokens (cd_title c @ '' '' @ cd_description c)) (tokens (cd_title x @ '' '' @ cd_description x)) \<le> 1"
    by (simp add: jaccard_bounds)
  then show ?thesis using assms
    by (auto simp: score_candidate_def service_adjacency_score_def Let_def combined_score_def max_def)
qed

lemma matches_set:
  "set (co_matches (correlate c xs w adj thr)) = {m. \<exists>x \<in> set xs. score_candidate c w adj thr x = Some m}"
proof -
  have "set (List.map_filter f ys) = {m. \<exists>x \<in> set ys. f x = Some m}" for f :: "candidate \<Rightarrow> correlation_match option" and ys
    by (induction ys) (auto split: option.splits)
  moreover have "set (co_matches (correlate c xs w adj thr)) = set (List.map_filter (score_candidate c w adj thr) xs)"
    by (simp add: correlate_def Let_def)
  ultimately show ?thesis by simp
qed

lemma sort_key_Nil [simp]: "sort_key f xs = [] \<longleftrightarrow> xs = []"
  by (metis set_sort set_empty)

lemma matches_sorted: "sorted (map (\<lambda>m. - cm_score m) (co_matches (correlate c xs w adj thr)))"
  by (auto simp: correlate_def Let_def)

lemma find_first_in: "x \<in> set xs \<Longrightarrow> P x \<Longrightarrow> \<exists>y. List.find P xs = Some y"
  by (induction xs) auto

lemma find_sorted_best:
  assumes "sorted (map f xs)" "List.find P xs = Some y" "x \<in> set xs" "P x"
  shows "f y \<le> (f x :: rat)"
  using assms by (induction xs) (auto split: if_splits)

lemma correlate_bundle_iff:
  "co_decision (correlate c xs w adj thr) = Bundle \<longleftrightarrow> co_matches (correlate c xs w adj thr) \<noteq> []"
  by (auto simp: correlate_def Let_def)

lemma correlate_best:
  assumes "co_matches (correlate c xs w adj thr) \<noteq> []"
  shows "co_bundle_with (correlate c xs w adj thr) = Some (cm_incident_id (hd (co_matches (correlate c xs w adj thr))))"
    and "co_best_score (correlate c xs w adj thr) = cm_score (hd (co_matches (correlate c xs w adj thr)))"
  using assms by (auto simp: correlate_def Let_def split: if_splits)

section \<open>Properties\<close>

text \<open>Correlation reports every open incident that qualifies and only those, ordered by falling score:
  each match is another incident of the same cluster inside the time window that reaches the threshold or
  names the same service; the gate bundles exactly when there is a match, with the match of the
  highest score.\<close>

theorem correlate_sound:
  "set (co_matches (correlate c xs w adj thr)) = {m. \<exists>x \<in> set xs. score_candidate c w adj thr x = Some m}
   \<and> (\<forall>m \<in> set (co_matches (correlate c xs w adj thr)). \<exists>x \<in> set xs.
        cm_incident_id m = cd_incident_id x \<and> cd_incident_id x \<noteq> cd_incident_id c \<and> cd_cluster_id x = cd_cluster_id c
        \<and> within_window w c x
        \<and> (thr \<le> cm_score m \<or> extract_service (cd_title c) = extract_service (cd_title x)))
   \<and> (case co_bundle_with (correlate c xs w adj thr) of
        None \<Rightarrow> co_matches (correlate c xs w adj thr) = [] \<and> co_decision (correlate c xs w adj thr) = Separate
      | Some i \<Rightarrow> co_decision (correlate c xs w adj thr) = Bundle
          \<and> (\<exists>m \<in> set (co_matches (correlate c xs w adj thr)). cm_incident_id m = i
              \<and> (\<forall>n \<in> set (co_matches (correlate c xs w adj thr)). cm_score n \<le> cm_score m)))"
  (is "_ \<and> ?B \<and> ?C")
proof (intro conjI matches_set)
  show ?B unfolding matches_set by (auto dest!: score_candidate_Some)
  let ?r = "correlate c xs w adj thr"
  show ?C
  proof (cases "co_matches ?r")
    case Nil
    then show ?thesis by (auto simp: correlate_def Let_def split: if_splits)
  next
    case (Cons m ms)
    moreover have "\<forall>n \<in> set (m # ms). cm_score n \<le> cm_score m"
      using matches_sorted [of c xs w adj thr] Cons by auto
    ultimately show ?thesis using correlate_best(1) [of c xs w adj thr] correlate_bundle_iff [of c xs w adj thr] by auto
  qed
qed

definition example_candidate :: "string \<Rightarrow> string \<Rightarrow> int \<Rightarrow> candidate" where
  "example_candidate i title t =
     \<lparr>cd_incident_id = i, cd_cluster_id = ''c1'', cd_title = title, cd_description = [], cd_created_at = Some t\<rparr>"

text \<open>What is acted upon is narrower than what is reported: among open incidents with different
  identifiers, the bundle target is another incident of the same cluster and window with the same
  non-empty service, and none with that service scores higher. It exists whenever there is such
  an incident, so a recurrence on the same service is never left unbundled.\<close>

theorem actionable_bundle_spec:
  assumes distinct: "distinct (map cd_incident_id xs)"
  shows "case actionable_bundle c xs w adj thr of
     None \<Rightarrow> \<not> (\<exists>x \<in> set xs. cd_incident_id x \<noteq> cd_incident_id c \<and> cd_cluster_id x = cd_cluster_id c \<and> within_window w c x
               \<and> extract_service (cd_title c) \<noteq> [] \<and> extract_service (cd_title x) = extract_service (cd_title c))
   | Some m \<Rightarrow> \<exists>x \<in> set xs. cd_incident_id x = cm_incident_id m \<and> cd_incident_id x \<noteq> cd_incident_id c
               \<and> cd_cluster_id x = cd_cluster_id c \<and> within_window w c x
               \<and> extract_service (cd_title c) \<noteq> [] \<and> extract_service (cd_title x) = extract_service (cd_title c)
               \<and> cm_score m = 1"
proof -
  let ?s = "extract_service (cd_title c)" and ?r = "correlate c xs w adj thr"
  let ?P = "\<lambda>m. case by_id xs (cm_incident_id m) of None \<Rightarrow> False | Some x \<Rightarrow> extract_service (cd_title x) = ?s"
  have unfold: "actionable_bundle c xs w adj thr = (if ?s = [] then None else List.find ?P (co_matches ?r))"
    using correlate_bundle_iff [of c xs w adj thr] by (auto simp: actionable_bundle_def Let_def)
  have complete: "\<exists>m. List.find ?P (co_matches ?r) = Some m"
    if x: "x \<in> set xs" "cd_incident_id x \<noteq> cd_incident_id c" "cd_cluster_id x = cd_cluster_id c" "within_window w c x"
      "?s \<noteq> []" "extract_service (cd_title x) = ?s" for x
  proof -
    obtain m where m: "score_candidate c w adj thr x = Some m" "cm_incident_id m = cd_incident_id x"
      using score_candidate_same_service [OF x(2,3,4,6,5)] by blast
    have "m \<in> set (co_matches ?r)" using m(1) x(1) by (auto simp: matches_set)
    moreover have "?P m" using m(2) x(6) by_id_unique [OF distinct x(1)] by simp
    ultimately show ?thesis by (rule find_first_in)
  qed
  show ?thesis
  proof (cases "actionable_bundle c xs w adj thr")
    case None
    then show ?thesis using complete unfold by (auto split: if_splits)
  next
    case (Some m)
    then have s: "?s \<noteq> []" and f: "List.find ?P (co_matches ?r) = Some m" using unfold by (auto split: if_splits)
    then have "m \<in> set (co_matches ?r)" and P: "?P m" using find_Some_mem [OF f] by auto
    then obtain x where x: "x \<in> set xs" and sc: "score_candidate c w adj thr x = Some m" by (auto simp: matches_set)
    note props = score_candidate_Some [OF sc]
    have service: "extract_service (cd_title x) = ?s" using P by_id_unique [OF distinct x] props by simp
    have "cm_score m = 1"
      using score_candidate_same_service [of x c w adj thr] props service s sc by auto
    then show ?thesis using Some x props service s by auto
  qed
qed

theorem actionable_bundle_spec_witness:
  "\<exists>m. actionable_bundle (example_candidate ''i9'' ''[Checkout] latency'' 0)
         [example_candidate ''i1'' ''[cart] errors'' 0, example_candidate ''i2'' ''[checkout] errors'' (seconds 60)]
         DEFAULT_WINDOW_MINUTES None DEFAULT_SIMILARITY_THRESHOLD = Some m
       \<and> cm_incident_id m = ''i2'' \<and> cm_score m = 1"
proof -
  let ?c = "example_candidate ''i9'' ''[Checkout] latency'' 0"
  let ?x = "example_candidate ''i1'' ''[cart] errors'' 0" and ?y = "example_candidate ''i2'' ''[checkout] errors'' (seconds 60)"
  have service: "extract_service (cd_title ?c) = ''checkout''" "extract_service (cd_title ?x) = ''cart''"
    "extract_service (cd_title ?y) = ''checkout''"
    by (simp_all add: example_candidate_def) code_simp+
  have window: "within_window DEFAULT_WINDOW_MINUTES ?c ?y"
    by (simp add: within_window_def example_candidate_def DEFAULT_WINDOW_MINUTES_def seconds_def)
  have "distinct (map cd_incident_id [?x, ?y])" by (simp add: example_candidate_def)
  note spec = actionable_bundle_spec [OF this, of ?c DEFAULT_WINDOW_MINUTES None DEFAULT_SIMILARITY_THRESHOLD]
  show ?thesis
    using spec service window by (auto simp: example_candidate_def split: option.splits)
qed

end
