(* ===== verification/Service_Topology.thy ===== *)
theory Service_Topology
  imports Incident_Correlation Redis_State_Store
begin

text \<open>
  Which services are neighbours (\<open>src/src/sre_agent/service_topology.py\<close>). Labels and selectors are the
  string-to-string maps Kubernetes defines, as association lists; a field that is absent is empty or
  none. Reading the cluster is a parameter that fails or gives the three listings. The result is the
  adjacency map \<open>correlate\<close> reads.

  Shown here: the map is symmetric, names no service its own neighbour and no empty name, every edge
  stems from a shared application or from a network policy, and a failing read gives no map
  instead of an error.
\<close>

section \<open>Definitions\<close>

type_synonym labels = "(string \<times> string) list"

definition PART_OF_LABEL :: string where
  "PART_OF_LABEL = ''app.kubernetes.io/part-of''"

definition TOPOLOGY_CACHE_TTL_SECONDS :: int where
  "TOPOLOGY_CACHE_TTL_SECONDS = 300"

definition label :: "labels \<Rightarrow> string \<Rightarrow> string" where
  "label ls k = (case map_of ls k of Some v \<Rightarrow> v | None \<Rightarrow> [])"

text \<open>\<open>str(name).strip().lower()\<close>.\<close>

definition service_key :: "string \<Rightarrow> string" where
  "service_key s = lower (strip s)"

text \<open>An empty name stands for \<open>None\<close>: every caller tests the result for truth.\<close>

definition service_name_from_labels :: "labels \<Rightarrow> string" where
  "service_name_from_labels ls =
     (let name = (if label ls ''app.kubernetes.io/name'' \<noteq> [] then label ls ''app.kubernetes.io/name'' else label ls ''app'')
      in if name = [] then [] else service_key name)"

definition selector_matches :: "labels \<Rightarrow> labels \<Rightarrow> bool" where
  "selector_matches selector ls = list_all (\<lambda>(k, v). map_of ls k = Some v) selector"

record k8s_entry =
  ke_name :: string
  ke_namespace :: string
  ke_labels :: labels
  ke_selector :: labels

record network_policy =
  np_name :: string
  np_namespace :: string
  np_pod_selector :: labels
  np_ingress :: "labels list list"
  np_egress :: "labels list list"

definition entry_name :: "k8s_entry \<Rightarrow> string" where
  "entry_name e = (if service_name_from_labels (ke_labels e) \<noteq> [] then service_name_from_labels (ke_labels e) else ke_name e)"

text \<open>Neighbour sets are lists; an insertion keeps them without repetition.\<close>

definition add_neighbour :: "string \<Rightarrow> string \<Rightarrow> adjacency \<Rightarrow> adjacency" where
  "add_neighbour a b adj = py_dict_set adj a (List.insert b (case map_of adj a of Some ns \<Rightarrow> ns | None \<Rightarrow> []))"

definition link :: "string \<Rightarrow> string \<Rightarrow> adjacency \<Rightarrow> adjacency" where
  "link a b adj = (if a = [] \<or> b = [] \<or> a = b then adj else add_neighbour b a (add_neighbour a b adj))"

definition add_member :: "k8s_entry \<Rightarrow> adjacency \<Rightarrow> adjacency" where
  "add_member e groups =
     (let part_of = label (ke_labels e) PART_OF_LABEL; name = entry_name e
      in if part_of = [] \<or> name = [] then groups else add_neighbour (service_key part_of) (service_key name) groups)"

definition part_of_groups :: "k8s_entry list \<Rightarrow> adjacency" where
  "part_of_groups entries = fold add_member entries []"

fun pairs :: "'a list \<Rightarrow> ('a \<times> 'a) list" where
  "pairs [] = []"
| "pairs (x # xs) = map (Pair x) xs @ pairs xs"

definition group_links :: "adjacency \<Rightarrow> (string \<times> string) list" where
  "group_links groups = concat (map (\<lambda>g. pairs (sort (snd g))) groups)"

definition service_by_selector :: "k8s_entry list \<Rightarrow> (labels \<times> string \<times> string) list" where
  "service_by_selector services = [(ke_selector s, ke_namespace s, entry_name s). s \<leftarrow> services, ke_selector s \<noteq> []]"

definition services_matching :: "k8s_entry list \<Rightarrow> labels \<Rightarrow> string \<Rightarrow> string list" where
  "services_matching services selector namespace =
     [service_key name. (sel, ns, name) \<leftarrow> service_by_selector services,
        \<not> (namespace \<noteq> [] \<and> ns \<noteq> [] \<and> ns \<noteq> namespace),
        name \<noteq> [] \<and> selector_matches selector sel \<and> selector_matches sel selector]"

definition policy_links :: "k8s_entry list \<Rightarrow> network_policy \<Rightarrow> (string \<times> string) list" where
  "policy_links services policy =
     (let found = services_matching services (np_pod_selector policy) (np_namespace policy);
          owners = (if found = [] then [service_key (np_name policy)] else found)
      in [(owner, neighbour). peer \<leftarrow> concat (np_ingress policy) @ concat (np_egress policy), peer \<noteq> [],
            owner \<leftarrow> owners, neighbour \<leftarrow> services_matching services peer (np_namespace policy)])"

definition all_links :: "k8s_entry list \<Rightarrow> k8s_entry list \<Rightarrow> network_policy list \<Rightarrow> (string \<times> string) list" where
  "all_links services deployments policies =
     group_links (part_of_groups (services @ deployments)) @ concat (map (policy_links services) policies)"

definition build_adjacency_map :: "k8s_entry list \<Rightarrow> k8s_entry list \<Rightarrow> network_policy list \<Rightarrow> adjacency" where
  "build_adjacency_map services deployments policies =
     map (\<lambda>(s, ns). (s, sort ns)) (fold (\<lambda>(a, b). link a b) (all_links services deployments policies) [])"

section \<open>The cached map\<close>

definition adjacency_json :: "adjacency \<Rightarrow> pyval" where
  "adjacency_json adj = PDict (map (\<lambda>(s, ns). (s, PList (map PStr ns))) adj)"

text \<open>\<open>fetch\<close> is the building of the tool caller with the three listings; none when anything of it raised.\<close>

definition get_adjacency_map ::
  "runtime \<Rightarrow> 'st state_store \<Rightarrow> (k8s_entry list \<times> k8s_entry list \<times> network_policy list) option \<Rightarrow> string \<Rightarrow> 'st \<Rightarrow> pyval option \<times> 'st" where
  "get_adjacency_map rt store fetch cluster_id st =
     (let (cached, st1) = (if cluster_id \<noteq> [] then get_topology_cache store cluster_id st else (None, st))
      in if cached \<noteq> None \<and> cached \<noteq> Some PNone then (cached, st1)
         else case fetch of
                None \<Rightarrow> (None, st1)
              | Some (services, deployments, policies) \<Rightarrow>
                  (let adj = adjacency_json (build_adjacency_map services deployments policies)
                   in (Some adj, if cluster_id \<noteq> [] then snd (set_topology_cache rt store cluster_id adj TOPOLOGY_CACHE_TTL_SECONDS st1)
                                 else st1)))"

section \<open>Lemmas\<close>

lemma neighbors_add:
  "set (neighbors (add_neighbour a b adj) s) = (if s = a then insert b (set (neighbors adj a)) else set (neighbors adj s))"
  by (auto simp: add_neighbour_def neighbors_def map_of_py_dict_set split: option.split)

lemma neighbors_link:
  "y \<in> set (neighbors (link a b adj) x) \<longleftrightarrow>
     y \<in> set (neighbors adj x) \<or> (a \<noteq> [] \<and> b \<noteq> [] \<and> a \<noteq> b \<and> ((x, y) = (a, b) \<or> (x, y) = (b, a)))"
  by (auto simp: link_def neighbors_add)

lemma neighbors_links:
  "y \<in> set (neighbors (fold (\<lambda>(a, b). link a b) ls adj) x) \<longleftrightarrow>
     y \<in> set (neighbors adj x) \<or> (x \<noteq> [] \<and> y \<noteq> [] \<and> x \<noteq> y \<and> ((x, y) \<in> set ls \<or> (y, x) \<in> set ls))"
proof (induction ls arbitrary: adj)
  case (Cons p ls)
  obtain a b where p: "p = (a, b)" by (cases p)
  show ?case by (simp add: p Cons.IH neighbors_link) blast
qed simp

lemma neighbors_sorted: "set (neighbors (map (\<lambda>(s, ns). (s, sort ns)) adj) x) = set (neighbors adj x)"
proof -
  have "map_of (map (\<lambda>(s, ns). (s, sort ns)) adj) x = map_option sort (map_of adj x)" by (induction adj) auto
  then show ?thesis by (cases "map_of adj x") (simp_all add: neighbors_def)
qed

lemma pairs_members: "(x, y) \<in> set (pairs xs) \<Longrightarrow> x \<in> set xs \<and> y \<in> set xs"
  by (induction xs) auto

lemma pairs_complete: "x \<in> set xs \<Longrightarrow> y \<in> set xs \<Longrightarrow> x \<noteq> y \<Longrightarrow> (x, y) \<in> set (pairs xs) \<or> (y, x) \<in> set (pairs xs)"
  by (induction xs) auto

lemma distinct_groups: "distinct (map fst adj) \<Longrightarrow> distinct (map fst (fold add_member es adj))"
  by (induction es arbitrary: adj) (auto simp: add_member_def add_neighbour_def distinct_py_dict_set Let_def)

lemma group_members:
  "y \<in> set (neighbors (fold add_member es adj) g) \<longleftrightarrow> y \<in> set (neighbors adj g)
     \<or> (\<exists>e \<in> set es. label (ke_labels e) PART_OF_LABEL \<noteq> [] \<and> entry_name e \<noteq> []
          \<and> service_key (label (ke_labels e) PART_OF_LABEL) = g \<and> service_key (entry_name e) = y)"
  by (induction es arbitrary: adj) (auto simp: add_member_def neighbors_add Let_def)

text \<open>Two names that the same application label groups.\<close>

definition same_application :: "k8s_entry list \<Rightarrow> string \<Rightarrow> string \<Rightarrow> bool" where
  "same_application entries a b =
     (\<exists>d \<in> set entries. \<exists>e \<in> set entries.
        label (ke_labels d) PART_OF_LABEL \<noteq> [] \<and> label (ke_labels e) PART_OF_LABEL \<noteq> []
        \<and> service_key (label (ke_labels d) PART_OF_LABEL) = service_key (label (ke_labels e) PART_OF_LABEL)
        \<and> entry_name d \<noteq> [] \<and> service_key (entry_name d) = a \<and> entry_name e \<noteq> [] \<and> service_key (entry_name e) = b)"

lemma group_pairs:
  "(\<exists>g. (\<exists>d \<in> S. A d \<and> B d \<and> k d = g \<and> n d = x) \<and> (\<exists>e \<in> S. A e \<and> B e \<and> k e = g \<and> n e = y)) \<longleftrightarrow>
   (\<exists>d \<in> S. \<exists>e \<in> S. A d \<and> A e \<and> k d = k e \<and> B d \<and> n d = x \<and> B e \<and> n e = y)" (is "?l \<longleftrightarrow> ?r")
proof
  assume ?l
  then obtain d e where "d \<in> S" "e \<in> S" "A d" "B d" "A e" "B e" "k d = k e" "n d = x" "n e = y" by auto
  then show ?r by (intro bexI [of _ d] bexI [of _ e]) simp_all
next
  assume ?r
  then obtain d e where "d \<in> S" "e \<in> S" "A d" "B d" "A e" "B e" "k d = k e" "n d = x" "n e = y" by auto
  then show ?l by (intro exI [of _ "k e"] conjI bexI [of _ d] bexI [of _ e]) simp_all
qed

lemma group_links_iff:
  assumes "x \<noteq> y"
  shows "(x, y) \<in> set (group_links (part_of_groups es)) \<or> (y, x) \<in> set (group_links (part_of_groups es)) \<longleftrightarrow> same_application es x y"
proof -
  let ?g = "part_of_groups es"
  have distinct: "distinct (map fst ?g)" by (simp add: part_of_groups_def distinct_groups)
  have members: "z \<in> set (neighbors ?g g) \<longleftrightarrow> (\<exists>e \<in> set es. label (ke_labels e) PART_OF_LABEL \<noteq> [] \<and> entry_name e \<noteq> []
          \<and> service_key (label (ke_labels e) PART_OF_LABEL) = g \<and> service_key (entry_name e) = z)" for z g
    using group_members [of z es "[]" g] by (simp add: part_of_groups_def neighbors_def)
  have mem: "(g, ms) \<in> set ?g \<Longrightarrow> set ms = set (neighbors ?g g)" for g ms
    using distinct by (simp add: neighbors_def)
  have "(x, y) \<in> set (group_links ?g) \<or> (y, x) \<in> set (group_links ?g) \<longleftrightarrow> (\<exists>(g, ms) \<in> set ?g. x \<in> set ms \<and> y \<in> set ms)"
  proof -
    have "(x, y) \<in> set (pairs (sort ms)) \<or> (y, x) \<in> set (pairs (sort ms)) \<longleftrightarrow> x \<in> set ms \<and> y \<in> set ms" for ms
      using pairs_members [of x y "sort ms"] pairs_members [of y x "sort ms"] pairs_complete [OF _ _ assms, of "sort ms"] by auto
    then show ?thesis by (simp add: group_links_def split_def) blast
  qed
  also have "\<dots> \<longleftrightarrow> (\<exists>g. x \<in> set (neighbors ?g g) \<and> y \<in> set (neighbors ?g g))"
  proof
    assume "\<exists>g. x \<in> set (neighbors ?g g) \<and> y \<in> set (neighbors ?g g)"
    then obtain g where g: "x \<in> set (neighbors ?g g)" "y \<in> set (neighbors ?g g)" by blast
    then obtain ms where "map_of ?g g = Some ms" by (cases "map_of ?g g") (auto simp: neighbors_def)
    then show "\<exists>(g, ms) \<in> set ?g. x \<in> set ms \<and> y \<in> set ms" using g by (auto simp: neighbors_def dest: map_of_SomeD)
  qed (use mem in blast)
  also have "\<dots> \<longleftrightarrow> same_application es x y"
    unfolding members same_application_def by (rule group_pairs)
  finally show ?thesis .
qed

section \<open>Properties\<close>

text \<open>C12. The adjacency map, exactly: two services are neighbours when they are different, have names, and the
  same application label groups them or a network policy links one to the other. So it is symmetric,
  irreflexive and free of empty names.\<close>

theorem build_adjacency_map_spec:
  "b \<in> set (neighbors (build_adjacency_map services deployments policies) a) \<longleftrightarrow>
     a \<noteq> b \<and> a \<noteq> [] \<and> b \<noteq> []
     \<and> (same_application (services @ deployments) a b
        \<or> (\<exists>p \<in> set policies. (a, b) \<in> set (policy_links services p) \<or> (b, a) \<in> set (policy_links services p)))"
proof (cases "a = b")
  case True
  then show ?thesis by (simp add: build_adjacency_map_def neighbors_sorted neighbors_links) (simp add: neighbors_def)
next
  case False
  have "b \<in> set (neighbors (build_adjacency_map services deployments policies) a) \<longleftrightarrow>
      a \<noteq> [] \<and> b \<noteq> [] \<and> ((a, b) \<in> set (all_links services deployments policies) \<or> (b, a) \<in> set (all_links services deployments policies))"
    using False by (simp add: build_adjacency_map_def neighbors_sorted neighbors_links) (simp add: neighbors_def)
  also have "\<dots> \<longleftrightarrow> a \<noteq> [] \<and> b \<noteq> [] \<and> (same_application (services @ deployments) a b
        \<or> (\<exists>p \<in> set policies. (a, b) \<in> set (policy_links services p) \<or> (b, a) \<in> set (policy_links services p)))"
    unfolding group_links_iff [OF False, symmetric] all_links_def by auto
  finally show ?thesis using False by simp
qed

definition cart_entry :: k8s_entry where
  "cart_entry = \<lparr>ke_name = ''cart'', ke_namespace = ''shop'', ke_labels = [(PART_OF_LABEL, ''store'')], ke_selector = []\<rparr>"

theorem build_adjacency_map_spec_witness:
  "''pay'' \<in> set (neighbors (build_adjacency_map [cart_entry] [cart_entry\<lparr>ke_name := ''Pay''\<rparr>] []) ''cart'')"
proof -
  have "same_application [cart_entry, cart_entry\<lparr>ke_name := ''Pay''\<rparr>] ''cart'' ''pay''"
    by (simp add: same_application_def) code_simp
  then show ?thesis by (subst build_adjacency_map_spec) simp
qed

text \<open>Correlation may look the map up from either side: adjacency is the same relation.\<close>

lemma adjacent_from_both_sides:
  "b \<in> set (neighbors (build_adjacency_map s d p) a) \<longleftrightarrow> a \<in> set (neighbors (build_adjacency_map s d p) b)"
proof (cases "a = b")
  case False
  then show ?thesis
    by (simp add: build_adjacency_map_def neighbors_sorted neighbors_links) (auto simp: neighbors_def)
qed simp

end
