(* ===== verification/Approval_Flow.thy ===== *)
theory Approval_Flow
  imports Incident_Status Py_Uuid
begin

text \<open>
  Human authority over remediation (\<open>src/src/sre_agent/approval_flow.py\<close>, with the \<open>ApprovalRequest\<close> and
  \<open>RemediationGateApproval\<close> tables of \<open>src/src/backend/models.py\<close>). The database is a record of tables;
  each function of the source that opens a session is one transaction on it, which is what the row
  lock on the incident makes of them. Identifiers are UUIDs that were parsed already, times count
  microseconds, SHA-256, the graph and its checkpoints are parameters.

  Shown here: an approval is granted only for the exact report the paused graph shows, on an
  incident that is not resolved; a decision is final, whatever happens afterwards; an incident that
  was resolved stays resolved and its approvals are never granted.
\<close>

section \<open>Tables\<close>

datatype approval_status = PENDING | APPROVED | REJECTED | EXPIRED

record approval_request =
  ar_id :: int
  ar_incident_id :: int
  ar_thread_id :: string
  ar_action_hash :: string
  ar_organization_id :: int
  ar_cluster_id :: int
  ar_status :: approval_status
  ar_approver_user_id :: "int option"
  ar_decided_at :: "int option"
  ar_expires_at :: int
  ar_created_at :: int

record gate_approval =
  ga_id :: int
  ga_incident_id :: int
  ga_organization_id :: int
  ga_cluster_id :: int
  ga_workflow_id :: string
  ga_gate :: string
  ga_status :: approval_status
  ga_approver_user_id :: "int option"
  ga_decided_at :: "int option"
  ga_expires_at :: int
  ga_created_at :: int

record incident_row =
  ir_id :: int
  ir_cluster_id :: int
  ir_title :: string
  ir_created_at :: int
  ir_status :: incident_status
  ir_resolved_at :: "int option"

record cluster_row =
  cl_id :: int
  cl_org_id :: int
  cl_prometheus_url :: "string option"
  cl_approval_ttl_minutes :: "int option"

record approval_db =
  db_incidents :: "incident_row list"
  db_clusters :: "cluster_row list"
  db_requests :: "approval_request list"
  db_gates :: "gate_approval list"

datatype approval_error =
    NotPending | Expired | HashMismatch | IncidentNotFound | IncidentResolved
  | IntegrityError | MultipleResults | NonAsciiDigest | CheckpointerRequired | AgentUnavailable
  | InterruptUnavailable | ResumeFailed | OutputMalformed

section \<open>Validation\<close>

definition approval_ttl :: "runtime \<Rightarrow> cluster_row option \<Rightarrow> int" where
  "approval_ttl rt cluster =
     (let minutes = (case cluster of Some c \<Rightarrow> cl_approval_ttl_minutes c | None \<Rightarrow> None)
      in seconds (60 * (case minutes of
           Some m \<Rightarrow> max 1 m
         | None \<Rightarrow> (case parse_int (getenv rt ''APPROVAL_TTL_MINUTES'' ''30'') of
                      Some m \<Rightarrow> max 1 m | None \<Rightarrow> 30))))"

fun stable :: "pyval \<Rightarrow> pyval"
and stable_items :: "pyval list \<Rightarrow> pyval list"
and stable_entries :: "(string \<times> pyval) list \<Rightarrow> (string \<times> pyval) list" where
  "stable (PDict d) = PDict (stable_entries d)"
| "stable (PList xs) = PList (stable_items xs)"
| "stable PNone = PNone"
| "stable (PBool b) = PBool b"
| "stable (PInt i) = PInt i"
| "stable (PFloat x) = PFloat x"
| "stable (PStr s) = PStr s"
| "stable_items [] = []"
| "stable_items (x # xs) = stable x # stable_items xs"
| "stable_entries [] = []"
| "stable_entries ((k, v) # d) =
     (if k \<in> {''audit_hash'', ''observed_at''} then stable_entries d else (k, stable v) # stable_entries d)"

definition canonical_action_json :: "runtime \<Rightarrow> pydict \<Rightarrow> string" where
  "canonical_action_json rt report = json_text json_raw_char rt '','' '':'' True (stable (PDict report))"

definition compute_action_hash :: "(string \<Rightarrow> string) \<Rightarrow> runtime \<Rightarrow> pydict \<Rightarrow> string" where
  "compute_action_hash sha256 rt report = sha256 (canonical_action_json rt report)"

definition is_expired :: "int \<Rightarrow> int \<Rightarrow> bool" where
  "is_expired expires_at now = (expires_at \<le> now)"

text \<open>\<open>secrets.compare_digest\<close> on texts raises for characters outside ASCII.\<close>

definition is_ascii :: "string \<Rightarrow> bool" where
  "is_ascii s = list_all (\<lambda>c. (of_char c :: nat) < 128) s"

definition compare_digest :: "string \<Rightarrow> string \<Rightarrow> (approval_error, bool) res" where
  "compare_digest a b = (if is_ascii a \<and> is_ascii b then Inr (a = b) else Inl NonAsciiDigest)"

definition validate_pending_approval :: "approval_status \<Rightarrow> string \<Rightarrow> string \<Rightarrow> int \<Rightarrow> int \<Rightarrow> (approval_error, unit) res" where
  "validate_pending_approval status stored submitted expires_at now =
     (if status \<noteq> PENDING then Inl NotPending
      else if is_expired expires_at now then Inl Expired
      else rbind (compare_digest stored submitted) (\<lambda>same. if same then Inr () else Inl HashMismatch))"

section \<open>Queries\<close>

definition scalar_one_or_none :: "'a list \<Rightarrow> (approval_error, 'a option) res" where
  "scalar_one_or_none xs = (case xs of [] \<Rightarrow> Inr None | [x] \<Rightarrow> Inr (Some x) | _ \<Rightarrow> Inl MultipleResults)"

text \<open>\<open>ORDER BY created_at DESC LIMIT 1\<close>.\<close>

definition newest :: "('a \<Rightarrow> int) \<Rightarrow> 'a list \<Rightarrow> 'a option" where
  "newest created xs = (case sort_key (\<lambda>r. - created r) xs of [] \<Rightarrow> None | x # _ \<Rightarrow> Some x)"

definition update_where :: "('a \<Rightarrow> bool) \<Rightarrow> ('a \<Rightarrow> 'a) \<Rightarrow> 'a list \<Rightarrow> 'a list" where
  "update_where p f rows = map (\<lambda>r. if p r then f r else r) rows"

definition get_incident :: "approval_db \<Rightarrow> int \<Rightarrow> incident_row option" where
  "get_incident db i = List.find (\<lambda>r. ir_id r = i) (db_incidents db)"

definition get_cluster :: "approval_db \<Rightarrow> int \<Rightarrow> cluster_row option" where
  "get_cluster db i = List.find (\<lambda>c. cl_id c = i) (db_clusters db)"

definition set_incident :: "int \<Rightarrow> incident_status \<Rightarrow> int option \<Rightarrow> approval_db \<Rightarrow> approval_db" where
  "set_incident i status resolved_at db =
     db\<lparr>db_incidents := update_where (\<lambda>r. ir_id r = i) (\<lambda>r. r\<lparr>ir_status := status, ir_resolved_at := resolved_at\<rparr>) (db_incidents db)\<rparr>"

definition incident_is_resolved :: "approval_db \<Rightarrow> int \<Rightarrow> int \<Rightarrow> bool" where
  "incident_is_resolved db incident_id cluster_id =
     (case get_incident db incident_id of
        None \<Rightarrow> False
      | Some r \<Rightarrow> ir_cluster_id r = cluster_id \<and> ir_status r = RESOLVED)"

definition lock_incident_for_remediation :: "approval_db \<Rightarrow> int \<Rightarrow> int \<Rightarrow> (approval_error, incident_row) res" where
  "lock_incident_for_remediation db incident_id cluster_id =
     rbind (scalar_one_or_none (filter (\<lambda>r. ir_id r = incident_id \<and> ir_cluster_id r = cluster_id) (db_incidents db)))
       (\<lambda>found. case found of
          None \<Rightarrow> Inl IncidentNotFound
        | Some r \<Rightarrow> if ir_status r = RESOLVED then Inl IncidentResolved else Inr r)"

section \<open>Approval requests\<close>

record pending_approval =
  pa_id :: int
  pa_incident_id :: int
  pa_thread_id :: string
  pa_action_hash :: string
  pa_expires_at :: int
  pa_created :: bool

definition to_pending :: "approval_request \<Rightarrow> bool \<Rightarrow> pending_approval" where
  "to_pending r created = \<lparr>pa_id = ar_id r, pa_incident_id = ar_incident_id r, pa_thread_id = ar_thread_id r,
     pa_action_hash = ar_action_hash r, pa_expires_at = ar_expires_at r, pa_created = created\<rparr>"

record approval_spec =
  as_incident_id :: int
  as_thread_id :: string
  as_organization_id :: int
  as_cluster_id :: int
  as_action_hash :: string

definition matching_request :: "approval_spec \<Rightarrow> approval_request \<Rightarrow> bool" where
  "matching_request sp r = (ar_incident_id r = as_incident_id sp \<and> ar_thread_id r = as_thread_id sp
     \<and> ar_action_hash r = as_action_hash sp \<and> ar_organization_id r = as_organization_id sp
     \<and> ar_cluster_id r = as_cluster_id sp \<and> ar_status r = PENDING)"

definition pending_clash :: "approval_request list \<Rightarrow> string \<Rightarrow> string \<Rightarrow> bool" where
  "pending_clash rows thread hash = list_ex (\<lambda>r. ar_thread_id r = thread \<and> ar_action_hash r = hash \<and> ar_status r = PENDING) rows"

text \<open>The row the lookup finds, with an expired one marked, and the table after that.\<close>

definition lookup_request :: "approval_spec \<Rightarrow> int \<Rightarrow> approval_request list \<Rightarrow> approval_request option \<times> approval_request list" where
  "lookup_request sp now rows =
     (case newest ar_created_at (filter (matching_request sp) rows) of
        None \<Rightarrow> (None, rows)
      | Some r \<Rightarrow>
          (if is_expired (ar_expires_at r) now
           then (None, update_where (\<lambda>q. ar_id q = ar_id r) (\<lambda>q. q\<lparr>ar_status := EXPIRED\<rparr>) rows)
           else (Some r, rows)))"

definition new_request :: "int \<Rightarrow> approval_spec \<Rightarrow> int \<Rightarrow> int \<Rightarrow> approval_request" where
  "new_request fresh sp expires_at now = \<lparr>ar_id = fresh, ar_incident_id = as_incident_id sp,
     ar_thread_id = as_thread_id sp, ar_action_hash = as_action_hash sp, ar_organization_id = as_organization_id sp,
     ar_cluster_id = as_cluster_id sp, ar_status = PENDING, ar_approver_user_id = None, ar_decided_at = None,
     ar_expires_at = expires_at, ar_created_at = now\<rparr>"

text \<open>An index violation rolls the whole transaction back, so the table read again is the old one.\<close>

definition create_or_reuse_pending_approval ::
  "runtime \<Rightarrow> int \<Rightarrow> approval_spec \<Rightarrow> int \<Rightarrow> approval_db \<Rightarrow> (approval_error, pending_approval) res \<times> approval_db" where
  "create_or_reuse_pending_approval rt fresh sp now db =
     (case lock_incident_for_remediation db (as_incident_id sp) (as_cluster_id sp) of
        Inl e \<Rightarrow> (Inl e, db)
      | Inr incident \<Rightarrow>
          (let (found, rows) = lookup_request sp now (db_requests db);
               awaiting = set_incident (as_incident_id sp) AWAITING_APPROVAL None db
           in case found of
                Some r \<Rightarrow> (Inr (to_pending r False), awaiting\<lparr>db_requests := rows\<rparr>)
              | None \<Rightarrow>
                  (let r = new_request fresh sp (now + approval_ttl rt (get_cluster db (as_cluster_id sp))) now
                   in if pending_clash rows (as_thread_id sp) (as_action_hash sp)
                      then (rbind (scalar_one_or_none (filter (matching_request sp) (db_requests db)))
                              (\<lambda>q. case q of None \<Rightarrow> Inl IntegrityError | Some q \<Rightarrow> Inr (to_pending q False)), db)
                      else (Inr (to_pending r True), awaiting\<lparr>db_requests := rows @ [r]\<rparr>))))"

section \<open>Workflow gates\<close>

record gate_spec =
  gs_incident_id :: int
  gs_organization_id :: int
  gs_cluster_id :: int
  gs_workflow_id :: string
  gs_gate :: string

record pending_gate =
  pg_id :: int
  pg_incident_id :: int
  pg_organization_id :: int
  pg_cluster_id :: int
  pg_workflow_id :: string
  pg_gate :: string
  pg_expires_at :: int

definition to_pending_gate :: "gate_approval \<Rightarrow> pending_gate" where
  "to_pending_gate r = \<lparr>pg_id = ga_id r, pg_incident_id = ga_incident_id r, pg_organization_id = ga_organization_id r,
     pg_cluster_id = ga_cluster_id r, pg_workflow_id = ga_workflow_id r, pg_gate = ga_gate r,
     pg_expires_at = ga_expires_at r\<rparr>"

definition open_gate :: "string \<Rightarrow> string \<Rightarrow> gate_approval \<Rightarrow> bool" where
  "open_gate workflow gate r = (ga_workflow_id r = workflow \<and> ga_gate r = gate \<and> ga_status r = PENDING)"

definition create_or_reuse_pending_gate_approval ::
  "int \<Rightarrow> gate_spec \<Rightarrow> int \<Rightarrow> int \<Rightarrow> approval_db \<Rightarrow> (approval_error, pending_gate) res \<times> approval_db" where
  "create_or_reuse_pending_gate_approval fresh sp ttl_seconds now db =
     (case lock_incident_for_remediation db (gs_incident_id sp) (gs_cluster_id sp) of
        Inl e \<Rightarrow> (Inl e, db)
      | Inr incident \<Rightarrow>
          (let mine = open_gate (gs_workflow_id sp) (gs_gate sp);
               found = newest ga_created_at (filter mine (db_gates db));
               stale = (case found of Some r \<Rightarrow> is_expired (ga_expires_at r) now | None \<Rightarrow> False)
           in if found \<noteq> None \<and> \<not> stale then (Inr (to_pending_gate (the found)), db)
              else
                let rows = (if stale then update_where (\<lambda>q. ga_id q = ga_id (the found)) (\<lambda>q. q\<lparr>ga_status := EXPIRED\<rparr>) (db_gates db)
                            else db_gates db);
                    r = \<lparr>ga_id = fresh, ga_incident_id = gs_incident_id sp, ga_organization_id = gs_organization_id sp,
                         ga_cluster_id = gs_cluster_id sp, ga_workflow_id = gs_workflow_id sp, ga_gate = gs_gate sp,
                         ga_status = PENDING, ga_approver_user_id = None, ga_decided_at = None,
                         ga_expires_at = now + seconds (max 1 ttl_seconds), ga_created_at = now\<rparr>
                in if list_ex mine rows
                   then (rbind (scalar_one_or_none (filter mine (db_gates db)))
                           (\<lambda>q. case q of None \<Rightarrow> Inl IntegrityError | Some q \<Rightarrow> Inr (to_pending_gate q)), db)
                   else (Inr (to_pending_gate r), db\<lparr>db_gates := rows @ [r]\<rparr>)))"

definition expire_gate_approval :: "string \<Rightarrow> string \<Rightarrow> int \<Rightarrow> approval_db \<Rightarrow> approval_db" where
  "expire_gate_approval workflow gate now db =
     db\<lparr>db_gates := update_where (open_gate workflow gate) (\<lambda>r. r\<lparr>ga_status := EXPIRED, ga_decided_at := Some now\<rparr>) (db_gates db)\<rparr>"

definition find_latest_pending_gate :: "approval_db \<Rightarrow> int \<Rightarrow> string \<Rightarrow> int option" where
  "find_latest_pending_gate db incident_id gate =
     map_option ga_id (newest ga_created_at
       (filter (\<lambda>r. ga_incident_id r = incident_id \<and> ga_gate r = gate \<and> ga_status r = PENDING) (db_gates db)))"

definition find_latest_pending_action_approval :: "approval_db \<Rightarrow> int \<Rightarrow> int option" where
  "find_latest_pending_action_approval db incident_id =
     map_option ar_id (newest ar_created_at
       (filter (\<lambda>r. ar_incident_id r = incident_id \<and> ar_status r = PENDING) (db_requests db)))"

record decision_request =
  dr_approval_id :: int
  dr_incident_id :: int
  dr_organization_id :: int
  dr_cluster_id :: int
  dr_approver_user_id :: int

definition owned_gate :: "decision_request \<Rightarrow> gate_approval \<Rightarrow> bool" where
  "owned_gate q r = (ga_id r = dr_approval_id q \<and> ga_incident_id r = dr_incident_id q
     \<and> ga_organization_id r = dr_organization_id q \<and> ga_cluster_id r = dr_cluster_id q)"

text \<open>A compare-and-set on one identifier: the rows changed and their number.\<close>

definition cas_gate :: "int \<Rightarrow> (gate_approval \<Rightarrow> gate_approval) \<Rightarrow> gate_approval list \<Rightarrow> nat \<times> gate_approval list" where
  "cas_gate i f rows =
     (let p = (\<lambda>r. ga_id r = i \<and> ga_status r = PENDING) in (length (filter p rows), update_where p f rows))"

definition decide_gate_approval ::
  "decision_request \<Rightarrow> bool \<Rightarrow> int \<Rightarrow> approval_db \<Rightarrow> (approval_error, pending_gate option) res \<times> approval_db" where
  "decide_gate_approval q approved now db =
     (case lock_incident_for_remediation db (dr_incident_id q) (dr_cluster_id q) of
        Inl e \<Rightarrow> (Inl e, db)
      | Inr incident \<Rightarrow>
          (case scalar_one_or_none (filter (owned_gate q) (db_gates db)) of
             Inl e \<Rightarrow> (Inl e, db)
           | Inr None \<Rightarrow> (Inr None, db)
           | Inr (Some row) \<Rightarrow>
               (if ga_status row \<noteq> PENDING then (Inl NotPending, db)
                else if is_expired (ga_expires_at row) now
                then (Inl Expired, db\<lparr>db_gates := snd (cas_gate (ga_id row)
                        (\<lambda>r. r\<lparr>ga_status := EXPIRED, ga_decided_at := Some now\<rparr>) (db_gates db))\<rparr>)
                else
                  let (count, rows) = cas_gate (ga_id row)
                        (\<lambda>r. r\<lparr>ga_status := (if approved then APPROVED else REJECTED),
                               ga_approver_user_id := Some (dr_approver_user_id q), ga_decided_at := Some now\<rparr>) (db_gates db)
                  in if count \<noteq> 1 then (Inl NotPending, db)
                     else (Inr (Some (to_pending_gate row)), db\<lparr>db_gates := rows\<rparr>))))"

definition GATE_SIGNAL_NAME :: "(string \<times> string) list" where
  "GATE_SIGNAL_NAME = [(''start_fix'', ''decide_start_fix''), (''raise_pr'', ''decide_raise_pr''),
     (''retry_fix'', ''decide_retry_fix''), (''close_incident'', ''decide_close_incident'')]"

text \<open>The workflow engine: whether the signal of that name reached the workflow.\<close>

definition decide_and_signal_gate ::
  "(string \<Rightarrow> string \<Rightarrow> bool \<Rightarrow> string \<Rightarrow> bool) \<Rightarrow> string \<Rightarrow> decision_request \<Rightarrow> bool \<Rightarrow> int \<Rightarrow> approval_db
     \<Rightarrow> (approval_error, pending_gate option \<times> bool) res \<times> approval_db" where
  "decide_and_signal_gate signal_workflow approver_label q approved now db =
     (case decide_gate_approval q approved now db of
        (Inl e, db') \<Rightarrow> (Inl e, db')
      | (Inr None, db') \<Rightarrow> (Inr (None, False), db')
      | (Inr (Some row), db') \<Rightarrow>
          (case map_of GATE_SIGNAL_NAME (pg_gate row) of
             None \<Rightarrow> (Inr (Some row, False), db')
           | Some name \<Rightarrow> (Inr (Some row, signal_workflow (pg_workflow_id row) name approved approver_label), db')))"

section \<open>Resolution\<close>

text \<open>The scope check both resolutions share: the incident when cluster and organization own it.\<close>

definition owned_incident :: "approval_db \<Rightarrow> int \<Rightarrow> int \<Rightarrow> int \<Rightarrow> incident_row option" where
  "owned_incident db incident_id organization_id cluster_id =
     (case get_incident db incident_id of
        None \<Rightarrow> None
      | Some r \<Rightarrow>
          (if ir_cluster_id r \<noteq> cluster_id then None
           else case get_cluster db cluster_id of
                  None \<Rightarrow> None
                | Some c \<Rightarrow> if cl_org_id c \<noteq> organization_id then None else Some r))"

definition cas_incident :: "(incident_row \<Rightarrow> bool) \<Rightarrow> int \<Rightarrow> approval_db \<Rightarrow> nat \<times> approval_db" where
  "cas_incident p now db =
     (length (filter p (db_incidents db)),
      db\<lparr>db_incidents := update_where p (\<lambda>r. r\<lparr>ir_status := RESOLVED, ir_resolved_at := Some now\<rparr>) (db_incidents db)\<rparr>)"

text \<open>The second component tells whether the side effects of a resolution fire.\<close>

definition acknowledge_incident_resolution ::
  "int \<Rightarrow> int \<Rightarrow> int \<Rightarrow> int \<Rightarrow> approval_db \<Rightarrow> (approval_error, incident_row option) res \<times> bool \<times> approval_db" where
  "acknowledge_incident_resolution incident_id organization_id cluster_id now db =
     (case owned_incident db incident_id organization_id cluster_id of
        None \<Rightarrow> (Inr None, False, db)
      | Some r \<Rightarrow>
          (if ir_status r \<noteq> PENDING_ACKNOWLEDGMENT then (Inl NotPending, False, db)
           else let (count, db') = cas_incident (\<lambda>r. ir_id r = incident_id \<and> ir_status r = PENDING_ACKNOWLEDGMENT) now db
                in if count \<noteq> 1 then (Inl NotPending, False, db)
                   else (Inr (get_incident db' incident_id), True, db')))"

definition mark_incident_resolved_by_human ::
  "int \<Rightarrow> int \<Rightarrow> int \<Rightarrow> int \<Rightarrow> approval_db \<Rightarrow> incident_row option \<times> bool \<times> approval_db" where
  "mark_incident_resolved_by_human incident_id organization_id cluster_id now db =
     (case owned_incident db incident_id organization_id cluster_id of
        None \<Rightarrow> (None, False, db)
      | Some r \<Rightarrow>
          (if ir_status r = RESOLVED then (Some r, False, db)
           else let (count, db') = cas_incident (\<lambda>r. ir_id r = incident_id \<and> ir_status r \<noteq> RESOLVED) now db
                in if count \<noteq> 1 then (get_incident db incident_id, False, db)
                   else (get_incident db' incident_id, True, db')))"

record retired_approvals =
  ra_action_approvals :: nat
  ra_gate_approvals :: nat
  ra_gate_workflows :: "(string \<times> string) list"

definition retire_pending_remediation_approvals :: "int \<Rightarrow> int \<Rightarrow> approval_db \<Rightarrow> retired_approvals \<times> approval_db" where
  "retire_pending_remediation_approvals incident_id now db =
     (let requests = (\<lambda>r. ar_incident_id r = incident_id \<and> ar_status r = PENDING);
          gates = (\<lambda>r. ga_incident_id r = incident_id \<and> ga_status r = PENDING)
      in (\<lparr>ra_action_approvals = length (filter requests (db_requests db)),
           ra_gate_approvals = length (filter gates (db_gates db)),
           ra_gate_workflows = map (\<lambda>r. (ga_workflow_id r, ga_gate r)) (filter gates (db_gates db))\<rparr>,
          db\<lparr>db_requests := update_where requests (\<lambda>r. r\<lparr>ar_status := EXPIRED, ar_decided_at := Some now\<rparr>) (db_requests db),
             db_gates := update_where gates (\<lambda>r. r\<lparr>ga_status := EXPIRED, ga_decided_at := Some now\<rparr>) (db_gates db)\<rparr>))"

section \<open>Deciding an action\<close>

text \<open>A checkpoint is the interrupts of each task; an interrupt is the value it carries.\<close>

definition current_approval_interrupt :: "pyval list list \<Rightarrow> pydict option" where
  "current_approval_interrupt tasks =
     (case List.find (\<lambda>v. case v of PDict d \<Rightarrow> py_dict_get d ''type'' PNone = PStr ''approval_required'' | _ \<Rightarrow> False) (concat tasks) of
        Some (PDict d) \<Rightarrow> Some d | _ \<Rightarrow> None)"

text \<open>What the graph and the process around a decision provide. A resumed run gives the outputs of its nodes
  in order, the exception that ended it if there is one, and the database it leaves behind.\<close>

record approval_env =
  ae_rt :: runtime
  ae_sha256 :: "string \<Rightarrow> string"
  ae_durable :: bool
  ae_runtime_ok :: bool
  ae_thread_bound :: bool
  ae_snapshot :: "string \<Rightarrow> pyval list list option"
  ae_resume :: "string \<Rightarrow> pydict \<Rightarrow> approval_db \<Rightarrow> (string \<times> pyval) list \<times> string option \<times> approval_db"

definition owned_request :: "decision_request \<Rightarrow> approval_request \<Rightarrow> bool" where
  "owned_request q r = (ar_id r = dr_approval_id q \<and> ar_incident_id r = dr_incident_id q
     \<and> ar_organization_id r = dr_organization_id q \<and> ar_cluster_id r = dr_cluster_id q)"

text \<open>The report the paused graph shows has to be the one the request was made for.\<close>

definition interrupt_report :: "pyval list list \<Rightarrow> (approval_error, pydict \<times> pydict) res" where
  "interrupt_report tasks =
     (case current_approval_interrupt tasks of
        None \<Rightarrow> Inl NotPending
      | Some shown \<Rightarrow>
          (case py_dict_get shown ''report'' PNone of PDict report \<Rightarrow> Inr (shown, report) | _ \<Rightarrow> Inl NotPending))"

definition check_interrupt :: "approval_env \<Rightarrow> approval_request \<Rightarrow> pyval list list \<Rightarrow> (approval_error, unit) res" where
  "check_interrupt ae r tasks =
     rbind (interrupt_report tasks) (\<lambda>(shown, report).
       if py_str (ae_rt ae) (py_dict_get shown ''approval_request_id'' PNone) \<noteq> uuid_str (ar_id r)
          \<or> py_str (ae_rt ae) (py_dict_get shown ''thread_id'' PNone) \<noteq> ar_thread_id r then Inl HashMismatch
       else rbind (compare_digest (py_str (ae_rt ae) (py_dict_get shown ''action_hash'' (PStr []))) (ar_action_hash r)) (\<lambda>same.
         if \<not> same then Inl HashMismatch
         else rbind (compare_digest (compute_action_hash (ae_sha256 ae) (ae_rt ae) report) (ar_action_hash r)) (\<lambda>same.
           if same then Inr () else Inl HashMismatch)))"

text \<open>A stale pending request is renewed before it is validated.\<close>

definition renew :: "runtime \<Rightarrow> approval_db \<Rightarrow> int \<Rightarrow> int \<Rightarrow> approval_request \<Rightarrow> approval_request" where
  "renew rt db cluster_id now r =
     (if ar_status r = PENDING \<and> is_expired (ar_expires_at r) now
      then r\<lparr>ar_expires_at := now + approval_ttl rt (get_cluster db cluster_id)\<rparr> else r)"

definition check_graph :: "approval_env \<Rightarrow> approval_request \<Rightarrow> (approval_error, unit) res" where
  "check_graph ae r =
     (if \<not> ae_runtime_ok ae then Inl AgentUnavailable
      else if \<not> ae_thread_bound ae then Inl CheckpointerRequired
      else case ae_snapshot ae (ar_thread_id r) of
             None \<Rightarrow> Inl InterruptUnavailable
           | Some tasks \<Rightarrow> check_interrupt ae r tasks)"

definition cas_request :: "int \<Rightarrow> (approval_request \<Rightarrow> approval_request) \<Rightarrow> approval_request list \<Rightarrow> nat \<times> approval_request list" where
  "cas_request i f rows =
     (let p = (\<lambda>r. ar_id r = i \<and> ar_status r = PENDING) in (length (filter p rows), update_where p f rows))"

text \<open>The transaction up to the commit. An error leaves the session without a commit, so the renewal is
  undone with it.\<close>

definition authorize_action ::
  "approval_env \<Rightarrow> decision_request \<Rightarrow> int \<Rightarrow> approval_db \<Rightarrow> (approval_error, approval_request option) res \<times> approval_db" where
  "authorize_action ae q now db =
     (case lock_incident_for_remediation db (dr_incident_id q) (dr_cluster_id q) of
        Inl e \<Rightarrow> (Inl e, db)
      | Inr incident \<Rightarrow>
          (case scalar_one_or_none (filter (owned_request q) (db_requests db)) of
             Inl e \<Rightarrow> (Inl e, db)
           | Inr None \<Rightarrow> (Inr None, db)
           | Inr (Some row) \<Rightarrow>
               (let pending = renew (ae_rt ae) db (dr_cluster_id q) now row;
                    rows = update_where (\<lambda>r. ar_id r = ar_id row) (\<lambda>r. r\<lparr>ar_expires_at := ar_expires_at pending\<rparr>) (db_requests db)
                in case rbind (validate_pending_approval (ar_status pending) (ar_action_hash pending) (ar_action_hash pending)
                                 (ar_expires_at pending) now) (\<lambda>_. check_graph ae pending) of
                     Inl e \<Rightarrow> (Inl e, db)
                   | Inr _ \<Rightarrow>
                       (let (count, rows') = cas_request (ar_id pending)
                              (\<lambda>r. r\<lparr>ar_status := APPROVED, ar_approver_user_id := Some (dr_approver_user_id q), ar_decided_at := Some now\<rparr>) rows
                        in if count \<noteq> 1 then (Inl NotPending, db)
                           else (Inr (Some pending), db\<lparr>db_requests := rows'\<rparr>)))))"

text \<open>The live state the dashboard reads while the resumed run goes on.\<close>

datatype live_state = LiveRunning string | LiveError string | LiveCompleted

definition merge_outputs :: "(string \<times> pyval) list \<Rightarrow> pydict" where
  "merge_outputs events =
     foldl (\<lambda>out (node, v). case v of PDict d \<Rightarrow> foldl (\<lambda>m (k, x). py_dict_set m k x) out d | _ \<Rightarrow> out) [] events"

text \<open>\<open>(v or {}).get(k)\<close>; none stands for the \<open>AttributeError\<close> of a value that is no dictionary.\<close>

definition or_empty_get :: "pyval \<Rightarrow> string \<Rightarrow> pyval option" where
  "or_empty_get v k = (if \<not> truthy v then Some PNone else case v of PDict d \<Rightarrow> Some (py_dict_get d k PNone) | _ \<Rightarrow> None)"

text \<open>The final write: the status computed from the report, unless the incident was resolved meanwhile.\<close>

definition write_run_status :: "int \<Rightarrow> incident_status \<Rightarrow> int \<Rightarrow> approval_db \<Rightarrow> (approval_error, incident_status) res \<times> approval_db" where
  "write_run_status incident_id computed now db =
     (case scalar_one_or_none (filter (\<lambda>r. ir_id r = incident_id) (db_incidents db)) of
        Inl e \<Rightarrow> (Inl e, db)
      | Inr None \<Rightarrow> (Inr computed, db)
      | Inr (Some r) \<Rightarrow>
          (let effective = effective_status_after_run (ir_status r) computed;
               resolved_at = (if status_value (ir_status r) \<noteq> ''resolved'' then resolved_at_for_status effective now
                              else ir_resolved_at r)
           in (Inr effective, set_incident incident_id effective resolved_at db)))"

definition resume_message :: "approval_request \<Rightarrow> pydict" where
  "resume_message r = [(''approved'', PBool True), (''approval_request_id'', PStr (uuid_str (ar_id r))),
     (''action_hash'', PStr (ar_action_hash r))]"

definition finish_action ::
  "approval_env \<Rightarrow> int \<Rightarrow> approval_request \<Rightarrow> int \<Rightarrow> approval_db \<Rightarrow> (approval_error, incident_status option) res \<times> live_state list \<times> approval_db" where
  "finish_action ae incident_id pending now db =
     (let (events, failure, db1) = ae_resume ae (ar_thread_id pending) (resume_message pending) db;
          output = merge_outputs events;
          running = map (\<lambda>e. LiveRunning (fst e)) events;
          act_report = or_empty_get (py_dict_get output ''metadata'' PNone) ''act_report''
      in case failure of
           Some message \<Rightarrow> (Inl ResumeFailed, running @ [LiveError message], db1)
         | None \<Rightarrow>
             (case act_report of
                None \<Rightarrow> (Inl ResumeFailed, running @ [LiveError ''metadata''], db1)
              | Some report \<Rightarrow>
                  (if output = [] then (Inr None, running @ [LiveCompleted], db1)
                   else case or_empty_get report ''verification'' of
                     None \<Rightarrow> (Inl OutputMalformed, running @ [LiveCompleted], db1)
                   | Some outcome \<Rightarrow>
                       (case write_run_status incident_id (compute_incident_status (ae_rt ae) report outcome) now db1 of
                          (Inl e, db2) \<Rightarrow> (Inl e, running @ [LiveCompleted], db2)
                        | (Inr status, db2) \<Rightarrow> (Inr (Some status), running @ [LiveCompleted], db2)))))"

text \<open>The notification hook runs after the commit and can not undo it; its outcome is not used.\<close>

definition decide_action_approval ::
  "approval_env \<Rightarrow> decision_request \<Rightarrow> int \<Rightarrow> int \<Rightarrow> approval_db
     \<Rightarrow> (approval_error, incident_status option) res \<times> live_state list \<times> approval_db" where
  "decide_action_approval ae q now later db =
     (if \<not> ae_durable ae then (Inl CheckpointerRequired, [], db)
      else case authorize_action ae q now db of
             (Inl e, db') \<Rightarrow> (Inl e, [], db')
           | (Inr None, db') \<Rightarrow> (Inr None, [], db')
           | (Inr (Some pending), db') \<Rightarrow> finish_action ae (dr_incident_id q) pending later db')"

section \<open>Sequences of transactions\<close>

datatype approval_event =
    CreateRequest int approval_spec int
  | CreateGate int gate_spec int int
  | ExpireGate string string int
  | DecideGate decision_request bool int
  | AuthorizeAction decision_request int
  | WriteStatus int incident_status int
  | Acknowledge int int int int
  | MarkResolved int int int int
  | Retire int int

fun approval_step :: "approval_env \<Rightarrow> approval_event \<Rightarrow> approval_db \<Rightarrow> approval_db" where
  "approval_step ae (CreateRequest fresh sp now) db = snd (create_or_reuse_pending_approval (ae_rt ae) fresh sp now db)"
| "approval_step ae (CreateGate fresh sp ttl now) db = snd (create_or_reuse_pending_gate_approval fresh sp ttl now db)"
| "approval_step ae (ExpireGate workflow gate now) db = expire_gate_approval workflow gate now db"
| "approval_step ae (DecideGate q approved now) db = snd (decide_gate_approval q approved now db)"
| "approval_step ae (AuthorizeAction q now) db = snd (authorize_action ae q now db)"
| "approval_step ae (WriteStatus i computed now) db = snd (write_run_status i computed now db)"
| "approval_step ae (Acknowledge i org cluster now) db = snd (snd (acknowledge_incident_resolution i org cluster now db))"
| "approval_step ae (MarkResolved i org cluster now) db = snd (snd (mark_incident_resolved_by_human i org cluster now db))"
| "approval_step ae (Retire i now) db = snd (retire_pending_remediation_approvals i now db)"

text \<open>A new identifier is one that no row has.\<close>

fun fresh_ids :: "approval_event \<Rightarrow> approval_db \<Rightarrow> bool" where
  "fresh_ids (CreateRequest fresh sp now) db = (fresh \<notin> ar_id ` set (db_requests db))"
| "fresh_ids (CreateGate fresh sp ttl now) db = (fresh \<notin> ga_id ` set (db_gates db))"
| "fresh_ids _ db = True"

definition approval_run :: "approval_env \<Rightarrow> approval_event list \<Rightarrow> approval_db \<Rightarrow> approval_db" where
  "approval_run ae es db = fold (approval_step ae) es db"

fun steps_ok :: "('e \<Rightarrow> 's \<Rightarrow> bool) \<Rightarrow> ('e \<Rightarrow> 's \<Rightarrow> 's) \<Rightarrow> 'e list \<Rightarrow> 's \<Rightarrow> bool" where
  "steps_ok ok step [] s = True"
| "steps_ok ok step (e # es) s = (ok e s \<and> steps_ok ok step es (step e s))"

definition fresh_run :: "approval_env \<Rightarrow> approval_event list \<Rightarrow> approval_db \<Rightarrow> bool" where
  "fresh_run ae es db = steps_ok fresh_ids (approval_step ae) es db"

text \<open>Rows change in place, new ones go last, identifiers stay, and rows outside \<open>undecided\<close> stay as they are.\<close>

definition evolves :: "('r \<Rightarrow> int) \<Rightarrow> ('r \<Rightarrow> bool) \<Rightarrow> 'r list \<Rightarrow> 'r list \<Rightarrow> bool" where
  "evolves rid undecided rows rows' =
     (distinct (map rid rows) \<longrightarrow> distinct (map rid rows')
        \<and> (\<exists>f new. rows' = map f rows @ new \<and> (\<forall>r \<in> set rows. rid (f r) = rid r)
             \<and> (\<forall>r \<in> set rows. undecided r \<or> f r = r)))"

section \<open>Lemmas on tables\<close>

lemma evolvesI:
  assumes "distinct (map rid rows) \<Longrightarrow> rows' = map f rows @ new"
    and "\<And>r. distinct (map rid rows) \<Longrightarrow> r \<in> set rows \<Longrightarrow> rid (f r) = rid r \<and> (undecided r \<or> f r = r)"
    and "distinct (map rid rows) \<Longrightarrow> distinct (map rid new) \<and> rid ` set new \<inter> rid ` set rows = {}"
  shows "evolves rid undecided rows rows'"
proof (unfold evolves_def, intro impI conjI exI)
  assume d: "distinct (map rid rows)"
  then have rows': "rows' = map f rows @ new" and keep: "\<forall>r \<in> set rows. rid (f r) = rid r \<and> (undecided r \<or> f r = r)"
    and new: "distinct (map rid new)" "rid ` set new \<inter> rid ` set rows = {}"
    using assms by auto
  from keep have ids: "map (rid \<circ> f) rows = map rid rows" by (simp add: map_eq_conv)
  show "rows' = map f rows @ new" by (rule rows')
  show "distinct (map rid rows')" using d new keep by (auto simp: rows' ids)
  show "\<forall>r \<in> set rows. rid (f r) = rid r" "\<forall>r \<in> set rows. undecided r \<or> f r = r" using keep by auto
qed

lemma evolves_refl [simp, intro]: "evolves rid undecided rows rows"
  by (rule evolvesI [where f = id and new = "[]"]) auto

lemma evolves_update:
  assumes "\<And>r. r \<in> set rows \<Longrightarrow> p r \<Longrightarrow> rid (f r) = rid r"
    and "\<And>r. distinct (map rid rows) \<Longrightarrow> r \<in> set rows \<Longrightarrow> p r \<Longrightarrow> undecided r"
  shows "evolves rid undecided rows (update_where p f rows)"
  by (rule evolvesI [where f = "\<lambda>r. if p r then f r else r" and new = "[]"]) (use assms in \<open>auto simp: update_where_def\<close>)

lemma evolvesE:
  assumes "evolves rid undecided rows rows'" "distinct (map rid rows)"
  obtains f new where "rows' = map f rows @ new" "\<And>r. r \<in> set rows \<Longrightarrow> rid (f r) = rid r"
    "\<And>r. r \<in> set rows \<Longrightarrow> undecided r \<or> f r = r" "distinct (map rid rows')"
  using assms unfolding evolves_def by blast

lemma evolves_append:
  assumes e: "evolves rid undecided rows rows'" and x: "rid x \<notin> rid ` set rows'"
  shows "evolves rid undecided rows (rows' @ [x])"
proof (unfold evolves_def, intro impI)
  assume d: "distinct (map rid rows)"
  obtain f new where f: "rows' = map f rows @ new" "\<forall>r \<in> set rows. rid (f r) = rid r"
      "\<forall>r \<in> set rows. undecided r \<or> f r = r" "distinct (map rid rows')"
    using evolvesE [OF e d] by metis
  have "distinct (map rid (rows' @ [x]))" using f(4) x by simp
  with f(1-3) show "distinct (map rid (rows' @ [x]))
      \<and> (\<exists>f new. rows' @ [x] = map f rows @ new \<and> (\<forall>r \<in> set rows. rid (f r) = rid r) \<and> (\<forall>r \<in> set rows. undecided r \<or> f r = r))"
    by (intro conjI exI [of _ f] exI [of _ "new @ [x]"]) simp_all
qed

lemma evolves_distinct: "evolves rid u rows rows' \<Longrightarrow> distinct (map rid rows) \<Longrightarrow> distinct (map rid rows')"
  by (simp add: evolves_def)

lemma evolves_decided:
  assumes "evolves rid u rows rows'" "distinct (map rid rows)" "r \<in> set rows" "\<not> u r"
  shows "r \<in> set rows'"
proof -
  obtain f new where "rows' = map f rows @ new" "u r \<or> f r = r" using evolvesE [OF assms(1,2)] assms(3) by metis
  then show ?thesis using assms(3,4) by force
qed

lemma evolves_ids:
  assumes "evolves rid u rows rows'" "distinct (map rid rows)"
  shows "rid ` set rows \<subseteq> rid ` set rows'"
  by (rule evolvesE [OF assms]) (auto simp: image_Un image_iff)

lemma distinct_id: "distinct (map rid rows) \<Longrightarrow> r \<in> set rows \<Longrightarrow> q \<in> set rows \<Longrightarrow> rid q = rid r \<Longrightarrow> q = r"
  by (metis distinct_map inj_onD)

lemma scalar_one_or_none_simps:
  "scalar_one_or_none xs = Inr (Some x) \<longleftrightarrow> xs = [x]" "scalar_one_or_none xs = Inr None \<longleftrightarrow> xs = []"
  by (auto simp: scalar_one_or_none_def split: list.splits)

lemma filter_single: "filter p xs = [x] \<Longrightarrow> x \<in> set xs \<and> p x"
  by (metis filter_eq_ConsD in_set_conv_decomp)

lemma newest_Some: "newest created (filter p xs) = Some x \<Longrightarrow> x \<in> set xs \<and> p x"
proof -
  assume "newest created (filter p xs) = Some x"
  then have "x \<in> set (sort_key (\<lambda>r. - created r) (filter p xs))"
    by (cases "sort_key (\<lambda>r. - created r) (filter p xs)") (auto simp: newest_def)
  then show ?thesis by simp
qed

lemma lock_ok:
  assumes "lock_incident_for_remediation db i c = Inr r"
  shows "r \<in> set (db_incidents db)" "ir_id r = i" "ir_cluster_id r = c" "ir_status r \<noteq> RESOLVED"
  using assms
  by (auto simp: lock_incident_for_remediation_def rbind_eq_Inr scalar_one_or_none_simps split: option.splits if_splits
      dest!: filter_single)

lemma set_incident_fields [simp]:
  "db_requests (set_incident i s t db) = db_requests db" "db_gates (set_incident i s t db) = db_gates db"
  "db_clusters (set_incident i s t db) = db_clusters db"
  by (simp_all add: set_incident_def)

abbreviation "undecided_request \<equiv> \<lambda>r. ar_status r = PENDING"
abbreviation "undecided_gate \<equiv> \<lambda>r. ga_status r = PENDING"
abbreviation "unresolved \<equiv> \<lambda>r. ir_status r \<noteq> RESOLVED"

lemma lookup_request_evolves: "evolves ar_id undecided_request rows (snd (lookup_request sp now rows))"
  by (auto simp: lookup_request_def matching_request_def split: option.splits dest!: newest_Some intro!: evolves_update)
     (metis distinct_id)

lemma update_where_ids: "(\<And>r. rid (f r) = rid r) \<Longrightarrow> map rid (update_where p f rows) = map rid rows"
  by (simp add: update_where_def)

lemma lookup_request_ids: "ar_id ` set (snd (lookup_request sp now rows)) = ar_id ` set rows"
proof -
  have "map ar_id (snd (lookup_request sp now rows)) = map ar_id rows"
    by (auto simp: lookup_request_def update_where_ids split: option.splits)
  then show ?thesis by (metis set_map)
qed

lemma create_requests:
  assumes "fresh \<notin> ar_id ` set (db_requests db)"
  shows "evolves ar_id undecided_request (db_requests db) (db_requests (snd (create_or_reuse_pending_approval rt fresh sp now db)))"
  using assms lookup_request_evolves [of "db_requests db" sp now] lookup_request_ids [of sp now "db_requests db"]
  by (auto simp: create_or_reuse_pending_approval_def Let_def new_request_def evolves_append
      split: sum.splits prod.splits option.splits)

lemma set_incident_evolves:
  assumes "lock_incident_for_remediation db i c = Inr r"
  shows "evolves ir_id unresolved (db_incidents db) (db_incidents (set_incident i s t db))"
proof -
  have "q = r" if "distinct (map ir_id (db_incidents db))" "q \<in> set (db_incidents db)" "ir_id q = i" for q
    using lock_ok [OF assms] distinct_id [OF that(1) lock_ok(1) [OF assms] that(2)] that(3) by simp
  then show ?thesis
    unfolding set_incident_def using lock_ok(4) [OF assms] by (auto intro!: evolves_update)
qed

lemma create_incidents:
  "evolves ir_id unresolved (db_incidents db) (db_incidents (snd (create_or_reuse_pending_approval rt fresh sp now db)))"
  using set_incident_evolves
  by (auto simp: create_or_reuse_pending_approval_def Let_def split: sum.splits prod.splits option.splits)

lemma create_gates_gates:
  assumes "fresh \<notin> ga_id ` set (db_gates db)"
  shows "evolves ga_id undecided_gate (db_gates db) (db_gates (snd (create_or_reuse_pending_gate_approval fresh sp ttl now db)))"
proof -
  let ?f = "newest ga_created_at (filter (open_gate (gs_workflow_id sp) (gs_gate sp)) (db_gates db))"
  have upd: "evolves ga_id undecided_gate (db_gates db) (update_where (\<lambda>q. ga_id q = ga_id g) (\<lambda>q. q\<lparr>ga_status := EXPIRED\<rparr>) (db_gates db))"
    if "?f = Some g" for g
    using newest_Some [OF that] by (intro evolves_update) (auto simp: open_gate_def dest: distinct_id)
  have "evolves ga_id undecided_gate (db_gates db) (rows @ [x])"
    if "ga_id x = fresh" "rows = db_gates db \<or> (\<exists>g. ?f = Some g \<and> rows = update_where (\<lambda>q. ga_id q = ga_id g) (\<lambda>q. q\<lparr>ga_status := EXPIRED\<rparr>) (db_gates db))"
    for x rows
    using that(2)
  proof
    assume "rows = db_gates db"
    then show ?thesis using that(1) assms by (simp add: evolves_append)
  next
    assume "\<exists>g. ?f = Some g \<and> rows = update_where (\<lambda>q. ga_id q = ga_id g) (\<lambda>q. q\<lparr>ga_status := EXPIRED\<rparr>) (db_gates db)"
    then obtain g where g: "?f = Some g" and rows: "rows = update_where (\<lambda>q. ga_id q = ga_id g) (\<lambda>q. q\<lparr>ga_status := EXPIRED\<rparr>) (db_gates db)"
      by blast
    have "map ga_id rows = map ga_id (db_gates db)" by (simp add: rows update_where_ids)
    then have "ga_id ` set rows = ga_id ` set (db_gates db)" by (metis set_map)
    then show ?thesis using upd [OF g] assms that(1) unfolding rows by (intro evolves_append) auto
  qed
  then show ?thesis
    by (auto simp: create_or_reuse_pending_gate_approval_def Let_def split: sum.splits option.splits if_splits)
qed

lemma cas_gate_evolves:
  assumes "\<And>r. ga_id (f r) = ga_id r"
  shows "evolves ga_id undecided_gate rows (snd (cas_gate i f rows))"
  using assms by (auto simp: cas_gate_def Let_def intro!: evolves_update)

lemma decide_gates:
  "evolves ga_id undecided_gate (db_gates db) (db_gates (snd (decide_gate_approval q approved now db)))"
  by (simp add: decide_gate_approval_def Let_def split_def split: sum.split option.split) (simp add: cas_gate_evolves)

lemma decide_gate_frame [simp]:
  "db_requests (snd (decide_gate_approval q approved now db)) = db_requests db"
  "db_incidents (snd (decide_gate_approval q approved now db)) = db_incidents db"
  by (auto simp: decide_gate_approval_def Let_def split: sum.splits option.splits prod.splits)

lemma create_gate_frame [simp]:
  "db_requests (snd (create_or_reuse_pending_gate_approval fresh sp ttl now db)) = db_requests db"
  "db_incidents (snd (create_or_reuse_pending_gate_approval fresh sp ttl now db)) = db_incidents db"
  by (auto simp: create_or_reuse_pending_gate_approval_def Let_def split: sum.splits option.splits)

lemma create_frame [simp]:
  "db_gates (snd (create_or_reuse_pending_approval rt fresh sp now db)) = db_gates db"
  by (auto simp: create_or_reuse_pending_approval_def Let_def split: sum.splits option.splits prod.splits)

lemma expire_gates: "evolves ga_id undecided_gate (db_gates db) (db_gates (expire_gate_approval w g now db))"
  by (auto simp: expire_gate_approval_def open_gate_def intro!: evolves_update)

lemma retire_tables:
  "evolves ar_id undecided_request (db_requests db) (db_requests (snd (retire_pending_remediation_approvals i now db)))"
  "evolves ga_id undecided_gate (db_gates db) (db_gates (snd (retire_pending_remediation_approvals i now db)))"
  by (auto simp: retire_pending_remediation_approvals_def Let_def intro!: evolves_update)

lemma cas_incident_evolves:
  assumes "\<And>r. p r \<Longrightarrow> ir_status r \<noteq> RESOLVED"
  shows "evolves ir_id unresolved (db_incidents db) (db_incidents (snd (cas_incident p now db)))"
  using assms by (auto simp: cas_incident_def intro!: evolves_update)

lemma cas_incident_frame [simp]:
  "db_requests (snd (cas_incident p now db)) = db_requests db" "db_gates (snd (cas_incident p now db)) = db_gates db"
  by (simp_all add: cas_incident_def)

lemma write_status_incidents:
  "evolves ir_id unresolved (db_incidents db) (db_incidents (snd (write_run_status i computed now db)))"
proof (cases "scalar_one_or_none (filter (\<lambda>r. ir_id r = i) (db_incidents db))")
  case (Inr found)
  show ?thesis
  proof (cases found)
    case (Some r)
    then have r: "r \<in> set (db_incidents db)" "ir_id r = i"
      using Inr filter_single [of "\<lambda>r. ir_id r = i"] by (auto simp: scalar_one_or_none_simps)
    have same: "q = r" if "distinct (map ir_id (db_incidents db))" "q \<in> set (db_incidents db)" "ir_id q = i" for q
      using distinct_id [OF that(1) r(1) that(2)] that(3) r(2) by simp
    let ?s = "effective_status_after_run (ir_status r) computed"
    let ?t = "if status_value (ir_status r) \<noteq> ''resolved'' then resolved_at_for_status ?s now else ir_resolved_at r"
    have "evolves ir_id unresolved (db_incidents db) (db_incidents (set_incident i ?s ?t db))"
      by (rule evolvesI [where new = "[]" and f = "\<lambda>q. if ir_id q = i then q\<lparr>ir_status := ?s, ir_resolved_at := ?t\<rparr> else q"])
         (auto simp: set_incident_def update_where_def effective_status_after_run_def dest: same)
    then show ?thesis using Inr Some by (simp add: write_run_status_def Let_def)
  qed (use Inr in \<open>simp add: write_run_status_def\<close>)
qed (simp add: write_run_status_def)

lemma write_status_frame [simp]:
  "db_requests (snd (write_run_status i computed now db)) = db_requests db"
  "db_gates (snd (write_run_status i computed now db)) = db_gates db"
  by (auto simp: write_run_status_def Let_def split: sum.splits option.splits)

text \<open>An authorization, decomposed: either nothing is written, or exactly the renewed request is approved.\<close>

definition approve_row :: "int \<Rightarrow> int \<Rightarrow> approval_request \<Rightarrow> approval_request" where
  "approve_row approver now r = r\<lparr>ar_status := APPROVED, ar_approver_user_id := Some approver, ar_decided_at := Some now\<rparr>"

lemma validate_pending_Inr:
  "validate_pending_approval s h h e now = Inr u \<Longrightarrow> s = PENDING \<and> now < e"
  by (auto simp: validate_pending_approval_def is_expired_def split: if_splits)

lemma renew_fields [simp]:
  "ar_id (renew rt db c now r) = ar_id r" "ar_status (renew rt db c now r) = ar_status r"
  "ar_action_hash (renew rt db c now r) = ar_action_hash r" "ar_thread_id (renew rt db c now r) = ar_thread_id r"
  by (simp_all add: renew_def)

lemma renew_update [simp]: "r\<lparr>ar_expires_at := ar_expires_at (renew rt db c now r)\<rparr> = renew rt db c now r"
  by (simp add: renew_def)

lemma authorize_action_cases:
  assumes "authorize_action ae q now db = (res, db')"
  obtains (refused) "db' = db" "\<forall>p. res \<noteq> Inr (Some p)"
  | (granted) incident row where "res = Inr (Some (renew (ae_rt ae) db (dr_cluster_id q) now row))"
      "lock_incident_for_remediation db (dr_incident_id q) (dr_cluster_id q) = Inr incident"
      "row \<in> set (db_requests db)" "owned_request q row" "ar_status row = PENDING"
      "check_graph ae (renew (ae_rt ae) db (dr_cluster_id q) now row) = Inr ()"
      "db' = db\<lparr>db_requests := snd (cas_request (ar_id row)
          (\<lambda>r. r\<lparr>ar_status := APPROVED, ar_approver_user_id := Some (dr_approver_user_id q), ar_decided_at := Some now\<rparr>)
          (update_where (\<lambda>r. ar_id r = ar_id row) (\<lambda>r. r\<lparr>ar_expires_at := ar_expires_at (renew (ae_rt ae) db (dr_cluster_id q) now row)\<rparr>) (db_requests db)))\<rparr>"
proof (cases "lock_incident_for_remediation db (dr_incident_id q) (dr_cluster_id q)")
  case (Inl e)
  then show thesis using assms by (intro refused) (auto simp: authorize_action_def)
next
  case (Inr incident)
  show thesis
  proof (cases "\<exists>row. scalar_one_or_none (filter (owned_request q) (db_requests db)) = Inr (Some row)")
    case False
    then show thesis using assms Inr by (intro refused) (auto simp: authorize_action_def split: sum.splits option.splits)
  next
    case True
    then obtain row where row: "scalar_one_or_none (filter (owned_request q) (db_requests db)) = Inr (Some row)" by blast
    then have mem: "row \<in> set (db_requests db)" "owned_request q row"
      by (auto simp: scalar_one_or_none_simps dest!: filter_single)
    let ?p = "renew (ae_rt ae) db (dr_cluster_id q) now row"
    let ?check = "rbind (validate_pending_approval (ar_status ?p) (ar_action_hash ?p) (ar_action_hash ?p) (ar_expires_at ?p) now)
      (\<lambda>_. check_graph ae ?p)"
    show thesis
    proof (cases ?check)
      case Inl2: (Inl e)
      then show thesis using assms Inr row by (intro refused) (auto simp: authorize_action_def Let_def)
    next
      case Inr2: (Inr u)
      then have pending: "ar_status row = PENDING" and graph: "check_graph ae ?p = Inr ()"
        by (auto simp: rbind_eq_Inr dest!: validate_pending_Inr)
      let ?cas = "cas_request (ar_id row)
          (\<lambda>r. r\<lparr>ar_status := APPROVED, ar_approver_user_id := Some (dr_approver_user_id q), ar_decided_at := Some now\<rparr>)
          (update_where (\<lambda>r. ar_id r = ar_id row) (\<lambda>r. r\<lparr>ar_expires_at := ar_expires_at ?p\<rparr>) (db_requests db))"
      have eq: "(res, db') = (if fst ?cas \<noteq> 1 then (Inl NotPending, db) else (Inr (Some ?p), db\<lparr>db_requests := snd ?cas\<rparr>))"
        unfolding assms [symmetric] authorize_action_def Let_def split_def Inr row
        by (simp only: sum.case option.case renew_fields Inr2 [unfolded renew_fields])
      show thesis
      proof (cases "fst ?cas = 1")
        case True
        with eq show thesis by (intro granted [OF _ Inr mem pending graph]) simp_all
      next
        case False
        with eq show thesis by (intro refused) simp_all
      qed
    qed
  qed
qed

lemma granted_rows:
  assumes "distinct (map ar_id rows)" "row \<in> set rows" "ar_status row = PENDING" "ar_id p = ar_id row"
    "p = row\<lparr>ar_expires_at := ar_expires_at p\<rparr>"
  shows "snd (cas_request (ar_id row)
            (\<lambda>r. r\<lparr>ar_status := APPROVED, ar_approver_user_id := Some a, ar_decided_at := Some now\<rparr>)
            (update_where (\<lambda>r. ar_id r = ar_id row) (\<lambda>r. r\<lparr>ar_expires_at := ar_expires_at p\<rparr>) rows))
       = update_where (\<lambda>r. ar_id r = ar_id row) (\<lambda>_. approve_row a now p) rows"
proof -
  have "r = row" if "r \<in> set rows" "ar_id r = ar_id row" for r
    using distinct_id [OF assms(1,2) that] .
  then show ?thesis
    using assms(3) by (subst assms(5)) (auto simp: cas_request_def update_where_def approve_row_def)
qed

lemma authorize_frame [simp]:
  "db_incidents (snd (authorize_action ae q now db)) = db_incidents db"
  "db_gates (snd (authorize_action ae q now db)) = db_gates db"
  by (simp_all add: authorize_action_def Let_def split_def split: sum.split option.split)

lemma authorize_requests:
  "evolves ar_id undecided_request (db_requests db) (db_requests (snd (authorize_action ae q now db)))"
proof (cases "authorize_action ae q now db" rule: prod.exhaust)
  case (Pair res db')
  then show ?thesis
  proof (cases rule: authorize_action_cases)
    case (granted incident row)
    have same: "r = row" if "distinct (map ar_id (db_requests db))" "r \<in> set (db_requests db)" "ar_id r = ar_id row" for r
      using distinct_id [OF that(1) granted(3) that(2,3)] .
    have rows: "db_requests db' = update_where (\<lambda>r. ar_id r = ar_id row)
        (\<lambda>_. approve_row (dr_approver_user_id q) now (renew (ae_rt ae) db (dr_cluster_id q) now row)) (db_requests db)"
      if "distinct (map ar_id (db_requests db))"
      using granted_rows [OF that granted(3,5) _ renew_update [symmetric]] granted(7) by simp
    show ?thesis
      unfolding Pair snd_conv
      by (rule evolvesI [where new = "[]" and
            f = "\<lambda>r. if ar_id r = ar_id row then approve_row (dr_approver_user_id q) now (renew (ae_rt ae) db (dr_cluster_id q) now row) else r"])
         (use granted(5) same rows in \<open>auto simp: update_where_def approve_row_def\<close>)
  qed (simp add: Pair)
qed

lemma acknowledge_tables [simp]:
  "db_requests (snd (snd (acknowledge_incident_resolution i org c now db))) = db_requests db"
  "db_gates (snd (snd (acknowledge_incident_resolution i org c now db))) = db_gates db"
  "db_requests (snd (snd (mark_incident_resolved_by_human i org c now db))) = db_requests db"
  "db_gates (snd (snd (mark_incident_resolved_by_human i org c now db))) = db_gates db"
  by (simp_all add: acknowledge_incident_resolution_def mark_incident_resolved_by_human_def Let_def split_def split: option.split)

lemma resolution_incidents:
  "evolves ir_id unresolved (db_incidents db) (db_incidents (snd (snd (acknowledge_incident_resolution i org c now db))))"
  "evolves ir_id unresolved (db_incidents db) (db_incidents (snd (snd (mark_incident_resolved_by_human i org c now db))))"
  by (simp_all add: acknowledge_incident_resolution_def mark_incident_resolved_by_human_def Let_def split_def
      split: option.split) (auto intro!: cas_incident_evolves)

lemma retire_incidents [simp]:
  "db_incidents (snd (retire_pending_remediation_approvals i now db)) = db_incidents db"
  by (simp add: retire_pending_remediation_approvals_def Let_def)

lemma expire_frame [simp]:
  "db_requests (expire_gate_approval w g now db) = db_requests db" "db_incidents (expire_gate_approval w g now db) = db_incidents db"
  by (simp_all add: expire_gate_approval_def)

lemma step_requests:
  "fresh_ids e db \<Longrightarrow> evolves ar_id undecided_request (db_requests db) (db_requests (approval_step ae e db))"
  by (cases e) (auto simp: create_requests authorize_requests retire_tables)

lemma step_gates:
  "fresh_ids e db \<Longrightarrow> evolves ga_id undecided_gate (db_gates db) (db_gates (approval_step ae e db))"
  by (cases e) (auto simp: create_gates_gates decide_gates expire_gates retire_tables)

lemma step_incidents: "evolves ir_id unresolved (db_incidents db) (db_incidents (approval_step ae e db))"
  by (cases e) (auto simp: create_incidents write_status_incidents resolution_incidents)

section \<open>Tables of decisions\<close>

text \<open>The contract of a table in which a decided row never changes: every step only moves undecided rows on
  and appends new ones. The two approval tables and the incident table satisfy it.\<close>

locale decision_table =
  fixes rows :: "'s \<Rightarrow> 'r list"
    and rid :: "'r \<Rightarrow> int"
    and undecided :: "'r \<Rightarrow> bool"
    and step :: "'e \<Rightarrow> 's \<Rightarrow> 's"
    and ok :: "'e \<Rightarrow> 's \<Rightarrow> bool"
  assumes step_evolves: "ok e s \<Longrightarrow> evolves rid undecided (rows s) (rows (step e s))"
begin

lemma run_decided:
  assumes "steps_ok ok step es s" "distinct (map rid (rows s))" "r \<in> set (rows s)" "\<not> undecided r"
  shows "r \<in> set (rows (fold step es s))"
  using assms
proof (induction es arbitrary: s)
  case (Cons e es)
  then have e: "evolves rid undecided (rows s) (rows (step e s))" by (simp add: step_evolves)
  show ?case
    using Cons.IH [of "step e s"] Cons.prems evolves_distinct [OF e] evolves_decided [OF e] by simp
qed simp

lemma run_distinct:
  "steps_ok ok step es s \<Longrightarrow> distinct (map rid (rows s)) \<Longrightarrow> distinct (map rid (rows (fold step es s)))"
  by (induction es arbitrary: s) (auto dest: step_evolves intro: evolves_distinct)

lemma run_same_id:
  assumes "steps_ok ok step es s" "distinct (map rid (rows s))" "r \<in> set (rows s)" "\<not> undecided r"
    and "q \<in> set (rows (fold step es s))" "rid q = rid r"
  shows "q = r"
  using distinct_id [OF run_distinct [OF assms(1,2)] run_decided [OF assms(1-4)] assms(5,6)] .

end

interpretation requests: decision_table db_requests ar_id undecided_request "approval_step ae" fresh_ids
  by unfold_locales (rule step_requests)

interpretation gates: decision_table db_gates ga_id undecided_gate "approval_step ae" fresh_ids
  by unfold_locales (rule step_gates)

interpretation incidents: decision_table db_incidents ir_id unresolved "approval_step ae" fresh_ids
  by unfold_locales (rule step_incidents)

definition ids_distinct :: "approval_db \<Rightarrow> bool" where
  "ids_distinct db = (distinct (map ar_id (db_requests db)) \<and> distinct (map ga_id (db_gates db)) \<and> distinct (map ir_id (db_incidents db)))"

lemma run_ids_distinct: "fresh_run ae es db \<Longrightarrow> ids_distinct db \<Longrightarrow> ids_distinct (approval_run ae es db)"
  by (simp add: ids_distinct_def fresh_run_def approval_run_def requests.run_distinct gates.run_distinct incidents.run_distinct)

section \<open>Resolved incidents\<close>

definition approvals_of :: "int \<Rightarrow> approval_db \<Rightarrow> approval_request list" where
  "approvals_of i db = filter (\<lambda>r. ar_incident_id r = i \<and> ar_status r = APPROVED) (db_requests db)"

definition gate_approvals_of :: "int \<Rightarrow> approval_db \<Rightarrow> gate_approval list" where
  "gate_approvals_of i db = filter (\<lambda>r. ga_incident_id r = i \<and> ga_status r = APPROVED) (db_gates db)"

lemma filter_update_where:
  "(\<And>r. r \<in> set rows \<Longrightarrow> p r \<Longrightarrow> \<not> P r \<and> \<not> P (f r)) \<Longrightarrow> filter P (update_where p f rows) = filter P rows"
  by (induction rows) (auto simp: update_where_def)

lemma resolved_locks:
  assumes "distinct (map ir_id (db_incidents db))" "r \<in> set (db_incidents db)" "ir_id r = i" "ir_status r = RESOLVED"
  shows "lock_incident_for_remediation db i c \<noteq> Inr q"
  using lock_ok [of db i c q] distinct_id [OF assms(1,2), of q] assms(3,4) by auto

lemma approvals_of_lookup:
  assumes "distinct (map ar_id rows)"
  shows "filter (\<lambda>r. ar_incident_id r = i \<and> ar_status r = APPROVED) (snd (lookup_request sp now rows))
       = filter (\<lambda>r. ar_incident_id r = i \<and> ar_status r = APPROVED) rows"
proof -
  have "ar_status q = PENDING" if "newest ar_created_at (filter (matching_request sp) rows) = Some r" "q \<in> set rows" "ar_id q = ar_id r" for q r
    using newest_Some [OF that(1)] distinct_id [OF assms _ that(2,3)] by (auto simp: matching_request_def)
  note pending = this
  show ?thesis
  proof (cases "newest ar_created_at (filter (matching_request sp) rows)")
    case (Some r)
    have "filter (\<lambda>r. ar_incident_id r = i \<and> ar_status r = APPROVED)
        (update_where (\<lambda>q. ar_id q = ar_id r) (\<lambda>q. q\<lparr>ar_status := EXPIRED\<rparr>) rows)
        = filter (\<lambda>r. ar_incident_id r = i \<and> ar_status r = APPROVED) rows"
      by (rule filter_update_where) (use pending [OF Some] in auto)
    then show ?thesis by (simp add: lookup_request_def Some)
  qed (simp add: lookup_request_def)
qed

lemma approvals_of_create:
  assumes "distinct (map ar_id (db_requests db))"
  shows "approvals_of i (snd (create_or_reuse_pending_approval rt fresh sp now db)) = approvals_of i db"
  using approvals_of_lookup [OF assms, of i sp now]
  by (simp add: approvals_of_def create_or_reuse_pending_approval_def Let_def split_def new_request_def
      split: sum.split option.split)

lemma approvals_of_authorize:
  assumes "\<And>c r. lock_incident_for_remediation db i c \<noteq> Inr r" "distinct (map ar_id (db_requests db))"
  shows "approvals_of i (snd (authorize_action ae q now db)) = approvals_of i db"
proof (cases "authorize_action ae q now db" rule: prod.exhaust)
  case (Pair res db')
  then show ?thesis
  proof (cases rule: authorize_action_cases)
    case (granted incident row)
    have "ar_incident_id row \<noteq> i" using assms(1) granted(2,4) by (auto simp: owned_request_def)
    moreover have "r = row" if "r \<in> set (db_requests db)" "ar_id r = ar_id row" for r
      using distinct_id [OF assms(2) granted(3) that] .
    ultimately show ?thesis
      using granted(5) unfolding Pair granted(7)
      by (simp add: approvals_of_def granted_rows [OF assms(2) granted(3,5) renew_fields(1) renew_update [symmetric]])
         (rule filter_update_where, auto simp: approve_row_def renew_def)
  qed (simp add: Pair)
qed

lemma approvals_of_retire: "approvals_of i (snd (retire_pending_remediation_approvals j now db)) = approvals_of i db"
  by (auto simp: approvals_of_def retire_pending_remediation_approvals_def Let_def intro!: filter_update_where)

lemma step_approvals_of:
  assumes "\<And>c r. lock_incident_for_remediation db i c \<noteq> Inr r" "ids_distinct db"
  shows "approvals_of i (approval_step ae e db) = approvals_of i db"
proof -
  have d: "distinct (map ar_id (db_requests db))" using assms(2) by (simp add: ids_distinct_def)
  show ?thesis
    by (cases e) (simp_all add: approvals_of_create [OF d] approvals_of_authorize [OF assms(1) d] approvals_of_retire,
        simp_all add: approvals_of_def)
qed

lemma gate_approvals_create:
  assumes "distinct (map ga_id (db_gates db))"
  shows "gate_approvals_of i (snd (create_or_reuse_pending_gate_approval fresh sp ttl now db)) = gate_approvals_of i db"
proof -
  let ?found = "newest ga_created_at (filter (open_gate (gs_workflow_id sp) (gs_gate sp)) (db_gates db))"
  have "filter (\<lambda>r. ga_incident_id r = i \<and> ga_status r = APPROVED)
          (update_where (\<lambda>q. ga_id q = ga_id r) (\<lambda>q. q\<lparr>ga_status := EXPIRED\<rparr>) (db_gates db))
      = filter (\<lambda>r. ga_incident_id r = i \<and> ga_status r = APPROVED) (db_gates db)" if "?found = Some r" for r
  proof (rule filter_update_where)
    fix q assume q: "q \<in> set (db_gates db)" "ga_id q = ga_id r"
    have "q = r" using distinct_id [OF assms _ q] newest_Some [OF that] by blast
    then show "\<not> (ga_incident_id q = i \<and> ga_status q = APPROVED)
        \<and> \<not> (ga_incident_id (q\<lparr>ga_status := EXPIRED\<rparr>) = i \<and> ga_status (q\<lparr>ga_status := EXPIRED\<rparr>) = APPROVED)"
      using newest_Some [OF that] by (simp add: open_gate_def)
  qed
  then show ?thesis
    by (cases ?found) (simp_all add: gate_approvals_of_def create_or_reuse_pending_gate_approval_def Let_def split: sum.split)
qed

lemma gate_approvals_decide:
  assumes "\<And>c r. lock_incident_for_remediation db i c \<noteq> Inr r" "distinct (map ga_id (db_gates db))"
  shows "gate_approvals_of i (snd (decide_gate_approval q approved now db)) = gate_approvals_of i db"
proof (cases "dr_incident_id q = i")
  case True
  then have "decide_gate_approval q approved now db = (Inl e, db)"
    if "lock_incident_for_remediation db (dr_incident_id q) (dr_cluster_id q) = Inl e" for e
    using that by (simp add: decide_gate_approval_def)
  then show ?thesis
    using assms(1) [of "dr_cluster_id q"] True
    by (cases "lock_incident_for_remediation db (dr_incident_id q) (dr_cluster_id q)") auto
next
  case False
  have cas: "filter (\<lambda>r. ga_incident_id r = i \<and> ga_status r = APPROVED) (snd (cas_gate (ga_id row) f (db_gates db)))
      = filter (\<lambda>r. ga_incident_id r = i \<and> ga_status r = APPROVED) (db_gates db)"
    if "filter (owned_gate q) (db_gates db) = [row]" "\<And>r. ga_incident_id (f r) = ga_incident_id r" for row f
    using filter_single [OF that(1)] distinct_id [OF assms(2), of row] that(2) False
    by (simp add: cas_gate_def Let_def) (rule filter_update_where, auto simp: owned_gate_def)
  show ?thesis
    by (simp add: gate_approvals_of_def decide_gate_approval_def Let_def split_def scalar_one_or_none_simps cas
        split: sum.split option.split)
qed

lemma step_gate_approvals_of:
  assumes "\<And>c r. lock_incident_for_remediation db i c \<noteq> Inr r" "ids_distinct db"
  shows "gate_approvals_of i (approval_step ae e db) = gate_approvals_of i db"
proof -
  have d: "distinct (map ga_id (db_gates db))" using assms(2) by (simp add: ids_distinct_def)
  have retire: "gate_approvals_of i (snd (retire_pending_remediation_approvals j now db)) = gate_approvals_of i db" for j now
    by (auto simp: gate_approvals_of_def retire_pending_remediation_approvals_def Let_def intro!: filter_update_where)
  have expire: "gate_approvals_of i (expire_gate_approval w g now db) = gate_approvals_of i db" for w g now
    by (auto simp: gate_approvals_of_def expire_gate_approval_def open_gate_def intro!: filter_update_where)
  show ?thesis
    by (cases e) (simp_all add: gate_approvals_create [OF d] gate_approvals_decide [OF assms(1) d] retire expire,
        simp_all add: gate_approvals_of_def)
qed

lemma check_graph_Inr:
  assumes "check_graph ae r = Inr ()"
  obtains tasks shown report where "ae_snapshot ae (ar_thread_id r) = Some tasks" "interrupt_report tasks = Inr (shown, report)"
    "py_str (ae_rt ae) (py_dict_get shown ''approval_request_id'' PNone) = uuid_str (ar_id r)"
    "py_str (ae_rt ae) (py_dict_get shown ''action_hash'' (PStr [])) = ar_action_hash r"
    "compute_action_hash (ae_sha256 ae) (ae_rt ae) report = ar_action_hash r"
  using assms
  by (auto simp: check_graph_def check_interrupt_def rbind_eq_Inr compare_digest_def split: if_splits option.splits)

section \<open>Properties\<close>

text \<open>C15. A remediation is approved only for exactly what the paused graph shows: when the decision commits,
  the incident exists in that cluster and is not resolved, the request belongs to the caller's incident,
  organization and cluster and is pending, the graph is paused at an interrupt that carries this request,
  and the hash of the report shown there is the hash the request was created with; then that one
  request is approved and nothing else changes. Every other outcome writes nothing and resumes nothing.\<close>

theorem approval_matches_shown_report:
  assumes "distinct (map ar_id (db_requests db))"
  shows "case fst (authorize_action ae q now db) of
      Inr (Some p) \<Rightarrow>
        (\<exists>row \<in> set (db_requests db). owned_request q row \<and> ar_status row = PENDING
           \<and> p = row\<lparr>ar_expires_at := ar_expires_at p\<rparr>
           \<and> (\<exists>incident \<in> set (db_incidents db). ir_id incident = dr_incident_id q
                \<and> ir_cluster_id incident = dr_cluster_id q \<and> ir_status incident \<noteq> RESOLVED)
           \<and> (\<exists>tasks shown report. ae_snapshot ae (ar_thread_id row) = Some tasks
                \<and> interrupt_report tasks = Inr (shown, report)
                \<and> py_str (ae_rt ae) (py_dict_get shown ''approval_request_id'' PNone) = uuid_str (ar_id row)
                \<and> compute_action_hash (ae_sha256 ae) (ae_rt ae) report = ar_action_hash row)
           \<and> snd (authorize_action ae q now db) = db\<lparr>db_requests :=
                update_where (\<lambda>r. ar_id r = ar_id row) (\<lambda>_. approve_row (dr_approver_user_id q) now p) (db_requests db)\<rparr>)
    | _ \<Rightarrow> snd (decide_action_approval ae q now later db) = ([], db)"
proof (cases "authorize_action ae q now db" rule: prod.exhaust)
  case (Pair res db')
  then show ?thesis
  proof (cases rule: authorize_action_cases)
    case refused
    then show ?thesis
      using Pair by (cases res rule: sum.exhaust) (auto simp: decide_action_approval_def split: option.split)
  next
    case (granted incident row)
    let ?p = "renew (ae_rt ae) db (dr_cluster_id q) now row"
    from granted(6) obtain tasks shown report where
      "ae_snapshot ae (ar_thread_id row) = Some tasks" "interrupt_report tasks = Inr (shown, report)"
      "py_str (ae_rt ae) (py_dict_get shown ''approval_request_id'' PNone) = uuid_str (ar_id row)"
      "compute_action_hash (ae_sha256 ae) (ae_rt ae) report = ar_action_hash row"
      by (auto elim!: check_graph_Inr)
    moreover have "db' = db\<lparr>db_requests :=
        update_where (\<lambda>r. ar_id r = ar_id row) (\<lambda>_. approve_row (dr_approver_user_id q) now ?p) (db_requests db)\<rparr>"
      using granted(7) granted_rows [OF assms granted(3,5) renew_fields(1) renew_update [symmetric]] by simp
    moreover have "?p = row\<lparr>ar_expires_at := ar_expires_at ?p\<rparr>" by (rule renew_update [symmetric])
    ultimately show ?thesis
      using lock_ok [OF granted(2)] granted(3-5) unfolding Pair granted(1) fst_conv snd_conv sum.case option.case
      by (intro bexI [of _ row]) blast+
  qed
qed



lemma approval_ttl_pos: "0 < approval_ttl rt c"
  by (auto simp: approval_ttl_def Let_def seconds_def split: option.split)

lemma filter_set_incident:
  "filter (\<lambda>r. ir_id r = i \<and> ir_cluster_id r = c) (db_incidents (set_incident j s t db))
     = map (\<lambda>r. if ir_id r = j then r\<lparr>ir_status := s, ir_resolved_at := t\<rparr> else r)
         (filter (\<lambda>r. ir_id r = i \<and> ir_cluster_id r = c) (db_incidents db))"
proof -
  have "filter (\<lambda>r. ir_id r = i \<and> ir_cluster_id r = c) (update_where p (\<lambda>r. r\<lparr>ir_status := s, ir_resolved_at := t\<rparr>) rows)
      = map (\<lambda>r. if p r then r\<lparr>ir_status := s, ir_resolved_at := t\<rparr> else r) (filter (\<lambda>r. ir_id r = i \<and> ir_cluster_id r = c) rows)" for p rows
    by (induction rows) (auto simp: update_where_def)
  then show ?thesis by (simp add: set_incident_def)
qed

lemma lock_iff:
  "lock_incident_for_remediation db i c = Inr r \<longleftrightarrow>
     filter (\<lambda>r. ir_id r = i \<and> ir_cluster_id r = c) (db_incidents db) = [r] \<and> ir_status r \<noteq> RESOLVED"
  by (auto simp: lock_incident_for_remediation_def rbind_def scalar_one_or_none_def split: list.splits)

lemma lock_set_incident:
  assumes "lock_incident_for_remediation db i c = Inr r" "s \<noteq> RESOLVED"
  shows "\<exists>r. lock_incident_for_remediation (set_incident i s t db\<lparr>db_requests := rows\<rparr>) i c = Inr r"
  using assms by (auto simp: lock_iff filter_set_incident dest: filter_single)

lemma newest_single: "newest created [x] = Some x"
  by (simp add: newest_def)

text \<open>Asking for the same approval again is idempotent: as long as the request has not expired, a retry finds
  the very request of the first call, marks it as not newly created, and adds no row.\<close>

theorem pending_approval_retry:
  assumes first: "create_or_reuse_pending_approval rt fresh sp now db = (Inr p, db')"
    and time: "now \<le> now'" "now' < pa_expires_at p"
  shows "fst (create_or_reuse_pending_approval rt fresh' sp now' db') = Inr (p\<lparr>pa_created := False\<rparr>)
       \<and> db_requests (snd (create_or_reuse_pending_approval rt fresh' sp now' db')) = db_requests db'"
proof -
  obtain r where r: "lock_incident_for_remediation db (as_incident_id sp) (as_cluster_id sp) = Inr r"
    using first by (cases "lock_incident_for_remediation db (as_incident_id sp) (as_cluster_id sp)")
      (auto simp: create_or_reuse_pending_approval_def)
  note lock = lock_set_incident [OF r, where s = AWAITING_APPROVAL and t = None]
  obtain found rows where look: "lookup_request sp now (db_requests db) = (found, rows)" by fastforce
  have retry: ?thesis if "db' = set_incident (as_incident_id sp) AWAITING_APPROVAL None db\<lparr>db_requests := rows'\<rparr>"
      "lookup_request sp now' rows' = (Some x, rows')" "p\<lparr>pa_created := False\<rparr> = to_pending x False" for x rows'
    using lock [where rows = rows'] that by (auto simp: create_or_reuse_pending_approval_def)
  show ?thesis
  proof (cases found)
    case (Some x)
    then have x: "newest ar_created_at (filter (matching_request sp) (db_requests db)) = Some x" "rows = db_requests db"
      using look by (auto simp: lookup_request_def split: option.splits if_splits)
    have p: "p = to_pending x False" "db' = set_incident (as_incident_id sp) AWAITING_APPROVAL None db\<lparr>db_requests := rows\<rparr>"
      using first r look Some by (auto simp: create_or_reuse_pending_approval_def)
    show ?thesis
      by (rule retry [OF p(2), of x]) (use x p time in \<open>auto simp: lookup_request_def is_expired_def to_pending_def\<close>)
  next
    case None
    let ?r = "new_request fresh sp (now + approval_ttl rt (get_cluster db (as_cluster_id sp))) now"
    show ?thesis
    proof (cases "pending_clash rows (as_thread_id sp) (as_action_hash sp)")
      case False
      then have p: "p = to_pending ?r True" "db' = set_incident (as_incident_id sp) AWAITING_APPROVAL None db\<lparr>db_requests := rows @ [?r]\<rparr>"
        using first r look None by (auto simp: create_or_reuse_pending_approval_def Let_def)
      have "filter (matching_request sp) rows = []"
        using False by (auto simp: filter_empty_conv pending_clash_def list_ex_iff matching_request_def)
      then have "newest ar_created_at (filter (matching_request sp) (rows @ [?r])) = Some ?r"
        by (simp add: matching_request_def new_request_def newest_single)
      then show ?thesis
        by (intro retry [OF p(2), of ?r]) (use p time in \<open>auto simp: lookup_request_def is_expired_def to_pending_def new_request_def\<close>)
    next
      case True
      then obtain x where x: "filter (matching_request sp) (db_requests db) = [x]" "p = to_pending x False"
        using first r look None
        by (auto simp: create_or_reuse_pending_approval_def Let_def rbind_eq_Inr scalar_one_or_none_simps split: option.splits)
      then have "is_expired (ar_expires_at x) now"
        using look None by (auto simp: lookup_request_def newest_single split: if_splits)
      then show ?thesis using x time by (simp add: is_expired_def to_pending_def)
    qed
  qed
qed

text \<open>The docstring lists expiry among the errors; a stale request is renewed first, so it never occurs.\<close>

lemma decide_action_never_expired: "fst (decide_action_approval ae q now later db) \<noteq> Inl Expired"
proof -
  have lock: "lock_incident_for_remediation db i c \<noteq> Inl Expired" for i c
    by (simp add: lock_incident_for_remediation_def rbind_def scalar_one_or_none_def split: list.split)
  have scalar: "scalar_one_or_none xs \<noteq> Inl Expired" for xs :: "approval_request list"
    by (simp add: scalar_one_or_none_def split: list.split)
  have valid: "validate_pending_approval (ar_status r) h h (ar_expires_at (renew rt db c now r)) now \<noteq> Inl Expired" for rt h c r
    using approval_ttl_pos [of rt "get_cluster db c"]
    by (simp add: validate_pending_approval_def is_expired_def renew_def compare_digest_def rbind_def)
  have "interrupt_report tasks \<noteq> Inl Expired" for tasks
    by (simp add: interrupt_report_def split: option.split pyval.split)
  then have graph: "check_graph ae r \<noteq> Inl Expired" for r
    by (simp add: check_graph_def check_interrupt_def rbind_def compare_digest_def split: option.split sum.split) metis
  have "fst (authorize_action ae q now db) \<noteq> Inl Expired"
    using lock scalar valid graph
    by (simp add: authorize_action_def Let_def split_def rbind_def split: sum.split option.split) blast
  then show ?thesis
    by (simp add: decide_action_approval_def finish_action_def Let_def split_def write_run_status_def scalar_one_or_none_def
        split: sum.split option.split list.split prod.split) metis
qed

section \<open>A request from creation to approval\<close>

definition sample_report :: pydict where
  "sample_report = [(''plan_present'', PBool True), (''observed_at'', PStr ''now'')]"

definition sample_spec :: approval_spec where
  "sample_spec = \<lparr>as_incident_id = 1, as_thread_id = ''t1'', as_organization_id = 3, as_cluster_id = 2, as_action_hash = ''h1''\<rparr>"

definition sample_approval_env :: approval_env where
  "sample_approval_env = \<lparr>ae_rt = no_runtime, ae_sha256 = \<lambda>_. ''h1'', ae_durable = True, ae_runtime_ok = True,
     ae_thread_bound = True,
     ae_snapshot = \<lambda>_. Some [[PDict [(''type'', PStr ''approval_required''), (''approval_request_id'', PStr (uuid_str 7)),
       (''thread_id'', PStr ''t1''), (''report'', PDict sample_report), (''action_hash'', PStr ''h1'')]]],
     ae_resume = \<lambda>_ _ db. ([], None, db)\<rparr>"

definition empty_db :: "incident_status \<Rightarrow> approval_db" where
  "empty_db status = \<lparr>db_incidents = [\<lparr>ir_id = 1, ir_cluster_id = 2, ir_title = ''[cart] Down'', ir_created_at = 0, ir_status = status, ir_resolved_at = None\<rparr>],
     db_clusters = [\<lparr>cl_id = 2, cl_org_id = 3, cl_prometheus_url = Some ''http://prom'', cl_approval_ttl_minutes = Some 5\<rparr>], db_requests = [], db_gates = []\<rparr>"

definition waiting_request :: approval_request where
  "waiting_request = new_request 7 sample_spec (seconds 300) 0"

definition waiting_db :: approval_db where
  "waiting_db = (empty_db AWAITING_APPROVAL)\<lparr>db_requests := [waiting_request]\<rparr>"

definition sample_decision :: decision_request where
  "sample_decision = \<lparr>dr_approval_id = 7, dr_incident_id = 1, dr_organization_id = 3, dr_cluster_id = 2, dr_approver_user_id = 9\<rparr>"

definition approved_db :: approval_db where
  "approved_db = waiting_db\<lparr>db_requests := [approve_row 9 1 waiting_request]\<rparr>"

lemma sample_authorized: "fst (authorize_action sample_approval_env sample_decision 1 waiting_db) = Inr (Some waiting_request)"
  by code_simp

theorem approval_matches_shown_report_witness:
  "\<exists>tasks shown report. ae_snapshot sample_approval_env ''t1'' = Some tasks \<and> interrupt_report tasks = Inr (shown, report)
     \<and> compute_action_hash (ae_sha256 sample_approval_env) no_runtime report = ''h1''
     \<and> snd (authorize_action sample_approval_env sample_decision 1 waiting_db) = approved_db"
proof -
  have "distinct (map ar_id (db_requests waiting_db))" by (simp add: waiting_db_def)
  from approval_matches_shown_report [OF this, of sample_approval_env sample_decision 1 0]
  show ?thesis
    unfolding sample_authorized
    by (auto simp: waiting_db_def waiting_request_def new_request_def sample_spec_def update_where_def approved_db_def
        sample_approval_env_def sample_decision_def)
qed

definition later_events :: "approval_event list" where
  "later_events = [AuthorizeAction sample_decision 2, Retire 1 3, CreateRequest 8 sample_spec 4, AuthorizeAction sample_decision 5]"

lemma later_fresh: "fresh_run sample_approval_env later_events approved_db" "ids_distinct approved_db"
  by (code_simp, simp add: ids_distinct_def approved_db_def waiting_db_def empty_db_def)


definition resolved_db :: approval_db where
  "resolved_db = (empty_db RESOLVED)\<lparr>db_requests := [waiting_request]\<rparr>"

lemma resolved_fresh: "fresh_run sample_approval_env later_events resolved_db" "ids_distinct resolved_db"
  by (code_simp, simp add: ids_distinct_def resolved_db_def empty_db_def)


lemma sample_created:
  "create_or_reuse_pending_approval no_runtime 7 sample_spec 0 (empty_db INVESTIGATED) = (Inr (to_pending waiting_request True), waiting_db)"
  by code_simp

theorem pending_approval_retry_witness:
  "fst (create_or_reuse_pending_approval no_runtime 8 sample_spec 9 waiting_db) = Inr (to_pending waiting_request False)"
proof -
  have "to_pending waiting_request True\<lparr>pa_created := False\<rparr> = to_pending waiting_request False"
    by (simp add: to_pending_def)
  moreover have "(9 :: int) < pa_expires_at (to_pending waiting_request True)"
    by (simp add: to_pending_def waiting_request_def new_request_def seconds_def)
  ultimately show ?thesis using pending_approval_retry [OF sample_created, of 9 8] by simp
qed

end
