(* ===== verification/Act_Phase.thy ===== *)
theory Act_Phase
  imports Mutation_Gateway
begin

text \<open>
  From a remediation plan to what runs (\<open>src/src/sre_agent/act_phase.py\<close>): the report that gates every
  action of the plan, the live requests made from it, and their execution through the mutation
  gateway. The signals extracted from the graph state, the calibration file, SHA-256 and the delivery
  of a page are parameters; a calibration file that can not be read counts as a calibration error,
  which the code catches alike. Summaries and message texts are not modelled.

  Shown here: the report has one entry per action in the plan's order and is never more permissive
  than the gate; an approval is asked for only when it would release something; a live request stems
  from an action that is autonomous or, after approval, held, never from a blocked one, and no
  mutation is requested twice; every tool call of a live run is the gateway's.
\<close>

section \<open>Inputs\<close>

record act_state =
  at_signals :: incident_signals
  at_incident_id :: "string option"
  at_plan :: "remediation_plan option"
  at_cluster_environment :: pyval
  at_cluster_namespace :: pyval
  at_reflector_hypothesis :: "string option"
  at_alert_labels :: pydict
  at_approval_hash :: string
  at_notified :: "nat list"

record act_env =
  av_rt :: runtime
  av_severity_config :: severity_config
  av_load :: "string \<Rightarrow> (cal_error, calibration_artifact) res"
  av_sha256 :: "string \<Rightarrow> string"
  av_now_iso :: string

definition raw_probability :: "flt option \<Rightarrow> flt option" where
  "raw_probability v =
     (case v of Some x \<Rightarrow> (if flt_le (Fin 0) x \<and> flt_le x (Fin 1) then Some x else None) | None \<Rightarrow> None)"

definition configured_confidence :: "act_env \<Rightarrow> flt option \<Rightarrow> string \<Rightarrow> string \<Rightarrow> (py_error, calibrated_confidence option) res" where
  "configured_confidence av raw task variable =
     (let configured = strip (getenv (av_rt av) variable []);
          fingerprint = strip (getenv (av_rt av) ''SENTINEL_CONFIG_FINGERPRINT'' [])
      in case raw of
           None \<Rightarrow> Inr None
         | Some x \<Rightarrow>
             (if configured = [] \<or> fingerprint = [] then Inr None
              else case rbind (av_load av configured) (\<lambda>artifact. calibrate_confidence (PFloat x) artifact task fingerprint) of
                     Inr c \<Rightarrow> Inr (Some c)
                   | Inl CalibrationError \<Rightarrow> Inr None
                   | Inl CalOSError \<Rightarrow> Inr None
                   | Inl (CalRaised e) \<Rightarrow> Inl e))"

definition incident_environment :: "runtime \<Rightarrow> act_state \<Rightarrow> string" where
  "incident_environment rt s =
     (let raw = lower (py_str rt (py_or (at_cluster_environment s) (PStr ''production'')))
      in case map_of environment_aliases raw of Some e \<Rightarrow> e | None \<Rightarrow> ''production'')"

definition plan_risk_score :: "remediation_plan \<Rightarrow> flt" where
  "plan_risk_score p =
     (let level = lower (if risk_level p = [] then ''medium'' else risk_level p)
      in if level = ''low'' then Fin 2 else if level = ''high'' then Fin 8 else Fin 5)"

section \<open>The report\<close>

datatype 'r act_reason = OutOfScope string string | GateReason "'r gate_reason" | NoCapability string | UnfitRemedy unfit_reason

record 'r action_report =
  rp_action_type :: string
  rp_target :: string
  rp_namespace :: string
  rp_parameters :: pydict
  rp_decision :: autonomy_decision
  rp_reversibility :: reversibility
  rp_reason :: "'r act_reason"
  rp_calibrated :: bool
  rp_probability :: pyval
  rp_minimum :: pyval
  rp_command :: "string option"
  rp_audit_hash :: pyval
  rp_rollback_command :: "string option"

text \<open>The namespace text of the parameters; none stands for the \<open>AttributeError\<close> of parameters that are no
  dictionary.\<close>

definition action_ns :: "runtime \<Rightarrow> remediation_action \<Rightarrow> string option" where
  "action_ns rt a =
     (case params_dict a of
        None \<Rightarrow> None
      | Some d \<Rightarrow> Some (strip (py_str rt (py_or (py_dict_get d ''namespace'' (PStr [])) (PStr [])))))"

text \<open>An action without a namespace takes the cluster's; the parameters are changed in place.\<close>

definition default_namespace :: "string \<Rightarrow> remediation_action \<Rightarrow> remediation_action" where
  "default_namespace cluster_ns a =
     (case parameters a of
        PDict d \<Rightarrow> a\<lparr>parameters := PDict (py_dict_set d ''namespace'' (PStr cluster_ns))\<rparr>
      | _ \<Rightarrow> a)"

definition base_report :: "remediation_action \<Rightarrow> string \<Rightarrow> 'r gate_decision \<Rightarrow> 'r action_report" where
  "base_report a namespace gd =
     \<lparr>rp_action_type = action_type a, rp_target = target a, rp_namespace = namespace,
      rp_parameters = (case params_dict a of Some d \<Rightarrow> d | None \<Rightarrow> []), rp_decision = gd_decision gd,
      rp_reversibility = gd_reversibility gd, rp_reason = GateReason (gd_reason gd),
      rp_calibrated = gd_confidence_calibrated gd, rp_probability = gd_calibrated_action_probability gd,
      rp_minimum = gd_minimum_autonomy_probability gd, rp_command = None, rp_audit_hash = PNone,
      rp_rollback_command = None\<rparr>"

definition blocked_report :: "'r action_report \<Rightarrow> 'r act_reason \<Rightarrow> 'r action_report" where
  "blocked_report rp why = rp\<lparr>rp_decision := BLOCKED, rp_reason := why\<rparr>"

definition dry_run_report :: "act_env \<Rightarrow> executor \<Rightarrow> bool \<Rightarrow> remediation_action \<Rightarrow> 'r action_report
    \<Rightarrow> (execute_error, 'r action_report) res" where
  "dry_run_report av ex dry_run a rp =
     rbind (execute (av_rt av) (av_sha256 av) (av_now_iso av) ex a (decision_value (rp_decision rp)) dry_run) (\<lambda>r.
       Inr (rp\<lparr>rp_command := Some (er_command r), rp_audit_hash := py_dict_get (er_audit r) ''content_hash'' PNone,
              rp_rollback_command := er_rollback_command r\<rparr>))"

text \<open>The report of an action that is in scope, under the namespace it acts in.\<close>

definition gated_report :: "act_env \<Rightarrow> executor \<Rightarrow> bool \<Rightarrow> bool \<Rightarrow> bool \<Rightarrow> remediation_action \<Rightarrow> string \<Rightarrow> 'r gate_decision
    \<Rightarrow> (execute_error, 'r action_report) res" where
  "gated_report av ex dry_run memory_leak dependency_outage a ns gd =
     (let rp = base_report a ns gd; atype = lower (action_type a)
      in if map_of EXECUTOR_TOOL_MAP atype \<noteq> None \<and> live_tool_for_action (av_rt av) a = None
         then Inr (blocked_report rp (NoCapability (missing_capability_reason atype)))
         else case unfit_remedy_reason a memory_leak dependency_outage of
                Some why \<Rightarrow> Inr (blocked_report rp (UnfitRemedy why))
              | None \<Rightarrow> (if gd_decision gd = AUTONOMOUS then dry_run_report av ex dry_run a rp else Inr rp))"

text \<open>The loop body: the report of one action and the action as it is afterwards.\<close>

definition report_action :: "act_env \<Rightarrow> executor \<Rightarrow> bool \<Rightarrow> string \<Rightarrow> bool \<Rightarrow> bool \<Rightarrow> remediation_action \<times> 'r gate_decision
    \<Rightarrow> (execute_error, 'r action_report \<times> remediation_action) res" where
  "report_action av ex dry_run cluster_ns memory_leak dependency_outage ag =
     (let (a0, gd) = ag in
      case action_ns (av_rt av) a0 of
        None \<Rightarrow> Inl (PyError AttributeError)
      | Some ns0 \<Rightarrow>
          (if cluster_ns \<noteq> [] \<and> ns0 \<noteq> [] \<and> ns0 \<noteq> cluster_ns
           then Inr ((blocked_report (base_report a0 ns0 gd) (OutOfScope ns0 cluster_ns))
                       \<lparr>rp_calibrated := False, rp_probability := PNone, rp_minimum := PNone\<rparr>, a0)
           else
             let a = (if cluster_ns \<noteq> [] \<and> ns0 = [] then default_namespace cluster_ns a0 else a0);
                 ns = (if ns0 \<noteq> [] then ns0 else if cluster_ns \<noteq> [] then cluster_ns else ''default'')
             in rbind (gated_report av ex dry_run memory_leak dependency_outage a ns gd) (\<lambda>rp. Inr (rp, a))))"

fun report_all :: "('x \<Rightarrow> ('e, 'y) res) \<Rightarrow> 'x list \<Rightarrow> ('e, 'y list) res" where
  "report_all f [] = Inr []"
| "report_all f (x # xs) = rbind (f x) (\<lambda>y. rbind (report_all f xs) (\<lambda>ys. Inr (y # ys)))"

text \<open>An approval is asked for only while an action is held.\<close>

definition final_aggregate :: "autonomy_decision \<Rightarrow> 'r action_report list \<Rightarrow> autonomy_decision" where
  "final_aggregate aggregate reports =
     (let left = rp_decision ` set reports
      in if aggregate = REQUIRES_APPROVAL \<and> REQUIRES_APPROVAL \<notin> left
         then (if AUTONOMOUS \<in> left then AUTONOMOUS else BLOCKED)
         else aggregate)"

record 'r act_report =
  rt_severity :: severity
  rt_policy_severity :: severity
  rt_plan_present :: bool
  rt_aggregate :: "autonomy_decision option"
  rt_reports :: "'r action_report list"
  rt_executed :: "'r action_report list"
  rt_unknown_telemetry :: bool
  rt_evidence :: "evidence_link list"
  rt_confidence_ready :: bool
  rt_raw_confidence :: "flt option"
  rt_probability :: pyval
  rt_minimum :: pyval
  rt_artifact_version :: "string option"
  rt_blocked_reason :: "string option"
  rt_planning_failed :: "string option"
  rt_runbook_gap :: "string option"

definition nonempty :: "string option \<Rightarrow> string option" where
  "nonempty s = (if s = Some [] then None else s)"

definition cluster_scope :: "runtime \<Rightarrow> act_state \<Rightarrow> string" where
  "cluster_scope rt s = strip (py_str rt (py_or (at_cluster_namespace s) (PStr [])))"

definition plan_diagnoses :: "act_state \<Rightarrow> remediation_plan \<Rightarrow> string option list" where
  "plan_diagnoses s plan = [at_reflector_hypothesis s, Some (plan_hypothesis plan)]"

text \<open>The result carries the plan's actions as they are afterwards, since defaults are written into them.\<close>

definition build_act_report :: "act_env \<Rightarrow> 'r evaluator \<Rightarrow> string \<Rightarrow> string \<Rightarrow> bool \<Rightarrow> act_state
    \<Rightarrow> (execute_error, 'r act_report \<times> remediation_action list) res" where
  "build_act_report av evaluate_fn environment actor dry_run s =
     (case classify_severity (av_severity_config av) (at_signals s) of
        Inl e \<Rightarrow> Inl (PyError e)
      | Inr assessment \<Rightarrow>
          (let skeleton = \<lparr>rt_severity = measured_severity assessment, rt_policy_severity = severity assessment,
                 rt_plan_present = False, rt_aggregate = None, rt_reports = [], rt_executed = [],
                 rt_unknown_telemetry = unknown_telemetry assessment, rt_evidence = sev_evidence assessment,
                 rt_confidence_ready = False, rt_raw_confidence = None, rt_probability = PNone, rt_minimum = PNone,
                 rt_artifact_version = None, rt_blocked_reason = None, rt_planning_failed = None, rt_runbook_gap = None\<rparr>
           in case at_plan s of
                None \<Rightarrow> Inr (skeleton, [])
              | Some plan \<Rightarrow>
                  (if plan_actions plan = [] then Inr (skeleton, [])
                   else
                     let env = (if environment \<noteq> [] then environment else incident_environment (av_rt av) s);
                         raw = raw_probability (plan_confidence plan)
                     in case configured_confidence av raw ''remediation'' ''REMEDIATION_CONFIDENCE_CALIBRATION_PATH'' of
                          Inl e \<Rightarrow> Inl (PyError e)
                        | Inr calibrated \<Rightarrow>
                            (let p = (case calibrated of Some c \<Rightarrow> PFloat (Fin (cc_calibrated_probability c)) | None \<Rightarrow> PNone);
                                 m = (case calibrated of
                                        Some c \<Rightarrow> (case cc_autonomy_threshold c of Some t \<Rightarrow> PFloat (Fin t) | None \<Rightarrow> PNone)
                                      | None \<Rightarrow> PNone)
                             in case decide_plan (av_severity_config av) evaluate_fn (plan_actions plan) (severity assessment)
                                       (unknown_telemetry assessment) env (plan_risk_score plan) p m of
                                  Inl e \<Rightarrow> Inl (PyError e)
                                | Inr (aggregate, per_action) \<Rightarrow>
                                    (let cluster_ns = cluster_scope (av_rt av) s; diagnoses = plan_diagnoses s plan;
                                         ex = \<lparr>ex_actor = actor, ex_incident_id = at_incident_id s\<rparr>
                                     in rbind (report_all (report_action av ex dry_run cluster_ns (diagnosed_memory_leak diagnoses)
                                                 (diagnosed_dependency_outage diagnoses)) (zip (plan_actions plan) per_action)) (\<lambda>out.
                                          let reports = map fst out
                                          in Inr (skeleton\<lparr>rt_plan_present := True, rt_aggregate := Some (final_aggregate aggregate reports),
                                                 rt_reports := reports, rt_executed := filter (\<lambda>r. rp_decision r = AUTONOMOUS) reports,
                                                 rt_confidence_ready := (m \<noteq> PNone), rt_raw_confidence := raw,
                                                 rt_probability := p, rt_minimum := m,
                                                 rt_artifact_version := map_option cc_artifact_version calibrated,
                                                 rt_blocked_reason := Option.bind calibrated cc_blocked_reason,
                                                 rt_planning_failed := nonempty (planning_failed plan),
                                                 rt_runbook_gap := nonempty (runbook_gap plan)\<rparr>, map snd out)))))))"

section \<open>Live requests\<close>

record live_request =
  lr_index :: nat
  lr_action :: remediation_action
  lr_payload :: pydict
  lr_key :: string
  lr_gate :: mutation_gate_context

definition severity_name :: "severity \<Rightarrow> string" where
  "severity_name sev = (case sev of SEV1 \<Rightarrow> ''SEV1'' | SEV2 \<Rightarrow> ''SEV2'' | SEV3 \<Rightarrow> ''SEV3'' | SEV4 \<Rightarrow> ''SEV4'' | UNKNOWN \<Rightarrow> ''UNKNOWN'')"

definition action_payload :: "act_state \<Rightarrow> execution_context option \<Rightarrow> nat \<Rightarrow> remediation_action \<Rightarrow> pydict" where
  "action_payload s ctx index a =
     [(''organization_id'', opt_str (map_option ec_organization_id ctx)), (''cluster_id'', opt_str (map_option ec_cluster_id ctx)),
      (''incident_id'', opt_str (at_incident_id s)), (''plan_id'', opt_str (map_option plan_id (at_plan s))),
      (''action_index'', PInt (int index)), (''action_type'', PStr (action_type a)), (''target'', PStr (target a)),
      (''parameters'', params_or_empty a), (''approval_hash'', PStr (at_approval_hash s))]"

definition canonical_service :: "runtime \<Rightarrow> act_state \<Rightarrow> string" where
  "canonical_service rt s =
     strip (py_str rt (py_or (py_dict_get (at_alert_labels s) ''service'' PNone)
       (py_or (py_dict_get (at_alert_labels s) ''app'' PNone) (PStr []))))"

definition live_action :: "string \<Rightarrow> remediation_action \<Rightarrow> remediation_action" where
  "live_action service a =
     (if service \<noteq> [] \<and> map_of EXECUTOR_TOOL_MAP (action_type a) \<noteq> None then a\<lparr>target := service\<rparr> else a)"

definition mutation_identity :: "runtime \<Rightarrow> remediation_action \<Rightarrow> string" where
  "mutation_identity rt a = json_dumps rt '','' '':'' True
     (PDict [(''action_type'', PStr (action_type a)), (''target'', PStr (target a)), (''parameters'', params_or_empty a)])"

definition allowed_decisions :: "bool \<Rightarrow> autonomy_decision set" where
  "allowed_decisions approved = (if approved then {AUTONOMOUS, REQUIRES_APPROVAL} else {AUTONOMOUS})"

definition live_gate :: "act_state \<Rightarrow> 'r act_report \<Rightarrow> string \<Rightarrow> bool \<Rightarrow> execution_context option \<Rightarrow> 'r action_report \<Rightarrow> mutation_gate_context" where
  "live_gate s report actor approved ctx rp =
     \<lparr>mg_decision = PStr (decision_value (rp_decision rp)), mg_severity = PStr (severity_name (rt_policy_severity report)),
      mg_environment = PStr (case ctx of Some c \<Rightarrow> (if ec_environment c = [] then ''production'' else ec_environment c) | None \<Rightarrow> ''production''),
      mg_risk_score = PFloat (case at_plan s of Some p \<Rightarrow> plan_risk_score p | None \<Rightarrow> Fin 5),
      mg_approved = PBool approved, mg_actor = PStr actor, mg_incident_id = opt_str (nonempty (at_incident_id s)),
      mg_raw_action_confidence = (case rt_raw_confidence report of Some x \<Rightarrow> PFloat x | None \<Rightarrow> PNone)\<rparr>"

definition live_request_of :: "runtime \<Rightarrow> (string \<Rightarrow> string) \<Rightarrow> act_state \<Rightarrow> 'r act_report \<Rightarrow> string \<Rightarrow> bool
    \<Rightarrow> execution_context option \<Rightarrow> nat \<Rightarrow> remediation_action \<Rightarrow> 'r action_report \<Rightarrow> live_request" where
  "live_request_of rt sha256 s report actor approved ctx index a rp =
     \<lparr>lr_index = index, lr_action = live_action (canonical_service rt s) a, lr_payload = action_payload s ctx index a,
      lr_key = sha256 (json_dumps rt '','' '':'' True (PDict (action_payload s ctx index a))),
      lr_gate = live_gate s report actor approved ctx rp\<rparr>"

text \<open>The loop over the plan: what is seen already grows with every request.\<close>

fun live_requests :: "runtime \<Rightarrow> act_state \<Rightarrow> bool \<Rightarrow> (nat \<Rightarrow> remediation_action \<Rightarrow> 'r action_report \<Rightarrow> live_request)
    \<Rightarrow> string list \<Rightarrow> nat \<Rightarrow> (remediation_action \<times> 'r action_report) list \<Rightarrow> live_request list" where
  "live_requests rt s approved mk seen index [] = []"
| "live_requests rt s approved mk seen index ((a, rp) # rest) =
     (let identity = mutation_identity rt (live_action (canonical_service rt s) a)
      in if rp_decision rp \<notin> allowed_decisions approved
            \<or> (index \<in> set (at_notified s) \<and> lower (action_type a) \<in> NOTIFY_ONLY_ACTIONS)
            \<or> identity \<in> set seen
         then live_requests rt s approved mk seen (Suc index) rest
         else mk index a rp # live_requests rt s approved mk (identity # seen) (Suc index) rest)"

definition build_live_action_requests :: "runtime \<Rightarrow> (string \<Rightarrow> string) \<Rightarrow> act_state \<Rightarrow> remediation_action list \<Rightarrow> 'r act_report \<Rightarrow> string
    \<Rightarrow> bool \<Rightarrow> execution_context option \<Rightarrow> live_request list" where
  "build_live_action_requests rt sha256 s actions report actor approved ctx =
     live_requests rt s approved (live_request_of rt sha256 s report actor approved ctx) [] 0 (zip actions (rt_reports report))"

section \<open>Live execution\<close>

datatype live_status_text = LiveGateway exec_status | LiveRefused reject_code | NoticeSkipped | NoticeError | NoticeSent

record live_outcome =
  lv_action_type :: string
  lv_target :: string
  lv_status :: live_status_text
  lv_manual_review :: bool

text \<open>Posting a page: none when it raised, otherwise whether an event was written.\<close>

definition execute_notify_only :: "bool option \<Rightarrow> string \<Rightarrow> string \<Rightarrow> string option \<Rightarrow> live_outcome" where
  "execute_notify_only posted atype tgt incident_id =
     \<lparr>lv_action_type = lower atype, lv_target = tgt,
      lv_status = (if nonempty incident_id = None then NoticeSkipped
                   else case posted of None \<Rightarrow> NoticeError | Some False \<Rightarrow> NoticeError | Some True \<Rightarrow> NoticeSent),
      lv_manual_review = False\<rparr>"

record 'st live_run =
  ln_result :: "(gateway_error, live_outcome list) res"
  ln_calls :: "tool_call list"
  ln_events :: "audit_event list"
  ln_state :: 'st

definition execute_live_action_request :: "'st gateway_env \<Rightarrow> (live_request \<Rightarrow> bool option) \<Rightarrow> string option \<Rightarrow> caller option \<Rightarrow> caller option
    \<Rightarrow> execution_context option \<Rightarrow> live_request \<Rightarrow> 'st \<Rightarrow> (gateway_error, live_outcome) res \<times> tool_call list \<times> audit_event list \<times> 'st" where
  "execute_live_action_request ge posted incident_id tc gc ctx rq st =
     (let a = lr_action rq; atype = py_str (ge_rt ge) (py_dict_get (lr_payload rq) ''action_type'' PNone);
          tgt = py_str (ge_rt ge) (py_dict_get (lr_payload rq) ''target'' PNone)
      in if lower atype \<in> NOTIFY_ONLY_ACTIONS
         then (Inr (execute_notify_only (posted rq) atype tgt incident_id), [], [], st)
         else let g = authorize_and_execute ge a (lr_gate rq) ctx tc gc (lr_key rq) st
              in (case gr_result g of
                    Inr res \<Rightarrow> Inr \<lparr>lv_action_type = er_action_type res, lv_target = er_target res,
                                 lv_status = LiveGateway (er_status res), lv_manual_review = (er_status res = Live ERROR)\<rparr>
                  | Inl (MutationRejected code) \<Rightarrow>
                      Inr \<lparr>lv_action_type = atype, lv_target = tgt, lv_status = LiveRefused code, lv_manual_review = False\<rparr>
                  | Inl e \<Rightarrow> Inl e, gr_calls g, gr_events g, gr_state g))"

fun execute_requests :: "(live_request \<Rightarrow> 'st \<Rightarrow> (gateway_error, live_outcome) res \<times> tool_call list \<times> audit_event list \<times> 'st)
    \<Rightarrow> live_request list \<Rightarrow> 'st \<Rightarrow> 'st live_run" where
  "execute_requests f [] st = \<lparr>ln_result = Inr [], ln_calls = [], ln_events = [], ln_state = st\<rparr>"
| "execute_requests f (r # rs) st =
     (case f r st of
        (Inl e, calls, events, st1) \<Rightarrow> \<lparr>ln_result = Inl e, ln_calls = calls, ln_events = events, ln_state = st1\<rparr>
      | (Inr v, calls, events, st1) \<Rightarrow>
          (let rest = execute_requests f rs st1
           in \<lparr>ln_result = rbind (ln_result rest) (\<lambda>vs. Inr (v # vs)), ln_calls = calls @ ln_calls rest,
               ln_events = events @ ln_events rest, ln_state = ln_state rest\<rparr>))"

definition execute_autonomous_live :: "'st gateway_env \<Rightarrow> (live_request \<Rightarrow> bool option) \<Rightarrow> act_state \<Rightarrow> remediation_action list \<Rightarrow> 'r act_report \<Rightarrow> string
    \<Rightarrow> bool \<Rightarrow> caller option \<Rightarrow> caller option \<Rightarrow> execution_context option \<Rightarrow> 'st \<Rightarrow> 'st live_run" where
  "execute_autonomous_live ge posted s actions report actor approved tc gc ctx st =
     execute_requests (execute_live_action_request ge posted (at_incident_id s) tc gc ctx)
       (build_live_action_requests (ge_rt ge) (ge_sha256 ge) s actions report actor approved ctx) st"

text \<open>Pages of a plan that waits for approval go out ahead of it.\<close>

definition deliver_notifications_ahead_of_approval :: "runtime \<Rightarrow> (string \<Rightarrow> string) \<Rightarrow> (live_request \<Rightarrow> bool option) \<Rightarrow> act_state
    \<Rightarrow> remediation_action list \<Rightarrow> 'r act_report \<Rightarrow> execution_context option \<Rightarrow> (live_outcome \<times> nat) list" where
  "deliver_notifications_ahead_of_approval rt sha256 posted s actions report ctx =
     map (\<lambda>rq. (execute_notify_only (posted rq) (py_str rt (py_dict_get (lr_payload rq) ''action_type'' PNone))
                 (py_str rt (py_dict_get (lr_payload rq) ''target'' PNone)) (at_incident_id s), lr_index rq))
       (filter (\<lambda>rq. lower (py_str rt (py_dict_get (lr_payload rq) ''action_type'' PNone)) \<in> NOTIFY_ONLY_ACTIONS)
         (build_live_action_requests rt sha256 s actions report ''sre-agent'' False ctx))"

section \<open>Lemmas\<close>

lemma report_all_Inr: "report_all f xs = Inr ys \<Longrightarrow> list_all2 (\<lambda>x y. f x = Inr y) xs ys"
  by (induction xs arbitrary: ys) (auto simp: rbind_eq_Inr)

lemma default_namespace_fields [simp]:
  "action_type (default_namespace ns a) = action_type a" "target (default_namespace ns a) = target a"
  by (auto simp: default_namespace_def split: pyval.split)

lemma base_report_fields [simp]:
  "rp_action_type (base_report a ns gd) = action_type a" "rp_target (base_report a ns gd) = target a"
  "rp_namespace (base_report a ns gd) = ns" "rp_decision (base_report a ns gd) = gd_decision gd"
  by (simp_all add: base_report_def)

lemma blocked_report_fields [simp]:
  "rp_action_type (blocked_report rp w) = rp_action_type rp" "rp_target (blocked_report rp w) = rp_target rp"
  "rp_namespace (blocked_report rp w) = rp_namespace rp" "rp_decision (blocked_report rp w) = BLOCKED"
  by (simp_all add: blocked_report_def)

lemma dry_run_report_fields:
  "dry_run_report av ex dry a rp = Inr rp' \<Longrightarrow> rp_action_type rp' = rp_action_type rp \<and> rp_target rp' = rp_target rp
     \<and> rp_namespace rp' = rp_namespace rp \<and> rp_decision rp' = rp_decision rp"
  by (auto simp: dry_run_report_def rbind_eq_Inr)

text \<open>What one report promises about its action and the gate's decision.\<close>

definition report_ok :: "runtime \<Rightarrow> string \<Rightarrow> bool \<Rightarrow> bool \<Rightarrow> remediation_action \<Rightarrow> 'r gate_decision
    \<Rightarrow> 'r action_report \<Rightarrow> remediation_action \<Rightarrow> bool" where
  "report_ok rt cluster_ns leak outage a gd rp a' =
     (rp_action_type rp = action_type a \<and> rp_target rp = target a \<and> action_type a' = action_type a \<and> target a' = target a
      \<and> (rp_decision rp = BLOCKED
         \<or> (rp_decision rp = gd_decision gd \<and> (cluster_ns \<noteq> [] \<longrightarrow> rp_namespace rp = cluster_ns)
            \<and> (map_of EXECUTOR_TOOL_MAP (lower (action_type a')) \<noteq> None \<longrightarrow> live_tool_for_action rt a' \<noteq> None)
            \<and> unfit_remedy_reason a' leak outage = None)))"

lemma gated_report_ok:
  assumes "gated_report av ex dry leak outage a ns gd = Inr rp" "cluster_ns \<noteq> [] \<Longrightarrow> ns = cluster_ns"
  shows "report_ok (av_rt av) cluster_ns leak outage a gd rp a"
  using assms
  by (auto simp: gated_report_def report_ok_def Let_def dest!: dry_run_report_fields split: if_splits option.splits)

lemma report_ok_action:
  "report_ok rt ns leak outage b gd rp b \<Longrightarrow> action_type b = action_type a \<Longrightarrow> target b = target a \<Longrightarrow>
     report_ok rt ns leak outage a gd rp b"
  by (simp add: report_ok_def)

lemma report_action_ok:
  assumes "report_action av ex dry cluster_ns leak outage (a, gd) = Inr (rp, a')"
  shows "report_ok (av_rt av) cluster_ns leak outage a gd rp a'"
proof -
  obtain ns0 where ns0: "action_ns (av_rt av) a = Some ns0" using assms by (auto simp: report_action_def split: option.splits)
  show ?thesis
  proof (cases "cluster_ns \<noteq> [] \<and> ns0 \<noteq> [] \<and> ns0 \<noteq> cluster_ns")
    case True
    then show ?thesis using assms ns0 by (auto simp: report_action_def report_ok_def)
  next
    case False
    then obtain b ns where b: "gated_report av ex dry leak outage b ns gd = Inr rp" "a' = b" "cluster_ns \<noteq> [] \<Longrightarrow> ns = cluster_ns"
      "action_type b = action_type a" "target b = target a"
      using assms ns0 by (auto simp: report_action_def Let_def rbind_eq_Inr split: if_splits)
    show ?thesis unfolding b(2) by (rule report_ok_action [OF gated_report_ok [OF b(1,3)] b(4,5)])
  qed
qed

lemma build_act_report_parts:
  assumes "build_act_report av ev environment actor dry s = Inr (report, actions')" "at_plan s = Some plan" "plan_actions plan \<noteq> []"
  obtains assessment env p m aggregate per_action out ex where
    "classify_severity (av_severity_config av) (at_signals s) = Inr assessment"
    "decide_plan (av_severity_config av) ev (plan_actions plan) (severity assessment) (unknown_telemetry assessment)
       env (plan_risk_score plan) p m = Inr (aggregate, per_action)"
    "report_all (report_action av ex dry (cluster_scope (av_rt av) s)
       (diagnosed_memory_leak (plan_diagnoses s plan))
       (diagnosed_dependency_outage (plan_diagnoses s plan)))
       (zip (plan_actions plan) per_action) = Inr out"
    "rt_reports report = map fst out" "actions' = map snd out"
    "rt_aggregate report = Some (final_aggregate aggregate (map fst out))"
    "rt_policy_severity report = severity assessment"
proof -
  obtain assessment where a: "classify_severity (av_severity_config av) (at_signals s) = Inr assessment"
    using assms(1) by (auto simp: build_act_report_def split: sum.splits)
  obtain calibrated where c: "configured_confidence av (raw_probability (plan_confidence plan)) ''remediation''
      ''REMEDIATION_CONFIDENCE_CALIBRATION_PATH'' = Inr calibrated"
    using assms a by (auto simp: build_act_report_def Let_def split: sum.splits)
  let ?p = "case calibrated of Some c \<Rightarrow> PFloat (Fin (cc_calibrated_probability c)) | None \<Rightarrow> PNone"
  let ?m = "case calibrated of Some c \<Rightarrow> (case cc_autonomy_threshold c of Some t \<Rightarrow> PFloat (Fin t) | None \<Rightarrow> PNone) | None \<Rightarrow> PNone"
  let ?env = "if environment \<noteq> [] then environment else incident_environment (av_rt av) s"
  obtain aggregate per_action where d: "decide_plan (av_severity_config av) ev (plan_actions plan) (severity assessment)
      (unknown_telemetry assessment) ?env (plan_risk_score plan) ?p ?m = Inr (aggregate, per_action)"
    using assms a c by (auto simp: build_act_report_def Let_def split: sum.splits)
  let ?f = "report_action av \<lparr>ex_actor = actor, ex_incident_id = at_incident_id s\<rparr> dry
      (cluster_scope (av_rt av) s)
      (diagnosed_memory_leak (plan_diagnoses s plan))
      (diagnosed_dependency_outage (plan_diagnoses s plan))"
  obtain out where r: "report_all ?f (zip (plan_actions plan) per_action) = Inr out"
    using assms a c d by (auto simp: build_act_report_def Let_def rbind_eq_Inr)
  show thesis
    by (rule that [OF a d r]) (use assms a c d r in \<open>auto simp: build_act_report_def Let_def\<close>)
qed

lemma decide_plan_length: "decide_plan cfg ev as sev u env risk p m = Inr (agg, ds) \<Longrightarrow>
    list_all2 (\<lambda>a d. decide cfg ev a sev u env risk p m = Inr d) as ds \<and> agg = aggregate_decision ds"
  by (auto simp: decide_plan_def rbind_eq_Inr decide_each_list_all2)

text \<open>The report position by position.\<close>

lemma act_report_positions:
  assumes "build_act_report av ev environment actor dry s = Inr (report, actions')" "at_plan s = Some plan" "plan_actions plan \<noteq> []"
  obtains assessment env p m ds where "classify_severity (av_severity_config av) (at_signals s) = Inr assessment"
    "length (rt_reports report) = length (plan_actions plan)" "length actions' = length (plan_actions plan)"
    "length ds = length (plan_actions plan)"
    "rt_aggregate report = Some (final_aggregate (aggregate_decision ds) (rt_reports report))"
    "rt_policy_severity report = severity assessment"
    "\<And>k. k < length (plan_actions plan) \<Longrightarrow> decide (av_severity_config av) ev (plan_actions plan ! k) (severity assessment)
       (unknown_telemetry assessment) env (plan_risk_score plan) p m = Inr (ds ! k)"
    "\<And>k. k < length (plan_actions plan) \<Longrightarrow> report_ok (av_rt av) (cluster_scope (av_rt av) s)
       (diagnosed_memory_leak (plan_diagnoses s plan)) (diagnosed_dependency_outage (plan_diagnoses s plan))
       (plan_actions plan ! k) (ds ! k) (rt_reports report ! k) (actions' ! k)"
proof -
  from build_act_report_parts [OF assms] obtain assessment env p m aggregate per_action out ex where
    a: "classify_severity (av_severity_config av) (at_signals s) = Inr assessment"
    and d: "decide_plan (av_severity_config av) ev (plan_actions plan) (severity assessment) (unknown_telemetry assessment)
       env (plan_risk_score plan) p m = Inr (aggregate, per_action)"
    and r: "report_all (report_action av ex dry (cluster_scope (av_rt av) s) (diagnosed_memory_leak (plan_diagnoses s plan))
       (diagnosed_dependency_outage (plan_diagnoses s plan))) (zip (plan_actions plan) per_action) = Inr out"
    and out: "rt_reports report = map fst out" "actions' = map snd out"
      "rt_aggregate report = Some (final_aggregate aggregate (map fst out))"
      "rt_policy_severity report = severity assessment" by metis
  note ds = decide_plan_length [OF d] and rs = report_all_Inr [OF r]
  have len: "length per_action = length (plan_actions plan)" "length out = length (plan_actions plan)"
    using ds list_all2_lengthD [OF rs] by (auto dest: list_all2_lengthD)
  have each: "report_action av ex dry (cluster_scope (av_rt av) s) (diagnosed_memory_leak (plan_diagnoses s plan))
       (diagnosed_dependency_outage (plan_diagnoses s plan)) (plan_actions plan ! k, per_action ! k) = Inr (fst (out ! k), snd (out ! k))"
    if "k < length (plan_actions plan)" for k
    using list_all2_nthD [OF rs, of k] that len by simp
  show thesis
  proof (rule that [OF a _ _ len(1)])
    show "report_ok (av_rt av) (cluster_scope (av_rt av) s) (diagnosed_memory_leak (plan_diagnoses s plan))
       (diagnosed_dependency_outage (plan_diagnoses s plan)) (plan_actions plan ! k) (per_action ! k) (rt_reports report ! k) (actions' ! k)"
      if "k < length (plan_actions plan)" for k
      using report_action_ok [OF each [OF that]] that len out by simp
    show "decide (av_severity_config av) ev (plan_actions plan ! k) (severity assessment) (unknown_telemetry assessment)
      env (plan_risk_score plan) p m = Inr (per_action ! k)" if "k < length (plan_actions plan)" for k
      using list_all2_nthD [OF conjunct1 [OF ds] that] .
  qed (use len out ds in auto)
qed

section \<open>Properties\<close>

text \<open>C11. The report gates every action of the plan: it has exactly one entry per action in the plan's order,
  naming that action; an entry is blocked or carries the gate's decision, the latter only for an
  action inside the cluster's namespace, with a tool behind it and fit for the diagnosed fault; an
  approval is asked for only when some action is held, and a plan reported autonomous holds none.\<close>

theorem act_report_gates_every_action:
  assumes "build_act_report av ev environment actor dry s = Inr (report, actions')" "at_plan s = Some plan" "plan_actions plan \<noteq> []"
  shows "\<exists>assessment env p m. classify_severity (av_severity_config av) (at_signals s) = Inr assessment
    \<and> length (rt_reports report) = length (plan_actions plan) \<and> length actions' = length (plan_actions plan)
    \<and> (\<forall>k < length (plan_actions plan). \<exists>gd.
         decide (av_severity_config av) ev (plan_actions plan ! k) (severity assessment) (unknown_telemetry assessment)
           env (plan_risk_score plan) p m = Inr gd
         \<and> report_ok (av_rt av) (cluster_scope (av_rt av) s)
             (diagnosed_memory_leak (plan_diagnoses s plan))
             (diagnosed_dependency_outage (plan_diagnoses s plan))
             (plan_actions plan ! k) gd (rt_reports report ! k) (actions' ! k))
    \<and> (rt_aggregate report = Some REQUIRES_APPROVAL \<longrightarrow> REQUIRES_APPROVAL \<in> rp_decision ` set (rt_reports report))
    \<and> (rt_aggregate report = Some AUTONOMOUS \<longrightarrow> REQUIRES_APPROVAL \<notin> rp_decision ` set (rt_reports report))"
proof -
  from act_report_positions [OF assms] obtain assessment env p m ds where
    a: "classify_severity (av_severity_config av) (at_signals s) = Inr assessment"
    and len: "length (rt_reports report) = length (plan_actions plan)" "length actions' = length (plan_actions plan)"
      "length ds = length (plan_actions plan)"
    and agg: "rt_aggregate report = Some (final_aggregate (aggregate_decision ds) (rt_reports report))"
    and dec: "\<And>k. k < length (plan_actions plan) \<Longrightarrow> decide (av_severity_config av) ev (plan_actions plan ! k) (severity assessment)
       (unknown_telemetry assessment) env (plan_risk_score plan) p m = Inr (ds ! k)"
    and ok: "\<And>k. k < length (plan_actions plan) \<Longrightarrow> report_ok (av_rt av) (cluster_scope (av_rt av) s)
       (diagnosed_memory_leak (plan_diagnoses s plan)) (diagnosed_dependency_outage (plan_diagnoses s plan))
       (plan_actions plan ! k) (ds ! k) (rt_reports report ! k) (actions' ! k)"
    by metis
  have autonomous: "REQUIRES_APPROVAL \<notin> rp_decision ` set (rt_reports report)" if "aggregate_decision ds = AUTONOMOUS"
  proof
    assume "REQUIRES_APPROVAL \<in> rp_decision ` set (rt_reports report)"
    then obtain k where k: "k < length (plan_actions plan)" "rp_decision (rt_reports report ! k) = REQUIRES_APPROVAL"
      using len(1) by (fastforce simp: in_set_conv_nth)
    have "gd_decision (ds ! k) = AUTONOMOUS"
      using that k(1) len(3) nth_mem [of k ds] by (auto simp: aggregate_decision_def split: if_splits)
    then show False using ok [OF k(1)] k(2) by (simp add: report_ok_def)
  qed
  show ?thesis
    using a len dec ok agg autonomous
    by (intro exI [of _ assessment] exI [of _ env] exI [of _ p] exI [of _ m] conjI allI impI exI [of _ "ds ! _"])
       (auto simp: final_aggregate_def Let_def split: if_splits)
qed

lemma live_requests_sound:
  "rq \<in> set (live_requests rt s approved mk seen index ars) \<Longrightarrow>
     \<exists>k < length ars. rq = mk (index + k) (fst (ars ! k)) (snd (ars ! k)) \<and> rp_decision (snd (ars ! k)) \<in> allowed_decisions approved
       \<and> mutation_identity rt (live_action (canonical_service rt s) (fst (ars ! k))) \<notin> set seen"
proof (induction rt s approved mk seen index ars rule: live_requests.induct)
  case (2 rt s approved mk seen index a rp rest)
  let ?id = "mutation_identity rt (live_action (canonical_service rt s) a)"
  let ?skip = "rp_decision rp \<notin> allowed_decisions approved
     \<or> (index \<in> set (at_notified s) \<and> lower (action_type a) \<in> NOTIFY_ONLY_ACTIONS) \<or> ?id \<in> set seen"
  have later: ?case if "\<exists>k < length rest. rq = mk (Suc index + k) (fst (rest ! k)) (snd (rest ! k))
       \<and> rp_decision (snd (rest ! k)) \<in> allowed_decisions approved
       \<and> mutation_identity rt (live_action (canonical_service rt s) (fst (rest ! k))) \<notin> set seen"
    using that by (auto intro: exI [of _ "Suc _"])
  show ?case
  proof (cases ?skip)
    case True
    then have "rq \<in> set (live_requests rt s approved mk seen (Suc index) rest)" using "2.prems" by (auto simp: Let_def)
    then show ?thesis using "2.IH"(1) True later by blast
  next
    case False
    then have "rq = mk index a rp \<or> rq \<in> set (live_requests rt s approved mk (?id # seen) (Suc index) rest)"
      using "2.prems" by (auto simp: Let_def)
    then show ?thesis
    proof
      assume "rq = mk index a rp"
      then show ?thesis using False by (intro exI [of _ 0]) simp
    next
      assume "rq \<in> set (live_requests rt s approved mk (?id # seen) (Suc index) rest)"
      then show ?thesis using "2.IH"(2) [OF refl False] by (intro later) auto
    qed
  qed
qed simp

lemma live_requests_distinct:
  assumes "\<And>i a rp. lr_action (mk i a rp) = live_action (canonical_service rt s) a"
  shows "distinct (map (\<lambda>rq. mutation_identity rt (lr_action rq)) (live_requests rt s approved mk seen index ars))"
  using assms
proof (induction rt s approved mk seen index ars rule: live_requests.induct)
  case (2 rt s approved mk seen index a rp rest)
  let ?id = "mutation_identity rt (live_action (canonical_service rt s) a)"
  have "?id \<notin> (\<lambda>rq. mutation_identity rt (lr_action rq)) ` set (live_requests rt s approved mk (?id # seen) (Suc index) rest)"
    using live_requests_sound [of _ rt s approved mk "?id # seen" "Suc index" rest] "2.prems" by fastforce
  then show ?case using "2.IH" "2.prems" by (simp add: Let_def)
qed simp

lemma live_request_of_action: "lr_action (live_request_of rt sha s report actor approved ctx i a rp) = live_action (canonical_service rt s) a"
  by (simp add: live_request_of_def)

lemma execute_requests_calls:
  "c \<in> set (ln_calls (execute_requests f rs st)) \<Longrightarrow> \<exists>r \<in> set rs. \<exists>st'. c \<in> set (fst (snd (f r st')))"
proof (induction rs arbitrary: st)
  case (Cons r rs)
  obtain res calls events st1 where f: "f r st = (res, calls, events, st1)" by (metis prod.collapse)
  show ?case
  proof (cases "c \<in> set calls")
    case True
    then show ?thesis using f by (intro bexI [of _ r] exI [of _ st]) auto
  next
    case False
    then have "c \<in> set (ln_calls (execute_requests f rs st1))" using Cons.prems f by (auto simp: Let_def split: sum.splits)
    then show ?thesis using Cons.IH by auto
  qed
qed simp

lemma request_calls:
  "c \<in> set (fst (snd (execute_live_action_request ge posted i tc gc ctx rq st))) \<Longrightarrow>
     c \<in> set (gr_calls (authorize_and_execute ge (lr_action rq) (lr_gate rq) ctx tc gc (lr_key rq) st))"
  by (auto simp: execute_live_action_request_def Let_def split: if_splits)

lemma live_run_call_origin:
  assumes "c \<in> set (ln_calls (execute_autonomous_live ge posted s actions report actor approved tc gc ctx st))"
  obtains k st' where "k < length actions" "k < length (rt_reports report)"
    "rp_decision (rt_reports report ! k) \<in> allowed_decisions approved"
    "c \<in> set (gr_calls (authorize_and_execute ge (live_action (canonical_service (ge_rt ge) s) (actions ! k))
       (live_gate s report actor approved ctx (rt_reports report ! k)) ctx tc gc
       (lr_key (live_request_of (ge_rt ge) (ge_sha256 ge) s report actor approved ctx k (actions ! k) (rt_reports report ! k))) st'))"
proof -
  let ?rqs = "build_live_action_requests (ge_rt ge) (ge_sha256 ge) s actions report actor approved ctx"
  from execute_requests_calls [OF assms [unfolded execute_autonomous_live_def]] obtain rq st' where
    rq: "rq \<in> set ?rqs" and c: "c \<in> set (fst (snd (execute_live_action_request ge posted (at_incident_id s) tc gc ctx rq st')))"
    by blast
  from live_requests_sound [OF rq [unfolded build_live_action_requests_def]] obtain k where
    k: "k < length actions" "k < length (rt_reports report)"
    "rq = live_request_of (ge_rt ge) (ge_sha256 ge) s report actor approved ctx k (actions ! k) (rt_reports report ! k)"
    "rp_decision (rt_reports report ! k) \<in> allowed_decisions approved"
    by auto
  show thesis
    by (rule that [OF k(1,2,4), of st']) (use request_calls [OF c] in \<open>simp add: k(3) live_request_of_def\<close>)
qed

lemma build_live_action_requests_distinct:
  "distinct (map (\<lambda>rq. mutation_identity rt (lr_action rq)) (build_live_action_requests rt sha s actions report actor approved ctx))"
  unfolding build_live_action_requests_def by (rule live_requests_distinct) (rule live_request_of_action)

text \<open>C10. A live run applies only what was decided: its requests come from the plan's actions in their
  canonical form whose report is autonomous or, after approval, held, so never from a blocked one; no
  two requests are the same mutation; and every tool call of the run is made by the gateway for one of
  these requests under its own idempotency key.\<close>

theorem live_run_applies_only_allowed:
  assumes "c \<in> set (ln_calls (execute_autonomous_live ge posted s actions report actor approved tc gc ctx st))"
  shows "distinct (map (\<lambda>rq. mutation_identity (ge_rt ge) (lr_action rq))
             (build_live_action_requests (ge_rt ge) (ge_sha256 ge) s actions report actor approved ctx))
    \<and> (\<exists>k. k < length actions \<and> k < length (rt_reports report)
         \<and> rp_decision (rt_reports report ! k) \<in> allowed_decisions approved \<and> rp_decision (rt_reports report ! k) \<noteq> BLOCKED
         \<and> (\<exists>st'. let rq = live_request_of (ge_rt ge) (ge_sha256 ge) s report actor approved ctx k (actions ! k) (rt_reports report ! k)
               in c \<in> set (gr_calls (authorize_and_execute ge (lr_action rq) (lr_gate rq) ctx tc gc (lr_key rq) st'))))"
proof -
  from assms obtain k st' where k: "k < length actions" "k < length (rt_reports report)"
    "rp_decision (rt_reports report ! k) \<in> allowed_decisions approved"
    and c: "c \<in> set (gr_calls (authorize_and_execute ge (live_action (canonical_service (ge_rt ge) s) (actions ! k))
       (live_gate s report actor approved ctx (rt_reports report ! k)) ctx tc gc
       (lr_key (live_request_of (ge_rt ge) (ge_sha256 ge) s report actor approved ctx k (actions ! k) (rt_reports report ! k))) st'))"
    by (rule live_run_call_origin)
  have "rp_decision (rt_reports report ! k) \<noteq> BLOCKED" using k(3) by (auto simp: allowed_decisions_def split: if_splits)
  then show ?thesis
    using k c by (intro conjI build_live_action_requests_distinct exI [of _ k] exI [of _ st']) (simp_all add: live_request_of_def)
qed

text \<open>On-call is not paged twice: what went out ahead of the approval is not requested again by the run
  after it, when the delivered positions are recorded in the state.\<close>

lemma live_requests_skip_notified:
  "rq \<in> set (live_requests rt s approved (live_request_of rt sha s report actor approved ctx) seen index ars) \<Longrightarrow>
     lr_index rq \<in> set (at_notified s) \<Longrightarrow> lower (action_type (lr_action rq)) \<notin> NOTIFY_ONLY_ACTIONS"
proof (induction ars arbitrary: seen index)
  case (Cons ar ars)
  then show ?case
    by (cases ar) (auto simp: Let_def live_request_of_def live_action_def split: if_splits)
qed simp

lemma live_request_of_payload:
  "lr_index (live_request_of rt sha s report actor approved ctx i a rp) = i"
  "py_dict_get (lr_payload (live_request_of rt sha s report actor approved ctx i a rp)) ''action_type'' d = PStr (action_type a)"
  by (simp_all add: live_request_of_def action_payload_def py_dict_get_def)

lemma delivered_is_notice: "(v, i) \<in> set (deliver_notifications_ahead_of_approval rt sha posted s actions report ctx) \<Longrightarrow>
    lower (action_type (actions ! i)) \<in> NOTIFY_ONLY_ACTIONS"
  by (auto simp: deliver_notifications_ahead_of_approval_def build_live_action_requests_def live_request_of_payload py_str_def
        dest!: live_requests_sound)

lemma pages_are_not_repeated:
  assumes "(v, i) \<in> set (deliver_notifications_ahead_of_approval rt sha posted s actions report ctx)"
    and "i \<in> set (at_notified s')"
    and "rq \<in> set (build_live_action_requests rt sha s' actions report' actor approved ctx)"
  shows "lr_index rq \<noteq> i"
proof
  assume i: "lr_index rq = i"
  from live_requests_sound [OF assms(3) [unfolded build_live_action_requests_def]] obtain k where
    "k < length (zip actions (rt_reports report'))"
    "rq = live_request_of rt sha s' report' actor approved ctx k (fst (zip actions (rt_reports report') ! k)) (snd (zip actions (rt_reports report') ! k))"
    by auto
  then have "lower (action_type (lr_action rq)) = lower (action_type (actions ! i))"
    using i by (auto simp: live_request_of_def live_action_def)
  then show False
    using live_requests_skip_notified [OF assms(3) [unfolded build_live_action_requests_def]] i assms(2) delivered_is_notice [OF assms(1)] by simp
qed

section \<open>A plan with one restart\<close>

definition restart_plan :: remediation_plan where
  "restart_plan = \<lparr>plan_id = ''p1'', plan_hypothesis = ''config'', plan_actions = [restart_checkout], estimated_duration = [],
     risk_level = ''low'', plan_confidence = None, requires_approval = True, runbook_reference = None, source_runbook_url = None,
     verification_metrics = [], slo_impact = None, planning_failed = None, runbook_gap = None\<rparr>"

definition restart_state :: act_state where
  "restart_state = \<lparr>at_signals = sample_signals, at_incident_id = None, at_plan = Some restart_plan,
     at_cluster_environment = PStr ''dev'', at_cluster_namespace = PStr ''shop'', at_reflector_hypothesis = None,
     at_alert_labels = [(''service'', PStr ''checkout'')], at_approval_hash = ''h1'', at_notified = []\<rparr>"

definition restart_env :: act_env where
  "restart_env = \<lparr>av_rt = no_runtime, av_severity_config = default_severity_config, av_load = \<lambda>_. Inl CalibrationError,
     av_sha256 = \<lambda>_. ''h'', av_now_iso = ''now''\<rparr>"

definition restart_result :: "(execute_error, policy_reason act_report \<times> remediation_action list) res" where
  "restart_result = build_act_report restart_env evaluate_action [] ''sre-agent'' True restart_state"

lemma restart_result_ok: "is_ok restart_result"
  by code_simp

lemma restart_result_obtain:
  obtains report actions' where "build_act_report restart_env evaluate_action [] ''sre-agent'' True restart_state = Inr (report, actions')"
  using restart_result_ok by (auto simp: restart_result_def is_ok_iff)

theorem act_report_gates_every_action_witness:
  "\<exists>report actions'. build_act_report restart_env evaluate_action [] ''sre-agent'' True restart_state = Inr (report, actions')
     \<and> length (rt_reports report) = 1 \<and> rp_action_type (rt_reports report ! 0) = ''Restart''"
proof -
  obtain report actions' where r: "build_act_report restart_env evaluate_action [] ''sre-agent'' True restart_state = Inr (report, actions')"
    by (rule restart_result_obtain)
  have plan: "at_plan restart_state = Some restart_plan" "plan_actions restart_plan \<noteq> []"
    by (simp_all add: restart_state_def restart_plan_def)
  from act_report_gates_every_action [OF r plan] have "length (rt_reports report) = 1" "rp_action_type (rt_reports report ! 0) = ''Restart''"
    by (auto simp: report_ok_def restart_plan_def restart_checkout_def)
  then show ?thesis using r by blast
qed

definition restart_run :: "mem_server live_run" where
  "restart_run =
     (case restart_result of
        Inl e \<Rightarrow> \<lparr>ln_result = Inr [], ln_calls = [], ln_events = [], ln_state = empty_server\<rparr>
      | Inr (report, actions) \<Rightarrow> execute_autonomous_live sample_env (\<lambda>_. None) restart_state actions report ''sre-agent'' True
          (Some (\<lambda>_ _. Inr applied_response)) None (Some sample_context) empty_server)"

lemma restart_run_calls: "ln_calls restart_run \<noteq> []"
  by code_simp

theorem live_run_applies_only_allowed_witness:
  "\<exists>report actions. restart_result = Inr (report, actions)
     \<and> rp_decision (rt_reports report ! 0) \<in> {AUTONOMOUS, REQUIRES_APPROVAL}"
proof -
  obtain report actions where r: "restart_result = Inr (report, actions)"
    using restart_result_ok by (auto simp: is_ok_iff)
  have "ln_calls (execute_autonomous_live sample_env (\<lambda>_. None) restart_state actions report ''sre-agent'' True
      (Some (\<lambda>_ _. Inr applied_response)) None (Some sample_context) empty_server) \<noteq> []"
    using restart_run_calls unfolding restart_run_def r by simp
  from live_run_applies_only_allowed [OF hd_in_set [OF this]] obtain k where
    k: "k < length actions" "rp_decision (rt_reports report ! k) \<in> allowed_decisions True" by auto
  have "length actions = 1"
  proof -
    have "case restart_result of Inl e \<Rightarrow> False | Inr (report, actions) \<Rightarrow> length actions = 1" by code_simp
    then show ?thesis unfolding r by simp
  qed
  then show ?thesis using k r by (auto simp: allowed_decisions_def)
qed

text \<open>The aggregate is only corrected when approval was required: a plan whose single autonomous action is
  blocked for its namespace is still reported autonomous although nothing can run.\<close>

lemma autonomous_aggregate_of_blocked_reports: "rp_decision rp = BLOCKED \<Longrightarrow> final_aggregate AUTONOMOUS [rp] = AUTONOMOUS"
  by (simp add: final_aggregate_def)

end
