(* ===== verification/Py_Json_Text.thy ===== *)
theory Py_Json_Text
  imports Py_Json
begin

text \<open>
  More of Python's values and of \<open>json\<close>: equality of values, dumping with sorted keys, and the texts
  of \<open>json.dumps(value, sort_keys=True)\<close> with \<open>indent=2\<close> and with compact separators. Shown here: sorting the keys of a value changes neither
  its sorted text nor its equality class, and \<open>json.loads\<close> reads either text back as the same
  value with sorted keys, for values whose floats have a text that reads back.
\<close>

section \<open>Equality of Python values\<close>

definition num_of :: "pyval \<Rightarrow> flt option" where
  "num_of v = (case v of PBool b \<Rightarrow> Some (Fin (if b then 1 else 0)) | PInt i \<Rightarrow> Some (Fin (of_int i))
     | PFloat x \<Rightarrow> Some x | _ \<Rightarrow> None)"

definition num_eq :: "pyval \<Rightarrow> pyval \<Rightarrow> bool" where
  "num_eq v w = (case num_of v of None \<Rightarrow> False | Some x \<Rightarrow> x \<noteq> NaN \<and> num_of w = Some x)"

text \<open>\<open>v == w\<close>: numbers by value, lists item by item, dictionaries without regard to order.\<close>

fun py_eq :: "pyval \<Rightarrow> pyval \<Rightarrow> bool"
and py_eq_items :: "pyval list \<Rightarrow> pyval list \<Rightarrow> bool"
and py_eq_entries :: "pydict \<Rightarrow> pydict \<Rightarrow> bool" where
  "py_eq PNone w = (w = PNone)"
| "py_eq (PStr s) w = (w = PStr s)"
| "py_eq (PList xs) w = (case w of PList ys \<Rightarrow> py_eq_items xs ys | _ \<Rightarrow> False)"
| "py_eq (PDict d) w = (case w of PDict e \<Rightarrow> length d = length e \<and> py_eq_entries d e | _ \<Rightarrow> False)"
| "py_eq (PBool b) w = num_eq (PBool b) w"
| "py_eq (PInt i) w = num_eq (PInt i) w"
| "py_eq (PFloat x) w = num_eq (PFloat x) w"
| "py_eq_items [] ys = (ys = [])"
| "py_eq_items (x # xs) ys = (case ys of [] \<Rightarrow> False | y # zs \<Rightarrow> py_eq x y \<and> py_eq_items xs zs)"
| "py_eq_entries [] e = True"
| "py_eq_entries ((k, v) # d) e = (case map_of e k of None \<Rightarrow> False | Some w \<Rightarrow> py_eq v w \<and> py_eq_entries d e)"

text \<open>The value that is read back after \<open>json.dumps(..., sort_keys=True)\<close>: every dictionary in the order of
  its keys.\<close>

fun key_sorted :: "pyval \<Rightarrow> pyval"
and key_sorted_items :: "pyval list \<Rightarrow> pyval list"
and key_sorted_entries :: "pydict \<Rightarrow> pydict" where
  "key_sorted (PList xs) = PList (key_sorted_items xs)"
| "key_sorted (PDict d) = PDict (sort_key fst (key_sorted_entries d))"
| "key_sorted v = v"
| "key_sorted_items [] = []"
| "key_sorted_items (x # xs) = key_sorted x # key_sorted_items xs"
| "key_sorted_entries [] = []"
| "key_sorted_entries ((k, v) # d) = (k, key_sorted v) # key_sorted_entries d"

section \<open>Sorted keys change nothing\<close>

lemma key_sorted_items_map: "key_sorted_items xs = map key_sorted xs"
  by (induction xs) auto

lemma key_sorted_entries_map: "key_sorted_entries d = map (\<lambda>(k, v). (k, key_sorted v)) d"
  by (induction d) auto

lemma key_sorted_entries_keys [simp]: "map fst (key_sorted_entries d) = map fst d"
  by (induction d) auto

lemma map_of_key_sorted_entries: "map_of (key_sorted_entries d) k = map_option key_sorted (map_of d k)"
  by (induction d) auto

lemma distinct_insort_key_keys:
  "distinct (map fst (insort_key f x d)) \<longleftrightarrow> fst x \<notin> fst ` set d \<and> distinct (map fst d)"
  by (induction d) (auto simp: set_insort_key)

lemma distinct_sort_key_keys: "distinct (map fst (sort_key f d)) = distinct (map fst d)"
  by (induction d) (auto simp: distinct_insort_key_keys)

lemma map_of_sort_key: "distinct (map fst d) \<Longrightarrow> map_of (sort_key f d) = map_of d"
  by (subst map_of_inject_set) (simp_all add: distinct_sort_key_keys)

lemma py_dict_get_sorted:
  "distinct (map fst d) \<Longrightarrow> key_sorted dflt = dflt \<Longrightarrow>
     py_dict_get (sort_key fst (key_sorted_entries d)) k dflt = key_sorted (py_dict_get d k dflt)"
  by (auto simp: py_dict_get_def map_of_sort_key map_of_key_sorted_entries split: option.splits)

lemma sorted_keys [simp]: "fst ` set (key_sorted_entries d) = fst ` set d"
  by (metis key_sorted_entries_keys set_map)

lemma json_entries_map: "json_entries enc rt i k s d = map (\<lambda>(x, v). (x, json_text enc rt i k s v)) d"
  by (induction d) auto

lemma insort_key_map:
  "(\<And>x. f (g x) = h x) \<Longrightarrow> insort_key f (g x) (map g xs) = map g (insort_key h x xs)"
  by (induction xs) auto

lemma sort_key_map: "(\<And>x. f (g x) = h x) \<Longrightarrow> sort_key f (map g xs) = map g (sort_key h xs)"
  by (induction xs) (auto simp: insort_key_map)

lemma sort_key_twice: "sort_key f (sort_key f xs) = sort_key f xs"
  by (simp add: sort_key_id_if_sorted)

text \<open>The text of a dumped value with sorted keys does not depend on the order of the keys.\<close>

lemma json_text_key_sorted:
  "json_text enc rt i k True (key_sorted v) = json_text enc rt i k True v"
  "json_items enc rt i k True (key_sorted_items xs) = json_items enc rt i k True xs"
  "json_entries enc rt i k True (key_sorted_entries d) = json_entries enc rt i k True d"
proof (induction v and xs and d rule: key_sorted_key_sorted_items_key_sorted_entries.induct)
  case (2 d)
  have "json_entries enc rt i k True (sort_key fst (key_sorted_entries d))
      = sort_key fst (json_entries enc rt i k True (key_sorted_entries d))"
    unfolding json_entries_map by (rule sort_key_map [symmetric]) (simp split: prod.split)
  with 2 show ?case by (simp add: sort_key_twice)
qed auto

text \<open>A value without NaN and without repeated keys equals its sorted form.\<close>

fun plain :: "pyval \<Rightarrow> bool"
and plain_items :: "pyval list \<Rightarrow> bool"
and plain_entries :: "pydict \<Rightarrow> bool" where
  "plain (PList xs) = plain_items xs"
| "plain (PDict d) = (distinct (map fst d) \<and> plain_entries d)"
| "plain (PFloat x) = (x \<noteq> NaN)"
| "plain v = True"
| "plain_items [] = True"
| "plain_items (x # xs) = (plain x \<and> plain_items xs)"
| "plain_entries [] = True"
| "plain_entries ((k, v) # d) = (plain v \<and> plain_entries d)"

lemma plain_items_all: "plain_items xs = (\<forall>x \<in> set xs. plain x)"
  by (induction xs) auto

lemma plain_entries_all: "plain_entries d = (\<forall>(k, v) \<in> set d. plain v)"
  by (induction d) auto

lemma py_eq_items_all: "py_eq_items xs ys = list_all2 py_eq xs ys"
  by (induction xs arbitrary: ys) (auto simp: list_all2_Cons1 split: list.splits)

lemma py_eq_entries_all: "py_eq_entries d e = (\<forall>(k, v) \<in> set d. \<exists>w. map_of e k = Some w \<and> py_eq v w)"
  by (induction d) (auto split: option.splits)

lemma py_eq_key_sorted:
  "plain v \<Longrightarrow> py_eq (key_sorted v) v"
  "plain_items xs \<Longrightarrow> py_eq_items (key_sorted_items xs) xs"
  "plain_entries d \<Longrightarrow> \<forall>(k, v) \<in> set d. py_eq (key_sorted v) v"
proof (induction v and xs and d rule: plain_plain_items_plain_entries.induct)
  case (2 d)
  then have d: "distinct (map fst d)" "\<forall>(k, v) \<in> set d. py_eq (key_sorted v) v" by auto
  have "\<exists>w. map_of d k = Some w \<and> py_eq (key_sorted v) w" if "(k, v) \<in> set d" for k v
    using that d map_of_is_SomeI [OF d(1)] by fastforce
  moreover have "length (key_sorted_entries d) = length d" by (simp add: key_sorted_entries_map)
  ultimately show ?case
    by (auto simp: py_eq_entries_all key_sorted_entries_map)
qed (auto simp: num_eq_def num_of_def)

section \<open>Texts with sorted keys\<close>

text \<open>The text of a value with sorted keys, with blanks \<open>gap level\<close> around the items of a nonempty list or
  dictionary and \<open>ksep\<close> after each key.\<close>

fun layout :: "(nat \<Rightarrow> string) \<Rightarrow> string \<Rightarrow> runtime \<Rightarrow> nat \<Rightarrow> pyval \<Rightarrow> string"
and layout_items :: "(nat \<Rightarrow> string) \<Rightarrow> string \<Rightarrow> runtime \<Rightarrow> nat \<Rightarrow> pyval list \<Rightarrow> string list"
and layout_entries :: "(nat \<Rightarrow> string) \<Rightarrow> string \<Rightarrow> runtime \<Rightarrow> nat \<Rightarrow> pydict \<Rightarrow> (string \<times> string) list" where
  "layout gap ksep rt n PNone = ''null''"
| "layout gap ksep rt n (PBool b) = (if b then ''true'' else ''false'')"
| "layout gap ksep rt n (PInt i) = show_int i"
| "layout gap ksep rt n (PFloat x) = json_flt rt x"
| "layout gap ksep rt n (PStr s) = json_str s"
| "layout gap ksep rt n (PList xs) =
     (if xs = [] then ''[]''
      else ''['' @ gap (Suc n) @ join ('','' @ gap (Suc n)) (layout_items gap ksep rt (Suc n) xs) @ gap n @ '']'')"
| "layout gap ksep rt n (PDict d) =
     (if d = [] then ''{}''
      else ''{'' @ gap (Suc n)
        @ join ('','' @ gap (Suc n)) (map (\<lambda>(k, t). json_str k @ ksep @ t)
             (sort_key fst (layout_entries gap ksep rt (Suc n) d)))
        @ gap n @ ''}'')"
| "layout_items gap ksep rt n [] = []"
| "layout_items gap ksep rt n (x # xs) = layout gap ksep rt n x # layout_items gap ksep rt n xs"
| "layout_entries gap ksep rt n [] = []"
| "layout_entries gap ksep rt n ((k, v) # d) = (k, layout gap ksep rt n v) # layout_entries gap ksep rt n d"

lemma layout_items_map: "layout_items gap ksep rt n xs = map (layout gap ksep rt n) xs"
  by (induction xs) auto

lemma layout_entries_map: "layout_entries gap ksep rt n d = map (\<lambda>(k, v). (k, layout gap ksep rt n v)) d"
  by (induction d) auto

text \<open>\<open>json.dumps(value, indent=2, sort_keys=True)\<close>.\<close>

definition newline :: "nat \<Rightarrow> string" where
  "newline level = CHR 0x0A # replicate (2 * level) (CHR '' '')"

definition json_pretty :: "runtime \<Rightarrow> nat \<Rightarrow> pyval \<Rightarrow> string" where
  "json_pretty rt n v = layout newline '': '' rt n v"

text \<open>\<open>json.dumps(value, separators=(",", ":"), sort_keys=True)\<close> is the text without blanks.\<close>

lemma compact_layout:
  "json_dumps rt '','' '':'' True v = layout (\<lambda>_. []) '':'' rt n v"
  "json_items json_char rt '','' '':'' True xs = layout_items (\<lambda>_. []) '':'' rt n xs"
  "json_entries json_char rt '','' '':'' True d = layout_entries (\<lambda>_. []) '':'' rt n d"
  by (induction v and xs and d arbitrary: n and n and n rule: plain_plain_items_plain_entries.induct)
     (auto simp: split_def Let_def)

section \<open>Reading numbers\<close>

text \<open>What follows a value inside a document.\<close>

definition delimited :: "string \<Rightarrow> bool" where
  "delimited r = (r = [] \<or> hd r \<in> {CHR '','', CHR '']'', CHR ''}''} \<or> json_ws (hd r))"

lemma delimited_first:
  "delimited r \<Longrightarrow> r = [] \<or> \<not> is_digit (hd r) \<and> hd r \<noteq> CHR ''.'' \<and> hd r \<noteq> CHR ''e'' \<and> hd r \<noteq> CHR ''E''"
  by (auto simp: delimited_def is_digit_def json_ws_def)

lemma digits_delimited:
  assumes "delimited r"
  shows "takeWhile is_digit (s @ r) = takeWhile is_digit s" "dropWhile is_digit (s @ r) = dropWhile is_digit s @ r"
proof -
  have r: "r = [] \<or> \<not> is_digit (hd r)" using delimited_first [OF assms] by auto
  show "takeWhile is_digit (s @ r) = takeWhile is_digit s" "dropWhile is_digit (s @ r) = dropWhile is_digit s @ r"
    by (induction s) (use r in \<open>cases r; auto\<close>)+
qed

lemma json_int_part_append:
  assumes "json_int_part s = Some (ip, s1)" "delimited r"
  shows "json_int_part (s @ r) = Some (ip, s1 @ r)"
  using assms(1) digits_delimited [OF assms(2), of s]
  by (auto simp: json_int_part_def split: list.splits if_splits)

lemma json_frac_part_append:
  assumes "json_frac_part s = (fp, s1)" "delimited r"
  shows "json_frac_part (s @ r) = (fp, s1 @ r)"
proof (cases s)
  case Nil
  then show ?thesis using assms delimited_first [OF assms(2)] by (auto simp: json_frac_part_def split: list.splits)
next
  case (Cons c t)
  then show ?thesis using assms(1) digits_delimited [OF assms(2), of t] by (auto simp: json_frac_part_def)
qed

lemma json_exp_part_append:
  assumes "json_exp_part s = (ep, s1)" "s1 = []" "delimited r"
  shows "json_exp_part (s @ r) = (ep, r)"
proof (cases s)
  case Nil
  then show ?thesis using assms delimited_first [OF assms(3)] by (auto simp: json_exp_part_def split: list.splits)
next
  case (Cons c t)
  note tw = digits_delimited [OF assms(3)]
  show ?thesis using assms(1,2) Cons tw [of t] tw [of "tl t"]
    by (cases t) (auto simp: json_exp_part_def Let_def split: if_splits)
qed

lemma json_number_append:
  assumes "json_number s = Some (v, [])" "delimited r"
  shows "json_number (s @ r) = Some (v, r)"
proof -
  define neg where "neg = (s \<noteq> [] \<and> hd s = CHR ''-'')"
  define u where "u = (if neg then tl s else s)"
  obtain ip s1 where ip: "json_int_part u = Some (ip, s1)"
    using assms(1) by (auto simp: json_number_def Let_def neg_def u_def split: option.splits)
  obtain fp s2 where fp: "json_frac_part s1 = (fp, s2)" by (cases "json_frac_part s1")
  obtain ep s3 where ep: "json_exp_part s2 = (ep, s3)" by (cases "json_exp_part s2")
  have "s3 = []" using assms(1) ip fp ep
    by (auto simp: json_number_def Let_def neg_def u_def split: if_splits)
  have ne: "s \<noteq> []" using ip by (auto simp: json_int_part_def u_def split: if_splits)
  then have app: "(s @ r \<noteq> [] \<and> hd (s @ r) = CHR ''-'') = neg" "(if neg then tl (s @ r) else s @ r) = u @ r"
    by (auto simp: neg_def u_def)
  show ?thesis
    using assms(1) unfolding json_number_def Let_def app json_int_part_append [OF ip assms(2)]
      neg_def [symmetric] u_def [symmetric] ip option.case prod.case
      json_frac_part_append [OF fp assms(2)] fp json_exp_part_append [OF ep \<open>s3 = []\<close> assms(2)] ep
    by (auto split: if_splits)
qed

lemma json_number_first:
  assumes "json_number s = Some x"
  shows "\<exists>c t. is_digit c \<and> (s = c # t \<or> s = CHR ''-'' # c # t)"
proof -
  have part: "\<exists>c t. is_digit c \<and> u = c # t" if "json_int_part u = Some y" for u y
    using that by (auto simp: json_int_part_def is_digit_def split: list.splits if_splits)
  from assms obtain y where "json_int_part (if s \<noteq> [] \<and> hd s = CHR ''-'' then tl s else s) = Some y"
    by (auto simp: json_number_def Let_def split: option.splits)
  from part [OF this] show ?thesis by (cases s) (auto split: if_splits)
qed

lemma json_number_no_literal: "json_number s = Some x \<Longrightarrow> json_literal s = None"
  by (drule json_number_first)
     (auto simp: json_literal_def json_literals_def is_digit_def find_None_all split: option.splits)

lemma of_char_digit: "k < 10 \<Longrightarrow> of_char (char_of (48 + k :: nat)) = 48 + k"
  by (simp add: of_char_of)

lemma is_digit_char: "k < 10 \<Longrightarrow> is_digit (char_of (48 + k :: nat))"
  by (simp add: is_digit_def of_char_digit Let_def)

lemma char_of_zero: "char_of (48 :: nat) = CHR ''0''"
  by (simp add: char_of_def bit_iff_odd)

lemma show_nat_digits: "show_nat n \<noteq> [] \<and> list_all is_digit (show_nat n)"
proof (induction n rule: show_nat.induct)
  case (1 n)
  then show ?case by (subst (1 2) show_nat.simps) (auto simp: is_digit_char)
qed

lemma digits_val_snoc: "is_digit c \<Longrightarrow> digits_val (s @ [c]) = 10 * digits_val s + int (of_char c - 48)"
  by (simp add: digits_val_def)

lemma digits_val_show_nat: "digits_val (show_nat n) = int n"
proof (induction n rule: show_nat.induct)
  case (1 n)
  show ?case
  proof (cases "n < 10")
    case True
    then show ?thesis
      by (subst show_nat.simps) (simp add: digits_val_def is_digit_char of_char_digit)
  next
    case False
    then have "digits_val (show_nat n) = 10 * digits_val (show_nat (n div 10)) + int (n mod 10)"
      by (subst show_nat.simps) (simp add: digits_val_snoc is_digit_char of_char_digit)
    with 1 False show ?thesis by (simp add: zdiv_int zmod_int)
  qed
qed

lemma hd_show_nat: "0 < n \<Longrightarrow> hd (show_nat n) \<noteq> CHR ''0''"
proof (induction n rule: show_nat.induct)
  case (1 n)
  show ?case
  proof (cases "n < 10")
    case True
    have "char_of (48 + n) \<noteq> CHR ''0''"
    proof
      assume "char_of (48 + n) = CHR ''0''"
      then have "of_char (char_of (48 + n) :: char) = (48 :: nat)" by simp
      with of_char_digit [OF True] 1(2) show False by simp
    qed
    with True show ?thesis by (subst show_nat.simps) simp
  next
    case False
    with 1 have "hd (show_nat (n div 10)) \<noteq> CHR ''0''" by simp
    with False show_nat_digits [of "n div 10"] show ?thesis by (subst show_nat.simps) simp
  qed
qed

lemma json_int_part_show_nat:
  assumes r: "r = [] \<or> \<not> is_digit (hd r)"
  shows "json_int_part (show_nat n @ r) = Some (show_nat n, r)"
proof (cases "n = 0")
  case True
  have "show_nat 0 = ''0''" by (subst show_nat.simps) (simp add: char_of_zero)
  with True show ?thesis by (simp add: json_int_part_def)
next
  case False
  obtain c t where ct: "show_nat n = c # t" using show_nat_digits [of n] by (cases "show_nat n") auto
  have "c \<noteq> CHR ''0''" using hd_show_nat [of n] False ct by simp
  moreover have "\<forall>x \<in> set (c # t). is_digit x" using show_nat_digits [of n] ct by (simp add: list_all_iff)
  moreover have "takeWhile is_digit r = []" "dropWhile is_digit r = r" using r by (cases r; auto)+
  ultimately show ?thesis unfolding ct
    by (auto simp: json_int_part_def takeWhile_append dropWhile_append takeWhile_eq_all_conv dropWhile_eq_Nil_conv)
qed

text \<open>Python refuses to write or read an integer with more digits than its limit.\<close>

definition int_prints :: "int \<Rightarrow> bool" where
  "int_prints i = (length (show_nat (nat \<bar>i\<bar>)) \<le> max_int_digits)"

lemma json_number_show_int: "int_prints i \<Longrightarrow> json_number (show_int i) = Some (PInt i, [])"
proof -
  assume p: "int_prints i"
  have "hd (show_nat n) \<noteq> CHR ''-''" for n
    using show_nat_digits [of n] by (cases "show_nat n") (auto simp: is_digit_def)
  then show ?thesis using p show_nat_digits
    by (cases "i < 0") (auto simp: json_number_def show_int_def json_int_part_show_nat [of "[]", simplified] json_frac_part_def json_exp_part_def
        digits_val_show_nat int_prints_def Let_def)
qed

section \<open>Reading strings\<close>

lemma hex_val_hex_digit: "k < 16 \<Longrightarrow> hex_val (hex_digit k) = Some k"
  by (auto simp: hex_val_def hex_digit_def of_char_of)

lemma char_of_escapes:
  "char_of (34 :: nat) = CHR 0x22" "char_of (92 :: nat) = CHR 0x5C" "char_of (10 :: nat) = CHR 0x0A"
  "char_of (13 :: nat) = CHR 0x0D" "char_of (9 :: nat) = CHR 0x09" "char_of (8 :: nat) = CHR 0x08"
  "char_of (12 :: nat) = CHR 0x0C"
  by (simp_all add: char_of_def bit_iff_odd)

lemma json_chars_char:
  "json_chars (Suc n) (json_char c @ t) = map_option (\<lambda>(cs, r). (c # cs, r)) (json_chars n t)"
proof -
  define k where "k = (of_char c :: nat)"
  have k: "k < 256" by (simp add: k_def)
  have c: "c = char_of k" by (simp add: k_def)
  consider "k \<in> {34, 92, 10, 13, 9, 8, 12}" | "k \<notin> {34, 92, 10, 13, 9, 8, 12}" "k < 32 \<or> 126 < k"
    | "k \<notin> {34, 92}" "32 \<le> k" "k \<le> 126" by force
  then show ?thesis
  proof cases
    case 1
    then have "char_of k \<in> {CHR 0x22, CHR 0x5C, CHR 0x0A, CHR 0x0D, CHR 0x09, CHR 0x08, CHR 0x0C}"
      by (elim insertE emptyE) (simp_all only: char_of_escapes insert_iff simp_thms)
    then have "c \<in> {CHR 0x22, CHR 0x5C, CHR 0x0A, CHR 0x0D, CHR 0x09, CHR 0x08, CHR 0x0C}" by (simp only: c)
    then show ?thesis
      by (elim insertE emptyE) (simp_all add: json_char_def json_escape_def Let_def)
  next
    case 2
    have "hex4 (''00'' @ [hex_digit (k div 16), hex_digit (k mod 16)]) = Some k"
      using k hex_val_hex_digit [of "k div 16"] hex_val_hex_digit [of "k mod 16"]
      by (simp add: hex4_def hex_val_def)
    moreover have "json_char c = CHR 0x5C # ''u00'' @ [hex_digit (k div 16), hex_digit (k mod 16)]"
      using 2 by (simp add: json_char_def Let_def flip: k_def)
    ultimately show ?thesis using k c by simp
  next
    case 3
    have "c \<noteq> CHR 0x22" "c \<noteq> CHR 0x5C" using 3(1) unfolding k_def by auto
    moreover have "json_char c = [c]" using 3 by (simp add: json_char_def Let_def flip: k_def)
    moreover have "\<not> of_char c < (32 :: nat)" using 3 by (simp flip: k_def)
    ultimately show ?thesis by simp
  qed
qed

lemma json_chars_str:
  "length s < n \<Longrightarrow> json_chars n (concat (map json_char s) @ CHR 0x22 # r) = Some (s, r)"
proof (induction s arbitrary: n)
  case Nil
  then show ?case by (cases n) auto
next
  case (Cons c s)
  then obtain m where "n = Suc m" "length s < m" by (cases n) auto
  with Cons.IH show ?case by (simp add: json_chars_char)
qed

section \<open>Reading values\<close>

text \<open>The representation of a finite float is a JSON number that reads back as that float.\<close>

definition float_prints :: "runtime \<Rightarrow> flt \<Rightarrow> bool" where
  "float_prints rt x = (case x of Fin y \<Rightarrow> json_number (float_repr rt y) = Some (PFloat (Fin y), []) | _ \<Rightarrow> True)"

fun printable :: "runtime \<Rightarrow> pyval \<Rightarrow> bool"
and printable_items :: "runtime \<Rightarrow> pyval list \<Rightarrow> bool"
and printable_entries :: "runtime \<Rightarrow> pydict \<Rightarrow> bool" where
  "printable rt (PList xs) = printable_items rt xs"
| "printable rt (PDict d) = (distinct (map fst d) \<and> printable_entries rt d)"
| "printable rt (PFloat x) = float_prints rt x"
| "printable rt (PInt i) = int_prints i"
| "printable rt v = True"
| "printable_items rt [] = True"
| "printable_items rt (x # xs) = (printable rt x \<and> printable_items rt xs)"
| "printable_entries rt [] = True"
| "printable_entries rt ((k, v) # d) = (printable rt v \<and> printable_entries rt d)"

lemma printable_items_all: "printable_items rt xs = (\<forall>x \<in> set xs. printable rt x)"
  by (induction xs) auto

lemma printable_entries_all: "printable_entries rt d = (\<forall>(k, v) \<in> set d. printable rt v)"
  by (induction d) auto

lemma dropWhile_ws: "list_all json_ws w \<Longrightarrow> \<not> json_ws c \<Longrightarrow> skip_ws (w @ c # s) = c # s"
  by (induction w) (auto simp: skip_ws_def)

lemma json_value_number:
  assumes "json_number s = Some (v, [])" "delimited r"
  shows "json_value (Suc n) (s @ r) = Some (v, r)"
proof -
  note num = json_number_append [OF assms]
  obtain c t where s: "s = c # t" and c: "is_digit c \<or> c = CHR ''-''"
    using json_number_first [OF assms(1)] by auto
  have "c \<noteq> CHR 0x22" "c \<noteq> CHR ''[''" "c \<noteq> CHR ''{''" using c by (auto simp: is_digit_def)
  with num json_number_no_literal [OF num] s show ?thesis by simp
qed

lemma json_value_literal:
  assumes "(s, v) \<in> set json_literals" "delimited r"
  shows "json_value (Suc n) (s @ r) = Some (v, r)"
  using assms(1) by (auto simp: json_literals_def json_literal_def)

lemma length_json_char: "length s \<le> length (concat (map json_char s))"
proof (induction s)
  case (Cons c s)
  have "1 \<le> length (json_char c)" by (simp add: json_char_def Let_def)
  with Cons show ?case by simp
qed simp

lemma json_chars_quoted:
  "json_chars (length (concat (map json_char s)) + Suc k) (concat (map json_char s) @ CHR 0x22 # r) = Some (s, r)"
  by (rule json_chars_str) (use length_json_char [of s] in simp)

lemma json_value_str: "json_value (Suc n) (json_str s @ r) = Some (PStr s, r)"
  using json_chars_quoted [of s "length r" r] by (simp add: json_quote_def)

definition value_start :: "string \<Rightarrow> bool" where
  "value_start s = (s \<noteq> [] \<and> \<not> json_ws (hd s) \<and> hd s \<noteq> CHR '']'' \<and> hd s \<noteq> CHR ''}'')"

lemma value_start_number: "json_number s = Some x \<Longrightarrow> value_start s"
  by (drule json_number_first) (auto simp: value_start_def is_digit_def json_ws_def)

lemma layout_first: "printable rt v \<Longrightarrow> value_start (layout gap ksep rt l v)"
proof (cases v)
  case (PFloat x)
  then show "printable rt v \<Longrightarrow> value_start (layout gap ksep rt l v)"
    by (cases x) (auto simp: float_prints_def json_flt_def value_start_def json_ws_def dest: value_start_number)
next
  case (PInt i)
  then show "printable rt v \<Longrightarrow> value_start (layout gap ksep rt l v)"
    by (auto dest: value_start_number json_number_show_int)
qed (auto simp: value_start_def json_ws_def json_quote_def)

lemma value_start_join: "value_start x \<Longrightarrow> value_start (join sep (x # xs))"
  by (cases xs) (auto simp: value_start_def)

lemma py_dict_set_new: "k \<notin> fst ` set d \<Longrightarrow> py_dict_set d k v = d @ [(k, v)]"
  by (induction d) auto

lemma foldl_dict_set:
  "distinct (map fst (m @ es)) \<Longrightarrow> foldl (\<lambda>m (k, v). py_dict_set m k v) m es = m @ es"
proof (induction es arbitrary: m)
  case (Cons e es)
  obtain k v where e: "e = (k, v)" by (cases e)
  have "py_dict_set m k v = m @ [(k, v)]" using Cons.prems e by (intro py_dict_set_new) force
  with Cons.IH [of "m @ [(k, v)]"] Cons.prems e show ?case by simp
qed simp

lemma key_sorted_dict: "key_sorted (PDict d) = PDict (map (\<lambda>(k, v). (k, key_sorted v)) (sort_key fst d))"
  by (simp add: key_sorted_entries_map sort_key_map [where h = fst] split_def)

text \<open>A layout with blanks only: what it writes is read back.\<close>

locale json_layout =
  fixes gap :: "nat \<Rightarrow> string" and kws :: string
  assumes gap: "list_all json_ws (gap l)" and kws: "list_all json_ws kws"
begin

abbreviation "ksep \<equiv> CHR '':'' # kws"

lemma delimited_gap: "delimited (c # r) \<Longrightarrow> delimited (gap l @ c # r)"
  using gap [of l] by (cases "gap l") (auto simp: delimited_def)

text \<open>A value that is read correctly in every context, at every indentation.\<close>

definition reads :: "runtime \<Rightarrow> pyval \<Rightarrow> bool" where
  "reads rt v = (\<forall>l n r. 2 * length (layout gap ksep rt l v) < n \<longrightarrow> delimited r \<longrightarrow>
     json_value n (layout gap ksep rt l v @ r) = Some (key_sorted v, r))"

lemma skip_ws_start: "value_start s \<Longrightarrow> skip_ws (gap l @ s @ r) = s @ r"
  by (cases s) (auto simp: value_start_def dropWhile_ws gap)

lemma json_array_items:
  assumes "xs \<noteq> []" "\<forall>x \<in> set xs. reads rt x \<and> printable rt x"
    "2 * length (join ('','' @ gap l) (map (layout gap ksep rt l) xs)) + 1 < n"
  shows "json_array n (join ('','' @ gap l) (map (layout gap ksep rt l) xs) @ gap k @ CHR '']'' # r)
    = Some (map key_sorted xs, r)"
  using assms
proof (induction xs arbitrary: n)
  case (Cons x xs)
  note prems = Cons.prems and hyp = Cons.IH
  obtain m where n: "n = Suc m" using prems(3) by (cases n) auto
  have x: "json_value m (layout gap ksep rt l x @ q) = Some (key_sorted x, q)"
    if "delimited q" "2 * length (layout gap ksep rt l x) < m" for q
    using prems(2) that by (simp add: reads_def)
  show ?case
  proof (cases xs)
    case Nil
    have "delimited (gap k @ CHR '']'' # r)" by (rule delimited_gap) (simp add: delimited_def)
    with x prems(3) n Nil show ?thesis
      by (simp add: dropWhile_ws gap json_ws_def)
  next
    case (Cons y ys)
    let ?rest = "join ('','' @ gap l) (map (layout gap ksep rt l) xs)"
    have start: "value_start ?rest"
      using prems(2) Cons by (auto intro!: value_start_join layout_first)
    have q: "delimited ('','' @ gap l @ ?rest @ gap k @ CHR '']'' # r)" by (simp add: delimited_def)
    have doc: "join ('','' @ gap l) (map (layout gap ksep rt l) (x # xs)) @ gap k @ CHR '']'' # r
        = layout gap ksep rt l x @ '','' @ gap l @ ?rest @ gap k @ CHR '']'' # r"
      using Cons by simp
    have len: "2 * length (layout gap ksep rt l x) < m" "2 * length ?rest + 1 < m"
      using prems(3) n Cons by simp_all
    have IH: "json_array m (?rest @ gap k @ CHR '']'' # r) = Some (map key_sorted xs, r)"
      using prems(2) Cons len(2) by (intro hyp) auto
    show ?thesis unfolding doc n using x [OF q len(1)] IH skip_ws_start [OF start, of l]
      by (simp add: skip_ws_def json_ws_def)
  qed
qed simp

abbreviation entry_text :: "runtime \<Rightarrow> nat \<Rightarrow> string \<times> pyval \<Rightarrow> string" where
  "entry_text rt l e \<equiv> json_str (fst e) @ ksep @ layout gap ksep rt l (snd e)"

lemma value_start_entries: "es \<noteq> [] \<Longrightarrow> value_start (join sep (map (entry_text rt l) es))"
proof (cases es)
  case (Cons e es')
  have "value_start (entry_text rt l e)" by (simp add: value_start_def json_quote_def json_ws_def)
  then show ?thesis unfolding Cons list.map by (rule value_start_join)
qed simp

lemma json_object_entry:
  assumes "reads rt v" "printable rt v" "2 * length (layout gap ksep rt l v) < n" "delimited q"
  shows "json_object (Suc n) (entry_text rt l (k, v) @ q) =
     (case skip_ws q of
        [] \<Rightarrow> None
      | e # u \<Rightarrow> (if e = CHR ''}'' then Some ([(k, key_sorted v)], u)
                 else if e = CHR '','' then map_option (\<lambda>(es, w). ((k, key_sorted v) # es, w)) (json_object n (skip_ws u))
                 else None))"
proof -
  let ?tail = "ksep @ layout gap ksep rt l v @ q"
  have chars: "json_chars (length (concat (map json_char k)) + Suc (length ?tail))
      (concat (map json_char k) @ CHR 0x22 # ?tail) = Some (k, ?tail)"
    by (rule json_chars_quoted)
  have "value_start (layout gap ksep rt l v)" using assms(2) by (rule layout_first)
  then have "skip_ws (kws @ layout gap ksep rt l v @ q) = layout gap ksep rt l v @ q"
    by (cases "layout gap ksep rt l v") (auto simp: value_start_def dropWhile_ws kws)
  moreover have "skip_ws ?tail = ?tail" by (simp add: skip_ws_def json_ws_def)
  moreover have "json_value n (layout gap ksep rt l v @ q) = Some (key_sorted v, q)"
    using assms by (simp add: reads_def)
  ultimately show ?thesis using chars by (simp add: json_quote_def)
qed

lemma json_object_entries:
  assumes "es \<noteq> []" "\<forall>(k, v) \<in> set es. reads rt v \<and> printable rt v"
    "2 * length (join ('','' @ gap l) (map (entry_text rt l) es)) < n"
  shows "json_object n (join ('','' @ gap l) (map (entry_text rt l) es) @ gap j @ CHR ''}'' # r)
    = Some (map (\<lambda>(k, v). (k, key_sorted v)) es, r)"
  using assms
proof (induction es arbitrary: n)
  case (Cons e es)
  note prems = Cons.prems and hyp = Cons.IH
  obtain k v where e: "e = (k, v)" by (cases e)
  obtain m where n: "n = Suc m" using prems(3) by (cases n) auto
  have v: "reads rt v" "printable rt v" using prems(2) e by auto
  show ?case
  proof (cases es)
    case Nil
    have q: "delimited (gap j @ CHR ''}'' # r)" by (rule delimited_gap) (simp add: delimited_def)
    have "2 * length (layout gap ksep rt l v) < m" using prems(3) n Nil e by (simp add: json_quote_def)
    from json_object_entry [OF v this q, of k] Nil n e show ?thesis by (simp add: dropWhile_ws gap json_ws_def)
  next
    case (Cons e' es')
    let ?rest = "join ('','' @ gap l) (map (entry_text rt l) es)"
    have start: "value_start ?rest" using Cons by (intro value_start_entries) simp
    have q: "delimited ('','' @ gap l @ ?rest @ gap j @ CHR ''}'' # r)" by (simp add: delimited_def)
    have doc: "join ('','' @ gap l) (map (entry_text rt l) (e # es)) @ gap j @ CHR ''}'' # r
        = entry_text rt l (k, v) @ '','' @ gap l @ ?rest @ gap j @ CHR ''}'' # r"
      using Cons e by simp
    have len: "2 * length (layout gap ksep rt l v) < m" "2 * length ?rest < m"
      using prems(3) n Cons e by (simp_all add: json_quote_def)
    have "json_object m (?rest @ gap j @ CHR ''}'' # r) = Some (map (\<lambda>(k, v). (k, key_sorted v)) es, r)"
      using prems(2) Cons len(2) by (intro hyp) auto
    with skip_ws_start [OF start, of l] show ?thesis
      unfolding doc n json_object_entry [OF v len(1) q] by (simp add: skip_ws_def json_ws_def e)
  qed
qed simp

lemma pretty_dict_entries:
  "map (\<lambda>(k, t). json_str k @ ksep @ t) (sort_key fst (layout_entries gap ksep rt l d)) = map (entry_text rt l) (sort_key fst d)"
  by (simp add: layout_entries_map sort_key_map [where h = fst] split_def)

lemma reads_list: "printable_items rt xs \<Longrightarrow> \<forall>x \<in> set xs. reads rt x \<Longrightarrow> reads rt (PList xs)"
  unfolding reads_def [of rt "PList xs"]
proof (intro allI impI)
  fix l n r
  assume xs: "printable_items rt xs" "\<forall>x \<in> set xs. reads rt x"
    and n: "2 * length (layout gap ksep rt l (PList xs)) < n" and r: "delimited r"
  then obtain m where m: "n = Suc m" by (cases n) auto
  show "json_value n (layout gap ksep rt l (PList xs) @ r) = Some (key_sorted (PList xs), r)"
  proof (cases xs)
    case Nil
    with m show ?thesis by (simp add: skip_ws_def json_ws_def)
  next
    case (Cons x ys)
    let ?items = "join ('','' @ gap (Suc l)) (map (layout gap ksep rt (Suc l)) xs)"
    have start: "value_start ?items"
      using xs(1) unfolding Cons list.map by (intro value_start_join layout_first) simp
    have "json_array m (?items @ gap l @ CHR '']'' # r) = Some (map key_sorted xs, r)"
      using xs n m Cons by (intro json_array_items) (auto simp: printable_items_all layout_items_map)
    moreover obtain d t where "?items = d # t" "d \<noteq> CHR '']''" using start by (cases ?items) (auto simp: value_start_def)
    ultimately show ?thesis using skip_ws_start [OF start, of "Suc l"] Cons m
      by (simp add: layout_items_map key_sorted_items_map)
  qed
qed

lemma reads_dict:
  "distinct (map fst d) \<Longrightarrow> printable_entries rt d \<Longrightarrow> \<forall>(k, v) \<in> set d. reads rt v \<Longrightarrow> reads rt (PDict d)"
  unfolding reads_def [of rt "PDict d"]
proof (intro allI impI)
  fix l n r
  assume d: "distinct (map fst d)" "printable_entries rt d" "\<forall>(k, v) \<in> set d. reads rt v"
    and n: "2 * length (layout gap ksep rt l (PDict d)) < n" and r: "delimited r"
  then obtain m where m: "n = Suc m" by (cases n) auto
  show "json_value n (layout gap ksep rt l (PDict d) @ r) = Some (key_sorted (PDict d), r)"
  proof (cases "d = []")
    case True
    with m show ?thesis by (simp add: skip_ws_def json_ws_def)
  next
    case False
    let ?es = "sort_key fst d"
    let ?entries = "join ('','' @ gap (Suc l)) (map (entry_text rt (Suc l)) ?es)"
    have ne: "?es \<noteq> []" using False by (metis set_empty set_sort)
    have start: "value_start ?entries" using ne by (rule value_start_entries)
    have doc: "layout gap ksep rt l (PDict d) = ''{'' @ gap (Suc l) @ ?entries @ gap l @ ''}''"
      unfolding layout.simps pretty_dict_entries using False by (simp only: if_False append_assoc)
    have "json_object m (?entries @ gap l @ CHR ''}'' # r) = Some (map (\<lambda>(k, v). (k, key_sorted v)) ?es, r)"
      using d n m ne unfolding doc by (intro json_object_entries) (auto simp: printable_entries_all)
    moreover have "foldl (\<lambda>m (k, v). py_dict_set m k v) [] (map (\<lambda>(k, v). (k, key_sorted v)) ?es)
        = map (\<lambda>(k, v). (k, key_sorted v)) ?es"
      using foldl_dict_set [of "[]" "map (\<lambda>(k, v). (k, key_sorted v)) ?es"] d(1) distinct_sort_key_keys [of fst d]
      by (simp add: o_def split_def)
    moreover obtain c t where "?entries = c # t" "c \<noteq> CHR ''}''" using start by (cases ?entries) (auto simp: value_start_def)
    ultimately show ?thesis using skip_ws_start [OF start, of "Suc l"] m
      unfolding doc key_sorted_dict by simp
  qed
qed

lemma reads_number: "(\<And>l. json_number (layout gap ksep rt l v) = Some (v, [])) \<Longrightarrow> key_sorted v = v \<Longrightarrow> reads rt v"
  unfolding reads_def
proof (intro allI impI)
  fix l n r
  assume "\<And>l. json_number (layout gap ksep rt l v) = Some (v, [])" "key_sorted v = v" "delimited r"
    "2 * length (layout gap ksep rt l v) < n"
  then show "json_value n (layout gap ksep rt l v @ r) = Some (key_sorted v, r)"
    using json_value_number [of "layout gap ksep rt l v" v r] by (cases n) auto
qed

lemma reads_literal:
  "(\<And>l. (layout gap ksep rt l v, v) \<in> set json_literals) \<Longrightarrow> key_sorted v = v \<Longrightarrow> reads rt v"
  unfolding reads_def
proof (intro allI impI)
  fix l n r
  assume "\<And>l. (layout gap ksep rt l v, v) \<in> set json_literals" "key_sorted v = v" "delimited r"
    "2 * length (layout gap ksep rt l v) < n"
  then show "json_value n (layout gap ksep rt l v @ r) = Some (key_sorted v, r)"
    using json_value_literal [of "layout gap ksep rt l v" v r] by (cases n) auto
qed

lemma reads_float: "float_prints rt x \<Longrightarrow> reads rt (PFloat x)"
proof (cases x)
  case (Fin y)
  then show "float_prints rt x \<Longrightarrow> reads rt (PFloat x)"
    by (intro reads_number) (auto simp: float_prints_def json_flt_def)
qed (intro reads_literal; simp add: json_literals_def json_flt_def)+

lemma reads_str: "reads rt (PStr s)"
  unfolding reads_def
proof (intro allI impI)
  fix l n r
  assume "2 * length (layout gap ksep rt l (PStr s)) < n"
  then show "json_value n (layout gap ksep rt l (PStr s) @ r) = Some (key_sorted (PStr s), r)"
    using json_value_str [of _ s r] by (cases n) auto
qed

lemma printable_reads:
  "printable rt v \<Longrightarrow> reads rt v"
  "printable_items rt xs \<Longrightarrow> \<forall>x \<in> set xs. reads rt x"
  "printable_entries rt d \<Longrightarrow> \<forall>(k, v) \<in> set d. reads rt v"
proof (induction rt v and rt xs and rt d rule: printable_printable_items_printable_entries.induct)
  case (4 rt i)
  then show ?case by (intro reads_number) (auto simp: json_number_show_int)
qed (auto intro: reads_list reads_dict reads_float reads_str reads_literal simp: json_literals_def)

text \<open>Reading the whole document, blanks after it included.\<close>

lemma json_loads_layout:
  assumes "printable rt v" "list_all json_ws w"
  shows "json_loads (layout gap ksep rt 0 v @ w) = Some (key_sorted v)"
proof -
  have "delimited w" using assms(2) by (cases w) (auto simp: delimited_def)
  then have "json_value (Suc (2 * length (layout gap ksep rt 0 v @ w))) (layout gap ksep rt 0 v @ w) = Some (key_sorted v, w)"
    using printable_reads(1) [OF assms(1)] by (simp add: reads_def)
  moreover have "skip_ws (layout gap ksep rt 0 v @ w) = layout gap ksep rt 0 v @ w"
    using layout_first [OF assms(1), of gap ksep 0] by (cases "layout gap ksep rt 0 v") (auto simp: value_start_def skip_ws_def)
  moreover have "skip_ws w = []" using assms(2) by (simp add: skip_ws_def list_all_iff)
  ultimately show ?thesis by (simp add: json_loads_def)
qed

end

text \<open>The two texts the program writes: with an indentation and a newline at the end, and without blanks.
  Each reads back as the value with sorted keys.\<close>

interpretation indented: json_layout newline "'' ''"
  by unfold_locales (simp_all add: newline_def json_ws_def list_all_iff)

interpretation compact: json_layout "\<lambda>_. []" "[]"
  by unfold_locales simp_all

lemma json_loads_pretty:
  assumes "printable rt v"
  shows "json_loads (json_pretty rt 0 v @ [CHR 0x0A]) = Some (key_sorted v)"
  using indented.json_loads_layout [OF assms, of "[CHR 0x0A]"] by (simp add: json_pretty_def json_ws_def)

lemma json_loads_compact:
  assumes "printable rt v"
  shows "json_loads (json_dumps rt '','' '':'' True v) = Some (key_sorted v)"
  using compact.json_loads_layout [OF assms, of "[]"] by (simp add: compact_layout(1) [of rt v 0])

lemma digits_ok_digits: "list_all is_digit s \<Longrightarrow> digits_ok b s = (b \<or> s \<noteq> [])"
  by (induction s arbitrary: b) auto

lemma strip_no_space: "list_all (\<lambda>c. \<not> is_space c) s \<Longrightarrow> strip s = s"
proof -
  assume s: "list_all (\<lambda>c. \<not> is_space c) s"
  have "dropWhile is_space u = u" if "\<forall>c \<in> set u. \<not> is_space c" for u using that by (cases u) auto
  from this [of s] this [of "rev s"] s show ?thesis by (simp add: strip_def strip_where_def list_all_iff)
qed

lemma show_int_text:
  shows "show_int i \<noteq> []" "strip (show_int i) = show_int i" "CHR ''Z'' \<notin> set (show_int i)"
    "parse_int (show_int i) = Some i"
proof -
  have d: "show_nat n \<noteq> []" "\<forall>c \<in> set (show_nat n). is_digit c" for n using show_nat_digits [of n] by (auto simp: list_all_iff)
  show "show_int i \<noteq> []" using d(1) by (simp add: show_int_def)
  show st: "strip (show_int i) = show_int i"
  proof (rule strip_no_space)
    have "\<not> is_space c" if "is_digit c \<or> c = CHR ''-''" for c using that by (auto simp: is_space_def is_digit_def Let_def)
    then show "list_all (\<lambda>c. \<not> is_space c) (show_int i)" using d(2) by (auto simp: show_int_def list_all_iff)
  qed
  have "\<not> is_digit (CHR ''Z'')" by (simp add: is_digit_def)
  then show "CHR ''Z'' \<notin> set (show_int i)" using d(2) by (auto simp: show_int_def)
  have "hd (show_nat n) \<notin> {CHR ''-'', CHR ''+''}" for n
    using d [of n] by (cases "show_nat n") (auto simp: is_digit_def)
  then show "parse_int (show_int i) = Some i"
    using d show_nat_digits unfolding parse_int_def st
    by (auto simp: show_int_def digits_ok_digits digits_val_show_nat Let_def)
qed

text \<open>A number of hundredths, in exponent notation, reads back.\<close>

lemma json_number_hundredths:
  "json_number (show_nat n @ ''e-2'') = Some (PFloat (Fin (of_nat n / 100)), [])"
proof -
  have "hd (show_nat n) \<noteq> CHR ''-''" "show_nat n \<noteq> []"
    using show_nat_digits [of n] by (cases "show_nat n"; auto simp: is_digit_def)+
  moreover have "json_frac_part ''e-2'' = ([], ''e-2'')" "json_exp_part ''e-2'' = (Some (- 2), [])"
    by (simp_all add: json_frac_part_def json_exp_part_def is_digit_def digits_val_def Let_def)
  moreover have "json_int_part (show_nat n @ ''e-2'') = Some (show_nat n, ''e-2'')"
    by (rule json_int_part_show_nat) (simp add: is_digit_def)
  ultimately show ?thesis
    by (simp add: json_number_def Let_def digits_val_show_nat pow10_def power2_eq_square)
qed

end
