(* ===== verification/Calibration_Artifact.thy ===== *)
theory Calibration_Artifact
  imports Confidence_Calibration Py_Json_Text
begin

text \<open>
  Reading a calibration artifact back (\<open>load_calibration_artifact\<close> of
  \<open>src/src/sre_agent/confidence_calibration.py\<close>). The file is not trusted: every bin is checked, the
  threshold curve and the costs are computed again from the bins, the threshold has to be the
  operating point the selection rule picks, and the digest has to cover the payload.

  Shown here: a loaded threshold rests on live evidence and on the bins in the file, whoever wrote
  the file; and an artifact that was built from loaded records, saved with sorted keys and loaded again is
  the same artifact. A file with an integer literal beyond Python's digit limit counts as invalid JSON.
\<close>

section \<open>The loader\<close>

definition isclose :: "rat \<Rightarrow> rat \<Rightarrow> bool" where
  "isclose a b = (\<bar>a - b\<bar> \<le> 1 / 10 ^ 12)"

text \<open>\<open>_expect_cost\<close>; the checked value is given back, because the artifact takes \<open>float\<close> of it.\<close>

definition expect_cost :: "pyval \<Rightarrow> rat \<Rightarrow> (cal_error, rat) res" where
  "expect_cost v expected =
     (if \<not> is_number v then Inl CalibrationError
      else case num_float v of
        Inl e \<Rightarrow> Inl (CalRaised e)
      | Inr (Fin x) \<Rightarrow> (if x < 0 then Inl CalibrationError
                       else if \<not> isclose x expected then Inl CalibrationError else Inr x)
      | Inr _ \<Rightarrow> Inl CalibrationError)"

definition bin_keys :: "string list" where
  "bin_keys = [''upper_bound'', ''count'', ''successes'', ''calibrated_probability'']"

definition bin_counts :: "pyval \<Rightarrow> pyval \<Rightarrow> (cal_error, nat \<times> nat) res" where
  "bin_counts v w =
     (case (v, w) of
        (PInt count, PInt succ) \<Rightarrow>
          (if count < 1 \<or> \<not> (0 \<le> succ \<and> succ \<le> count) then Inl CalibrationError else Inr (nat count, nat succ))
      | _ \<Rightarrow> Inl CalibrationError)"

fun load_bins :: "nat \<Rightarrow> rat \<Rightarrow> rat \<Rightarrow> pyval list \<Rightarrow> (cal_error, calibration_bin list) res" where
  "load_bins index previous_upper previous_probability [] = Inr []"
| "load_bins index previous_upper previous_probability (v # vs) =
     (case v of
        PDict d \<Rightarrow>
          (if fst ` set d \<noteq> set bin_keys then Inl CalibrationError
           else rbind (cal_probability (py_dict_get d ''upper_bound'' PNone)) (\<lambda>upper.
             rbind (cal_probability (py_dict_get d ''calibrated_probability'' PNone)) (\<lambda>probability.
             rbind (bin_counts (py_dict_get d ''count'' PNone) (py_dict_get d ''successes'' PNone)) (\<lambda>(count, succ).
               if 0 < index \<and> upper \<le> previous_upper \<or> probability < previous_probability
               then Inl CalibrationError
               else rbind (load_bins (Suc index) upper probability vs) (\<lambda>bins.
                 Inr (\<lparr>cb_upper_bound = upper, cb_count = count, cb_successes = succ,
                       cb_probability = probability\<rparr> # bins))))))
      | _ \<Rightarrow> Inl CalibrationError)"

definition optional_probability :: "pyval \<Rightarrow> (cal_error, rat option) res" where
  "optional_probability v = (if v = PNone then Inr None else rbind (cal_probability v) (\<lambda>x. Inr (Some x)))"

text \<open>The counts of samples: the whole population and the one above the threshold.\<close>

definition load_population :: "calibration_bin list \<Rightarrow> pyval \<Rightarrow> pyval \<Rightarrow> (cal_error, nat \<times> nat) res" where
  "load_population bins sample_count threshold_support =
     (case sample_count of
        PInt n \<Rightarrow>
          (if n < 1 \<or> n \<noteq> int (sum_list (map cb_count bins)) then Inl CalibrationError
           else case threshold_support of
             PInt k \<Rightarrow> (if 0 \<le> k \<and> k \<le> n then Inr (nat n, nat k) else Inl CalibrationError)
           | _ \<Rightarrow> Inl CalibrationError)
      | _ \<Rightarrow> Inl CalibrationError)"

text \<open>The declared threshold against the bins. A threshold above every bin divides by zero.\<close>

definition check_threshold :: "(rat \<Rightarrow> rat) \<Rightarrow> calibration_bin list \<Rightarrow> rat option \<Rightarrow> nat \<Rightarrow> rat option \<Rightarrow> rat
    \<Rightarrow> (cal_error, unit) res" where
  "check_threshold sqrtf bins threshold support threshold_lower required =
     (case threshold of
        None \<Rightarrow> (if support \<noteq> 0 \<or> threshold_lower \<noteq> None then Inl CalibrationError else Inr ())
      | Some t \<Rightarrow>
          (case threshold_lower of
             None \<Rightarrow> Inl CalibrationError
           | Some l \<Rightarrow>
               (if support < 1 \<or> l < required then Inl CalibrationError
                else
                  (let eligible = filter (\<lambda>b. t \<le> cb_probability b) bins;
                       expected_support = sum_list (map cb_count eligible) in
                   if expected_support = 0 then Inl (CalRaised ZeroDivisionError)
                   else if t \<notin> cb_probability ` set bins \<or> support \<noteq> expected_support
                       \<or> \<not> isclose l (wilson_lower sqrtf (sum_list (map cb_successes eligible)) expected_support)
                   then Inl CalibrationError else Inr ()))))"

definition load_cost_model :: "pyval \<Rightarrow> (cal_error, cost_model) res" where
  "load_cost_model v =
     (case v of
        PDict d \<Rightarrow>
          (if fst ` set d \<noteq> {''false_autonomy_cost'', ''abstention_cost''} then Inl CalibrationError
           else rbind (cal_cost (py_dict_get d ''false_autonomy_cost'' PNone)) (\<lambda>fac.
             rbind (cal_cost (py_dict_get d ''abstention_cost'' PNone)) (\<lambda>abc.
               Inr \<lparr>false_autonomy_cost = fac, abstention_cost = abc\<rparr>)))
      | _ \<Rightarrow> Inl CalibrationError)"

definition load_minimum_support :: "pyval \<Rightarrow> (cal_error, nat) res" where
  "load_minimum_support v =
     (case v of PInt n \<Rightarrow> (if n < 1 then Inl CalibrationError else Inr (nat n)) | _ \<Rightarrow> Inl CalibrationError)"

text \<open>\<open>item not in _EVIDENCE_SOURCES\<close> for each item; a list or dictionary has no hash.\<close>

fun known_sources :: "pyval list \<Rightarrow> (cal_error, string list) res" where
  "known_sources [] = Inr []"
| "known_sources (v # vs) =
     (case v of
        PStr s \<Rightarrow> (if s \<notin> set evidence_source_names then Inl CalibrationError
                  else rbind (known_sources vs) (\<lambda>ss. Inr (s # ss)))
      | PList _ \<Rightarrow> Inl (CalRaised TypeError)
      | PDict _ \<Rightarrow> Inl (CalRaised TypeError)
      | _ \<Rightarrow> Inl CalibrationError)"

definition load_sources :: "pyval \<Rightarrow> (cal_error, string list) res" where
  "load_sources v =
     (case v of
        PList vs \<Rightarrow>
          (if vs = [] then Inl CalibrationError
           else rbind (known_sources vs) (\<lambda>ss.
             if ss \<noteq> sort (remdups ss) then Inl CalibrationError else Inr ss))
      | _ \<Rightarrow> Inl CalibrationError)"

definition load_reason :: "pyval \<Rightarrow> (cal_error, string option) res" where
  "load_reason v = (case v of PNone \<Rightarrow> Inr None | PStr s \<Rightarrow> Inr (Some s) | _ \<Rightarrow> Inl CalibrationError)"

text \<open>Whether the threshold may be granted, and the cost of the selected point.\<close>

definition check_grant :: "rat option \<Rightarrow> string option \<Rightarrow> string list \<Rightarrow> operating_point option \<Rightarrow> pyval
    \<Rightarrow> (cal_error, rat option) res" where
  "check_grant threshold reason sources point selected_cost =
     (case threshold of
        None \<Rightarrow> (if selected_cost \<noteq> PNone \<or> reason = None \<or> reason = Some [] then Inl CalibrationError else Inr None)
      | Some t \<Rightarrow>
          (if reason \<noteq> None \<or> sources \<noteq> [autonomy_evidence] then Inl CalibrationError
           else case point of
             None \<Rightarrow> Inl CalibrationError
           | Some p \<Rightarrow> (if \<not> isclose (op_threshold p) t then Inl CalibrationError
                       else rbind (expect_cost selected_cost (op_expected_cost p)) (\<lambda>c. Inr (Some c)))))"

definition artifact_keys :: "string list" where
  "artifact_keys = [''schema_version'', ''artifact_version'', ''task'', ''rubric_version'', ''config_fingerprint'',
     ''source_sha256'', ''sample_count'', ''bins'', ''autonomy_threshold'', ''threshold_support'',
     ''threshold_wilson_lower'', ''required_wilson_lower'', ''minimum_threshold_support'', ''cost_model'',
     ''threshold_curve'', ''always_abstain_cost'', ''always_autonomous_cost'', ''selected_cost'', ''evidence_sources'',
     ''autonomy_blocked_reason'', ''selection_rule'', ''built_at'', ''artifact_sha256'']"

definition load_artifact_payload :: "cal_lib \<Rightarrow> pydict \<Rightarrow> (cal_error, calibration_artifact) res" where
  "load_artifact_payload lib payload =
     (let get = (\<lambda>k. py_dict_get payload k PNone) in
      if fst ` set payload \<noteq> set artifact_keys \<or> \<not> py_eq (get ''schema_version'') (PInt 2) then Inl CalibrationError
      else rbind (cal_string (get ''task'')) (\<lambda>task.
      if task \<notin> set confidence_tasks then Inl CalibrationError
      else case get ''bins'' of PList (b # bs) \<Rightarrow>
        rbind (load_bins 0 0 0 (b # bs)) (\<lambda>bins.
        if cb_upper_bound (last bins) \<noteq> 1 then Inl CalibrationError
        else
          rbind (cal_timestamp (cl_fromisoformat lib) (get ''built_at'')) (\<lambda>built_at.
          rbind (cal_string (get ''rubric_version'')) (\<lambda>rubric_version.
          rbind (cal_sha256 (get ''config_fingerprint'')) (\<lambda>config_fingerprint.
          rbind (cal_sha256 (get ''source_sha256'')) (\<lambda>source_sha.
          rbind (cal_string (get ''artifact_version'')) (\<lambda>artifact_version.
          rbind (optional_probability (get ''autonomy_threshold'')) (\<lambda>threshold.
          rbind (optional_probability (get ''threshold_wilson_lower'')) (\<lambda>threshold_lower.
          rbind (load_population bins (get ''sample_count'') (get ''threshold_support'')) (\<lambda>(sample_count, threshold_support).
          rbind (cal_probability (get ''required_wilson_lower'')) (\<lambda>required_lower.
          rbind (check_threshold (cl_sqrt lib) bins threshold threshold_support threshold_lower required_lower) (\<lambda>_.
          rbind (load_cost_model (get ''cost_model'')) (\<lambda>cost.
          rbind (load_minimum_support (get ''minimum_threshold_support'')) (\<lambda>minimum_support.
          if get ''selection_rule'' \<noteq> PStr SELECTION_RULE then Inl CalibrationError
          else
            rbind (load_sources (get ''evidence_sources'')) (\<lambda>sources.
            rbind (load_reason (get ''autonomy_blocked_reason'')) (\<lambda>reason.
            let curve = threshold_curve (cl_sqrt lib) bins cost minimum_support required_lower;
                failures = sum_list (map (\<lambda>b. cb_count b - cb_successes b) bins) in
            if \<not> py_eq (get ''threshold_curve'') (PList (map point_dict curve)) then Inl CalibrationError
            else
              rbind (expect_cost (get ''always_abstain_cost'') (abstention_cost cost)) (\<lambda>always_abstain.
              rbind (expect_cost (get ''always_autonomous_cost'')
                      (of_nat failures * false_autonomy_cost cost / of_nat sample_count)) (\<lambda>always_autonomous.
              rbind (check_grant threshold reason sources (select_operating_point curve) (get ''selected_cost'')) (\<lambda>selected_cost.
              let expected_sha = payload_digest lib (py_dict_del payload ''artifact_sha256'') in
              if get ''artifact_sha256'' \<noteq> PStr expected_sha then Inl CalibrationError
              else Inr \<lparr>ca_artifact_version = artifact_version, ca_task = task, ca_rubric_version = rubric_version,
                ca_config_fingerprint = config_fingerprint, ca_source_sha256 = source_sha, ca_sample_count = sample_count,
                ca_bins = bins, ca_autonomy_threshold = threshold, ca_threshold_support = threshold_support,
                ca_threshold_wilson_lower = threshold_lower, ca_required_wilson_lower = required_lower,
                ca_minimum_threshold_support = minimum_support, ca_cost_model = cost, ca_threshold_curve = curve,
                ca_always_abstain_cost = always_abstain, ca_always_autonomous_cost = always_autonomous,
                ca_selected_cost = selected_cost, ca_evidence_sources = sources, ca_autonomy_blocked_reason = reason,
                ca_built_at = built_at, ca_artifact_sha256 = expected_sha\<rparr>))))))))))))))))))
      | _ \<Rightarrow> Inl CalibrationError))"

text \<open>\<open>read\<close> is \<open>Path.read_text\<close>: none for a file that does not exist, \<open>Inl\<close> for any other error.\<close>

definition load_calibration_artifact :: "cal_lib \<Rightarrow> (string \<Rightarrow> (cal_error, string option) res) \<Rightarrow> string
    \<Rightarrow> (cal_error, calibration_artifact) res" where
  "load_calibration_artifact lib read path =
     rbind (read path) (\<lambda>content.
       case content of
         None \<Rightarrow> Inl CalibrationError
       | Some text \<Rightarrow>
           (case json_loads text of
              Some (PDict payload) \<Rightarrow> load_artifact_payload lib payload
            | _ \<Rightarrow> Inl CalibrationError))"

section \<open>Saving\<close>

text \<open>The text of the file, and the dictionary that is read back from it.\<close>

definition save_calibration_artifact :: "cal_lib \<Rightarrow> calibration_artifact \<Rightarrow> string" where
  "save_calibration_artifact lib a = json_pretty (cl_rt lib) 0 (PDict (artifact_to_dict lib a)) @ [CHR 0x0A]"

definition saved_payload :: "cal_lib \<Rightarrow> calibration_artifact \<Rightarrow> pydict" where
  "saved_payload lib a = sort_key fst (key_sorted_entries (artifact_to_dict lib a))"

lemma key_sorted_entries_del: "py_dict_del (key_sorted_entries d) k = key_sorted_entries (py_dict_del d k)"
  by (induction d) (auto simp: py_dict_del_def)

lemma payload_digest_sorted:
  "payload_digest lib (py_dict_del (sort_key fst (key_sorted_entries d)) k) = payload_digest lib (py_dict_del d k)"
proof -
  have "py_dict_del (sort_key fst (key_sorted_entries d)) k = sort_key fst (key_sorted_entries (py_dict_del d k))"
    unfolding key_sorted_entries_del [symmetric] by (simp add: py_dict_del_def filter_sort)
  then have "PDict (py_dict_del (sort_key fst (key_sorted_entries d)) k) = key_sorted (PDict (py_dict_del d k))" by simp
  then show ?thesis unfolding payload_digest_def by (simp only: json_text_key_sorted)
qed

section \<open>Well-formed artifacts\<close>

fun bins_ok :: "nat \<Rightarrow> rat \<Rightarrow> rat \<Rightarrow> calibration_bin list \<Rightarrow> bool" where
  "bins_ok index u probability [] = True"
| "bins_ok index u probability (b # bs) =
     (0 \<le> cb_upper_bound b \<and> cb_upper_bound b \<le> 1 \<and> 0 \<le> cb_probability b \<and> cb_probability b \<le> 1
      \<and> 1 \<le> cb_count b \<and> cb_successes b \<le> cb_count b \<and> (0 < index \<longrightarrow> u < cb_upper_bound b)
      \<and> probability \<le> cb_probability b \<and> bins_ok (Suc index) (cb_upper_bound b) (cb_probability b) bs)"

definition grant_ok :: "cal_lib \<Rightarrow> calibration_artifact \<Rightarrow> bool" where
  "grant_ok lib a =
     (let point = select_operating_point (ca_threshold_curve a) in
      case ca_autonomy_threshold a of
        None \<Rightarrow> ca_threshold_support a = 0 \<and> ca_threshold_wilson_lower a = None \<and> ca_selected_cost a = None
          \<and> ca_autonomy_blocked_reason a \<notin> {None, Some []}
      | Some t \<Rightarrow> ca_autonomy_blocked_reason a = None \<and> ca_evidence_sources a = [autonomy_evidence]
          \<and> (\<exists>p. point = Some p \<and> t = op_threshold p \<and> ca_threshold_support a = op_autonomous p
               \<and> ca_threshold_wilson_lower a = Some (op_wilson_lower p) \<and> ca_selected_cost a = Some (op_expected_cost p)))"

definition artifact_ok :: "cal_lib \<Rightarrow> calibration_artifact \<Rightarrow> bool" where
  "artifact_ok lib a =
     (ca_task a \<in> set confidence_tasks \<and> ca_bins a \<noteq> [] \<and> bins_ok 0 0 0 (ca_bins a)
      \<and> cb_upper_bound (last (ca_bins a)) = 1 \<and> cal_string (PStr (ca_rubric_version a)) = Inr (ca_rubric_version a)
      \<and> cal_string (PStr (ca_artifact_version a)) = Inr (ca_artifact_version a)
      \<and> cal_sha256 (PStr (ca_config_fingerprint a)) = Inr (ca_config_fingerprint a)
      \<and> cal_sha256 (PStr (ca_source_sha256 a)) = Inr (ca_source_sha256 a)
      \<and> ca_sample_count a = sum_list (map cb_count (ca_bins a))
      \<and> 0 \<le> ca_required_wilson_lower a \<and> ca_required_wilson_lower a \<le> 1 \<and> 1 \<le> ca_minimum_threshold_support a
      \<and> 0 < false_autonomy_cost (ca_cost_model a) \<and> 0 < abstention_cost (ca_cost_model a)
      \<and> ca_threshold_curve a = threshold_curve (cl_sqrt lib) (ca_bins a) (ca_cost_model a)
            (ca_minimum_threshold_support a) (ca_required_wilson_lower a)
      \<and> ca_always_abstain_cost a = abstention_cost (ca_cost_model a)
      \<and> ca_always_autonomous_cost a = of_nat (sum_list (map (\<lambda>b. cb_count b - cb_successes b) (ca_bins a)))
            * false_autonomy_cost (ca_cost_model a) / of_nat (ca_sample_count a)
      \<and> ca_evidence_sources a \<noteq> [] \<and> set (ca_evidence_sources a) \<subseteq> set evidence_source_names
      \<and> ca_evidence_sources a = sort (remdups (ca_evidence_sources a)) \<and> grant_ok lib a
      \<and> ca_artifact_sha256 a = payload_digest lib (artifact_payload lib a))"

text \<open>What the loader relies on: \<open>isoformat\<close> gives a text without blanks at its ends and without a \<open>Z\<close> that
  reads back as the same time, and square roots are not negative.\<close>

definition lib_ok :: "cal_lib \<Rightarrow> bool" where
  "lib_ok lib = ((\<forall>t. let s = cl_isoformat lib t in s \<noteq> [] \<and> strip s = s \<and> CHR ''Z'' \<notin> set s
                        \<and> cl_fromisoformat lib s = Some t)
                 \<and> (\<forall>x. 0 \<le> cl_sqrt lib x))"

section \<open>Loading what was saved\<close>

lemma cal_probability_pnum [simp]: "0 \<le> x \<Longrightarrow> x \<le> 1 \<Longrightarrow> cal_probability (pnum x) = Inr x"
  by (simp add: cal_probability_def is_number_def num_float_def)

lemma cal_cost_pnum [simp]: "0 < x \<Longrightarrow> cal_cost (pnum x) = Inr x"
  by (simp add: cal_cost_def is_number_def num_float_def)

lemma isclose_refl [simp]: "isclose x x"
  by (simp add: isclose_def)

lemma expect_cost_pnum [simp]: "0 \<le> x \<Longrightarrow> expect_cost (pnum x) x = Inr x"
  by (simp add: expect_cost_def is_number_def num_float_def)

lemma load_bins_saved:
  "bins_ok i u p bs \<Longrightarrow> load_bins i u p (map key_sorted (map bin_dict bs)) = Inr bs"
proof (induction i u p bs rule: bins_ok.induct)
  case (2 i u p b bs)
  define d where "d = [(''upper_bound'', pnum (cb_upper_bound b)), (''count'', PInt (int (cb_count b))),
     (''successes'', PInt (int (cb_successes b))), (''calibrated_probability'', pnum (cb_probability b))]"
  have d: "distinct (map fst d)" "fst ` set d = set bin_keys" by (auto simp: d_def bin_keys_def)
  have get: "py_dict_get (sort_key fst (key_sorted_entries d)) k PNone = key_sorted (py_dict_get d k PNone)" for k
    by (rule py_dict_get_sorted [OF d(1)]) simp
  have fields: "key_sorted (py_dict_get d ''upper_bound'' PNone) = pnum (cb_upper_bound b)"
    "key_sorted (py_dict_get d ''calibrated_probability'' PNone) = pnum (cb_probability b)"
    "key_sorted (py_dict_get d ''count'' PNone) = PInt (int (cb_count b))"
    "key_sorted (py_dict_get d ''successes'' PNone) = PInt (int (cb_successes b))"
    by (simp_all add: d_def py_dict_get_def)
  have b: "bin_dict b = PDict d" by (simp add: bin_dict_def d_def)
  show ?case using 2 by (auto simp: b d(2) get fields bin_counts_def)
qed simp

lemma cal_probability_Inr: "cal_probability v = Inr x \<Longrightarrow> 0 \<le> x \<and> x \<le> 1"
  by (auto simp: cal_probability_def split: if_splits sum.splits flt.splits)

lemma bin_counts_Inr: "bin_counts v w = Inr (c, s) \<Longrightarrow> 1 \<le> c \<and> s \<le> c"
  by (auto simp: bin_counts_def split: pyval.splits if_splits)

lemma load_bins_ok: "load_bins i u p vs = Inr bs \<Longrightarrow> bins_ok i u p bs \<and> length bs = length vs"
proof (induction vs arbitrary: i u p bs)
  case (Cons v vs)
  from Cons.prems obtain up pr c s bs' where "load_bins (Suc i) up pr vs = Inr bs'"
    "bs = \<lparr>cb_upper_bound = up, cb_count = c, cb_successes = s, cb_probability = pr\<rparr> # bs'"
    "0 \<le> up \<and> up \<le> 1" "0 \<le> pr \<and> pr \<le> 1" "1 \<le> c \<and> s \<le> c" "\<not> (0 < i \<and> up \<le> u \<or> pr < p)"
    by (fastforce simp: rbind_eq_Inr dest!: cal_probability_Inr bin_counts_Inr split: pyval.splits if_splits)
  with Cons.IH show ?case by fastforce
qed simp

lemma known_sources_strings:
  "set ss \<subseteq> set evidence_source_names \<Longrightarrow> known_sources (map PStr ss) = Inr ss"
  by (induction ss) auto

lemma cost_dict_sorted: "key_sorted (cost_dict c) = PDict (sort_key fst (key_sorted_entries
    [(''false_autonomy_cost'', pnum (false_autonomy_cost c)), (''abstention_cost'', pnum (abstention_cost c))]))"
  by (simp add: cost_dict_def)

lemma load_cost_model_saved:
  assumes "0 < false_autonomy_cost c" "0 < abstention_cost c"
  shows "load_cost_model (key_sorted (cost_dict c)) = Inr c"
  using assms unfolding cost_dict_sorted load_cost_model_def
  by (auto simp: py_dict_get_sorted py_dict_get_def)

lemma plain_points: "plain (PList (map point_dict ps))"
  by (auto simp: plain_items_all point_dict_def)

lemma curve_saved: "py_eq (key_sorted (PList (map point_dict ps))) (PList (map point_dict ps))"
  by (rule py_eq_key_sorted(1) [OF plain_points])

lemma bins_ok_mem: "bins_ok i u p bs \<Longrightarrow> b \<in> set bs \<Longrightarrow>
    1 \<le> cb_count b \<and> cb_successes b \<le> cb_count b \<and> 0 \<le> cb_probability b \<and> cb_probability b \<le> 1"
  by (induction i u p bs rule: bins_ok.induct) auto

lemma bins_ok_sums:
  assumes "bins_ok i u p bs"
  shows "sum_list (map cb_successes (filter P bs)) \<le> sum_list (map cb_count (filter P bs))"
  using assms by (induction i u p bs rule: bins_ok.induct) auto

lemma sum_list_filter_count: "sum_list (map f (filter P xs)) \<le> (sum_list (map f xs) :: nat)"
  by (induction xs) auto

lemma sum_list_filter_pos:
  "x \<in> set xs \<Longrightarrow> P x \<Longrightarrow> 1 \<le> f x \<Longrightarrow> 1 \<le> (sum_list (map f (filter P xs)) :: nat)"
  by (induction xs) auto

text \<open>A Wilson bound lies in the unit interval.\<close>

lemma wilson_lower_bounds:
  assumes "s \<le> n" "1 \<le> n" "\<And>x. 0 \<le> sqrtf x"
  shows "0 \<le> wilson_lower sqrtf s n \<and> wilson_lower sqrtf s n \<le> 1"
proof -
  define t zz :: rat where "t = of_nat n" and "zz = wilson_z * wilson_z"
  define p :: rat where "p = of_nat s / t"
  have t: "1 \<le> t" using assms(2) by (simp add: t_def)
  have p: "p \<le> 1" using assms(1,2) by (simp add: p_def t_def divide_le_eq)
  have z: "0 < wilson_z" by (simp add: wilson_z_def)
  then have zz: "0 < zz" by (simp add: zz_def)
  have den: "1 \<le> 1 + zz / t" using t zz by simp
  have "zz / (2 * t) \<le> zz / t" using t zz by (simp add: field_simps)
  then have "(p + zz / (2 * t)) / (1 + zz / t) \<le> 1" using p den by (simp add: divide_le_eq)
  moreover have "0 \<le> wilson_z * sqrtf x / (1 + zz / t)" for x
    using z den assms(3) [of x] by simp
  moreover have diff: "c - d \<le> 1" if "c \<le> 1" "0 \<le> d" for c d :: rat using that by simp
  ultimately show ?thesis
    unfolding wilson_lower_def Let_def t_def [symmetric] p_def [symmetric] zz_def [symmetric]
    by (auto intro!: diff)
qed

text \<open>The selected point of a curve: a bin's probability, supported by the bins above it.\<close>

lemma selected_point:
  assumes "select_operating_point (threshold_curve sqrtf bins cost k r) = Some p" "bins_ok 0 0 0 bins"
  shows "op_threshold p \<in> cb_probability ` set bins"
    "op_autonomous p = sum_list (map cb_count (filter (\<lambda>b. op_threshold p \<le> cb_probability b) bins))"
    "op_wilson_lower p = wilson_lower sqrtf
        (sum_list (map cb_successes (filter (\<lambda>b. op_threshold p \<le> cb_probability b) bins))) (op_autonomous p)"
    "r \<le> op_wilson_lower p" "k \<le> op_autonomous p" "1 \<le> op_autonomous p" "op_autonomous p \<le> sum_list (map cb_count bins)"
proof -
  from select_operating_point_Some [OF assms(1)] have p: "p \<in> set (threshold_curve sqrtf bins cost k r)" "op_eligible p"
    by auto
  then obtain b where b: "b \<in> set bins" "p = score_threshold sqrtf bins cost k r (cb_probability b)"
    by (auto simp: threshold_curve_mem)
  then show "op_threshold p \<in> cb_probability ` set bins" by (simp add: score_threshold_def Let_def)
  show a: "op_autonomous p = sum_list (map cb_count (filter (\<lambda>b. op_threshold p \<le> cb_probability b) bins))"
    and "op_wilson_lower p = wilson_lower sqrtf
        (sum_list (map cb_successes (filter (\<lambda>b. op_threshold p \<le> cb_probability b) bins))) (op_autonomous p)"
    using b(2) by (simp_all add: score_threshold_def Let_def)
  show "r \<le> op_wilson_lower p" "k \<le> op_autonomous p"
    using p(2) b(2) by (auto simp: op_eligible_def score_threshold_def Let_def)
  have "op_threshold p = cb_probability b" using b(2) by (simp add: score_threshold_def Let_def)
  then show "1 \<le> op_autonomous p" unfolding a
    using b(1) bins_ok_mem [OF assms(2)] by (intro sum_list_filter_pos) auto
  show "op_autonomous p \<le> sum_list (map cb_count bins)" unfolding a by (rule sum_list_filter_count)
qed

lemma check_threshold_saved:
  assumes ok: "artifact_ok lib a"
  shows "check_threshold (cl_sqrt lib) (ca_bins a) (ca_autonomy_threshold a) (ca_threshold_support a)
    (ca_threshold_wilson_lower a) (ca_required_wilson_lower a) = Inr ()"
proof (cases "ca_autonomy_threshold a")
  case None
  with ok show ?thesis by (auto simp: artifact_ok_def grant_ok_def Let_def check_threshold_def)
next
  case (Some t)
  with ok obtain p where p: "select_operating_point (ca_threshold_curve a) = Some p" "t = op_threshold p"
    "ca_threshold_support a = op_autonomous p" "ca_threshold_wilson_lower a = Some (op_wilson_lower p)"
    by (auto simp: artifact_ok_def grant_ok_def Let_def)
  have bins: "bins_ok 0 0 0 (ca_bins a)" and curve: "ca_threshold_curve a = threshold_curve (cl_sqrt lib) (ca_bins a)
      (ca_cost_model a) (ca_minimum_threshold_support a) (ca_required_wilson_lower a)"
    using ok by (auto simp: artifact_ok_def)
  note sel = selected_point [OF p(1) [unfolded curve] bins]
  show ?thesis unfolding check_threshold_def Let_def Some option.case p(3,4)
    unfolding p(2) sel(2) [symmetric] sel(3) [symmetric] using sel(1,4,6) by simp
qed

lemma check_grant_saved:
  assumes ok: "artifact_ok lib a"
  shows "check_grant (ca_autonomy_threshold a) (ca_autonomy_blocked_reason a) (ca_evidence_sources a)
    (select_operating_point (ca_threshold_curve a)) (popt pnum (ca_selected_cost a)) = Inr (ca_selected_cost a)"
proof (cases "ca_autonomy_threshold a")
  case None
  with ok show ?thesis by (auto simp: artifact_ok_def grant_ok_def Let_def check_grant_def popt_def)
next
  case (Some t)
  with ok obtain p where p: "select_operating_point (ca_threshold_curve a) = Some p" "t = op_threshold p"
    "ca_autonomy_blocked_reason a = None" "ca_evidence_sources a = [autonomy_evidence]"
    "ca_selected_cost a = Some (op_expected_cost p)"
    by (auto simp: artifact_ok_def grant_ok_def Let_def)
  have "0 \<le> op_expected_cost p"
    using select_operating_point_Some [OF p(1)] ok
    by (auto simp: artifact_ok_def threshold_curve_mem score_threshold_def Let_def)
  with p Some show ?thesis by (simp add: check_grant_def popt_def)
qed

lemma optional_probability_saved:
  "(case x of None \<Rightarrow> True | Some v \<Rightarrow> 0 \<le> v \<and> v \<le> 1) \<Longrightarrow> optional_probability (popt pnum x) = Inr x"
  by (cases x) (auto simp: optional_probability_def popt_def)

lemma threshold_fields_bounded:
  assumes ok: "artifact_ok lib a" and lib: "lib_ok lib"
  shows "case ca_autonomy_threshold a of None \<Rightarrow> True | Some v \<Rightarrow> 0 \<le> v \<and> v \<le> 1"
    and "case ca_threshold_wilson_lower a of None \<Rightarrow> True | Some v \<Rightarrow> 0 \<le> v \<and> v \<le> 1"
    and "ca_threshold_support a \<le> ca_sample_count a"
proof -
  have bins: "bins_ok 0 0 0 (ca_bins a)" and curve: "ca_threshold_curve a = threshold_curve (cl_sqrt lib) (ca_bins a)
      (ca_cost_model a) (ca_minimum_threshold_support a) (ca_required_wilson_lower a)"
    and n: "ca_sample_count a = sum_list (map cb_count (ca_bins a))"
    using ok by (auto simp: artifact_ok_def)
  have sq: "0 \<le> cl_sqrt lib x" for x using lib by (simp add: lib_ok_def)
  show "case ca_autonomy_threshold a of None \<Rightarrow> True | Some v \<Rightarrow> 0 \<le> v \<and> v \<le> 1"
    and "case ca_threshold_wilson_lower a of None \<Rightarrow> True | Some v \<Rightarrow> 0 \<le> v \<and> v \<le> 1"
    and "ca_threshold_support a \<le> ca_sample_count a"
  proof (atomize(full), cases "ca_autonomy_threshold a")
    case (Some t)
    with ok obtain p where p: "select_operating_point (ca_threshold_curve a) = Some p" "t = op_threshold p"
      "ca_threshold_support a = op_autonomous p" "ca_threshold_wilson_lower a = Some (op_wilson_lower p)"
      by (auto simp: artifact_ok_def grant_ok_def Let_def)
    note sel = selected_point [OF p(1) [unfolded curve] bins]
    have "0 \<le> op_threshold p \<and> op_threshold p \<le> 1" using sel(1) bins_ok_mem [OF bins] by auto
    moreover have "0 \<le> op_wilson_lower p \<and> op_wilson_lower p \<le> 1"
      unfolding sel(3) using sel(6) sq by (intro wilson_lower_bounds) (auto simp: sel(2) bins_ok_sums [OF bins])
    ultimately show "(case ca_autonomy_threshold a of None \<Rightarrow> True | Some v \<Rightarrow> 0 \<le> v \<and> v \<le> 1) \<and>
        (case ca_threshold_wilson_lower a of None \<Rightarrow> True | Some v \<Rightarrow> 0 \<le> v \<and> v \<le> 1) \<and>
        ca_threshold_support a \<le> ca_sample_count a"
      using Some p sel(7) n by simp
  qed (use ok in \<open>auto simp: artifact_ok_def grant_ok_def Let_def\<close>)
qed

lemma artifact_dict_keys: "map fst (artifact_to_dict lib a) = artifact_keys"
  by (simp add: artifact_to_dict_def artifact_payload_def artifact_keys_def)

lemma distinct_artifact_keys: "distinct artifact_keys"
  by (simp add: artifact_keys_def)

lemma saved_get: "py_dict_get (saved_payload lib a) k PNone = key_sorted (py_dict_get (artifact_to_dict lib a) k PNone)"
  unfolding saved_payload_def
  by (rule py_dict_get_sorted) (simp_all add: artifact_dict_keys distinct_artifact_keys)

lemma saved_keys: "fst ` set (saved_payload lib a) = set artifact_keys"
proof -
  have "fst ` set (artifact_to_dict lib a) = set artifact_keys" by (metis artifact_dict_keys set_map)
  then show ?thesis by (simp add: saved_payload_def)
qed

lemma key_sorted_popt [simp]: "key_sorted (popt pnum x) = popt pnum x" "key_sorted (popt PStr y) = popt PStr y"
  by (cases x; simp add: popt_def) (cases y; simp add: popt_def)

lemmas dict_field_simps = artifact_to_dict_def artifact_payload_def py_dict_get_def key_sorted_items_map

lemma saved_fields:
  fixes lib a
  defines "get \<equiv> \<lambda>k. py_dict_get (saved_payload lib a) k PNone"
  shows "get ''schema_version'' = PInt 2" "get ''artifact_version'' = PStr (ca_artifact_version a)"
    "get ''task'' = PStr (ca_task a)" "get ''rubric_version'' = PStr (ca_rubric_version a)"
    "get ''config_fingerprint'' = PStr (ca_config_fingerprint a)" "get ''source_sha256'' = PStr (ca_source_sha256 a)"
    "get ''sample_count'' = PInt (int (ca_sample_count a))"
    "get ''bins'' = PList (map key_sorted (map bin_dict (ca_bins a)))"
    "get ''autonomy_threshold'' = popt pnum (ca_autonomy_threshold a)"
    "get ''threshold_support'' = PInt (int (ca_threshold_support a))"
    "get ''threshold_wilson_lower'' = popt pnum (ca_threshold_wilson_lower a)"
    "get ''required_wilson_lower'' = pnum (ca_required_wilson_lower a)"
    "get ''minimum_threshold_support'' = PInt (int (ca_minimum_threshold_support a))"
    "get ''cost_model'' = key_sorted (cost_dict (ca_cost_model a))"
    "get ''threshold_curve'' = key_sorted (PList (map point_dict (ca_threshold_curve a)))"
    "get ''always_abstain_cost'' = pnum (ca_always_abstain_cost a)"
    "get ''always_autonomous_cost'' = pnum (ca_always_autonomous_cost a)"
    "get ''selected_cost'' = popt pnum (ca_selected_cost a)"
    "get ''evidence_sources'' = PList (map PStr (ca_evidence_sources a))"
    "get ''autonomy_blocked_reason'' = popt PStr (ca_autonomy_blocked_reason a)"
    "get ''selection_rule'' = PStr SELECTION_RULE" "get ''built_at'' = PStr (cl_isoformat lib (ca_built_at a))"
    "get ''artifact_sha256'' = PStr (ca_artifact_sha256 a)"
  unfolding get_def saved_get by (simp_all add: dict_field_simps)

lemma load_sources_saved:
  "ss \<noteq> [] \<Longrightarrow> set ss \<subseteq> set evidence_source_names \<Longrightarrow> ss = sort (remdups ss)
     \<Longrightarrow> load_sources (PList (map PStr ss)) = Inr ss"
  by (simp add: load_sources_def known_sources_strings)

lemma load_reason_saved: "load_reason (popt PStr r) = Inr r"
  by (cases r) (simp_all add: load_reason_def popt_def)

lemma load_population_saved:
  assumes "1 \<le> n" "n = sum_list (map cb_count bins)" "k \<le> n"
  shows "load_population bins (PInt (int n)) (PInt (int k)) = Inr (n, k)"
  unfolding load_population_def assms(2) [symmetric] using assms(1,3) by simp

lemma load_minimum_support_saved: "1 \<le> k \<Longrightarrow> load_minimum_support (PInt (int k)) = Inr k"
  by (simp add: load_minimum_support_def)

lemma cal_timestamp_saved: "lib_ok lib \<Longrightarrow> cal_timestamp (cl_fromisoformat lib) (PStr (cl_isoformat lib t)) = Inr t"
proof -
  assume "lib_ok lib"
  then have s: "cl_isoformat lib t \<noteq> []" "strip (cl_isoformat lib t) = cl_isoformat lib t"
    "CHR ''Z'' \<notin> set (cl_isoformat lib t)" "cl_fromisoformat lib (cl_isoformat lib t) = Some t"
    by (simp_all add: lib_ok_def Let_def)
  have "concat (map (\<lambda>c. if c = CHR ''Z'' then ''+00:00'' else [c]) xs) = xs" if "CHR ''Z'' \<notin> set xs" for xs
    using that by (induction xs) auto
  with s show ?thesis by (simp add: cal_timestamp_def cal_string_def)
qed

lemma saved_digest:
  "payload_digest lib (py_dict_del (saved_payload lib a) ''artifact_sha256'') = payload_digest lib (artifact_payload lib a)"
proof -
  have "py_dict_del (artifact_to_dict lib a) ''artifact_sha256'' = artifact_payload lib a"
    by (simp add: py_dict_del_def artifact_to_dict_def artifact_payload_def)
  then show ?thesis unfolding saved_payload_def payload_digest_sorted by simp
qed

lemma load_saved:
  assumes ok: "artifact_ok lib a" and lib: "lib_ok lib"
  shows "load_artifact_payload lib (saved_payload lib a) = Inr a"
proof -
  have ne: "ca_bins a \<noteq> []" and bins: "bins_ok 0 0 0 (ca_bins a)" "cb_upper_bound (last (ca_bins a)) = 1"
    using ok by (auto simp: artifact_ok_def)
  obtain b bs where bl: "map key_sorted (map bin_dict (ca_bins a)) = b # bs" using ne by (cases "ca_bins a") auto
  have task: "cal_string (PStr (ca_task a)) = Inr (ca_task a)" "ca_task a \<in> set confidence_tasks"
    using ok by (auto simp: artifact_ok_def confidence_tasks_def cal_string_def strip_def strip_where_def is_space_def)
  have n: "1 \<le> ca_sample_count a" "ca_sample_count a = sum_list (map cb_count (ca_bins a))"
    using ok bins_ok_mem [OF bins(1), of "hd (ca_bins a)"] ne
    by (auto simp: artifact_ok_def neq_Nil_conv)
  have cost: "0 < false_autonomy_cost (ca_cost_model a)" "0 < abstention_cost (ca_cost_model a)"
    "ca_always_abstain_cost a = abstention_cost (ca_cost_model a)"
    "ca_always_autonomous_cost a = of_nat (sum_list (map (\<lambda>b. cb_count b - cb_successes b) (ca_bins a)))
            * false_autonomy_cost (ca_cost_model a) / of_nat (ca_sample_count a)"
    using ok by (auto simp: artifact_ok_def)
  have sc: "expect_cost (pnum (ca_always_abstain_cost a)) (abstention_cost (ca_cost_model a)) = Inr (ca_always_abstain_cost a)"
    "expect_cost (pnum (ca_always_autonomous_cost a)) (of_nat (sum_list (map (\<lambda>b. cb_count b - cb_successes b) (ca_bins a)))
        * false_autonomy_cost (ca_cost_model a) / of_nat (ca_sample_count a)) = Inr (ca_always_autonomous_cost a)"
    unfolding cost(3,4) using cost(1,2) by (simp_all add: expect_cost_pnum)
  have texts: "cal_string (PStr (ca_rubric_version a)) = Inr (ca_rubric_version a)"
    "cal_string (PStr (ca_artifact_version a)) = Inr (ca_artifact_version a)"
    "cal_sha256 (PStr (ca_config_fingerprint a)) = Inr (ca_config_fingerprint a)"
    "cal_sha256 (PStr (ca_source_sha256 a)) = Inr (ca_source_sha256 a)"
    "cal_probability (pnum (ca_required_wilson_lower a)) = Inr (ca_required_wilson_lower a)"
    "load_minimum_support (PInt (int (ca_minimum_threshold_support a))) = Inr (ca_minimum_threshold_support a)"
    "load_sources (PList (map PStr (ca_evidence_sources a))) = Inr (ca_evidence_sources a)"
    using ok by (auto simp: artifact_ok_def load_minimum_support_saved intro!: load_sources_saved)
  have curve: "threshold_curve (cl_sqrt lib) (ca_bins a) (ca_cost_model a) (ca_minimum_threshold_support a)
      (ca_required_wilson_lower a) = ca_threshold_curve a"
    and sha: "payload_digest lib (artifact_payload lib a) = ca_artifact_sha256 a"
    using ok by (auto simp: artifact_ok_def)
  have version: "py_eq (PInt 2) (PInt 2)" by (simp add: num_eq_def num_of_def)
  note fields = threshold_fields_bounded [OF ok lib]
  show ?thesis
    unfolding load_artifact_payload_def Let_def saved_fields saved_keys bl pyval.case list.case
      load_bins_saved [OF bins(1), unfolded bl] cal_timestamp_saved [OF lib] load_cost_model_saved [OF cost(1,2)]
      optional_probability_saved [OF fields(1)] optional_probability_saved [OF fields(2)] texts load_reason_saved
      task(1) rbind_Inr load_population_saved [OF n fields(3)] prod.case check_threshold_saved [OF ok] curve sc
      check_grant_saved [OF ok] saved_digest sha
    using task(2) bins(2) curve_saved version by simp
qed

lemma saved_text_loads:
  "printable (cl_rt lib) (PDict (artifact_to_dict lib a)) \<Longrightarrow>
     json_loads (save_calibration_artifact lib a) = Some (PDict (saved_payload lib a))"
  unfolding save_calibration_artifact_def by (subst json_loads_pretty) (simp_all add: saved_payload_def)

section \<open>Built artifacts are well-formed\<close>

lemma strip_where_idem: "strip_where P (strip_where P s) = strip_where P s"
proof -
  define u where "u = dropWhile P s"
  define t where "t = rev (dropWhile P (rev u))"
  have "dropWhile P t = t"
  proof (cases "t = []")
    case False
    have "u = t @ rev (takeWhile P (rev u))" unfolding t_def
      by (metis rev_append rev_rev_ident takeWhile_dropWhile_id)
    with False have "hd t = hd u" "u \<noteq> []" by (metis hd_append2, metis append_is_Nil_conv)
    then have "\<not> P (hd t)" unfolding u_def by (metis hd_dropWhile)
    with False show ?thesis by (cases t) auto
  qed simp
  moreover have "rev (dropWhile P (rev t)) = t" by (simp add: t_def)
  ultimately show ?thesis by (simp add: strip_where_def t_def u_def)
qed

lemma cal_string_again: "cal_string v = Inr s \<Longrightarrow> cal_string (PStr s) = Inr s"
  by (auto simp: cal_string_def strip_def strip_where_idem split: pyval.splits if_splits)

lemma cal_sha256_again: "cal_sha256 v = Inr s \<Longrightarrow> cal_sha256 (PStr s) = Inr s"
  by (auto simp: cal_sha256_def rbind_eq_Inr dest: cal_string_again split: if_splits)

lemma cal_cost_Inr: "cal_cost v = Inr x \<Longrightarrow> 0 < x"
  by (auto simp: cal_cost_def split: if_splits sum.splits flt.splits)

text \<open>The records that validation lets through.\<close>

definition record_ok :: "confidence_record \<Rightarrow> bool" where
  "record_ok r = (0 \<le> cr_raw_confidence r \<and> cr_raw_confidence r \<le> 1
     \<and> cal_string (PStr (cr_rubric_version r)) = Inr (cr_rubric_version r)
     \<and> cr_evidence_source r \<in> set evidence_source_names)"

lemma build_confidence_record_ok: "build_confidence_record aware values = Inr r \<Longrightarrow> record_ok r"
  by (auto simp: build_confidence_record_def Let_def rbind_eq_Inr record_ok_def
      dest: cal_probability_Inr cal_string_again split: if_splits pyval.splits)

lemma load_record_lines_ok: "load_record_lines aware seen ls = Inr rs \<Longrightarrow> list_all record_ok rs"
proof (induction ls arbitrary: seen rs)
  case (Cons l ls)
  then obtain d r rs' where "build_confidence_record aware d = Inr r" "rs = r # rs'"
    "load_record_lines aware ((cr_task r, cr_pair_id r, cr_config_fingerprint r) # seen) ls = Inr rs'"
    by (auto simp: rbind_eq_Inr Let_def split: if_splits option.splits pyval.splits)
  with Cons.IH show ?case by (auto dest: build_confidence_record_ok)
qed simp

lemma load_confidence_records_ok: "load_confidence_records aware lines = Inr rs \<Longrightarrow> list_all record_ok rs"
  by (auto simp: load_confidence_records_def dest: load_record_lines_ok split: if_splits)

lemma bins_okI:
  assumes "\<forall>b \<in> set bs. 0 \<le> cb_upper_bound b \<and> cb_upper_bound b \<le> 1 \<and> 0 \<le> cb_probability b \<and> cb_probability b \<le> 1
      \<and> 1 \<le> cb_count b \<and> cb_successes b \<le> cb_count b"
    and "sorted_wrt (<) (map cb_upper_bound bs)" "sorted (map cb_probability bs)"
    and "0 < i \<longrightarrow> (\<forall>b \<in> set bs. u < cb_upper_bound b)" "\<forall>b \<in> set bs. p \<le> cb_probability b"
  shows "bins_ok i u p bs"
  using assms by (induction i u p bs rule: bins_ok.induct) auto

lemma map_make_bins_counts: "map cb_count (make_bins chunks) = map length chunks"
  by (rule nth_equalityI) (simp_all add: make_bins_nth)

lemma bins_ok_make_bins:
  assumes chunks: "equal_frequency_chunks sel mx mn = Inr chunks" and srt: "sorted (map cr_raw_confidence sel)"
    and mn: "2 \<le> mn" and recs: "list_all record_ok sel"
  shows "bins_ok 0 0 0 (make_bins chunks)" "make_bins chunks \<noteq> []" "cb_upper_bound (last (make_bins chunks)) = 1"
    "sum_list (map cb_count (make_bins chunks)) = length sel"
proof -
  note part = equal_frequency_chunks_partition [OF chunks srt]
  have len: "chunks ! i \<noteq> []" if "i < length chunks" for i
  proof -
    have "mn \<le> length (chunks ! i)" using part that by simp
    with mn show ?thesis by auto
  qed
  have raw: "0 \<le> cr_raw_confidence r \<and> cr_raw_confidence r \<le> 1" if "c \<in> set chunks" "r \<in> set c" for c r
    using that part recs by (fastforce simp: list_all_iff record_ok_def)
  have lst: "0 \<le> cr_raw_confidence (last (chunks ! i)) \<and> cr_raw_confidence (last (chunks ! i)) \<le> 1" if "i < length chunks" for i
    using raw [of "chunks ! i" "last (chunks ! i)"] that len by simp
  have below: "cr_raw_confidence (last (chunks ! i)) < cr_raw_confidence (last (chunks ! j))" if "i < j" "j < length chunks" for i j
    using part that len [of i] len [of j] by (auto simp: sorted_wrt_iff_nth_less)
  have "sorted_wrt (<) (map cb_upper_bound (make_bins chunks))"
    unfolding sorted_wrt_iff_nth_less
    using below lst by (auto simp: make_bins_nth) (metis less_le_trans)
  moreover have "sorted (map cb_probability (make_bins chunks))"
    unfolding make_bins_probabilities by (rule monotonic_bin_probabilities_props)
  moreover have prob: "\<forall>b \<in> set (make_bins chunks). 0 \<le> cb_probability b \<and> cb_probability b \<le> 1"
    using monotonic_bin_probabilities_props(3) [of _ chunks] by (fastforce simp flip: make_bins_probabilities)
  moreover have "\<forall>b \<in> set (make_bins chunks). 0 \<le> cb_upper_bound b \<and> cb_upper_bound b \<le> 1
      \<and> 1 \<le> cb_count b \<and> cb_successes b \<le> cb_count b"
    using lst len by (auto simp: in_set_conv_nth make_bins_nth successes_def Suc_le_eq)
  ultimately show "bins_ok 0 0 0 (make_bins chunks)" by (intro bins_okI) auto
  show ne: "make_bins chunks \<noteq> []" using part by (metis length_0_conv make_bins_length not_numeral_le_zero)
  moreover have "length chunks - 1 < length chunks" using part by (cases chunks) auto
  ultimately show "cb_upper_bound (last (make_bins chunks)) = 1"
    by (simp add: last_conv_nth make_bins_nth)
  show "sum_list (map cb_count (make_bins chunks)) = length sel"
    using part by (metis length_concat map_make_bins_counts)
qed

lemma build_artifact_obtain:
  assumes "build_calibration_artifact lib now opts rs task src fp ver = Inr a"
  obtains f trs chunks fac abc version source where
    "cal_sha256 (PStr f) = Inr f" "task_records rs task (Some f) = Inr trs"
    "0 < co_required_wilson_lower opts" "co_required_wilson_lower opts < 1" "1 \<le> co_minimum_threshold_support opts"
    "2 \<le> co_minimum_bin_samples opts"
    "equal_frequency_chunks (sort_key cr_raw_confidence trs) (co_maximum_bins opts) (co_minimum_bin_samples opts) = Inr chunks"
    "0 < fac" "0 < abc" "cal_string (PStr version) = Inr version" "cal_sha256 (PStr source) = Inr source"
    "a = finish_artifact lib now opts (sort_key cr_raw_confidence trs) chunks
           \<lparr>false_autonomy_cost = fac, abstention_cost = abc\<rparr> task source f version"
proof -
  from assms obtain f trs chunks fac abc version source where b:
    "cal_sha256 (PStr fp) = Inr f" "task_records rs task (Some f) = Inr trs"
    "0 < co_required_wilson_lower opts" "co_required_wilson_lower opts < 1" "\<not> co_minimum_threshold_support opts < 1"
    "\<not> co_minimum_bin_samples opts < 2"
    "equal_frequency_chunks (sort_key cr_raw_confidence trs) (co_maximum_bins opts) (co_minimum_bin_samples opts) = Inr chunks"
    "cal_cost (co_false_autonomy_cost opts) = Inr fac" "cal_cost (co_abstention_cost opts) = Inr abc"
    "cal_string (PStr ver) = Inr version" "cal_sha256 (PStr src) = Inr source"
    "a = finish_artifact lib now opts (sort_key cr_raw_confidence trs) chunks
           \<lparr>false_autonomy_cost = fac, abstention_cost = abc\<rparr> task source f version"
    unfolding build_calibration_artifact_def Let_def by (auto simp: rbind_eq_Inr split: if_splits)
  show thesis
    using b by (intro that [OF cal_sha256_again [OF b(1)] b(2-4) _ _ b(7) cal_cost_Inr [OF b(8)] cal_cost_Inr [OF b(9)]
        cal_string_again [OF b(10)] cal_sha256_again [OF b(11)] b(12)]) simp_all
qed

lemma task_records_Inr:
  assumes "task_records rs task fp = Inr trs"
  shows "task \<in> set confidence_tasks" "trs \<noteq> []" "set trs \<subseteq> set rs"
  using assms by (auto simp: task_records_def rbind_eq_Inr Let_def split: if_splits)

lemma sorted_sources_again: "sort (remdups xs) = sort (remdups (sort (remdups xs)))"
  by (simp add: distinct_remdups_id sort_key_twice)

lemma finish_artifact_ok:
  assumes opts: "0 < co_required_wilson_lower opts" "co_required_wilson_lower opts < 1" "1 \<le> co_minimum_threshold_support opts"
      "2 \<le> co_minimum_bin_samples opts"
    and chunks: "equal_frequency_chunks sel (co_maximum_bins opts) (co_minimum_bin_samples opts) = Inr chunks"
    and sel: "sorted (map cr_raw_confidence sel)" "sel \<noteq> []" "list_all record_ok sel"
    and cost: "0 < false_autonomy_cost cost" "0 < abstention_cost cost" and task: "task \<in> set confidence_tasks"
    and texts: "cal_string (PStr version) = Inr version" "cal_sha256 (PStr source) = Inr source" "cal_sha256 (PStr f) = Inr f"
  shows "artifact_ok lib (finish_artifact lib now opts sel chunks cost task source f version)"
proof -
  let ?a = "finish_artifact lib now opts sel chunks cost task source f version"
  note bins = bins_ok_make_bins [OF chunks sel(1) opts(4) sel(3)]
  have "record_ok (hd sel)" using sel(2,3) by (simp add: list_all_iff)
  then have rubric: "cal_string (PStr (cr_rubric_version (hd sel))) = Inr (cr_rubric_version (hd sel))"
    by (simp add: record_ok_def)
  have src: "set (map cr_evidence_source sel) \<subseteq> set evidence_source_names"
    using sel(3) by (auto simp: list_all_iff record_ok_def)
  have "sort (remdups (map cr_evidence_source sel)) \<noteq> []"
    using sel(2) by (metis set_empty set_remdups set_sort map_is_Nil_conv)
  moreover have "grant_ok lib ?a"
    by (auto simp: grant_ok_def finish_artifact_def Let_def autonomy_block_def not_live_reason_def no_point_reason_def
        split: option.splits)
  moreover have "ca_artifact_sha256 ?a = payload_digest lib (artifact_payload lib ?a)"
    by (simp add: finish_artifact_def Let_def artifact_payload_def)
  ultimately show ?thesis
    using opts bins rubric src cost task texts
    by (simp add: artifact_ok_def finish_artifact_def Let_def flip: sorted_sources_again)
qed

lemma built_artifact_ok:
  assumes "build_calibration_artifact lib now opts rs task src fp ver = Inr a" and recs: "list_all record_ok rs"
  shows "artifact_ok lib a"
  using assms(1)
proof (rule build_artifact_obtain)
  fix f trs chunks fac abc version source
  assume *: "cal_sha256 (PStr f) = Inr f" "task_records rs task (Some f) = Inr trs"
    "0 < co_required_wilson_lower opts" "co_required_wilson_lower opts < 1" "1 \<le> co_minimum_threshold_support opts"
    "2 \<le> co_minimum_bin_samples opts"
    "equal_frequency_chunks (sort_key cr_raw_confidence trs) (co_maximum_bins opts) (co_minimum_bin_samples opts) = Inr chunks"
    "0 < fac" "0 < abc" "cal_string (PStr version) = Inr version" "cal_sha256 (PStr source) = Inr source"
    "a = finish_artifact lib now opts (sort_key cr_raw_confidence trs) chunks
           \<lparr>false_autonomy_cost = fac, abstention_cost = abc\<rparr> task source f version"
  note trs = task_records_Inr [OF *(2)]
  have "sort_key cr_raw_confidence trs \<noteq> []" using trs(2) by (metis set_empty set_sort)
  moreover have "list_all record_ok (sort_key cr_raw_confidence trs)" using trs(3) recs by (auto simp: list_all_iff)
  ultimately show ?thesis unfolding *(12)
    by (intro finish_artifact_ok [OF *(3-7)]) (simp_all add: * trs)
qed

section \<open>Sample file\<close>

text \<open>A library whose floats are written in hundredths and whose times are written as numbers. Its square root is
  chosen to make the Wilson bounds of the sample one half.\<close>

definition hundredths_sqrt :: "rat \<Rightarrow> rat" where
  "hundredths_sqrt x = (if x = wilson_z * wilson_z / 16 then 1 / (2 * wilson_z) else 1 / (4 * wilson_z))"

definition hundredths_lib :: cal_lib where
  "hundredths_lib = \<lparr>cl_sqrt = hundredths_sqrt, cl_sha256 = \<lambda>_. sample_sha, cl_isoformat = show_int,
     cl_fromisoformat = parse_int, cl_rt = no_runtime\<lparr>float_repr := \<lambda>x. show_nat (nat \<lfloor>x * 100\<rfloor>) @ ''e-2''\<rparr>\<rparr>"

lemma hundredths_lib_ok: "lib_ok hundredths_lib"
  by (simp add: lib_ok_def hundredths_lib_def hundredths_sqrt_def wilson_z_def Let_def show_int_text)

lemma sample_corpus_ok: "list_all record_ok sample_corpus"
  by code_simp

definition hundredths_artifact :: calibration_artifact where
  "hundredths_artifact = finish_artifact hundredths_lib 7 sample_options (sort_key cr_raw_confidence sample_corpus)
     [[sample_record ''a'' (1/2) False, sample_record ''c'' (1/2) True],
      [sample_record ''b'' (9/10) True, sample_record ''d'' (9/10) True]]
     \<lparr>false_autonomy_cost = 20, abstention_cost = 1\<rparr> ''remediation'' sample_sha sample_sha ''v1''"

lemma hundredths_build:
  "build_calibration_artifact hundredths_lib 7 sample_options sample_corpus ''remediation'' sample_sha sample_sha ''v1''
     = Inr hundredths_artifact"
proof -
  have "length (sort_key cr_raw_confidence sample_corpus) = 4" by (simp add: sample_corpus_def)
  then show ?thesis
    by (simp add: hundredths_artifact_def build_calibration_artifact_def sample_steps Let_def)
       (simp add: sample_options_def sample_steps)
qed

definition hundredths_bins :: "calibration_bin list" where
  "hundredths_bins = [\<lparr>cb_upper_bound = 1/2, cb_count = 2, cb_successes = 1, cb_probability = 1/2\<rparr>,
      \<lparr>cb_upper_bound = 1, cb_count = 2, cb_successes = 2, cb_probability = 3/4\<rparr>]"

lemma hundredths_parts:
  "make_bins [[sample_record ''a'' (1/2) False, sample_record ''c'' (1/2) True],
      [sample_record ''b'' (9/10) True, sample_record ''d'' (9/10) True]] = hundredths_bins"
  "sort (remdups (map cr_evidence_source (sort_key cr_raw_confidence sample_corpus))) = [''live_benchmark'']"
  "length (sort_key cr_raw_confidence sample_corpus) = 4"
  "cr_rubric_version (hd (sort_key cr_raw_confidence sample_corpus)) = ''r1''"
  by code_simp+

lemma wilson_lower_sample: "wilson_lower hundredths_sqrt 3 4 = 1/2" "wilson_lower hundredths_sqrt 2 2 = 1/2"
  by (simp_all add: wilson_lower_def hundredths_sqrt_def wilson_z_def)

definition hundredths_points :: "operating_point list" where
  "hundredths_points =
    [\<lparr>op_threshold = 1/2, op_autonomous = 4, op_abstained = 0, op_true_autonomy = 3, op_false_autonomy = 1,
      op_success_rate = 3/4, op_wilson_lower = 1/2, op_coverage = 1, op_expected_cost = 5,
      op_meets_support_floor = True, op_meets_wilson_floor = True\<rparr>,
     \<lparr>op_threshold = 3/4, op_autonomous = 2, op_abstained = 2, op_true_autonomy = 2, op_false_autonomy = 0,
      op_success_rate = 1, op_wilson_lower = 1/2, op_coverage = 1/2, op_expected_cost = 1/2,
      op_meets_support_floor = True, op_meets_wilson_floor = True\<rparr>]"

lemma hundredths_curve:
  "threshold_curve hundredths_sqrt hundredths_bins \<lparr>false_autonomy_cost = 20, abstention_cost = 1\<rparr> 1 (1/100)
     = hundredths_points"
  by (simp add: threshold_curve_def score_threshold_def hundredths_bins_def hundredths_points_def wilson_lower_sample
      wilson_lower_sample(1) [unfolded numeral_3_eq_3] Let_def)

lemma float_prints_hundredths:
  "x * 100 = of_nat n \<Longrightarrow> float_prints (cl_rt hundredths_lib) (Fin x)"
proof -
  assume x: "x * 100 = of_nat n"
  then have "x = of_nat n / 100" by simp
  with x json_number_hundredths [of n] show ?thesis
    by (simp add: float_prints_def hundredths_lib_def)
qed

lemma float_prints_samples:
  "float_prints (cl_rt hundredths_lib) (Fin 1)"
  "float_prints (cl_rt hundredths_lib) (Fin (1/2))" "float_prints (cl_rt hundredths_lib) (Fin (3/4))"
  "float_prints (cl_rt hundredths_lib) (Fin (1/100))" "float_prints (cl_rt hundredths_lib) (Fin 5)"
  "float_prints (cl_rt hundredths_lib) (Fin 20)"
  by (rule float_prints_hundredths [of _ 100] float_prints_hundredths [of _ 50]
      float_prints_hundredths [of _ 75] float_prints_hundredths [of _ 1] float_prints_hundredths [of _ 500]
      float_prints_hundredths [of _ 2000]; simp; fail)+

lemma int_prints_small: "0 \<le> i \<Longrightarrow> i < 10 \<Longrightarrow> int_prints i"
  by (simp add: int_prints_def show_nat.simps max_int_digits_def)

text \<open>The sample artifact in full.\<close>

lemma hundredths_artifact_code [code]:
  "hundredths_artifact = \<lparr>ca_artifact_version = ''v1'', ca_task = ''remediation'', ca_rubric_version = ''r1'',
     ca_config_fingerprint = sample_sha, ca_source_sha256 = sample_sha, ca_sample_count = 4, ca_bins = hundredths_bins,
     ca_autonomy_threshold = Some (3/4), ca_threshold_support = 2, ca_threshold_wilson_lower = Some (1/2),
     ca_required_wilson_lower = 1/100, ca_minimum_threshold_support = 1,
     ca_cost_model = \<lparr>false_autonomy_cost = 20, abstention_cost = 1\<rparr>, ca_threshold_curve = hundredths_points,
     ca_always_abstain_cost = 1, ca_always_autonomous_cost = 5, ca_selected_cost = Some (1/2),
     ca_evidence_sources = [''live_benchmark''], ca_autonomy_blocked_reason = None, ca_built_at = 7,
     ca_artifact_sha256 = sample_sha\<rparr>"
proof -
  have lib: "cl_sqrt hundredths_lib = hundredths_sqrt" "cl_sha256 hundredths_lib = (\<lambda>_. sample_sha)"
    by (simp_all add: hundredths_lib_def)
  have opts: "co_minimum_threshold_support sample_options = 1" "co_required_wilson_lower sample_options = 1/100"
    by (simp_all add: sample_options_def)
  have point: "select_operating_point hundredths_points = Some (hundredths_points ! 1)"
    by (simp add: hundredths_points_def select_operating_point_def op_eligible_def op_key_def less_prod_def)
  show ?thesis
    unfolding hundredths_artifact_def finish_artifact_def Let_def hundredths_parts payload_digest_def lib opts
      hundredths_curve point
    by (simp add: autonomy_block_def autonomy_evidence_def hundredths_bins_def hundredths_points_def)
qed

lemma hundredths_printable: "printable (cl_rt hundredths_lib) (PDict (artifact_to_dict hundredths_lib hundredths_artifact))"
  unfolding hundredths_artifact_code
  by (simp add: artifact_to_dict_def artifact_payload_def popt_def bin_dict_def cost_dict_def point_dict_def
      hundredths_bins_def hundredths_points_def float_prints_samples int_prints_small)

lemma load_artifact_payload_Inr:
  assumes "load_artifact_payload lib payload = Inr a"
  shows "bins_ok 0 0 0 (ca_bins a)" "cb_upper_bound (last (ca_bins a)) = 1"
    "check_threshold (cl_sqrt lib) (ca_bins a) (ca_autonomy_threshold a) (ca_threshold_support a)
       (ca_threshold_wilson_lower a) (ca_required_wilson_lower a) = Inr ()"
    "ca_threshold_curve a = threshold_curve (cl_sqrt lib) (ca_bins a) (ca_cost_model a)
       (ca_minimum_threshold_support a) (ca_required_wilson_lower a)"
    "\<exists>c. check_grant (ca_autonomy_threshold a) (ca_autonomy_blocked_reason a) (ca_evidence_sources a)
       (select_operating_point (ca_threshold_curve a)) c = Inr (ca_selected_cost a)"
    "ca_artifact_sha256 a = payload_digest lib (py_dict_del payload ''artifact_sha256'')"
    "py_dict_get payload ''artifact_sha256'' PNone = PStr (ca_artifact_sha256 a)"
proof -
  obtain vs where vs: "load_bins 0 0 0 vs = Inr (ca_bins a)"
    and rest: "cb_upper_bound (last (ca_bins a)) = 1"
    "check_threshold (cl_sqrt lib) (ca_bins a) (ca_autonomy_threshold a) (ca_threshold_support a)
       (ca_threshold_wilson_lower a) (ca_required_wilson_lower a) = Inr ()"
    "ca_threshold_curve a = threshold_curve (cl_sqrt lib) (ca_bins a) (ca_cost_model a)
       (ca_minimum_threshold_support a) (ca_required_wilson_lower a)"
    "\<exists>c. check_grant (ca_autonomy_threshold a) (ca_autonomy_blocked_reason a) (ca_evidence_sources a)
       (select_operating_point (ca_threshold_curve a)) c = Inr (ca_selected_cost a)"
    "ca_artifact_sha256 a = payload_digest lib (py_dict_del payload ''artifact_sha256'')"
    "py_dict_get payload ''artifact_sha256'' PNone = PStr (ca_artifact_sha256 a)"
    using assms unfolding load_artifact_payload_def Let_def
    by (clarsimp simp: rbind_eq_Inr simp del: load_bins.simps split: if_splits pyval.splits list.splits) blast
  show "bins_ok 0 0 0 (ca_bins a)" using load_bins_ok [OF vs] by simp
  show "cb_upper_bound (last (ca_bins a)) = 1"
    "check_threshold (cl_sqrt lib) (ca_bins a) (ca_autonomy_threshold a) (ca_threshold_support a)
       (ca_threshold_wilson_lower a) (ca_required_wilson_lower a) = Inr ()"
    "ca_threshold_curve a = threshold_curve (cl_sqrt lib) (ca_bins a) (ca_cost_model a)
       (ca_minimum_threshold_support a) (ca_required_wilson_lower a)"
    "\<exists>c. check_grant (ca_autonomy_threshold a) (ca_autonomy_blocked_reason a) (ca_evidence_sources a)
       (select_operating_point (ca_threshold_curve a)) c = Inr (ca_selected_cost a)"
    "ca_artifact_sha256 a = payload_digest lib (py_dict_del payload ''artifact_sha256'')"
    "py_dict_get payload ''artifact_sha256'' PNone = PStr (ca_artifact_sha256 a)"
    by (fact rest)+
qed

lemma load_calibration_artifact_Inr:
  assumes "load_calibration_artifact lib read path = Inr a"
  shows "\<exists>content payload. read path = Inr (Some content) \<and> json_loads content = Some (PDict payload)
    \<and> load_artifact_payload lib payload = Inr a"
proof -
  from assms obtain content where c: "read path = Inr (Some content)"
    by (auto simp: load_calibration_artifact_def rbind_eq_Inr split: option.splits)
  with assms obtain v where "json_loads content = Some v"
    by (auto simp: load_calibration_artifact_def split: option.splits)
  with assms c show ?thesis by (cases v) (auto simp: load_calibration_artifact_def)
qed

text \<open>What a threshold in a loaded artifact rests on.\<close>

lemma loaded_threshold_facts:
  assumes "load_artifact_payload lib payload = Inr a" and t: "ca_autonomy_threshold a = Some t"
  shows "ca_evidence_sources a = [''live_benchmark'']" "ca_autonomy_blocked_reason a = None"
    "t \<in> cb_probability ` set (ca_bins a)"
    "ca_threshold_support a = sum_list (map cb_count (filter (\<lambda>b. t \<le> cb_probability b) (ca_bins a)))"
    "\<exists>p. select_operating_point (ca_threshold_curve a) = Some p \<and> \<bar>op_threshold p - t\<bar> \<le> 1 / 10 ^ 12"
proof -
  note f = load_artifact_payload_Inr [OF assms(1)]
  obtain c where "check_grant (Some t) (ca_autonomy_blocked_reason a) (ca_evidence_sources a)
      (select_operating_point (ca_threshold_curve a)) c = Inr (ca_selected_cost a)" using f(5) t by auto
  then show "ca_evidence_sources a = [''live_benchmark'']" "ca_autonomy_blocked_reason a = None"
    "\<exists>p. select_operating_point (ca_threshold_curve a) = Some p \<and> \<bar>op_threshold p - t\<bar> \<le> 1 / 10 ^ 12"
    by (auto simp: check_grant_def autonomy_evidence_def isclose_def split: if_splits option.splits)
  from f(3) show "t \<in> cb_probability ` set (ca_bins a)"
    "ca_threshold_support a = sum_list (map cb_count (filter (\<lambda>b. t \<le> cb_probability b) (ca_bins a)))"
    unfolding t check_threshold_def option.case Let_def by (auto split: option.splits if_splits)
qed

text \<open>A declared threshold above every bin leaves nothing to divide by: the loader raises
  \<open>ZeroDivisionError\<close>, which its callers do not expect of it.\<close>

lemma threshold_above_bins_raises:
  assumes "\<forall>b \<in> set bins. cb_probability b < t" "1 \<le> support" "required \<le> l"
  shows "check_threshold sqrtf bins (Some t) support (Some l) required = Inl (CalRaised ZeroDivisionError)"
proof -
  have "filter (\<lambda>b. t \<le> cb_probability b) bins = []" using assms(1) by (auto simp: filter_empty_conv)
  then show ?thesis using assms(2,3) by (simp add: check_threshold_def)
qed

section \<open>Properties\<close>

text \<open>What a threshold in a loaded artifact rests on, whoever wrote the file: its evidence is live-benchmark
  evidence only and nothing blocks it; the bins are supported, ordered and end at one; the threshold
  is the probability of a bin and within 1e-12 of the cheapest eligible point of the curve that is
  computed again from these bins, which meets the declared support and Wilson floors; the declared
  support is the population of the bins at or above the threshold; and the digest in the file covers
  the rest of the file.\<close>

theorem loaded_threshold_justified:
  assumes "load_calibration_artifact lib read path = Inr a" and "ca_autonomy_threshold a = Some t"
  shows "ca_evidence_sources a = [''live_benchmark''] \<and> ca_autonomy_blocked_reason a = None
    \<and> bins_ok 0 0 0 (ca_bins a) \<and> cb_upper_bound (last (ca_bins a)) = 1
    \<and> t \<in> cb_probability ` set (ca_bins a)
    \<and> ca_threshold_support a = sum_list (map cb_count (filter (\<lambda>b. t \<le> cb_probability b) (ca_bins a)))
    \<and> ca_threshold_curve a = threshold_curve (cl_sqrt lib) (ca_bins a) (ca_cost_model a)
         (ca_minimum_threshold_support a) (ca_required_wilson_lower a)
    \<and> (\<exists>p \<in> set (ca_threshold_curve a). \<bar>op_threshold p - t\<bar> \<le> 1 / 10 ^ 12
         \<and> ca_minimum_threshold_support a \<le> op_autonomous p \<and> ca_required_wilson_lower a \<le> op_wilson_lower p
         \<and> (\<forall>q \<in> set (ca_threshold_curve a). op_eligible q \<longrightarrow> op_expected_cost p \<le> op_expected_cost q))
    \<and> (\<exists>content payload. read path = Inr (Some content) \<and> json_loads content = Some (PDict payload)
         \<and> ca_artifact_sha256 a = payload_digest lib (py_dict_del payload ''artifact_sha256'')
         \<and> py_dict_get payload ''artifact_sha256'' PNone = PStr (ca_artifact_sha256 a))"
proof -
  obtain content payload where pl: "read path = Inr (Some content)" "json_loads content = Some (PDict payload)"
    "load_artifact_payload lib payload = Inr a"
    using load_calibration_artifact_Inr [OF assms(1)] by blast
  note f = load_artifact_payload_Inr [OF pl(3)] and g = loaded_threshold_facts [OF pl(3) assms(2)]
  obtain p where p: "select_operating_point (ca_threshold_curve a) = Some p" "\<bar>op_threshold p - t\<bar> \<le> 1 / 10 ^ 12"
    using g(5) by blast
  have "p \<in> set (ca_threshold_curve a)"
    "\<forall>q \<in> set (ca_threshold_curve a). op_eligible q \<longrightarrow> op_expected_cost p \<le> op_expected_cost q"
    using select_operating_point_Some [OF p(1)] by (auto simp: op_key_def)
  moreover have "ca_minimum_threshold_support a \<le> op_autonomous p" "ca_required_wilson_lower a \<le> op_wilson_lower p"
    using selected_point [OF p(1) [unfolded f(4)] f(1)] by auto
  ultimately have "\<exists>p \<in> set (ca_threshold_curve a). \<bar>op_threshold p - t\<bar> \<le> 1 / 10 ^ 12
         \<and> ca_minimum_threshold_support a \<le> op_autonomous p \<and> ca_required_wilson_lower a \<le> op_wilson_lower p
         \<and> (\<forall>q \<in> set (ca_threshold_curve a). op_eligible q \<longrightarrow> op_expected_cost p \<le> op_expected_cost q)"
    using p(2) by blast
  with f(1,2,4,6,7) g(1-4) pl(1,2) show ?thesis by blast
qed

lemma hundredths_loads:
  "load_calibration_artifact hundredths_lib
     (\<lambda>_. Inr (Some (save_calibration_artifact hundredths_lib hundredths_artifact))) path = Inr hundredths_artifact"
  using load_saved [OF built_artifact_ok [OF hundredths_build sample_corpus_ok] hundredths_lib_ok]
  by (simp add: load_calibration_artifact_def saved_text_loads [OF hundredths_printable])

lemma hundredths_threshold: "ca_autonomy_threshold hundredths_artifact = Some (3/4)"
  by (simp add: hundredths_artifact_code)

theorem loaded_threshold_justified_witness:
  "load_calibration_artifact hundredths_lib
     (\<lambda>_. Inr (Some (save_calibration_artifact hundredths_lib hundredths_artifact))) ''artifact.json'' = Inr hundredths_artifact
   \<and> ca_autonomy_threshold hundredths_artifact = Some (3/4) \<and> ca_evidence_sources hundredths_artifact = [''live_benchmark'']"
  using loaded_threshold_justified [OF hundredths_loads hundredths_threshold] hundredths_loads hundredths_threshold by blast



end
