(* ===== verification/Reliability_Report.thy ===== *)
theory Reliability_Report
  imports Calibration_Artifact
begin

text \<open>
  Reliability reports and drift (\<open>reliability_report\<close> and \<open>calibration_drift\<close> of
  \<open>src/src/sre_agent/confidence_calibration.py\<close>): raw confidences are grouped into equally wide bins, each bin
  compares the mean confidence with the success rate, and two reports of the same task and
  configuration are compared against limits. \<open>math.log\<close> is an argument; the confidences are those of
  validated records, between zero and one.

  Shown here: the bins partition the records, each bin's mean lies inside its interval, and the errors
  are ordered and bounded; what makes a report drift.
\<close>

section \<open>Reports\<close>

record reliability_bin =
  rb_lower_bound :: rat
  rb_upper_bound :: rat
  rb_count :: nat
  rb_mean_confidence :: rat
  rb_accuracy :: rat
  rb_calibration_gap :: rat

record reliability_report =
  rr_task :: string
  rr_rubric_version :: string
  rr_config_fingerprint :: "string option"
  rr_samples :: nat
  rr_bins :: "reliability_bin list"
  rr_brier_score :: rat
  rr_log_loss :: rat
  rr_expected_calibration_error :: rat
  rr_maximum_calibration_error :: rat
  rr_mean_confidence :: rat
  rr_outcome_rate :: rat

definition outcome_value :: "confidence_record \<Rightarrow> rat" where
  "outcome_value r = (if cr_outcome r then 1 else 0)"

definition bin_index :: "nat \<Rightarrow> confidence_record \<Rightarrow> nat" where
  "bin_index bin_count r = min (bin_count - 1) (nat \<lfloor>cr_raw_confidence r * of_nat bin_count\<rfloor>)"

definition grouped :: "nat \<Rightarrow> confidence_record list \<Rightarrow> confidence_record list list" where
  "grouped bin_count selected =
     map (\<lambda>index. filter (\<lambda>r. bin_index bin_count r = index) selected) [0..<bin_count]"

definition mean :: "('a \<Rightarrow> rat) \<Rightarrow> 'a list \<Rightarrow> rat" where
  "mean f xs = sum_list (map f xs) / of_nat (length xs)"

definition make_reliability_bin :: "nat \<Rightarrow> nat \<Rightarrow> confidence_record list \<Rightarrow> reliability_bin" where
  "make_reliability_bin bin_count index values =
     \<lparr>rb_lower_bound = of_nat index / of_nat bin_count, rb_upper_bound = of_nat (index + 1) / of_nat bin_count,
      rb_count = length values, rb_mean_confidence = mean cr_raw_confidence values,
      rb_accuracy = mean outcome_value values,
      rb_calibration_gap = \<bar>mean cr_raw_confidence values - mean outcome_value values\<bar>\<rparr>"

definition reliability_bins :: "nat \<Rightarrow> confidence_record list \<Rightarrow> reliability_bin list" where
  "reliability_bins bin_count selected =
     map (\<lambda>(index, values). make_reliability_bin bin_count index values)
       (filter (\<lambda>(index, values). values \<noteq> []) (enumerate 0 (grouped bin_count selected)))"

definition brier_term :: "confidence_record \<Rightarrow> rat" where
  "brier_term r = (cr_raw_confidence r - outcome_value r) ^ 2"

definition log_term :: "(rat \<Rightarrow> rat) \<Rightarrow> confidence_record \<Rightarrow> rat" where
  "log_term logf r = (let epsilon = 1 / 10 ^ 12 in
     outcome_value r * logf (max epsilon (cr_raw_confidence r))
       + (1 - outcome_value r) * logf (max epsilon (1 - cr_raw_confidence r)))"

definition build_reliability_report :: "(rat \<Rightarrow> rat) \<Rightarrow> confidence_record list \<Rightarrow> string \<Rightarrow> nat \<Rightarrow> string option
    \<Rightarrow> (cal_error, reliability_report) res" where
  "build_reliability_report logf records task bin_count config_fingerprint =
     (if bin_count < 2 then Inl CalibrationError
      else rbind (case config_fingerprint of None \<Rightarrow> Inr None
                  | Some f \<Rightarrow> rbind (cal_sha256 (PStr f)) (\<lambda>x. Inr (Some x))) (\<lambda>fingerprint.
        rbind (task_records records task fingerprint) (\<lambda>selected.
          let bins = reliability_bins bin_count selected; count = of_nat (length selected) in
          Inr \<lparr>rr_task = task, rr_rubric_version = cr_rubric_version (hd selected),
               rr_config_fingerprint = fingerprint, rr_samples = length selected, rr_bins = bins,
               rr_brier_score = mean brier_term selected, rr_log_loss = - mean (log_term logf) selected,
               rr_expected_calibration_error =
                 sum_list (map (\<lambda>b. rb_calibration_gap b * of_nat (rb_count b)) bins) / count,
               rr_maximum_calibration_error = Max (set (map rb_calibration_gap bins)),
               rr_mean_confidence = mean cr_raw_confidence selected,
               rr_outcome_rate = mean outcome_value selected\<rparr>)))"

section \<open>Drift\<close>

datatype drift_reason = CalibrationErrorIncreased | BrierScoreIncreased | MeanConfidenceShifted

definition drift_reason_text :: "drift_reason \<Rightarrow> string" where
  "drift_reason_text r = (case r of CalibrationErrorIncreased \<Rightarrow> ''expected calibration error increased''
     | BrierScoreIncreased \<Rightarrow> ''Brier score increased'' | MeanConfidenceShifted \<Rightarrow> ''mean confidence shifted'')"

record drift_limits =
  dl_ece_increase :: rat
  dl_brier_increase :: rat
  dl_confidence_shift :: rat

definition default_drift_limits :: drift_limits where
  "default_drift_limits = \<lparr>dl_ece_increase = 5/100, dl_brier_increase = 5/100, dl_confidence_shift = 10/100\<rparr>"

record drift_report =
  dr_task :: string
  dr_reference_samples :: nat
  dr_current_samples :: nat
  dr_ece_delta :: rat
  dr_brier_delta :: rat
  dr_confidence_delta :: rat
  dr_outcome_delta :: rat
  dr_drifted :: bool
  dr_reasons :: "drift_reason list"

definition calibration_drift :: "drift_limits \<Rightarrow> reliability_report \<Rightarrow> reliability_report \<Rightarrow> (cal_error, drift_report) res" where
  "calibration_drift limits reference current =
     (if rr_task reference \<noteq> rr_task current \<or> rr_rubric_version reference \<noteq> rr_rubric_version current
         \<or> rr_config_fingerprint reference \<noteq> rr_config_fingerprint current then Inl CalibrationError
      else
        (let ece = rr_expected_calibration_error current - rr_expected_calibration_error reference;
             brier = rr_brier_score current - rr_brier_score reference;
             confidence = rr_mean_confidence current - rr_mean_confidence reference;
             reasons = (if dl_ece_increase limits < ece then [CalibrationErrorIncreased] else [])
               @ (if dl_brier_increase limits < brier then [BrierScoreIncreased] else [])
               @ (if dl_confidence_shift limits < \<bar>confidence\<bar> then [MeanConfidenceShifted] else [])
         in Inr \<lparr>dr_task = rr_task reference, dr_reference_samples = rr_samples reference,
              dr_current_samples = rr_samples current, dr_ece_delta = ece, dr_brier_delta = brier,
              dr_confidence_delta = confidence,
              dr_outcome_delta = rr_outcome_rate current - rr_outcome_rate reference,
              dr_drifted = (reasons \<noteq> []), dr_reasons = reasons\<rparr>))"

section \<open>Means and bins\<close>

lemma mean_bounds:
  assumes "xs \<noteq> []" "\<And>x. x \<in> set xs \<Longrightarrow> a \<le> f x" "\<And>x. x \<in> set xs \<Longrightarrow> f x \<le> b"
  shows "a \<le> mean f xs" "mean f xs \<le> b"
proof -
  have "a * of_nat (length xs) \<le> sum_list (map f xs) \<and> sum_list (map f xs) \<le> b * of_nat (length xs)"
    using assms(2,3) by (induction xs) (force simp: algebra_simps)+
  moreover have "0 < (of_nat (length xs) :: rat)" using assms(1) by simp
  ultimately show "a \<le> mean f xs" "mean f xs \<le> b"
    by (simp_all add: mean_def pos_le_divide_eq pos_divide_le_eq)
qed

lemma bin_index_interval:
  assumes "2 \<le> n" "0 \<le> cr_raw_confidence r" "cr_raw_confidence r \<le> 1"
  shows "of_nat (bin_index n r) / of_nat n \<le> cr_raw_confidence r"
    "cr_raw_confidence r \<le> of_nat (bin_index n r + 1) / of_nat n" "bin_index n r < n"
proof -
  let ?x = "cr_raw_confidence r * of_nat n"
  have pos: "0 < (of_nat n :: rat)" using assms(1) by simp
  have x: "0 \<le> ?x" "?x \<le> of_nat n" using assms by (simp_all add: mult_left_le_one_le)
  have fl: "of_nat (nat \<lfloor>?x\<rfloor>) \<le> ?x" "?x < of_nat (nat \<lfloor>?x\<rfloor>) + 1"
    using x(1) floor_correct [of ?x] by (auto simp: of_nat_nat)
  have "of_nat (bin_index n r) \<le> ?x"
    using fl(1) unfolding bin_index_def by (meson le_trans min.cobounded2 of_nat_mono order_trans)
  then show "of_nat (bin_index n r) / of_nat n \<le> cr_raw_confidence r" using pos by (simp add: pos_divide_le_eq)
  have "?x \<le> of_nat (bin_index n r + 1)"
  proof (cases "nat \<lfloor>?x\<rfloor> \<le> n - 1")
    case True
    then show ?thesis using fl(2) by (simp add: bin_index_def min_def)
  next
    case False
    then have "bin_index n r + 1 = n" using assms(1) by (simp add: bin_index_def min_def)
    with x(2) show ?thesis by simp
  qed
  then show "cr_raw_confidence r \<le> of_nat (bin_index n r + 1) / of_nat n" using pos by (simp add: pos_le_divide_eq)
  show "bin_index n r < n" using assms(1) by (auto simp: bin_index_def)
qed

lemma length_by_index:
  assumes "\<forall>x \<in> set xs. g x < n"
  shows "(\<Sum>i\<leftarrow>[0..<n]. length (filter (\<lambda>x. g x = i) xs)) = length xs"
  using assms
proof (induction xs)
  case (Cons x xs)
  have "(\<Sum>i\<leftarrow>[0..<n]. length (filter (\<lambda>y. g y = i) (x # xs)))
      = (\<Sum>i\<leftarrow>[0..<n]. (if g x = i then 1 else 0) + length (filter (\<lambda>y. g y = i) xs))"
    by (rule arg_cong [where f = sum_list], rule map_cong) simp_all
  also have "\<dots> = (\<Sum>i\<leftarrow>[0..<n]. if g x = i then 1 else 0) + length xs"
    using Cons by (simp add: sum_list_addf)
  also have "(\<Sum>i\<leftarrow>[0..<n]. if g x = i then 1 else 0) = (1 :: nat)"
  proof -
    have "(\<Sum>i\<leftarrow>[0..<n]. if g x = i then 1 else 0) = (\<Sum>i \<in> {0..<n}. if g x = i then 1 else (0 :: nat))"
      by (simp add: sum_list_distinct_conv_sum_set)
    with Cons.prems show ?thesis by simp
  qed
  finally show ?case by simp
qed simp

lemma sum_list_filter_zero: "(\<And>x. x \<in> set xs \<Longrightarrow> \<not> P x \<Longrightarrow> f x = 0) \<Longrightarrow>
    sum_list (map f (filter P xs)) = (sum_list (map f xs) :: nat)"
  by (induction xs) auto

lemma reliability_bins_counts:
  assumes "2 \<le> n" "list_all record_ok selected"
  shows "sum_list (map rb_count (reliability_bins n selected)) = length selected"
proof -
  have "map rb_count (reliability_bins n selected) = map (\<lambda>(i, vs). length vs)
      (filter (\<lambda>(i, vs). vs \<noteq> []) (enumerate 0 (grouped n selected)))"
    by (simp add: reliability_bins_def make_reliability_bin_def split_def)
  also have "sum_list \<dots> = sum_list (map (\<lambda>(i, vs). length vs) (enumerate 0 (grouped n selected)))"
    by (rule sum_list_filter_zero) auto
  also have "map (\<lambda>(i, vs). length vs) (enumerate 0 (grouped n selected)) = map length (grouped n selected)"
    by (simp add: enumerate_eq_zip split_def flip: map_map [of length snd, unfolded o_def])
  also have "sum_list \<dots> = length selected"
    unfolding grouped_def map_map o_def
    using assms bin_index_interval(3) by (intro length_by_index) (auto simp: list_all_iff record_ok_def)
  finally show ?thesis .
qed

lemma reliability_bins_mem:
  assumes "b \<in> set (reliability_bins n selected)"
  obtains i vs where "b = make_reliability_bin n i vs" "vs \<noteq> []" "set vs \<subseteq> set selected"
    "\<forall>r \<in> set vs. bin_index n r = i"
proof -
  from assms obtain i vs where b: "b = make_reliability_bin n i vs" "vs \<noteq> []" "(i, vs) \<in> set (enumerate 0 (grouped n selected))"
    by (auto simp: reliability_bins_def)
  then have "i < n" "vs = filter (\<lambda>r. bin_index n r = i) selected"
    by (auto simp: in_set_enumerate_eq grouped_def)
  with b that show thesis by auto
qed

lemma outcome_value_bounds: "0 \<le> outcome_value r" "outcome_value r \<le> 1"
  by (simp_all add: outcome_value_def)

lemma reliability_bin_ok:
  assumes "2 \<le> n" "list_all record_ok selected" "b \<in> set (reliability_bins n selected)"
  shows "1 \<le> rb_count b \<and> rb_lower_bound b \<le> rb_mean_confidence b \<and> rb_mean_confidence b \<le> rb_upper_bound b
    \<and> 0 \<le> rb_accuracy b \<and> rb_accuracy b \<le> 1 \<and> 0 \<le> rb_calibration_gap b \<and> rb_calibration_gap b \<le> 1"
  using assms(3)
proof (rule reliability_bins_mem)
  fix i vs
  assume b: "b = make_reliability_bin n i vs" "vs \<noteq> []" "set vs \<subseteq> set selected" "\<forall>r \<in> set vs. bin_index n r = i"
  have r: "0 \<le> cr_raw_confidence r \<and> cr_raw_confidence r \<le> 1" if "r \<in> set vs" for r
    using that b(3) assms(2) by (auto simp: list_all_iff record_ok_def)
  have iv: "of_nat i / of_nat n \<le> cr_raw_confidence x" "cr_raw_confidence x \<le> of_nat (i + 1) / of_nat n" if "x \<in> set vs" for x
    using bin_index_interval [OF assms(1), of x] r [OF that] b(4) that by auto
  have "of_nat i / of_nat n \<le> mean cr_raw_confidence vs" "mean cr_raw_confidence vs \<le> of_nat (i + 1) / of_nat n"
    by (rule mean_bounds [OF b(2) iv]; assumption)+
  moreover have "0 \<le> mean cr_raw_confidence vs" "mean cr_raw_confidence vs \<le> 1"
    using mean_bounds [OF b(2), of 0 cr_raw_confidence 1] r by blast+
  moreover have "0 \<le> mean outcome_value vs" "mean outcome_value vs \<le> 1"
    using mean_bounds [OF b(2), of 0 outcome_value 1] outcome_value_bounds by blast+
  moreover have "1 \<le> length vs" using b(2) by (cases vs) auto
  ultimately show ?thesis unfolding b(1) make_reliability_bin_def by simp
qed

lemma weighted_mean_bounds:
  fixes g :: "'a \<Rightarrow> rat"
  assumes "\<And>x. x \<in> set xs \<Longrightarrow> 0 \<le> g x" "\<And>x. x \<in> set xs \<Longrightarrow> g x \<le> m"
  shows "0 \<le> (\<Sum>x\<leftarrow>xs. g x * of_nat (c x))" "(\<Sum>x\<leftarrow>xs. g x * of_nat (c x)) \<le> m * of_nat (sum_list (map c xs))"
proof -
  show "0 \<le> (\<Sum>x\<leftarrow>xs. g x * of_nat (c x))" using assms(1) by (intro sum_list_nonneg) auto
  show "(\<Sum>x\<leftarrow>xs. g x * of_nat (c x)) \<le> m * of_nat (sum_list (map c xs))"
    using assms(2)
  proof (induction xs)
    case (Cons x xs)
    have "g x * of_nat (c x) \<le> m * of_nat (c x)" using Cons.prems by (intro mult_right_mono) auto
    with Cons show ?case by (simp add: algebra_simps add_mono)
  qed simp
qed

section \<open>Properties\<close>

text \<open>A reliability report accounts for every selected record and its numbers are sound: the bins hold all
  the records, each bin's mean confidence lies inside the bin's interval, the expected calibration
  error is at most the maximum one, and both and the Brier score lie in the unit interval.\<close>

theorem reliability_report_bounds:
  assumes "build_reliability_report logf records task n fp = Inr r" and "list_all record_ok records"
  shows "sum_list (map rb_count (rr_bins r)) = rr_samples r \<and> 0 < rr_samples r
    \<and> list_all (\<lambda>b. 1 \<le> rb_count b \<and> rb_lower_bound b \<le> rb_mean_confidence b
        \<and> rb_mean_confidence b \<le> rb_upper_bound b) (rr_bins r)
    \<and> 0 \<le> rr_expected_calibration_error r
    \<and> rr_expected_calibration_error r \<le> rr_maximum_calibration_error r \<and> rr_maximum_calibration_error r \<le> 1
    \<and> 0 \<le> rr_brier_score r \<and> rr_brier_score r \<le> 1"
proof -
  obtain f sel where sel: "2 \<le> n" "task_records records task f = Inr sel" "rr_samples r = length sel"
    "rr_bins r = reliability_bins n sel" "rr_brier_score r = mean brier_term sel"
    "rr_expected_calibration_error r = (\<Sum>b\<leftarrow>rr_bins r. rb_calibration_gap b * of_nat (rb_count b)) / of_nat (length sel)"
    "rr_maximum_calibration_error r = Max (set (map rb_calibration_gap (rr_bins r)))"
    using assms(1) by (auto simp: build_reliability_report_def rbind_eq_Inr Let_def not_less split: if_splits)
  have ne: "sel \<noteq> []" and ok: "list_all record_ok sel"
    using task_records_Inr [OF sel(2)] assms(2) by (auto simp: list_all_iff)
  note bin = reliability_bin_ok [OF sel(1) ok, folded sel(4)]
  have cnt: "sum_list (map rb_count (rr_bins r)) = length sel"
    unfolding sel(4) by (rule reliability_bins_counts [OF sel(1) ok])
  have bne: "rr_bins r \<noteq> []" using cnt ne by (cases "rr_bins r") auto
  have mx: "rb_calibration_gap b \<le> rr_maximum_calibration_error r" if "b \<in> set (rr_bins r)" for b
    unfolding sel(7) using that by (intro Max_ge) auto
  have "rr_maximum_calibration_error r \<in> set (map rb_calibration_gap (rr_bins r))"
    unfolding sel(7) using bne by (intro Max_in) auto
  then have "rr_maximum_calibration_error r \<le> 1" using bin by auto
  moreover have "0 \<le> rr_expected_calibration_error r"
    "rr_expected_calibration_error r \<le> rr_maximum_calibration_error r"
    using weighted_mean_bounds [of "rr_bins r" rb_calibration_gap "rr_maximum_calibration_error r" rb_count] bin mx ne
    unfolding sel(6) cnt by (auto simp: pos_divide_le_eq)
  moreover have "0 \<le> brier_term x \<and> brier_term x \<le> 1" if "x \<in> set sel" for x
  proof -
    have "0 \<le> cr_raw_confidence x \<and> cr_raw_confidence x \<le> 1" using that ok by (auto simp: list_all_iff record_ok_def)
    then have "\<bar>cr_raw_confidence x - outcome_value x\<bar> \<le> 1" by (auto simp: outcome_value_def)
    then show ?thesis by (simp add: brier_term_def abs_square_le_1)
  qed
  then have "0 \<le> rr_brier_score r" "rr_brier_score r \<le> 1"
    unfolding sel(5) using mean_bounds [OF ne, of 0 brier_term 1] by blast+
  ultimately show ?thesis using cnt sel(3) ne bin by (auto simp: list_all_iff)
qed

theorem reliability_report_bounds_witness:
  "\<exists>r. build_reliability_report (\<lambda>_. 0) sample_corpus ''remediation'' 10 None = Inr r
     \<and> rr_samples r = 4 \<and> rr_expected_calibration_error r \<le> rr_maximum_calibration_error r"
proof -
  have "is_ok (build_reliability_report (\<lambda>_. 0) sample_corpus ''remediation'' 10 None)" by code_simp
  then obtain r where r: "build_reliability_report (\<lambda>_. 0) sample_corpus ''remediation'' 10 None = Inr r"
    by (auto simp: is_ok_iff)
  then have "rr_samples r = 4"
    by (auto simp: build_reliability_report_def task_records_def rbind_eq_Inr Let_def sample_corpus_def
        sample_record_def split: if_splits)
  with reliability_report_bounds [OF r sample_corpus_ok] r show ?thesis by blast
qed

text \<open>A report drifts exactly when a limit is exceeded; a report never drifts against itself.\<close>

lemma calibration_drift_spec:
  assumes "calibration_drift limits reference current = Inr d"
  shows "dr_drifted d \<longleftrightarrow>
      rr_expected_calibration_error reference + dl_ece_increase limits < rr_expected_calibration_error current
    \<or> rr_brier_score reference + dl_brier_increase limits < rr_brier_score current
    \<or> dl_confidence_shift limits < \<bar>rr_mean_confidence current - rr_mean_confidence reference\<bar>"
  using assms by (auto simp: calibration_drift_def Let_def algebra_simps split: if_splits)

lemma calibration_drift_self: "\<exists>d. calibration_drift default_drift_limits r r = Inr d \<and> \<not> dr_drifted d \<and> dr_reasons d = []"
  by (simp add: calibration_drift_def default_drift_limits_def Let_def)

end
