(* ===== verification/Sandbox_Workflow.thy ===== *)
theory Sandbox_Workflow
  imports Mutation_Gateway
begin

text \<open>
  The recovery oracle for generated code fixes (\<open>src/src/sre_agent/sandbox_workflow.py\<close>) and the boundary
  every sandbox call passes (\<open>src/src/sre_agent/sandbox_gateway.py\<close>). A fix is judged by running one
  workload twice in an isolated job, unpatched and patched, and comparing the logs for the failure's
  signature. The world is the state of the Redis server and of the sandbox cluster together with the
  calls made and the audit events stored so far; the tool server, the database, the identifiers and
  the loss of a finished attempt are arguments. An activity is attempted as often as its retry policy
  says, and an attempt may be lost after it has had its effects.

  Shown here: a fix counts as resolved only when the unpatched run showed the failure and the patched
  one succeeded without showing it; every sandbox call names the operator's sandbox namespace and one
  of the two jobs; the polling loop ends within its deadline; what the verdict shows as evidence is bounded.
\<close>

section \<open>The sandbox gateway\<close>

record sandbox_gate =
  sg_incident_id :: string
  sg_organization_id :: string
  sg_cluster_id :: string
  sg_actor :: string

datatype sandbox_reject = SandboxScopeMismatch | SandboxStateUnavailable | SandboxInvalidKey

datatype sandbox_error = SandboxRejected sandbox_reject | SandboxAuditError | SandboxNoContext | SandboxToolRaised string

record sandbox_event =
  sx_cluster_id :: int
  sx_organization_id :: int
  sx_actor_id :: string
  sx_action_type :: string
  sx_resource_target :: pyval
  sx_outcome :: string
  sx_details :: string

record 'st sandbox_world =
  sw_server :: 'st
  sw_calls :: "(string \<times> pydict) list"
  sw_events :: "sandbox_event list"

text \<open>\<open>sb_str\<close> renders a response without structure, \<open>sb_uuid4\<close> is the text of a random identifier,
  \<open>sb_uuid5\<close> the name-based one, and \<open>sb_lost\<close> says that the completion of an attempt does not arrive.\<close>

record 'st sandbox_env =
  sb_rt :: runtime
  sb_store :: "'st state_store"
  sb_context :: "string \<Rightarrow> string \<Rightarrow> execution_context option"
  sb_call :: "string \<Rightarrow> pydict \<Rightarrow> 'st \<Rightarrow> (string, mcp_value) res \<times> 'st"
  sb_persist :: "sandbox_event \<Rightarrow> bool"
  sb_str :: "mcp_value \<Rightarrow> string"
  sb_uuid4 :: "'st \<Rightarrow> string \<times> 'st"
  sb_uuid5 :: "string \<Rightarrow> string"
  sb_sleep :: "int \<Rightarrow> 'st \<Rightarrow> 'st"
  sb_lost :: "'st \<Rightarrow> bool"

definition DEFAULT_SANDBOX_NAMESPACE :: string where
  "DEFAULT_SANDBOX_NAMESPACE = ''sentinel-sandbox''"

definition sandbox_namespace :: "runtime \<Rightarrow> string" where
  "sandbox_namespace rt =
     (let v = strip (getenv rt ''SANDBOX_NAMESPACE'' DEFAULT_SANDBOX_NAMESPACE)
      in if v = [] then DEFAULT_SANDBOX_NAMESPACE else v)"

definition sandbox_ttl :: "runtime \<Rightarrow> int" where
  "sandbox_ttl rt =
     (case parse_int (getenv rt ''SANDBOX_IDEMPOTENCY_TTL_SECONDS'' ''3600'') of Some n \<Rightarrow> max 1 n | None \<Rightarrow> 3600)"

definition sandbox_audit_event :: "runtime \<Rightarrow> sandbox_gate \<Rightarrow> string \<Rightarrow> pyval \<Rightarrow> string \<Rightarrow> pyval \<Rightarrow> sandbox_event option" where
  "sandbox_audit_event rt g tool job status detail =
     (case (parse_uuid (sg_cluster_id g), parse_uuid (sg_organization_id g)) of
        (Some cid, Some oid) \<Rightarrow>
          Some \<lparr>sx_cluster_id = cid, sx_organization_id = oid, sx_actor_id = sg_actor g,
            sx_action_type = ''SANDBOX_'' @ upper tool, sx_resource_target = job, sx_outcome = status,
            sx_details = json_dumps rt '', '' '': '' True
              (PDict [(''incident_id'', PStr (sg_incident_id g)), (''namespace'', PStr (sandbox_namespace rt)), (''detail'', detail)])\<rparr>
      | _ \<Rightarrow> None)"

text \<open>Storing an event: the new world, or none when it could not be stored.\<close>

definition persist_sandbox_event :: "'st sandbox_env \<Rightarrow> sandbox_event option \<Rightarrow> 'st sandbox_world \<Rightarrow> 'st sandbox_world option" where
  "persist_sandbox_event sb ev w =
     (case ev of
        None \<Rightarrow> None
      | Some e \<Rightarrow> (if sb_persist sb e then Some (w\<lparr>sw_events := sw_events w @ [e]\<rparr>) else None))"

definition on_server :: "('st \<Rightarrow> 'b \<times> 'st) \<Rightarrow> 'st sandbox_world \<Rightarrow> 'b \<times> 'st sandbox_world" where
  "on_server f w = (let (b, st) = f (sw_server w) in (b, w\<lparr>sw_server := st\<rparr>))"

definition call_sandbox :: "'st sandbox_env \<Rightarrow> string \<Rightarrow> pydict \<Rightarrow> 'st sandbox_world \<Rightarrow> (string, mcp_value) res \<times> 'st sandbox_world" where
  "call_sandbox sb tool args w =
     (let (r, w') = on_server (sb_call sb tool args) w in (r, w'\<lparr>sw_calls := sw_calls w' @ [(tool, args)]\<rparr>))"

text \<open>The call itself and its audit, after the claim.\<close>

definition call_and_audit :: "'st sandbox_env \<Rightarrow> sandbox_gate \<Rightarrow> string \<Rightarrow> pydict \<Rightarrow> 'st sandbox_world
    \<Rightarrow> (sandbox_error, pydict) res \<times> 'st sandbox_world" where
  "call_and_audit sb g tool args w =
     (let rt = sb_rt sb; job = py_dict_get args ''job_name'' (PStr [])
      in case call_sandbox sb tool args w of
           (Inl e, w1) \<Rightarrow>
             (Inl (SandboxToolRaised e),
              case persist_sandbox_event sb (sandbox_audit_event rt g tool job ''ERROR'' (PStr e)) w1 of Some w2 \<Rightarrow> w2 | None \<Rightarrow> w1)
         | (Inr response, w1) \<Rightarrow>
             (let payload = (case structured_payload response of Some p \<Rightarrow> p | None \<Rightarrow> [(''raw'', PStr (sb_str sb response))]);
                  status = upper (py_str rt (py_dict_get payload ''status'' (PStr ''UNKNOWN'')))
              in case persist_sandbox_event sb (sandbox_audit_event rt g tool (py_dict_get payload ''job_name'' job) status
                        (py_dict_get payload ''detail'' (PStr []))) w1 of
                   Some w2 \<Rightarrow> (Inr payload, w2)
                 | None \<Rightarrow> (Inl SandboxAuditError, w1)))"

definition authorize_and_provision_sandbox :: "'st sandbox_env \<Rightarrow> sandbox_gate \<Rightarrow> execution_context option \<Rightarrow> string \<Rightarrow> pydict
    \<Rightarrow> string \<Rightarrow> 'st sandbox_world \<Rightarrow> (sandbox_error, pydict) res \<times> 'st sandbox_world" where
  "authorize_and_provision_sandbox sb g ctx0 tool arguments key w =
     (case require_execution_context (sb_rt sb) ctx0 of
        Inl _ \<Rightarrow> (Inl SandboxNoContext, w)
      | Inr ctx \<Rightarrow>
          (if ec_organization_id ctx \<noteq> sg_organization_id g \<or> ec_cluster_id ctx \<noteq> sg_cluster_id g
           then (Inl (SandboxRejected SandboxScopeMismatch), w)
           else
             let args = py_dict_set arguments ''namespace'' (PStr (sandbox_namespace (sb_rt sb)));
                 (available, w1) = on_server (is_available (sb_store sb)) w
             in if \<not> available then (Inl (SandboxRejected SandboxStateUnavailable), w1)
                else if strip key = [] then (Inl (SandboxRejected SandboxInvalidKey), w1)
                else let (claimed, w2) = on_server (set_idempotency (sb_store sb) key (sandbox_ttl (sb_rt sb))) w1
                     in if claimed then call_and_audit sb g tool args w2
                        else let (available, w3) = on_server (is_available (sb_store sb)) w2
                             in if \<not> available then (Inl (SandboxRejected SandboxStateUnavailable), w3)
                                else (Inr [(''status'', PStr ''SKIPPED''),
                                           (''detail'', PStr ''Duplicate sandbox call short-circuited.'')], w3)))"

section \<open>Data of the workflow\<close>

record code_fix_input =
  cf_incident_id :: string
  cf_organization_id :: string
  cf_cluster_id :: string
  cf_runner_image :: string
  cf_baseline_command :: "string list"
  cf_candidate_command :: "string list"
  cf_patch :: string
  cf_failure_signature :: string
  cf_env :: "(string \<times> string) list"
  cf_active_deadline :: int

datatype sandbox_stage = BaselineStage | CandidateStage

fun stage_value :: "sandbox_stage \<Rightarrow> string" where
  "stage_value BaselineStage = ''baseline''"
| "stage_value CandidateStage = ''candidate''"

record sandbox_request =
  sq_incident_id :: string
  sq_organization_id :: string
  sq_cluster_id :: string
  sq_workflow_id :: string
  sq_stage :: sandbox_stage
  sq_image :: string
  sq_command :: "string list"
  sq_env :: "(string \<times> string) list"
  sq_active_deadline :: int

record sandbox_result =
  sr_job_name :: string
  sr_status :: string
  sr_logs :: string
  sr_detail :: string

datatype fix_status = RESOLVED_FIX | REGRESSED | INCONCLUSIVE

datatype verdict_detail =
  NoSignature | BaselineIncomplete string | BaselineNotReproduced | CandidateIncomplete string
  | StillFailing | DifferentFailure | SignatureGone

datatype excerpt_kind = SignatureExcerpt | TailExcerpt

record run_evidence =
  rv_job_name :: string
  rv_status :: string
  rv_signature_line :: "nat option"
  rv_start_line :: nat
  rv_excerpt :: "string list"
  rv_kind :: excerpt_kind
  rv_total_lines :: nat

record verdict_result =
  vr_status :: fix_status
  vr_detail :: verdict_detail
  vr_baseline :: "run_evidence option"
  vr_candidate :: "run_evidence option"

section \<open>The oracle\<close>

definition EVIDENCE_CONTEXT_LINES :: nat where "EVIDENCE_CONTEXT_LINES = 2"
definition EVIDENCE_TAIL_LINES :: nat where "EVIDENCE_TAIL_LINES = 6"
definition EVIDENCE_MAX_LINE_CHARS :: nat where "EVIDENCE_MAX_LINE_CHARS = 240"

text \<open>\<open>str.splitlines\<close>: the line boundaries are newline, carriage return (a pair counts once), vertical tab,
  form feed and the separators 28 to 30.\<close>

definition line_break :: "char \<Rightarrow> bool" where
  "line_break c = (let n = (of_char c :: nat) in n \<in> {10, 11, 12, 13, 28, 29, 30})"

fun splitlines_from :: "string \<Rightarrow> string \<Rightarrow> string list" where
  "splitlines_from acc [] = (if acc = [] then [] else [rev acc])"
| "splitlines_from acc (c # s) =
     (if line_break c
      then rev acc # splitlines_from [] (if c = CHR 0x0D \<and> s \<noteq> [] \<and> hd s = CHR 0x0A then tl s else s)
      else splitlines_from (c # acc) s)"

definition splitlines :: "string \<Rightarrow> string list" where
  "splitlines s = splitlines_from [] s"

fun first_index :: "('a \<Rightarrow> bool) \<Rightarrow> nat \<Rightarrow> 'a list \<Rightarrow> nat option" where
  "first_index p i [] = None"
| "first_index p i (x # xs) = (if p x then Some i else first_index p (Suc i) xs)"

definition run_evidence_of :: "string \<Rightarrow> sandbox_result \<Rightarrow> run_evidence" where
  "run_evidence_of failure_signature r =
     (let signature = strip failure_signature; lines = splitlines (sr_logs r);
          hit = first_index (\<lambda>line. signature \<noteq> [] \<and> contains signature line) 0 lines;
          (start, window, kind) =
            (case hit of
               Some i \<Rightarrow> (let start = i - EVIDENCE_CONTEXT_LINES
                          in (start, take (i + EVIDENCE_CONTEXT_LINES + 1 - start) (drop start lines), SignatureExcerpt))
             | None \<Rightarrow> (let start = length lines - EVIDENCE_TAIL_LINES in (start, drop start lines, TailExcerpt)))
      in \<lparr>rv_job_name = sr_job_name r, rv_status = sr_status r, rv_signature_line = map_option Suc hit,
          rv_start_line = Suc start, rv_excerpt = map (take EVIDENCE_MAX_LINE_CHARS) window, rv_kind = kind,
          rv_total_lines = length lines\<rparr>)"

definition finished :: "sandbox_result \<Rightarrow> bool" where
  "finished r = (sr_status r = ''SUCCEEDED'' \<or> sr_status r = ''FAILED'')"

definition judge :: "string \<Rightarrow> sandbox_result \<Rightarrow> sandbox_result \<Rightarrow> fix_status \<times> verdict_detail" where
  "judge failure_signature baseline candidate =
     (let signature = strip failure_signature
      in if signature = [] then (INCONCLUSIVE, NoSignature)
         else if \<not> finished baseline then (INCONCLUSIVE, BaselineIncomplete (sr_status baseline))
         else if \<not> contains signature (sr_logs baseline) then (INCONCLUSIVE, BaselineNotReproduced)
         else if \<not> finished candidate then (INCONCLUSIVE, CandidateIncomplete (sr_status candidate))
         else if contains signature (sr_logs candidate) then (REGRESSED, StillFailing)
         else if sr_status candidate \<noteq> ''SUCCEEDED'' then (REGRESSED, DifferentFailure)
         else (RESOLVED_FIX, SignatureGone))"

definition diff_logs :: "string \<Rightarrow> sandbox_result \<Rightarrow> sandbox_result \<Rightarrow> verdict_result" where
  "diff_logs failure_signature baseline candidate =
     (let (status, detail) = judge failure_signature baseline candidate
      in \<lparr>vr_status = status, vr_detail = detail, vr_baseline = Some (run_evidence_of failure_signature baseline),
          vr_candidate = Some (run_evidence_of failure_signature candidate)\<rparr>)"

definition compose_candidate_request :: "sandbox_request \<Rightarrow> string list \<Rightarrow> string \<Rightarrow> sandbox_request" where
  "compose_candidate_request baseline command patch =
     \<lparr>sq_incident_id = sq_incident_id baseline, sq_organization_id = sq_organization_id baseline,
      sq_cluster_id = sq_cluster_id baseline, sq_workflow_id = sq_workflow_id baseline, sq_stage = CandidateStage,
      sq_image = sq_image baseline, sq_command = command,
      sq_env = py_dict_set (sq_env baseline) ''SANDBOX_PATCH_DIFF'' patch,
      sq_active_deadline = sq_active_deadline baseline\<rparr>"

definition job_name :: "'st sandbox_env \<Rightarrow> string \<Rightarrow> sandbox_stage \<Rightarrow> string" where
  "job_name sb workflow_id stage =
     take 63 (''sbx-'' @ take 16 (sb_uuid5 sb (workflow_id @ '':'' @ stage_value stage)) @ ''-'' @ stage_value stage)"

section \<open>One stage\<close>

definition DEFAULT_POLL_INTERVAL_SECONDS :: int where "DEFAULT_POLL_INTERVAL_SECONDS = 5"

definition TERMINAL_JOB_STATUSES :: "string set" where
  "TERMINAL_JOB_STATUSES = {''SUCCEEDED'', ''FAILED'', ''NOT_FOUND'', ''ERROR'', ''REFUSED''}"

text \<open>A call under a key with a random suffix, so that it is never taken for a repetition.\<close>

definition fresh_call :: "'st sandbox_env \<Rightarrow> sandbox_gate \<Rightarrow> execution_context option \<Rightarrow> string \<Rightarrow> string \<Rightarrow> string
    \<Rightarrow> 'st sandbox_world \<Rightarrow> (sandbox_error, pydict) res \<times> 'st sandbox_world" where
  "fresh_call sb g ctx tool purpose job w =
     (let (suffix, w1) = on_server (sb_uuid4 sb) w
      in authorize_and_provision_sandbox sb g ctx tool [(''job_name'', PStr job)] (purpose @ job @ '':'' @ suffix) w1)"

function poll_sandbox :: "'st sandbox_env \<Rightarrow> sandbox_gate \<Rightarrow> execution_context option \<Rightarrow> string \<Rightarrow> int \<Rightarrow> int \<Rightarrow> string
    \<Rightarrow> 'st sandbox_world \<Rightarrow> (sandbox_error, string) res \<times> 'st sandbox_world" where
  "poll_sandbox sb g ctx job deadline elapsed status w =
     (if elapsed < deadline then
        case fresh_call sb g ctx ''sandbox_status'' ''sandbox-status:'' job w of
          (Inl e, w1) \<Rightarrow> (Inl e, w1)
        | (Inr result, w1) \<Rightarrow>
            (let status1 = upper (py_str (sb_rt sb) (py_dict_get result ''status'' (PStr ''UNKNOWN'')))
             in if status1 \<in> TERMINAL_JOB_STATUSES then (Inr status1, w1)
                else poll_sandbox sb g ctx job deadline (elapsed + DEFAULT_POLL_INTERVAL_SECONDS) status1
                       (w1\<lparr>sw_server := sb_sleep sb DEFAULT_POLL_INTERVAL_SECONDS (sw_server w1)\<rparr>))
      else (Inr status, w))"
  by pat_completeness auto
termination
  by (relation "measure (\<lambda>(_, _, _, _, deadline, elapsed, _, _). nat (deadline - elapsed))")
     (auto simp: DEFAULT_POLL_INTERVAL_SECONDS_def)

declare poll_sandbox.simps [simp del]

definition stage_gate :: "sandbox_request \<Rightarrow> sandbox_gate" where
  "stage_gate q =
     \<lparr>sg_incident_id = sq_incident_id q, sg_organization_id = sq_organization_id q, sg_cluster_id = sq_cluster_id q,
      sg_actor = ''sandbox-workflow''\<rparr>"

definition provision_arguments :: "sandbox_request \<Rightarrow> string \<Rightarrow> pydict" where
  "provision_arguments q job =
     [(''image'', PStr (sq_image q)), (''command'', PList (map PStr (sq_command q))), (''job_name'', PStr job),
      (''env'', PDict (map (\<lambda>(k, v). (k, PStr v)) (sq_env q))), (''active_deadline_seconds'', PInt (sq_active_deadline q)),
      (''dry_run'', PBool False)]"

text \<open>What follows a successful provisioning: poll, read the logs, tear down.\<close>

definition observe_stage :: "'st sandbox_env \<Rightarrow> sandbox_gate \<Rightarrow> execution_context option \<Rightarrow> sandbox_request \<Rightarrow> string
    \<Rightarrow> 'st sandbox_world \<Rightarrow> (sandbox_error, sandbox_result) res \<times> 'st sandbox_world" where
  "observe_stage sb g ctx q job w =
     (case poll_sandbox sb g ctx job (sq_active_deadline q + 60) 0 ''PENDING'' w of
        (Inl e, w1) \<Rightarrow> (Inl e, w1)
      | (Inr status, w1) \<Rightarrow>
          (case (if status = ''SUCCEEDED'' \<or> status = ''FAILED''
                 then (case fresh_call sb g ctx ''sandbox_logs'' ''sandbox-logs:'' job w1 of
                         (Inl e, w2) \<Rightarrow> (Inl e, w2)
                       | (Inr result, w2) \<Rightarrow> (Inr (py_str (sb_rt sb) (py_dict_get result ''logs'' (PStr []))), w2))
                 else (Inr [], w1)) of
             (Inl e, w2) \<Rightarrow> (Inl e, w2)
           | (Inr logs, w2) \<Rightarrow>
               (Inr \<lparr>sr_job_name = job, sr_status = status, sr_logs = logs, sr_detail = []\<rparr>,
                snd (fresh_call sb g ctx ''sandbox_teardown'' ''sandbox-teardown:'' job w2))))"

definition run_sandbox_stage :: "'st sandbox_env \<Rightarrow> sandbox_request \<Rightarrow> 'st sandbox_world
    \<Rightarrow> (sandbox_error, sandbox_result) res \<times> 'st sandbox_world" where
  "run_sandbox_stage sb q w =
     (case sb_context sb (sq_organization_id q) (sq_cluster_id q) of
        None \<Rightarrow> (Inl SandboxNoContext, w)
      | Some ctx \<Rightarrow>
          (let g = stage_gate q; job = job_name sb (sq_workflow_id q) (sq_stage q)
           in case authorize_and_provision_sandbox sb g (Some ctx) ''sandbox_provision'' (provision_arguments q job)
                     (''sandbox-provision:'' @ job) w of
                (Inl e, w1) \<Rightarrow> (Inl e, w1)
              | (Inr provision, w1) \<Rightarrow>
                  (if upper (py_str (sb_rt sb) (py_dict_get provision ''status'' PNone)) \<notin> {''OK'', ''SKIPPED''}
                   then (Inr \<lparr>sr_job_name = job, sr_status = ''REFUSED'', sr_logs = [],
                          sr_detail = py_str (sb_rt sb) (py_or (py_dict_get provision ''reason'' PNone) (PDict provision))\<rparr>, w1)
                   else observe_stage sb g (Some ctx) q job w1)))"

section \<open>The workflow\<close>

definition RETRY_POLICY_ATTEMPTS :: nat where "RETRY_POLICY_ATTEMPTS = 3"

text \<open>An activity under its retry policy: none when every attempt failed or was lost.\<close>

fun execute_activity :: "'st sandbox_env \<Rightarrow> nat \<Rightarrow> ('st sandbox_world \<Rightarrow> ('e, 'a) res \<times> 'st sandbox_world)
    \<Rightarrow> 'st sandbox_world \<Rightarrow> 'a option \<times> 'st sandbox_world" where
  "execute_activity sb 0 act w = (None, w)"
| "execute_activity sb (Suc n) act w =
     (case act w of
        (Inr x, w1) \<Rightarrow> (if sb_lost sb (sw_server w1) then execute_activity sb n act w1 else (Some x, w1))
      | (Inl _, w1) \<Rightarrow> execute_activity sb n act w1)"

definition baseline_request :: "code_fix_input \<Rightarrow> string \<Rightarrow> sandbox_request" where
  "baseline_request p workflow_id =
     \<lparr>sq_incident_id = cf_incident_id p, sq_organization_id = cf_organization_id p, sq_cluster_id = cf_cluster_id p,
      sq_workflow_id = workflow_id, sq_stage = BaselineStage, sq_image = cf_runner_image p,
      sq_command = cf_baseline_command p, sq_env = cf_env p, sq_active_deadline = cf_active_deadline p\<rparr>"

definition apply_patch :: "code_fix_input \<Rightarrow> string \<Rightarrow> sandbox_request" where
  "apply_patch p workflow_id =
     compose_candidate_request (baseline_request p workflow_id) (cf_candidate_command p) (cf_patch p)"

text \<open>Teardown of both jobs; nothing it does is raised.\<close>

definition cleanup :: "'st sandbox_env \<Rightarrow> code_fix_input \<Rightarrow> string \<Rightarrow> 'st sandbox_world \<Rightarrow> (sandbox_error, unit) res \<times> 'st sandbox_world" where
  "cleanup sb p workflow_id w =
     (case sb_context sb (cf_organization_id p) (cf_cluster_id p) of
        None \<Rightarrow> (Inr (), w)
      | Some ctx \<Rightarrow>
          (let g = stage_gate (baseline_request p workflow_id);
               tear = (\<lambda>stage w. snd (fresh_call sb g (Some ctx) ''sandbox_teardown'' ''sandbox-cleanup:'' (job_name sb workflow_id stage) w))
           in (Inr (), tear CandidateStage (tear BaselineStage w))))"

text \<open>The body of the \<open>try\<close> block: none when an activity gave up. Posting the verdict writes to the
  timeline, which swallows its errors.\<close>

definition verification_body :: "'st sandbox_env \<Rightarrow> code_fix_input \<Rightarrow> string \<Rightarrow> 'st sandbox_world \<Rightarrow> verdict_result option \<times> 'st sandbox_world" where
  "verification_body sb p workflow_id w =
     (case execute_activity sb RETRY_POLICY_ATTEMPTS (run_sandbox_stage sb (baseline_request p workflow_id)) w of
        (None, w1) \<Rightarrow> (None, w1)
      | (Some baseline, w1) \<Rightarrow>
          (if \<not> finished baseline
           then (Some \<lparr>vr_status = INCONCLUSIVE, vr_detail = BaselineIncomplete (sr_status baseline),
                   vr_baseline = Some (run_evidence_of (cf_failure_signature p) baseline), vr_candidate = None\<rparr>, w1)
           else case execute_activity sb RETRY_POLICY_ATTEMPTS (run_sandbox_stage sb (apply_patch p workflow_id)) w1 of
                  (None, w2) \<Rightarrow> (None, w2)
                | (Some candidate, w2) \<Rightarrow> (Some (diff_logs (cf_failure_signature p) baseline candidate), w2)))"

definition code_fix_verification :: "'st sandbox_env \<Rightarrow> code_fix_input \<Rightarrow> string \<Rightarrow> 'st sandbox_world \<Rightarrow> verdict_result option \<times> 'st sandbox_world" where
  "code_fix_verification sb p workflow_id w =
     (let (verdict, w1) = verification_body sb p workflow_id w;
          (done, w2) = execute_activity sb RETRY_POLICY_ATTEMPTS (cleanup sb p workflow_id) w1
      in (if done = None then None else verdict, w2))"

section \<open>Lemmas\<close>

text \<open>What holds of a world and survives each server operation and each confined call survives the workflow.
  A call is confined when it names the sandbox namespace.\<close>

definition confined_call :: "runtime \<Rightarrow> string set \<Rightarrow> string \<times> pydict \<Rightarrow> bool" where
  "confined_call rt jobs c =
     (fst c \<in> {''sandbox_provision'', ''sandbox_status'', ''sandbox_logs'', ''sandbox_teardown''}
      \<and> py_dict_get (snd c) ''namespace'' PNone = PStr (sandbox_namespace rt)
      \<and> (\<exists>j \<in> jobs. py_dict_get (snd c) ''job_name'' PNone = PStr j))"

text \<open>The calls a step adds, all of them confined.\<close>

definition adds_confined :: "runtime \<Rightarrow> string set \<Rightarrow> 'st sandbox_world \<Rightarrow> 'st sandbox_world \<Rightarrow> bool" where
  "adds_confined rt jobs w w' = (\<exists>cs. sw_calls w' = sw_calls w @ cs \<and> list_all (confined_call rt jobs) cs)"

lemma adds_confined_refl [simp, intro]: "adds_confined rt jobs w w"
  by (simp add: adds_confined_def)

lemma adds_confined_same: "sw_calls w' = sw_calls w \<Longrightarrow> adds_confined rt jobs w w'"
  by (simp add: adds_confined_def)

lemma adds_confined_trans [trans]: "adds_confined rt jobs w w' \<Longrightarrow> adds_confined rt jobs w' w'' \<Longrightarrow> adds_confined rt jobs w w''"
  by (fastforce simp: adds_confined_def)

lemma confined_call_mono: "confined_call rt jobs c \<Longrightarrow> jobs \<subseteq> jobs' \<Longrightarrow> confined_call rt jobs' c"
  unfolding confined_call_def by blast

lemma adds_confined_mono: "adds_confined rt jobs w w' \<Longrightarrow> jobs \<subseteq> jobs' \<Longrightarrow> adds_confined rt jobs' w w'"
  by (auto simp: adds_confined_def list_all_iff intro: confined_call_mono)

lemma on_server_calls: "on_server f w = (b, w') \<Longrightarrow> sw_calls w' = sw_calls w"
  by (auto simp: on_server_def split: prod.splits)

lemma persist_calls: "persist_sandbox_event sb ev w = Some w' \<Longrightarrow> sw_calls w' = sw_calls w"
  by (auto simp: persist_sandbox_event_def split: option.splits if_splits)

lemma call_and_audit_calls: "call_and_audit sb g tool args w = (r, w') \<Longrightarrow> sw_calls w' = sw_calls w @ [(tool, args)]"
  by (auto simp: call_and_audit_def call_sandbox_def Let_def dest!: on_server_calls persist_calls
      split: prod.splits sum.splits option.splits)


lemma authorize_adds:
  assumes "authorize_and_provision_sandbox sb g ctx tool args key w = (r, w')"
  shows "sw_calls w' = sw_calls w
    \<or> sw_calls w' = sw_calls w @ [(tool, py_dict_set args ''namespace'' (PStr (sandbox_namespace (sb_rt sb))))]"
  using assms
  by (auto simp: authorize_and_provision_sandbox_def Let_def dest!: on_server_calls call_and_audit_calls
      split: sum.splits if_splits prod.splits)

lemma authorize_confined:
  assumes "authorize_and_provision_sandbox sb g ctx tool args key w = (r, w')"
    and "tool \<in> {''sandbox_provision'', ''sandbox_status'', ''sandbox_logs'', ''sandbox_teardown''}"
    and "map_of args ''job_name'' = Some (PStr j)"
  shows "adds_confined (sb_rt sb) {j} w w'"
proof -
  have "confined_call (sb_rt sb) {j} (tool, py_dict_set args ''namespace'' (PStr (sandbox_namespace (sb_rt sb))))"
    using assms(2,3) by (simp add: confined_call_def py_dict_get_set) (simp add: py_dict_get_def)
  then show ?thesis using authorize_adds [OF assms(1)] by (auto simp: adds_confined_def)
qed

lemma fresh_call_confined:
  assumes "fresh_call sb g ctx tool purpose j w = (r, w')"
    and "tool \<in> {''sandbox_provision'', ''sandbox_status'', ''sandbox_logs'', ''sandbox_teardown''}"
  shows "adds_confined (sb_rt sb) {j} w w'"
proof -
  obtain suffix w1 where s: "on_server (sb_uuid4 sb) w = (suffix, w1)" by (metis prod.collapse)
  then have "adds_confined (sb_rt sb) {j} w1 w'"
    using assms by (intro authorize_confined [where tool = tool and args = "[(''job_name'', PStr j)]"]) (auto simp: fresh_call_def)
  then show ?thesis using on_server_calls [OF s] by (simp add: adds_confined_def)
qed

lemma fresh_call_length: "fresh_call sb g ctx tool purpose j w = (r, w') \<Longrightarrow> length (sw_calls w') \<le> Suc (length (sw_calls w))"
  by (auto simp: fresh_call_def dest!: authorize_adds on_server_calls split: prod.splits)

lemma poll_confined:
  "poll_sandbox sb g ctx j deadline elapsed status w = (r, w') \<Longrightarrow> adds_confined (sb_rt sb) {j} w w'"
proof (induction sb g ctx j deadline elapsed status w rule: poll_sandbox.induct)
  case (1 sb g ctx j deadline elapsed status w)
  obtain r1 w1 where f: "fresh_call sb g ctx ''sandbox_status'' ''sandbox-status:'' j w = (r1, w1)" by (metis prod.collapse)
  have a: "adds_confined (sb_rt sb) {j} w w1" by (rule fresh_call_confined [OF f]) simp
  show ?case
  proof (cases "elapsed < deadline \<and> (\<exists>result. r1 = Inr result
      \<and> upper (py_str (sb_rt sb) (py_dict_get result ''status'' (PStr ''UNKNOWN''))) \<notin> TERMINAL_JOB_STATUSES)")
    case True
    then obtain result where t: "elapsed < deadline" "r1 = Inr result"
      "upper (py_str (sb_rt sb) (py_dict_get result ''status'' (PStr ''UNKNOWN''))) \<notin> TERMINAL_JOB_STATUSES" by blast
    let ?w2 = "w1\<lparr>sw_server := sb_sleep sb DEFAULT_POLL_INTERVAL_SECONDS (sw_server w1)\<rparr>"
    have "adds_confined (sb_rt sb) {j} ?w2 w'"
      using "1.IH" [OF t(1) f [symmetric] t(2) refl t(3)] "1.prems" f t
      by (subst (asm) (2) poll_sandbox.simps) (simp add: Let_def)
    then show ?thesis using a by (auto simp: adds_confined_def)
  next
    case False
    then show ?thesis using "1.prems" f a
      by (subst (asm) poll_sandbox.simps) (auto simp: Let_def split: if_splits sum.splits)
  qed
qed

lemma observe_stage_confined:
  assumes "observe_stage sb g ctx q j w = (r, w')"
  shows "adds_confined (sb_rt sb) {j} w w'"
proof -
  obtain r1 w1 where p: "poll_sandbox sb g ctx j (sq_active_deadline q + 60) 0 ''PENDING'' w = (r1, w1)" by (metis prod.collapse)
  obtain r2 w2 where l: "fresh_call sb g ctx ''sandbox_logs'' ''sandbox-logs:'' j w1 = (r2, w2)" by (metis prod.collapse)
  have 1: "adds_confined (sb_rt sb) {j} w w1" by (rule poll_confined [OF p])
  have 2: "adds_confined (sb_rt sb) {j} w w2"
    by (rule adds_confined_trans [OF 1]) (rule fresh_call_confined [OF l], simp)
  have 3: "adds_confined (sb_rt sb) {j} w (snd (fresh_call sb g ctx ''sandbox_teardown'' ''sandbox-teardown:'' j v))"
    if "adds_confined (sb_rt sb) {j} w v" for v
    by (rule adds_confined_trans [OF that], rule fresh_call_confined [OF prod.collapse [symmetric]]) simp
  show ?thesis
    using assms p l 1 2 3 by (auto simp: observe_stage_def split: sum.splits if_splits)
qed

lemma run_stage_confined:
  assumes "run_sandbox_stage sb q w = (r, w')"
  shows "adds_confined (sb_rt sb) {job_name sb (sq_workflow_id q) (sq_stage q)} w w'"
proof (cases "sb_context sb (sq_organization_id q) (sq_cluster_id q)")
  case None
  then show ?thesis using assms by (simp add: run_sandbox_stage_def)
next
  case (Some ctx)
  let ?j = "job_name sb (sq_workflow_id q) (sq_stage q)"
  obtain r1 w1 where p: "authorize_and_provision_sandbox sb (stage_gate q) (Some ctx) ''sandbox_provision'' (provision_arguments q ?j)
      (''sandbox-provision:'' @ ?j) w = (r1, w1)" by (metis prod.collapse)
  have 1: "adds_confined (sb_rt sb) {?j} w w1"
    by (rule authorize_confined [OF p]) (simp_all add: provision_arguments_def)
  show ?thesis
    using assms Some p 1 adds_confined_trans [OF 1 observe_stage_confined]
    by (auto simp: run_sandbox_stage_def Let_def split: sum.splits if_splits)
qed

lemma execute_activity_confined:
  assumes "\<And>w r w'. act w = (r, w') \<Longrightarrow> adds_confined rt jobs w w'"
  shows "execute_activity sb n act w = (x, w') \<Longrightarrow> adds_confined rt jobs w w'"
proof (induction n arbitrary: w)
  case (Suc n)
  obtain r1 w1 where a: "act w = (r1, w1)" by (metis prod.collapse)
  show ?case using Suc assms [OF a] a by (auto split: sum.splits if_splits intro: adds_confined_trans)
qed simp

definition both_jobs :: "'st sandbox_env \<Rightarrow> string \<Rightarrow> string set" where
  "both_jobs sb workflow_id = {job_name sb workflow_id BaselineStage, job_name sb workflow_id CandidateStage}"

lemma cleanup_confined: "cleanup sb p workflow_id w = (r, w') \<Longrightarrow> adds_confined (sb_rt sb) (both_jobs sb workflow_id) w w'"
proof -
  have tear: "adds_confined (sb_rt sb) (both_jobs sb workflow_id) v
      (snd (fresh_call sb g ctx ''sandbox_teardown'' ''sandbox-cleanup:'' (job_name sb workflow_id stage) v))" for g ctx stage v
    by (rule adds_confined_mono [OF fresh_call_confined [OF prod.collapse [symmetric]]])
       (cases stage; simp add: both_jobs_def)+
  show "cleanup sb p workflow_id w = (r, w') \<Longrightarrow> ?thesis"
    by (auto simp: cleanup_def Let_def intro: tear adds_confined_trans [OF tear tear] split: option.splits)
qed


lemma verification_confined: "adds_confined (sb_rt sb) (both_jobs sb workflow_id) w (snd (code_fix_verification sb p workflow_id w))"
proof -
  let ?jobs = "both_jobs sb workflow_id"
  have stage: "adds_confined (sb_rt sb) ?jobs v v'"
    if "execute_activity sb n (run_sandbox_stage sb q) v = (x, v')" "sq_workflow_id q = workflow_id" for n q v x v'
  proof (rule execute_activity_confined [OF _ that(1)])
    fix u r u' assume "run_sandbox_stage sb q u = (r, u')"
    from run_stage_confined [OF this] that(2) show "adds_confined (sb_rt sb) ?jobs u u'"
      by (cases "sq_stage q") (auto simp: both_jobs_def intro: adds_confined_mono)
  qed
  obtain v w1 where b: "verification_body sb p workflow_id w = (v, w1)" by (metis prod.collapse)
  obtain d w2 where c: "execute_activity sb RETRY_POLICY_ATTEMPTS (cleanup sb p workflow_id) w1 = (d, w2)" by (metis prod.collapse)
  have wid: "sq_workflow_id (baseline_request p workflow_id) = workflow_id" "sq_workflow_id (apply_patch p workflow_id) = workflow_id"
    by (simp_all add: baseline_request_def apply_patch_def compose_candidate_request_def)
  have 1: "adds_confined (sb_rt sb) ?jobs w w1"
    using b by (auto simp: verification_body_def dest!: stage [OF _ wid(1)] stage [OF _ wid(2)]
        intro: adds_confined_trans split: prod.splits option.splits if_splits)
  have 2: "adds_confined (sb_rt sb) ?jobs w1 w2"
    by (rule execute_activity_confined [OF cleanup_confined c])
  show ?thesis using adds_confined_trans [OF 1 2] b c by (simp add: code_fix_verification_def)
qed

lemma execute_activity_Some:
  "execute_activity sb n act w = (Some x, w') \<Longrightarrow> \<exists>v v'. act v = (Inr x, v')"
  by (induction n arbitrary: w) (auto split: prod.splits sum.splits if_splits)

lemma judge_resolved:
  "fst (judge sig baseline candidate) = RESOLVED_FIX \<longleftrightarrow>
     strip sig \<noteq> [] \<and> finished baseline \<and> contains (strip sig) (sr_logs baseline)
     \<and> sr_status candidate = ''SUCCEEDED'' \<and> \<not> contains (strip sig) (sr_logs candidate)"
  by (auto simp: judge_def Let_def finished_def)

lemma diff_logs_status: "vr_status (diff_logs sig baseline candidate) = fst (judge sig baseline candidate)"
  by (simp add: diff_logs_def split: prod.split)

section \<open>Properties\<close>

text \<open>A fix counts as resolved only on evidence. If the workflow answers that a fix is resolved, then the
  sandbox ran the original code to its end and its logs showed the failure's signature, which is not
  blank, and then ran the candidate command with exactly the given patch in its environment, which
  succeeded and whose logs, as they were read, do not show the signature.\<close>

lemma resolved_fix_runs:
  assumes "code_fix_verification sb p workflow_id w = (Some v, w')" "vr_status v = RESOLVED_FIX"
  shows "\<exists>baseline candidate w0 w1 w2 w3.
      run_sandbox_stage sb (baseline_request p workflow_id) w0 = (Inr baseline, w1)
    \<and> run_sandbox_stage sb (apply_patch p workflow_id) w2 = (Inr candidate, w3)
    \<and> sq_command (apply_patch p workflow_id) = cf_candidate_command p
    \<and> map_of (sq_env (apply_patch p workflow_id)) ''SANDBOX_PATCH_DIFF'' = Some (cf_patch p)
    \<and> strip (cf_failure_signature p) \<noteq> [] \<and> finished baseline
    \<and> contains (strip (cf_failure_signature p)) (sr_logs baseline)
    \<and> sr_status candidate = ''SUCCEEDED'' \<and> \<not> contains (strip (cf_failure_signature p)) (sr_logs candidate)"
proof -
  obtain w1 where b: "verification_body sb p workflow_id w = (Some v, w1)"
    using assms(1) by (auto simp: code_fix_verification_def split: prod.splits if_splits)
  then obtain baseline u candidate where
    s: "execute_activity sb RETRY_POLICY_ATTEMPTS (run_sandbox_stage sb (baseline_request p workflow_id)) w = (Some baseline, u)"
      "execute_activity sb RETRY_POLICY_ATTEMPTS (run_sandbox_stage sb (apply_patch p workflow_id)) u = (Some candidate, w1)"
    and v: "v = diff_logs (cf_failure_signature p) baseline candidate"
    using assms(2) by (auto simp: verification_body_def split: prod.splits option.splits if_splits)
  have "fst (judge (cf_failure_signature p) baseline candidate) = RESOLVED_FIX"
    using assms(2) by (simp add: v diff_logs_status)
  moreover have "map_of (sq_env (apply_patch p workflow_id)) ''SANDBOX_PATCH_DIFF'' = Some (cf_patch p)"
    "sq_command (apply_patch p workflow_id) = cf_candidate_command p"
    by (simp_all add: apply_patch_def compose_candidate_request_def map_of_py_dict_set)
  ultimately show ?thesis
    using execute_activity_Some [OF s(1)] execute_activity_Some [OF s(2)] by (auto simp: judge_resolved)
qed

text \<open>C35. Sandbox calls stay in the sandbox. Whatever the tool server answers and however often activities are
  retried, every call a verification makes is one of the four sandbox tools, names the operator's
  sandbox namespace, whatever the caller had put there, and one of the two jobs of this workflow.\<close>

theorem sandbox_calls_confined:
  "\<exists>cs. sw_calls (snd (code_fix_verification sb p workflow_id w)) = sw_calls w @ cs
     \<and> list_all (confined_call (sb_rt sb) (both_jobs sb workflow_id)) cs"
  using verification_confined [of sb workflow_id w p] by (auto simp: adds_confined_def list_all_iff)

text \<open>The excerpt of a run shown with a verdict is bounded, and a reported line is the first that shows the
  signature.\<close>

lemma first_index_Some:
  "first_index p i xs = Some n \<Longrightarrow> i \<le> n \<and> n - i < length xs \<and> p (xs ! (n - i)) \<and> (\<forall>k < n - i. \<not> p (xs ! k))"
proof (induction xs arbitrary: i)
  case (Cons x xs)
  show ?case
  proof (cases "p x")
    case False
    then have "Suc i \<le> n" "n - Suc i < length xs" "p (xs ! (n - Suc i))" "\<forall>k < n - Suc i. \<not> p (xs ! k)"
      using Cons by auto
    then show ?thesis using False by (auto simp: nth_Cons' Suc_diff_le less_diff_conv)
  qed (use Cons.prems in auto)
qed simp

theorem run_evidence_bounded:
  "length (rv_excerpt (run_evidence_of sig r)) \<le> EVIDENCE_TAIL_LINES
    \<and> list_all (\<lambda>line. length line \<le> EVIDENCE_MAX_LINE_CHARS) (rv_excerpt (run_evidence_of sig r))"
  by (auto simp: run_evidence_of_def Let_def list_all_iff EVIDENCE_TAIL_LINES_def EVIDENCE_CONTEXT_LINES_def split: option.splits)

lemma reported_line_shows_signature:
  assumes "rv_signature_line (run_evidence_of sig r) = Some n"
  shows "0 < n \<and> n \<le> length (splitlines (sr_logs r)) \<and> contains (strip sig) (splitlines (sr_logs r) ! (n - 1))"
  using assms
  by (auto simp: run_evidence_of_def Let_def dest!: first_index_Some split: option.splits prod.splits)


lemma poll_calls_bounded:
  "poll_sandbox sb g ctx j deadline elapsed status w = (r, w') \<Longrightarrow>
     length (sw_calls w') \<le> length (sw_calls w) + nat ((deadline - elapsed + 4) div 5)"
proof (induction sb g ctx j deadline elapsed status w rule: poll_sandbox.induct)
  case (1 sb g ctx j deadline elapsed status w)
  obtain r1 w1 where f: "fresh_call sb g ctx ''sandbox_status'' ''sandbox-status:'' j w = (r1, w1)" by (metis prod.collapse)
  have a: "length (sw_calls w1) \<le> Suc (length (sw_calls w))" by (rule fresh_call_length [OF f])
  show ?case
  proof (cases "elapsed < deadline \<and> (\<exists>result. r1 = Inr result
      \<and> upper (py_str (sb_rt sb) (py_dict_get result ''status'' (PStr ''UNKNOWN''))) \<notin> TERMINAL_JOB_STATUSES)")
    case True
    then obtain result where t: "elapsed < deadline" "r1 = Inr result"
      "upper (py_str (sb_rt sb) (py_dict_get result ''status'' (PStr ''UNKNOWN''))) \<notin> TERMINAL_JOB_STATUSES" by blast
    have "length (sw_calls w') \<le> length (sw_calls w1) + nat ((deadline - (elapsed + DEFAULT_POLL_INTERVAL_SECONDS) + 4) div 5)"
      using "1.IH" [OF t(1) f [symmetric] t(2) refl t(3)] "1.prems" f t
      by (subst (asm) (2) poll_sandbox.simps) (simp add: Let_def)
    then show ?thesis using a t(1) by (simp add: DEFAULT_POLL_INTERVAL_SECONDS_def)
  next
    case False
    have "elapsed < deadline \<Longrightarrow> 1 \<le> nat ((deadline - elapsed + 4) div 5)" by simp
    then show ?thesis using False "1.prems" f a
      by (subst (asm) poll_sandbox.simps) (auto simp: Let_def split: if_splits sum.splits)
  qed
qed


lemma observe_stage_calls_bounded:
  assumes "observe_stage sb g ctx q j w = (r, w')"
  shows "length (sw_calls w') \<le> length (sw_calls w) + nat ((sq_active_deadline q + 64) div 5) + 2"
proof -
  obtain r1 w1 where p: "poll_sandbox sb g ctx j (sq_active_deadline q + 60) 0 ''PENDING'' w = (r1, w1)" by (metis prod.collapse)
  obtain r2 w2 where l: "fresh_call sb g ctx ''sandbox_logs'' ''sandbox-logs:'' j w1 = (r2, w2)" by (metis prod.collapse)
  have 1: "length (sw_calls w1) \<le> length (sw_calls w) + nat ((sq_active_deadline q + 64) div 5)"
    using poll_calls_bounded [OF p] by simp
  have 2: "length (sw_calls w2) \<le> Suc (length (sw_calls w1))" by (rule fresh_call_length [OF l])
  have 3: "length (sw_calls (snd (fresh_call sb g ctx tool purpose j v))) \<le> Suc (length (sw_calls v))" for tool purpose v
    by (rule fresh_call_length [OF prod.collapse [symmetric]])
  show ?thesis
    using assms p l 1 2 3 [of "''sandbox_teardown''" "''sandbox-teardown:''" w1] 3 [of "''sandbox_teardown''" "''sandbox-teardown:''" w2]
    by (auto simp: observe_stage_def split: sum.splits if_splits)
qed

text \<open>A stage ends and its traffic is bounded: running one stage makes at most one call for every five
  seconds of the job's deadline and the minute of grace, besides provisioning, reading the logs and
  the teardown.\<close>

theorem stage_calls_bounded:
  "length (sw_calls (snd (run_sandbox_stage sb q w))) \<le> length (sw_calls w) + nat ((sq_active_deadline q + 64) div 5) + 3"
proof (cases "sb_context sb (sq_organization_id q) (sq_cluster_id q)")
  case None
  then show ?thesis by (simp add: run_sandbox_stage_def)
next
  case (Some ctx)
  let ?j = "job_name sb (sq_workflow_id q) (sq_stage q)"
  obtain r1 w1 where p: "authorize_and_provision_sandbox sb (stage_gate q) (Some ctx) ''sandbox_provision'' (provision_arguments q ?j)
      (''sandbox-provision:'' @ ?j) w = (r1, w1)" by (metis prod.collapse)
  have 1: "length (sw_calls w1) \<le> Suc (length (sw_calls w))" using authorize_adds [OF p] by auto
  have "length (sw_calls (snd (observe_stage sb (stage_gate q) (Some ctx) q ?j w1)))
      \<le> length (sw_calls w1) + nat ((sq_active_deadline q + 64) div 5) + 2"
    by (rule observe_stage_calls_bounded [OF prod.collapse [symmetric]])
  then show ?thesis using 1 Some p by (auto simp: run_sandbox_stage_def Let_def split: sum.splits)
qed

section \<open>A sample sandbox\<close>

text \<open>A tool server whose jobs succeed at once; \<open>candidate_logs\<close> is its answer to reading the patched run.\<close>

definition sample_sandbox_call :: "pydict \<Rightarrow> string \<Rightarrow> pydict \<Rightarrow> 'st \<Rightarrow> (string, mcp_value) res \<times> 'st" where
  "sample_sandbox_call candidate_logs tool args st =
     (Inr (MVal (PDict
        (if tool = ''sandbox_status'' then [(''status'', PStr ''SUCCEEDED'')]
         else if tool = ''sandbox_logs'' then
           (if py_dict_get args ''job_name'' PNone = PStr ''sbx-d-baseline'' then [(''status'', PStr ''OK''), (''logs'', PStr ''a boom b'')]
            else candidate_logs)
         else [(''status'', PStr ''OK'')]))), st)"

definition sample_sandbox :: "pydict \<Rightarrow> mem_server sandbox_env" where
  "sample_sandbox candidate_logs =
     \<lparr>sb_rt = no_runtime, sb_store = mem_store, sb_context = \<lambda>_ _. Some sample_context,
      sb_call = sample_sandbox_call candidate_logs, sb_persist = \<lambda>_. True, sb_str = \<lambda>_. [], sb_uuid4 = \<lambda>st. (''u'', st),
      sb_uuid5 = \<lambda>_. ''d'', sb_sleep = \<lambda>_ st. st, sb_lost = \<lambda>_. False\<rparr>"

definition sample_fix :: code_fix_input where
  "sample_fix = \<lparr>cf_incident_id = ''i'', cf_organization_id = sample_uuid, cf_cluster_id = sample_uuid, cf_runner_image = ''img'',
     cf_baseline_command = [''t''], cf_candidate_command = [''t''], cf_patch = ''diff'', cf_failure_signature = ''boom'', cf_env = [],
     cf_active_deadline = 300\<rparr>"

definition fixed_run :: "verdict_result option \<times> mem_server sandbox_world" where
  "fixed_run = code_fix_verification (sample_sandbox [(''status'', PStr ''OK''), (''logs'', PStr ''fine'')]) sample_fix ''wf-verify-1''
     \<lparr>sw_server = empty_server, sw_calls = [], sw_events = []\<rparr>"

lemma fixed_run_resolved: "map_option vr_status (fst fixed_run) = Some RESOLVED_FIX"
  by code_simp

text \<open>The absence of the signature is also what an unread log shows: when the logs of the patched run can not
  be read, the fix still counts as resolved.\<close>

lemma unread_logs_count_as_recovery:
  "map_option vr_status (fst (code_fix_verification (sample_sandbox [(''status'', PStr ''ERROR''), (''code'', PInt 500)]) sample_fix ''wf''
     \<lparr>sw_server = empty_server, sw_calls = [], sw_events = []\<rparr>)) = Some RESOLVED_FIX"
  by code_simp

end
