(* ===== verification/Remediation_Workflow.thy ===== *)
theory Remediation_Workflow
  imports Sandbox_Workflow
begin

text \<open>
  The code-fix pipeline (\<open>src/src/sre_agent/incident_remediation_workflow.py\<close>, \<open>IncidentRemediationWorkflow\<close>):
  generate a patch, ask a human to start, verify in the sandbox, retry with a fresh approval, ask a human
  again, raise the pull request, or hand over for manual review. The workflow is a tree of what it does
  next: activities, waits on a human's signal with a timeout, resets of a decision, phases. A run of the
  tree is a sequence of events; signals may arrive at any point of it, in any number, and any activity may
  fail for good, which ends the workflow. What the activities answer is up to the environment.

  The locale \<open>workflow_monitor\<close> turns a condition that is checked along the tree into one on every event of
  every run; it is interpreted by the monitor of the human's authority and by a counter. Shown here: a pull
  request is raised only for a patch that was verified, after a human approved the start or a retry and then
  the pull request; every further verification was approved by a signal of its own; there are at most three
  attempts; and every run is short and can always go on to an end.
\<close>

section \<open>Data\<close>

datatype wf_gate = StartFix | RaisePr | RetryFix | CloseIncident

datatype history_entry = GenerationFailed nat string | VerificationFailed nat fix_status verdict_detail

record remediation_input =
  ri_incident_id :: string
  ri_organization_id :: string
  ri_cluster_id :: string
  ri_action_type :: string
  ri_target :: string
  ri_runner_image :: string
  ri_failure_signature :: string
  ri_repo :: string
  ri_patch :: string
  ri_baseline_command :: "string list"
  ri_candidate_command :: "string list"
  ri_fix_description :: string
  ri_env :: "(string \<times> string) list"
  ri_approval_timeout :: int
  ri_retry_context :: "history_entry list"

datatype pr_status = PR_CREATED | PR_CREATION_FAILED | PR_SUPPRESSED_ALERT_CLEARED

record pr_result =
  pr_status :: pr_status
  pr_detail :: string
  pr_url :: "string option"

record patch_generation =
  pg_generated :: bool
  pg_patch :: string
  pg_baseline_command :: "string list"
  pg_candidate_command :: "string list"
  pg_detail :: string

datatype wf_status =
  DENIED_START_FIX | EXPIRED_START_FIX | DENIED_RAISE_PR | EXPIRED_RAISE_PR | PullRequestStatus pr_status
  | CLOSED_NEEDS_MANUAL_REVIEW | EXPIRED_CLOSE_INCIDENT | ESCALATION_UNACKNOWLEDGED

datatype wf_detail = GateExpired | DeniedBy string | HistoryDetail "history_entry list" | PrDetail string

record remediation_verdict =
  rm_status :: wf_status
  rm_detail :: wf_detail
  rm_pr_url :: "string option"
  rm_verified :: bool

datatype wf_phase =
  AwaitingStartFix | GeneratingPatch | ExpiredStartFix | DeniedStartFix | Verifying | AwaitingRetry nat | AwaitingCloseIncident
  | ExpiredCloseIncident | ClosedNeedsManualReview | AwaitingRaisePr | ExpiredRaisePr | DeniedRaisePr | RaisingPr | PrPhase pr_status

datatype wf_topic = GateTopic wf_gate | GeneratePatchTopic

datatype topic_status = TopicPending | TopicApproved | TopicDenied | TopicExpired | TopicEscalated | TopicPr pr_status

datatype unit_activity = OpenGate wf_gate | EmitGate wf_topic topic_status | ExpireGateRow wf_gate | MarkManualReview string

section \<open>The workflow as a tree\<close>

datatype wf =
    Done remediation_verdict
  | Unit unit_activity wf
  | Generate remediation_input "patch_generation \<Rightarrow> wf"
  | Verify string code_fix_input "verdict_result \<Rightarrow> wf"
  | PullRequest remediation_input "pr_result \<Rightarrow> wf"
  | Wait wf_gate "(bool \<times> string) option \<Rightarrow> wf"
  | Reset wf_gate wf
  | Phase wf_phase wf

definition RETRY_MAX_ATTEMPTS :: nat where "RETRY_MAX_ATTEMPTS = 3"

definition emit :: "wf_topic \<Rightarrow> topic_status \<Rightarrow> wf \<Rightarrow> wf" where
  "emit topic status k = Unit (EmitGate topic status) k"

definition open_and_wait :: "wf_gate \<Rightarrow> ((bool \<times> string) option \<Rightarrow> wf) \<Rightarrow> wf" where
  "open_and_wait g k = Unit (OpenGate g) (emit (GateTopic g) TopicPending (Wait g k))"

definition expire :: "wf_gate \<Rightarrow> wf \<Rightarrow> wf" where
  "expire g k = Unit (ExpireGateRow g) (emit (GateTopic g) TopicExpired k)"

definition maybe_retry :: "nat \<Rightarrow> wf \<Rightarrow> wf \<Rightarrow> wf" where
  "maybe_retry attempt again give_up =
     (if RETRY_MAX_ATTEMPTS \<le> attempt then give_up
      else Reset RetryFix (Phase (AwaitingRetry attempt) (open_and_wait RetryFix (\<lambda>d. case d of
             None \<Rightarrow> expire RetryFix give_up
           | Some (approved, _) \<Rightarrow>
               (if approved then emit (GateTopic RetryFix) TopicApproved again
                else emit (GateTopic RetryFix) TopicDenied give_up)))))"

definition verdict_of :: "wf_status \<Rightarrow> wf_detail \<Rightarrow> wf" where
  "verdict_of status detail = Done \<lparr>rm_status = status, rm_detail = detail, rm_pr_url = None, rm_verified = False\<rparr>"

definition close_out :: "remediation_input \<Rightarrow> history_entry list \<Rightarrow> wf" where
  "close_out p history =
     Phase AwaitingCloseIncident (open_and_wait CloseIncident (\<lambda>d. case d of
       None \<Rightarrow> Phase ExpiredCloseIncident (expire CloseIncident (verdict_of EXPIRED_CLOSE_INCIDENT (HistoryDetail history)))
     | Some (approved, _) \<Rightarrow>
         (if \<not> approved
          then emit (GateTopic CloseIncident) TopicDenied (verdict_of ESCALATION_UNACKNOWLEDGED (HistoryDetail history))
          else Phase ClosedNeedsManualReview (Unit (MarkManualReview (ri_incident_id p))
                 (emit (GateTopic CloseIncident) TopicApproved (verdict_of CLOSED_NEEDS_MANUAL_REVIEW (HistoryDetail history)))))))"

text \<open>The second gate and the pull request.\<close>

definition raise_pr_gate :: "remediation_input \<Rightarrow> wf" where
  "raise_pr_gate p =
     Phase AwaitingRaisePr (open_and_wait RaisePr (\<lambda>d. case d of
       None \<Rightarrow> Phase ExpiredRaisePr (expire RaisePr
                 (Done \<lparr>rm_status = EXPIRED_RAISE_PR, rm_detail = GateExpired, rm_pr_url = None, rm_verified = True\<rparr>))
     | Some (approved, actor) \<Rightarrow>
         (if \<not> approved
          then Phase DeniedRaisePr (emit (GateTopic RaisePr) TopicDenied
                 (Done \<lparr>rm_status = DENIED_RAISE_PR, rm_detail = DeniedBy actor, rm_pr_url = None, rm_verified = True\<rparr>))
          else Phase RaisingPr (PullRequest p (\<lambda>r. Phase (PrPhase (pr_status r)) (emit (GateTopic RaisePr) (TopicPr (pr_status r))
                 (Done \<lparr>rm_status = PullRequestStatus (pr_status r), rm_detail = PrDetail (pr_detail r), rm_pr_url = pr_url r,
                        rm_verified = True\<rparr>)))))))"

text \<open>The first gate; a retry was approved by its own gate.\<close>

definition start_fix_gate :: "nat \<Rightarrow> wf \<Rightarrow> wf" where
  "start_fix_gate attempt k =
     (if attempt = 1 then
        Phase AwaitingStartFix (open_and_wait StartFix (\<lambda>d. case d of
          None \<Rightarrow> Phase ExpiredStartFix (expire StartFix (verdict_of EXPIRED_START_FIX GateExpired))
        | Some (approved, actor) \<Rightarrow>
            (if \<not> approved
             then Phase DeniedStartFix (emit (GateTopic StartFix) TopicDenied (verdict_of DENIED_START_FIX (DeniedBy actor)))
             else Phase Verifying (emit (GateTopic StartFix) TopicApproved k))))
      else Phase Verifying (emit (GateTopic RetryFix) TopicApproved k))"

definition verification_input :: "remediation_input \<Rightarrow> code_fix_input" where
  "verification_input p =
     \<lparr>cf_incident_id = ri_incident_id p, cf_organization_id = ri_organization_id p, cf_cluster_id = ri_cluster_id p,
      cf_runner_image = ri_runner_image p, cf_baseline_command = ri_baseline_command p,
      cf_candidate_command = ri_candidate_command p, cf_patch = ri_patch p,
      cf_failure_signature = ri_failure_signature p, cf_env = ri_env p, cf_active_deadline = 300\<rparr>"

definition with_patch :: "remediation_input \<Rightarrow> patch_generation \<Rightarrow> remediation_input" where
  "with_patch p g = p\<lparr>ri_patch := pg_patch g, ri_baseline_command := pg_baseline_command g,
     ri_candidate_command := pg_candidate_command g\<rparr>"

text \<open>The loop. \<open>again\<close> stands for its next turn with a longer history; after the last attempt \<open>maybe_retry\<close>
  never takes it, so that what \<open>attempt_loop\<close> passes there is of no account.\<close>

definition verify_attempt :: "string \<Rightarrow> nat \<Rightarrow> history_entry list \<Rightarrow> (history_entry list \<Rightarrow> wf) \<Rightarrow> remediation_input \<Rightarrow> wf" where
  "verify_attempt wid attempt history again p =
     start_fix_gate attempt (Verify (wid @ ''-verify-'' @ show_nat attempt) (verification_input p) (\<lambda>v.
       if vr_status v = RESOLVED_FIX then raise_pr_gate p
       else let history' = history @ [VerificationFailed attempt (vr_status v) (vr_detail v)]
            in emit (GateTopic RaisePr) TopicEscalated (maybe_retry attempt (again history') (close_out p history'))))"

definition attempt_body :: "string \<Rightarrow> remediation_input \<Rightarrow> nat \<Rightarrow> history_entry list \<Rightarrow> (history_entry list \<Rightarrow> wf) \<Rightarrow> wf" where
  "attempt_body wid p attempt history again =
     (if 1 < attempt \<or> ri_patch p = [] then
        Phase GeneratingPatch (emit GeneratePatchTopic TopicPending
          (Generate (if history = [] then p else p\<lparr>ri_retry_context := history\<rparr>) (\<lambda>g.
             if \<not> pg_generated g
             then let history' = history @ [GenerationFailed attempt (pg_detail g)]
                  in emit GeneratePatchTopic TopicEscalated (maybe_retry attempt (again history') (close_out p history'))
             else emit GeneratePatchTopic TopicApproved (verify_attempt wid attempt history again (with_patch p g)))))
      else verify_attempt wid attempt history again p)"

function attempt_loop :: "string \<Rightarrow> remediation_input \<Rightarrow> nat \<Rightarrow> history_entry list \<Rightarrow> wf" where
  "attempt_loop wid p attempt history =
     attempt_body wid p attempt history
       (\<lambda>history'. if attempt < RETRY_MAX_ATTEMPTS then attempt_loop wid p (Suc attempt) history' else close_out p history')"
  by pat_completeness auto
termination
  by (relation "measure (\<lambda>(_, _, attempt, _). RETRY_MAX_ATTEMPTS - attempt)") auto

declare attempt_loop.simps [simp del]

definition remediation_workflow :: "string \<Rightarrow> remediation_input \<Rightarrow> wf" where
  "remediation_workflow wid p = attempt_loop wid p 1 []"

section \<open>Runs\<close>

type_synonym decisions = "wf_gate \<Rightarrow> (bool \<times> string) option"

definition record_signal :: "wf_gate \<Rightarrow> bool \<Rightarrow> string \<Rightarrow> decisions \<Rightarrow> decisions" where
  "record_signal g approved actor d =
     (if d g = None then d(g \<mapsto> (approved, if actor = [] then ''unknown'' else actor)) else d)"

datatype wf_event =
    Signal wf_gate bool string
  | Did unit_activity
  | Generated remediation_input patch_generation
  | Verified string code_fix_input verdict_result
  | Requested remediation_input "pr_result option"
  | Decided wf_gate bool string
  | TimedOut wf_gate
  | WasReset wf_gate
  | Entered wf_phase
  | ActivityFailed

fun is_signal :: "wf_event \<Rightarrow> bool" where
  "is_signal (Signal g b a) = True"
| "is_signal e = False"

datatype wf_end = Running | Finished remediation_verdict | WorkflowFailed

text \<open>A pull request whose activity fails for good may have been raised nevertheless.\<close>

inductive wf_run :: "decisions \<Rightarrow> wf \<Rightarrow> wf_event list \<Rightarrow> wf_end \<Rightarrow> bool" where
  run_stop: "wf_run d t [] Running"
| run_done: "wf_run d (Done v) [] (Finished v)"
| run_signal: "wf_run (record_signal g b a d) t tr r \<Longrightarrow> wf_run d t (Signal g b a # tr) r"
| run_unit: "wf_run d t tr r \<Longrightarrow> wf_run d (Unit u t) (Did u # tr) r"
| run_unit_fail: "wf_run d (Unit u t) [Did u, ActivityFailed] WorkflowFailed"
| run_generate: "wf_run d (k g) tr r \<Longrightarrow> wf_run d (Generate p k) (Generated p g # tr) r"
| run_generate_fail: "wf_run d (Generate p k) [ActivityFailed] WorkflowFailed"
| run_verify: "wf_run d (k v) tr r \<Longrightarrow> wf_run d (Verify i c k) (Verified i c v # tr) r"
| run_verify_fail: "wf_run d (Verify i c k) [ActivityFailed] WorkflowFailed"
| run_request: "wf_run d (k x) tr r \<Longrightarrow> wf_run d (PullRequest p k) (Requested p (Some x) # tr) r"
| run_request_fail: "wf_run d (PullRequest p k) [Requested p None, ActivityFailed] WorkflowFailed"
| run_decided: "d g = Some (b, a) \<Longrightarrow> wf_run d (k (Some (b, a))) tr r \<Longrightarrow> wf_run d (Wait g k) (Decided g b a # tr) r"
| run_timeout: "d g = None \<Longrightarrow> wf_run d (k None) tr r \<Longrightarrow> wf_run d (Wait g k) (TimedOut g # tr) r"
| run_reset: "wf_run (d(g := None)) t tr r \<Longrightarrow> wf_run d (Reset g t) (WasReset g # tr) r"
| run_phase: "wf_run d t tr r \<Longrightarrow> wf_run d (Phase ph t) (Entered ph # tr) r"

inductive_cases wf_run_DoneE: "wf_run d (Done v) tr r"
inductive_cases wf_run_ConsE: "wf_run d t (e # tr) r"

section \<open>Monitors\<close>

text \<open>A monitor follows a run with a state of its own and checks every event. Checking the tree means checking
  every event it may do next, whatever the environment answers.\<close>

primrec monitored :: "('s \<Rightarrow> wf_event \<Rightarrow> 's) \<Rightarrow> ('s \<Rightarrow> wf_event \<Rightarrow> bool) \<Rightarrow> wf \<Rightarrow> 's \<Rightarrow> bool" where
  "monitored nx ok (Done v) s = True"
| "monitored nx ok (Unit u t) s = (ok s (Did u) \<and> ok (nx s (Did u)) ActivityFailed \<and> monitored nx ok t (nx s (Did u)))"
| "monitored nx ok (Generate p k) s =
     (ok s ActivityFailed \<and> (\<forall>g. ok s (Generated p g) \<and> monitored nx ok (k g) (nx s (Generated p g))))"
| "monitored nx ok (Verify i c k) s =
     (ok s ActivityFailed \<and> (\<forall>v. ok s (Verified i c v) \<and> monitored nx ok (k v) (nx s (Verified i c v))))"
| "monitored nx ok (PullRequest p k) s =
     (ok s (Requested p None) \<and> ok (nx s (Requested p None)) ActivityFailed
      \<and> (\<forall>x. ok s (Requested p (Some x)) \<and> monitored nx ok (k x) (nx s (Requested p (Some x)))))"
| "monitored nx ok (Wait g k) s =
     (ok s (TimedOut g) \<and> monitored nx ok (k None) (nx s (TimedOut g))
      \<and> (\<forall>b a. ok s (Decided g b a) \<and> monitored nx ok (k (Some (b, a))) (nx s (Decided g b a))))"
| "monitored nx ok (Reset g t) s = (ok s (WasReset g) \<and> monitored nx ok t (nx s (WasReset g)))"
| "monitored nx ok (Phase ph t) s = (ok s (Entered ph) \<and> monitored nx ok t (nx s (Entered ph)))"

fun accepted :: "('s \<Rightarrow> wf_event \<Rightarrow> 's) \<Rightarrow> ('s \<Rightarrow> wf_event \<Rightarrow> bool) \<Rightarrow> 's \<Rightarrow> wf_event list \<Rightarrow> bool" where
  "accepted nx ok s [] = True"
| "accepted nx ok s (e # tr) = (ok s e \<and> accepted nx ok (nx s e) tr)"

lemma accepted_at: "accepted nx ok s (pre @ e # post) \<Longrightarrow> ok (foldl nx s pre) e"
  by (induction pre arbitrary: s) auto

lemma accepted_foldl: "accepted nx ok s (pre @ post) \<Longrightarrow> accepted nx ok (foldl nx s pre) post"
  by (induction pre arbitrary: s) auto

locale workflow_monitor =
  fixes nx :: "'s \<Rightarrow> wf_event \<Rightarrow> 's" and ok :: "'s \<Rightarrow> wf_event \<Rightarrow> bool"
  assumes signal_next: "nx s (Signal g b a) = s" and signal_ok: "ok s (Signal g b a)"
begin

lemma runs_accepted: "wf_run d t tr r \<Longrightarrow> monitored nx ok t s \<Longrightarrow> accepted nx ok s tr"
  by (induction arbitrary: s rule: wf_run.induct) (auto simp: signal_next signal_ok)

lemma every_event:
  assumes "wf_run d t (pre @ e # post) r" "monitored nx ok t s"
  shows "ok (foldl nx s pre) e"
  using runs_accepted [OF assms] by (rule accepted_at)

end

lemmas tree_defs = emit_def open_and_wait_def expire_def verdict_of_def maybe_retry_def close_out_def raise_pr_gate_def
  start_fix_gate_def verify_attempt_def attempt_body_def

section \<open>The authority of the human\<close>

text \<open>What the monitor knows: whether the present attempt is approved, the patch that was verified, the
  decisions on the pull request and on closing, and how many attempts there were. After a failed
  verification the attempt is no longer approved, and a retry only counts when its gate was reset.\<close>

datatype approval_state = Unapproved | RetryOpen | Approved

record authority =
  au_attempt :: approval_state
  au_verified :: "string option"
  au_pr :: bool
  au_close :: bool
  au_verifications :: nat
  au_generations :: nat

definition no_authority :: authority where
  "no_authority = \<lparr>au_attempt = Unapproved, au_verified = None, au_pr = False, au_close = False, au_verifications = 0,
     au_generations = 0\<rparr>"

fun authority_next :: "authority \<Rightarrow> wf_event \<Rightarrow> authority" where
  "authority_next s (Decided StartFix True a) = (if au_verifications s = 0 then s\<lparr>au_attempt := Approved\<rparr> else s)"
| "authority_next s (Decided RetryFix True a) = (if au_attempt s = RetryOpen then s\<lparr>au_attempt := Approved\<rparr> else s)"
| "authority_next s (Decided RaisePr True a) = s\<lparr>au_pr := True\<rparr>"
| "authority_next s (Decided CloseIncident True a) = s\<lparr>au_close := True\<rparr>"
| "authority_next s (WasReset RetryFix) = s\<lparr>au_attempt := RetryOpen\<rparr>"
| "authority_next s (Generated p g) = s\<lparr>au_generations := Suc (au_generations s)\<rparr>"
| "authority_next s (Verified i c v) =
     s\<lparr>au_attempt := Unapproved, au_verified := (if vr_status v = RESOLVED_FIX then Some (cf_patch c) else None),
       au_verifications := Suc (au_verifications s)\<rparr>"
| "authority_next s e = s"

fun authority_ok :: "authority \<Rightarrow> wf_event \<Rightarrow> bool" where
  "authority_ok s (Verified i c v) = (au_attempt s = Approved \<and> au_verifications s < RETRY_MAX_ATTEMPTS)"
| "authority_ok s (Generated p g) = (au_generations s < RETRY_MAX_ATTEMPTS)"
| "authority_ok s (Requested p x) = (au_pr s \<and> au_verified s = Some (ri_patch p))"
| "authority_ok s (Did (MarkManualReview i)) = au_close s"
| "authority_ok s e = True"

interpretation authority: workflow_monitor authority_next authority_ok
  by unfold_locales simp_all

lemma authority_maybe_retry:
  assumes "monitored authority_next authority_ok give_up s" "monitored authority_next authority_ok give_up (s\<lparr>au_attempt := RetryOpen\<rparr>)"
    and "attempt < RETRY_MAX_ATTEMPTS \<Longrightarrow> monitored authority_next authority_ok again (s\<lparr>au_attempt := Approved\<rparr>)"
  shows "monitored authority_next authority_ok (maybe_retry attempt again give_up) s"
  using assms by (auto simp: maybe_retry_def open_and_wait_def emit_def expire_def not_le)

lemma authority_close_out: "monitored authority_next authority_ok (close_out p h) s"
  by (auto simp: close_out_def open_and_wait_def emit_def expire_def verdict_of_def)

lemma authority_raise_pr: "au_verified s = Some (ri_patch p) \<Longrightarrow> monitored authority_next authority_ok (raise_pr_gate p) s"
  by (auto simp: raise_pr_gate_def open_and_wait_def emit_def expire_def)

lemma authority_start_fix:
  assumes "attempt \<noteq> 1 \<Longrightarrow> au_attempt s = Approved" "attempt = 1 \<Longrightarrow> au_verifications s = 0"
    and "monitored authority_next authority_ok k (s\<lparr>au_attempt := Approved\<rparr>)"
  shows "monitored authority_next authority_ok (start_fix_gate attempt k) s"
proof (cases "attempt = 1")
  case False
  then have "s\<lparr>au_attempt := Approved\<rparr> = s" using assms(1) by simp
  then show ?thesis using False assms(3) by (simp add: start_fix_gate_def emit_def)
qed (use assms in \<open>auto simp: start_fix_gate_def open_and_wait_def emit_def expire_def verdict_of_def\<close>)

text \<open>The state in which an attempt begins.\<close>

definition attempt_ready :: "nat \<Rightarrow> authority \<Rightarrow> bool" where
  "attempt_ready attempt s = (0 < attempt \<and> attempt \<le> RETRY_MAX_ATTEMPTS \<and> au_verifications s < attempt
     \<and> au_generations s < attempt \<and> (attempt \<noteq> 1 \<longrightarrow> au_attempt s = Approved))"

lemma authority_verify:
  assumes "0 < attempt" "attempt \<le> RETRY_MAX_ATTEMPTS" "au_verifications s < attempt" "au_generations s \<le> attempt"
    and "attempt \<noteq> 1 \<Longrightarrow> au_attempt s = Approved"
    and again: "\<And>h s'. attempt < RETRY_MAX_ATTEMPTS \<Longrightarrow> attempt_ready (Suc attempt) s' \<Longrightarrow> monitored authority_next authority_ok (again h) s'"
  shows "monitored authority_next authority_ok (verify_attempt wid attempt h again p) s"
  using assms
  by (auto simp: verify_attempt_def Let_def emit_def verification_input_def attempt_ready_def
      intro!: authority_start_fix authority_raise_pr authority_maybe_retry authority_close_out)

lemma authority_attempt:
  assumes "attempt_ready attempt s"
    and again: "\<And>h s'. attempt < RETRY_MAX_ATTEMPTS \<Longrightarrow> attempt_ready (Suc attempt) s' \<Longrightarrow> monitored authority_next authority_ok (again h) s'"
  shows "monitored authority_next authority_ok (attempt_body wid p attempt h again) s"
  using assms
  by (auto simp: attempt_body_def Let_def emit_def attempt_ready_def
      intro!: authority_verify authority_maybe_retry authority_close_out)

lemma authority_loop: "attempt_ready attempt s \<Longrightarrow> monitored authority_next authority_ok (attempt_loop wid p attempt h) s"
proof (induction wid p attempt h arbitrary: s rule: attempt_loop.induct)
  case (1 wid p attempt h)
  show ?case
    by (subst attempt_loop.simps) (rule authority_attempt [OF "1.prems"], auto intro: "1.IH")
qed

lemma authority_workflow: "monitored authority_next authority_ok (remediation_workflow wid p) no_authority"
  unfolding remediation_workflow_def
  by (rule authority_loop) (simp add: attempt_ready_def no_authority_def RETRY_MAX_ATTEMPTS_def)


section \<open>From the monitor back to the events\<close>

lemma foldl_readout:
  assumes "\<And>s e. Q (nx s e) \<Longrightarrow> Q s \<or> P e" and "Q (foldl nx s es)"
  shows "Q s \<or> (\<exists>e \<in> set es. P e)"
  using assms(2)
proof (induction es arbitrary: s)
  case (Cons e es)
  then show ?case using assms(1) [of s e] by auto
qed simp

lemma authority_pr_step: "au_pr (authority_next s e) \<Longrightarrow> au_pr s \<or> (\<exists>a. e = Decided RaisePr True a)"
  by (cases "(s, e)" rule: authority_next.cases) (auto split: if_splits)

lemma authority_close_step: "au_close (authority_next s e) \<Longrightarrow> au_close s \<or> (\<exists>a. e = Decided CloseIncident True a)"
  by (cases "(s, e)" rule: authority_next.cases) (auto split: if_splits)

lemma authority_verified_step: "au_verified (authority_next s e) = Some x \<Longrightarrow>
    au_verified s = Some x \<or> (\<exists>i c v. e = Verified i c v \<and> vr_status v = RESOLVED_FIX \<and> cf_patch c = x)"
  by (cases "(s, e)" rule: authority_next.cases) (auto split: if_splits)

lemma authority_open_step: "au_attempt (authority_next s e) = RetryOpen \<Longrightarrow> au_attempt s = RetryOpen \<or> e = WasReset RetryFix"
  by (cases "(s, e)" rule: authority_next.cases) (auto split: if_splits)

lemma authority_approved_step: "au_attempt (authority_next s e) = Approved \<Longrightarrow> au_attempt s = Approved
    \<or> (\<exists>a. e = Decided RetryFix True a \<and> au_attempt s = RetryOpen)
    \<or> (\<exists>a. e = Decided StartFix True a \<and> au_verifications s = 0)"
  by (cases "(s, e)" rule: authority_next.cases) (auto split: if_splits)

lemma authority_pr_from: "au_pr (foldl authority_next s es) \<Longrightarrow> au_pr s \<or> (\<exists>a. Decided RaisePr True a \<in> set es)"
  using foldl_readout [of au_pr authority_next "\<lambda>e. \<exists>a. e = Decided RaisePr True a"] authority_pr_step by blast

lemma authority_close_from: "au_close (foldl authority_next s es) \<Longrightarrow> au_close s \<or> (\<exists>a. Decided CloseIncident True a \<in> set es)"
  using foldl_readout [of au_close authority_next "\<lambda>e. \<exists>a. e = Decided CloseIncident True a"] authority_close_step by blast

lemma authority_verified_from: "au_verified (foldl authority_next s es) = Some x \<Longrightarrow>
    au_verified s = Some x \<or> (\<exists>i c v. Verified i c v \<in> set es \<and> vr_status v = RESOLVED_FIX \<and> cf_patch c = x)"
  using foldl_readout [of "\<lambda>s. au_verified s = Some x" authority_next
      "\<lambda>e. \<exists>i c v. e = Verified i c v \<and> vr_status v = RESOLVED_FIX \<and> cf_patch c = x"] authority_verified_step by blast

lemma authority_open_from: "au_attempt (foldl authority_next s es) = RetryOpen \<Longrightarrow> au_attempt s = RetryOpen \<or> WasReset RetryFix \<in> set es"
  using foldl_readout [of "\<lambda>s. au_attempt s = RetryOpen" authority_next "\<lambda>e. e = WasReset RetryFix"] authority_open_step by blast

lemma authority_approved_from: "au_attempt (foldl authority_next s es) = Approved \<Longrightarrow>
    au_attempt s = Approved \<or> (\<exists>g a. g \<in> {StartFix, RetryFix} \<and> Decided g True a \<in> set es)"
proof -
  have "\<And>s e. au_attempt (authority_next s e) = Approved \<Longrightarrow>
      au_attempt s = Approved \<or> (\<exists>g a. g \<in> {StartFix, RetryFix} \<and> e = Decided g True a)"
    by (auto dest!: authority_approved_step)
  from foldl_readout [of "\<lambda>s. au_attempt s = Approved" authority_next "\<lambda>e. \<exists>g a. g \<in> {StartFix, RetryFix} \<and> e = Decided g True a",
      OF this]
  show "au_attempt (foldl authority_next s es) = Approved \<Longrightarrow> ?thesis" by metis
qed

lemma authority_verifications_mono: "au_verifications s \<le> au_verifications (foldl authority_next s es)"
proof (induction es arbitrary: s)
  case (Cons e es)
  have "au_verifications s \<le> au_verifications (authority_next s e)"
    by (cases "(s, e)" rule: authority_next.cases) auto
  then show ?case using Cons.IH [of "authority_next s e"] by simp
qed simp

lemma authority_regained:
  assumes "au_attempt s \<noteq> Approved" "0 < au_verifications s" "au_attempt (foldl authority_next s es) = Approved"
  shows "\<exists>xs a ys. es = xs @ Decided RetryFix True a # ys \<and> au_attempt (foldl authority_next s xs) = RetryOpen"
  using assms(3)
proof (induction es rule: rev_induct)
  case (snoc e es)
  then consider "au_attempt (foldl authority_next s es) = Approved"
    | a where "e = Decided RetryFix True a" "au_attempt (foldl authority_next s es) = RetryOpen"
    using authority_approved_step [of "foldl authority_next s es" e] authority_verifications_mono [of s es] assms(2) by auto
  then show ?case
  proof cases
    case 1
    then obtain xs a ys where "es = xs @ Decided RetryFix True a # ys" "au_attempt (foldl authority_next s xs) = RetryOpen"
      using snoc.IH by blast
    then show ?thesis by (intro exI [of _ xs] exI [of _ a] exI [of _ "ys @ [e]"]) simp
  next
    case 2
    then show ?thesis by (intro exI [of _ es] exI [of _ a] exI [of _ "[]"]) simp
  qed
qed (use assms in simp)

section \<open>Decisions come from signals\<close>

lemma decided_by_signal:
  "wf_run d t (pre @ Decided g b a # post) r \<Longrightarrow> d g = Some (b, a) \<or> (\<exists>a'. Signal g b a' \<in> set pre)"
proof (induction d t "pre @ Decided g b a # post" r arbitrary: pre rule: wf_run.induct)
  case (run_signal h b' a' d t tr r)
  then show ?case by (cases pre) (auto simp: record_signal_def split: if_splits)
next
  case (run_reset d h t tr r)
  then show ?case by (cases pre) (auto split: if_splits)
qed (auto simp: Cons_eq_append_conv)

lemma run_after_reset:
  "wf_run d t (xs @ WasReset g # ys) r \<Longrightarrow> \<exists>d' t'. d' g = None \<and> wf_run d' t' ys r"
proof (induction d t "xs @ WasReset g # ys" r arbitrary: xs rule: wf_run.induct)
  case (run_reset d h t tr r)
  show ?case
  proof (cases xs)
    case Nil
    then have "wf_run (d(g := None)) t ys r" using run_reset by simp
    then show ?thesis by (intro exI [of _ "d(g := None)"] exI [of _ t]) simp
  qed (use run_reset in auto)
qed (auto simp: Cons_eq_append_conv)

lemma decided_after_reset:
  assumes "wf_run d t (xs @ WasReset g # ys @ Decided g b a # zs) r"
  shows "\<exists>a'. Signal g b a' \<in> set ys"
proof -
  from run_after_reset [OF assms] obtain d' t' where "d' g = None" "wf_run d' t' (ys @ Decided g b a # zs) r" by blast
  then show ?thesis using decided_by_signal by fastforce
qed


section \<open>Properties\<close>

lemma pull_request_events:
  assumes "wf_run (\<lambda>_. None) (remediation_workflow wid p) (pre @ Requested q x # post) r"
  shows "(\<exists>i c v. Verified i c v \<in> set pre \<and> vr_status v = RESOLVED_FIX \<and> cf_patch c = ri_patch q)
    \<and> (\<exists>a. Decided RaisePr True a \<in> set pre) \<and> (\<exists>a. Signal RaisePr True a \<in> set pre)
    \<and> (\<exists>g a. g \<in> {StartFix, RetryFix} \<and> Signal g True a \<in> set pre)"
proof -
  let ?at = "foldl authority_next no_authority"
  have ok: "au_pr (?at pre)" "au_verified (?at pre) = Some (ri_patch q)"
    using authority.every_event [OF assms authority_workflow] by simp_all
  have sig: "\<exists>a'. Signal g True a' \<in> set pre" if "Decided g True a \<in> set pre" for g a
  proof -
    from split_list [OF that] obtain xs ys where "pre = xs @ Decided g True a # ys" by blast
    then show ?thesis using decided_by_signal [of "\<lambda>_. None" _ xs g True a] assms by fastforce
  qed
  obtain i c v where v: "Verified i c v \<in> set pre" "vr_status v = RESOLVED_FIX" "cf_patch c = ri_patch q"
    using authority_verified_from [OF ok(2)] by (auto simp: no_authority_def)
  obtain a where pr: "Decided RaisePr True a \<in> set pre"
    using authority_pr_from [OF ok(1)] by (auto simp: no_authority_def)
  from split_list [OF v(1)] obtain xs ys where xs: "pre = xs @ Verified i c v # ys" by blast
  then have "wf_run (\<lambda>_. None) (remediation_workflow wid p) (xs @ Verified i c v # (ys @ Requested q x # post)) r"
    using assms by simp
  from authority.every_event [OF this authority_workflow] have "au_attempt (?at xs) = Approved" by simp
  from authority_approved_from [OF this] obtain g a' where "g \<in> {StartFix, RetryFix}" "Decided g True a' \<in> set pre"
    by (auto simp: xs no_authority_def)
  then show ?thesis using v pr sig [OF pr] sig by blast
qed

text \<open>C5. A pull request needs a verified patch and two humans' words. In every run of the workflow, whatever
  signals arrive and whatever the activities answer, a pull request is requested only for a patch that the
  sandbox has verified as resolving the failure, after a wait for the pull request ended with an approval and,
  earlier, one for the start or for a retry did, and each of these decisions was sent as an approving signal.\<close>

theorem pull_request_authority:
  assumes "wf_run (\<lambda>_. None) (remediation_workflow wid p) (pre @ Requested q x # post) r"
  shows "(\<exists>i c v. Verified i c v \<in> set pre \<and> vr_status v = RESOLVED_FIX \<and> cf_patch c = ri_patch q)
    \<and> (\<exists>a. Decided RaisePr True a \<in> set pre) \<and> (\<exists>a. Signal RaisePr True a \<in> set pre)
    \<and> (\<exists>g a. g \<in> {StartFix, RetryFix} \<and> Signal g True a \<in> set pre)"
  by (rule pull_request_events [OF assms])

text \<open>C6. Every retry is approved anew. Between two sandbox verifications of one run a human has sent an
  approval of the retry: an earlier approval, or one that arrived before the retry was asked for, does not
  carry over.\<close>

theorem every_retry_approved:
  assumes "wf_run (\<lambda>_. None) (remediation_workflow wid p) (pre @ Verified i c v # mid @ Verified i' c' v' # post) r"
  shows "\<exists>a. Signal RetryFix True a \<in> set mid"
proof -
  let ?s = "foldl authority_next no_authority (pre @ [Verified i c v])"
  have run: "wf_run (\<lambda>_. None) (remediation_workflow wid p) ((pre @ [Verified i c v] @ mid) @ Verified i' c' v' # post) r"
    using assms by simp
  have s: "au_attempt ?s = Unapproved" "0 < au_verifications ?s" by simp_all
  have "au_attempt (foldl authority_next ?s mid) = Approved"
    using authority.every_event [OF run authority_workflow] by simp
  from authority_regained [OF _ s(2) this] s(1) obtain xs a ys where
    xs: "mid = xs @ Decided RetryFix True a # ys" "au_attempt (foldl authority_next ?s xs) = RetryOpen" by auto
  have "WasReset RetryFix \<in> set xs"
    using authority_open_from [OF xs(2)] s(1) by auto
  then obtain us vs where "xs = us @ WasReset RetryFix # vs" by (auto dest: split_list)
  then have "wf_run (\<lambda>_. None) (remediation_workflow wid p)
      ((pre @ Verified i c v # us) @ WasReset RetryFix # vs @ Decided RetryFix True a # (ys @ Verified i' c' v' # post)) r"
    using assms xs(1) by simp
  from decided_after_reset [OF this] show ?thesis using \<open>xs = _\<close> xs(1) by auto
qed


lemma verifications_counted:
  "accepted authority_next authority_ok s tr \<Longrightarrow> au_verifications s \<le> RETRY_MAX_ATTEMPTS \<Longrightarrow> au_generations s \<le> RETRY_MAX_ATTEMPTS \<Longrightarrow>
     au_verifications s + length (filter (\<lambda>e. \<exists>i c v. e = Verified i c v) tr) \<le> RETRY_MAX_ATTEMPTS
     \<and> au_generations s + length (filter (\<lambda>e. \<exists>p g. e = Generated p g) tr) \<le> RETRY_MAX_ATTEMPTS"
proof (induction tr arbitrary: s)
  case (Cons e tr)
  have ok: "authority_ok s e" and acc: "accepted authority_next authority_ok (authority_next s e) tr" using Cons.prems(1) by simp_all
  consider i c v where "e = Verified i c v" | p g where "e = Generated p g"
    | "\<nexists>i c v. e = Verified i c v" "\<nexists>p g. e = Generated p g" by blast
  then show ?case
  proof cases
    case 3
    then have "au_verifications (authority_next s e) = au_verifications s" "au_generations (authority_next s e) = au_generations s"
      by (cases "(s, e)" rule: authority_next.cases; auto)+
    then show ?thesis using Cons.IH [OF acc] Cons.prems(2,3) 3 by simp
  qed (use Cons.IH [OF acc] ok Cons.prems(2,3) in auto)
qed simp

text \<open>The number of attempts is bounded, and an incident is marked for manual review only after a human
  acknowledged it.\<close>

lemma attempts_bounded:
  assumes "wf_run (\<lambda>_. None) (remediation_workflow wid p) tr r"
  shows "length (filter (\<lambda>e. \<exists>i c v. e = Verified i c v) tr) \<le> 3 \<and> length (filter (\<lambda>e. \<exists>p g. e = Generated p g) tr) \<le> 3"
  using verifications_counted [OF authority.runs_accepted [OF assms authority_workflow]]
  by (simp add: no_authority_def RETRY_MAX_ATTEMPTS_def)

lemma manual_review_acknowledged:
  assumes "wf_run (\<lambda>_. None) (remediation_workflow wid p) (pre @ Did (MarkManualReview i) # post) r"
  shows "\<exists>a. Decided CloseIncident True a \<in> set pre"
  using authority.every_event [OF assms authority_workflow] authority_close_from [of no_authority pre] by (simp add: no_authority_def)

section \<open>Length of a run\<close>

fun count_next :: "nat \<Rightarrow> wf_event \<Rightarrow> nat" where
  "count_next n (Signal g b a) = n"
| "count_next n e = Suc n"

fun count_ok :: "nat \<Rightarrow> nat \<Rightarrow> wf_event \<Rightarrow> bool" where
  "count_ok l n (Signal g b a) = True"
| "count_ok l n e = (n < l)"

interpretation counter: workflow_monitor count_next "count_ok l" for l
  by unfold_locales simp_all

lemma counter_mono: "monitored count_next (count_ok l) t n \<Longrightarrow> m \<le> n \<Longrightarrow> monitored count_next (count_ok l) t m"
proof (induction t arbitrary: n m)
  case (Unit u t)
  have "monitored count_next (count_ok l) t (Suc m)"
    by (rule Unit.IH [of "Suc n"]) (use Unit.prems in simp_all)
  then show ?case using Unit.prems by simp
next
  case (Generate p k)
  have "monitored count_next (count_ok l) (k g) (Suc m)" for g
    by (rule Generate.IH [OF rangeI, of _ "Suc n"]) (use Generate.prems in \<open>simp_all\<close>)
  then show ?case using Generate.prems by simp
next
  case (Verify i c k)
  have "monitored count_next (count_ok l) (k v) (Suc m)" for v
    by (rule Verify.IH [OF rangeI, of _ "Suc n"]) (use Verify.prems in \<open>simp_all\<close>)
  then show ?case using Verify.prems by simp
next
  case (PullRequest p k)
  have "monitored count_next (count_ok l) (k x) (Suc m)" for x
    by (rule PullRequest.IH [OF rangeI, of _ "Suc n"]) (use PullRequest.prems in \<open>simp_all\<close>)
  then show ?case using PullRequest.prems by simp
next
  case (Wait h k)
  have "monitored count_next (count_ok l) (k d) (Suc m)" for d
    by (rule Wait.IH [OF rangeI, of _ "Suc n"]) (use Wait.prems in \<open>cases d; auto\<close>, use Wait.prems in simp)
  then show ?case using Wait.prems by simp
next
  case (Reset h t)
  have "monitored count_next (count_ok l) t (Suc m)"
    by (rule Reset.IH [of "Suc n"]) (use Reset.prems in simp_all)
  then show ?case using Reset.prems by simp
next
  case (Phase ph t)
  have "monitored count_next (count_ok l) t (Suc m)"
    by (rule Phase.IH [of "Suc n"]) (use Phase.prems in simp_all)
  then show ?case using Phase.prems by simp
qed simp

lemma counter_close_out: "n + 8 \<le> l \<Longrightarrow> monitored count_next (count_ok l) (close_out p h) n"
  by (auto simp: tree_defs)

lemma counter_raise_pr: "n + 9 \<le> l \<Longrightarrow> monitored count_next (count_ok l) (raise_pr_gate p) n"
  by (auto simp: tree_defs)

lemma counter_maybe_retry:
  assumes "n + 15 \<le> l" "attempt < RETRY_MAX_ATTEMPTS \<Longrightarrow> monitored count_next (count_ok l) again (n + 6)"
  shows "monitored count_next (count_ok l) (maybe_retry attempt again (close_out p h)) n"
  using assms counter_close_out [of "n + 6" l p h] counter_close_out [of "n + 7" l p h] counter_close_out [of n l p h]
  by (auto simp: maybe_retry_def open_and_wait_def emit_def expire_def numeral_eq_Suc)

lemma counter_start_fix:
  "n + 8 \<le> l \<Longrightarrow> monitored count_next (count_ok l) k (n + 6) \<Longrightarrow> monitored count_next (count_ok l) (start_fix_gate attempt k) n"
  using counter_mono [of l k "n + 6" "n + 2"]
  by (auto simp: start_fix_gate_def open_and_wait_def emit_def expire_def verdict_of_def numeral_eq_Suc)


lemma counter_verify:
  assumes "n + 23 \<le> l" "\<And>h. attempt < RETRY_MAX_ATTEMPTS \<Longrightarrow> monitored count_next (count_ok l) (again h) (n + 14)"
  shows "monitored count_next (count_ok l) (verify_attempt wid attempt h again p) n"
proof -
  have "monitored count_next (count_ok l) (raise_pr_gate p) (n + 7)"
    "\<And>h. monitored count_next (count_ok l) (maybe_retry attempt (again h) (close_out p h)) (n + 8)"
    using assms by (auto intro!: counter_raise_pr counter_maybe_retry simp: add.assoc)
  then show ?thesis unfolding verify_attempt_def using assms(1)
    by (intro counter_start_fix) (auto simp: Let_def emit_def numeral_eq_Suc)
qed

lemma counter_attempt:
  assumes "n + 27 \<le> l" "\<And>h. attempt < RETRY_MAX_ATTEMPTS \<Longrightarrow> monitored count_next (count_ok l) (again h) (n + 18)"
  shows "monitored count_next (count_ok l) (attempt_body wid p attempt h again) n"
proof -
  have again: "attempt < RETRY_MAX_ATTEMPTS \<Longrightarrow> monitored count_next (count_ok l) (again h) m" if "m \<le> n + 18" for h m
    using counter_mono [OF assms(2) that] .
  have "\<And>h. monitored count_next (count_ok l) (maybe_retry attempt (again h) (close_out p h)) (n + 4)"
    using assms(1) by (auto intro!: counter_maybe_retry again)
  moreover have "monitored count_next (count_ok l) (verify_attempt wid attempt h again q) m" if "m \<le> n + 4" for q m
    using assms(1) that by (auto intro!: counter_verify again)
  ultimately show ?thesis using assms(1) by (auto simp: attempt_body_def Let_def emit_def numeral_eq_Suc)
qed

lemma counter_loop:
  "attempt \<le> RETRY_MAX_ATTEMPTS \<Longrightarrow> n + 18 * (RETRY_MAX_ATTEMPTS - attempt) + 27 \<le> l \<Longrightarrow>
     monitored count_next (count_ok l) (attempt_loop wid p attempt h) n"
proof (induction wid p attempt h arbitrary: n rule: attempt_loop.induct)
  case (1 wid p attempt h)
  show ?case
    by (subst attempt_loop.simps, rule counter_attempt) (use 1 in \<open>auto simp: Suc_diff_Suc\<close>)
qed

lemma counter_accepted_length:
  "accepted count_next (count_ok l) n tr \<Longrightarrow> n \<le> l \<Longrightarrow> n + length (filter (\<lambda>e. \<not> is_signal e) tr) \<le> l"
proof (induction tr arbitrary: n)
  case (Cons e tr)
  show ?case
  proof (cases e)
    case (Signal g b a)
    then show ?thesis using Cons by simp
  qed (use Cons.IH [of "Suc n"] Cons.prems in auto)
qed simp

section \<open>Every run can end\<close>

lemma some_end: "\<exists>tr r. wf_run d t tr r \<and> r \<noteq> Running"
proof (induction t arbitrary: d)
  case (Wait g k)
  show ?case
  proof (cases "d g")
    case None
    then show ?thesis using Wait.IH [of "k None" d] by (auto intro: run_timeout)
  next
    case (Some ba)
    then show ?thesis using Wait.IH [of "k (Some ba)" d] by (cases ba) (auto intro: run_decided)
  qed
next
  case (Reset g t)
  then show ?case using run_reset by blast
qed (blast intro: wf_run.intros)+

lemma run_extends: "wf_run d t tr r \<Longrightarrow> r = Running \<Longrightarrow> \<exists>tr' r'. wf_run d t (tr @ tr') r' \<and> r' \<noteq> Running"
proof (induction rule: wf_run.induct)
  case (run_stop d t)
  then show ?case using some_end by simp
next
  case (run_reset d g t tr r)
  then show ?case using wf_run.run_reset by fastforce
next
  case (run_signal g b a d t tr r)
  then show ?case using wf_run.run_signal by fastforce
qed (simp_all, (blast intro: wf_run.intros)+)



section \<open>Sample runs\<close>

text \<open>A human who answers every wait, and an environment with fixed answers.\<close>

primrec drive :: "(wf_gate \<Rightarrow> bool) \<Rightarrow> (remediation_input \<Rightarrow> patch_generation) \<Rightarrow> verdict_result \<Rightarrow> pr_result \<Rightarrow> wf \<Rightarrow> decisions \<Rightarrow> wf_event list" where
  "drive ans gen ver pr (Done v) d = []"
| "drive ans gen ver pr (Unit u t) d = Did u # drive ans gen ver pr t d"
| "drive ans gen ver pr (Generate p k) d = Generated p (gen p) # drive ans gen ver pr (k (gen p)) d"
| "drive ans gen ver pr (Verify i c k) d = Verified i c ver # drive ans gen ver pr (k ver) d"
| "drive ans gen ver pr (PullRequest p k) d = Requested p (Some pr) # drive ans gen ver pr (k pr) d"
| "drive ans gen ver pr (Wait g k) d =
     (case d g of
        Some (b, a) \<Rightarrow> Decided g b a # drive ans gen ver pr (k (Some (b, a))) d
      | None \<Rightarrow> Signal g (ans g) ''o'' # Decided g (ans g) ''o'' # drive ans gen ver pr (k (Some (ans g, ''o''))) (d(g \<mapsto> (ans g, ''o''))))"
| "drive ans gen ver pr (Reset g t) d = WasReset g # drive ans gen ver pr t (d(g := None))"
| "drive ans gen ver pr (Phase ph t) d = Entered ph # drive ans gen ver pr t d"

lemma drive_run: "\<exists>v. wf_run d t (drive ans gen ver pr t d) (Finished v)"
proof (induction t arbitrary: d)
  case (Wait g k)
  show ?case
  proof (cases "d g")
    case None
    let ?d = "d(g \<mapsto> (ans g, ''o''))"
    obtain v where v: "wf_run ?d (k (Some (ans g, ''o''))) (drive ans gen ver pr (k (Some (ans g, ''o''))) ?d) (Finished v)"
      using Wait.IH by blast
    have "wf_run ?d (Wait g k) (Decided g (ans g) ''o'' # drive ans gen ver pr (k (Some (ans g, ''o''))) ?d) (Finished v)"
      using v by (intro run_decided) simp_all
    then have "wf_run d (Wait g k) (drive ans gen ver pr (Wait g k) d) (Finished v)"
      using None by (auto intro!: run_signal simp: record_signal_def)
    then show ?thesis by blast
  next
    case (Some ba)
    then show ?thesis using Wait.IH [of "k (Some ba)" d] by (cases ba) (auto intro: run_decided)
  qed
next
  case (Generate p k)
  show ?case using Generate.IH [of "k (gen p)" d] by (auto intro: run_generate)
next
  case (Verify i c k)
  show ?case using Verify.IH [of "k ver" d] by (auto intro: run_verify)
next
  case (PullRequest p k)
  show ?case using PullRequest.IH [of "k pr" d] by (auto intro: run_request)
next
  case (Reset g t)
  obtain v where "wf_run (d(g := None)) t (drive ans gen ver pr t (d(g := None))) (Finished v)" using Reset.IH by blast
  then show ?case unfolding drive.simps by (intro exI run_reset)
next
  case (Unit u t)
  show ?case using Unit.IH [of d] by (auto intro: run_unit)
next
  case (Phase ph t)
  show ?case using Phase.IH [of d] by (auto intro: run_phase)
qed (auto intro: run_done)

definition sample_input :: remediation_input where
  "sample_input = \<lparr>ri_incident_id = ''i'', ri_organization_id = ''o'', ri_cluster_id = ''c'', ri_action_type = ''code_fix'',
     ri_target = ''checkout'', ri_runner_image = ''img'', ri_failure_signature = ''boom'', ri_repo = ''r'', ri_patch = [],
     ri_baseline_command = [], ri_candidate_command = [], ri_fix_description = [], ri_env = [], ri_approval_timeout = 1800,
     ri_retry_context = []\<rparr>"

definition generated_patch :: "bool \<Rightarrow> patch_generation" where
  "generated_patch b = \<lparr>pg_generated = b, pg_patch = ''diff'', pg_baseline_command = [''t''], pg_candidate_command = [''t''], pg_detail = []\<rparr>"

definition sample_verdict :: "fix_status \<Rightarrow> verdict_result" where
  "sample_verdict s = \<lparr>vr_status = s, vr_detail = SignatureGone, vr_baseline = None, vr_candidate = None\<rparr>"

definition sample_pr :: pr_result where
  "sample_pr = \<lparr>pr_status = PR_CREATED, pr_detail = [], pr_url = Some ''url''\<rparr>"

definition approved_run :: "(remediation_input \<Rightarrow> patch_generation) \<Rightarrow> fix_status \<Rightarrow> wf_event list" where
  "approved_run gen s = drive (\<lambda>_. True) gen (sample_verdict s) sample_pr (remediation_workflow ''wf'' sample_input) (\<lambda>_. None)"

lemma approved_run: "\<exists>v. wf_run (\<lambda>_. None) (remediation_workflow ''wf'' sample_input) (approved_run gen s) (Finished v)"
  unfolding approved_run_def by (rule drive_run)

fun is_request :: "wf_event \<Rightarrow> bool" where
  "is_request (Requested p x) = True"
| "is_request e = False"

fun is_verified :: "wf_event \<Rightarrow> bool" where
  "is_verified (Verified i c v) = True"
| "is_verified e = False"

theorem pull_request_authority_witness:
  "\<exists>pre q x post. approved_run (\<lambda>_. generated_patch True) RESOLVED_FIX = pre @ Requested q x # post
     \<and> (\<exists>a. Signal RaisePr True a \<in> set pre)"
proof -
  let ?tr = "approved_run (\<lambda>_. generated_patch True) RESOLVED_FIX"
  have "list_ex is_request ?tr" by code_simp
  then obtain e where "e \<in> set ?tr" "is_request e" by (auto simp: list_ex_iff)
  then obtain q x where "Requested q x \<in> set ?tr" by (cases e rule: is_request.cases) auto
  from split_list [OF this] obtain pre post where t: "?tr = pre @ Requested q x # post" by blast
  obtain v where "wf_run (\<lambda>_. None) (remediation_workflow ''wf'' sample_input) ?tr (Finished v)" using approved_run by blast
  from pull_request_authority [OF this [unfolded t]] t show ?thesis by blast
qed

lemma two_hits:
  assumes "2 \<le> length (filter P xs)"
  obtains pre x mid y post where "xs = pre @ x # mid @ y # post" "P x" "P y"
proof -
  obtain x y ys where "filter P xs = x # y # ys"
    using assms by (cases "filter P xs" rule: remdups_adj.cases) auto
  then obtain pre rest where r: "xs = pre @ x # rest" "P x" "y # ys = filter P rest" by (auto dest: filter_eq_ConsD)
  from r(3) obtain mid post where "rest = mid @ y # post" "P y" by (metis filter_eq_ConsD)
  then show thesis using r by (intro that [of pre x mid y post]) simp_all
qed

theorem every_retry_approved_witness:
  "\<exists>pre x mid y post. approved_run (\<lambda>_. generated_patch True) REGRESSED = pre @ x # mid @ y # post \<and> is_verified x \<and> is_verified y
     \<and> (\<exists>a. Signal RetryFix True a \<in> set mid)"
proof -
  let ?tr = "approved_run (\<lambda>_. generated_patch True) REGRESSED"
  have "2 \<le> length (filter is_verified ?tr)" by code_simp
  then obtain pre x mid y post where t: "?tr = pre @ x # mid @ y # post" "is_verified x" "is_verified y" by (rule two_hits)
  obtain i c v i' c' v' where x: "x = Verified i c v" "y = Verified i' c' v'"
    using t(2,3) by (cases x rule: is_verified.cases; cases y rule: is_verified.cases) simp_all
  obtain r where "wf_run (\<lambda>_. None) (remediation_workflow ''wf'' sample_input) ?tr (Finished r)" using approved_run by blast
  from every_retry_approved [OF this [unfolded t(1) x]] t show ?thesis by blast
qed


text \<open>When the first patch can not be generated, the retry is the only approval before the pull request: the
  gate for starting the fix is never opened in that run, although the text of the pull request claims that it
  was approved.\<close>

definition late_generation :: "remediation_input \<Rightarrow> patch_generation" where
  "late_generation p = generated_patch (ri_retry_context p \<noteq> [])"

fun concerns_start_fix :: "wf_event \<Rightarrow> bool" where
  "concerns_start_fix (Signal g b a) = (g = StartFix)"
| "concerns_start_fix (Decided g b a) = (g = StartFix)"
| "concerns_start_fix (Did (OpenGate g)) = (g = StartFix)"
| "concerns_start_fix e = False"

lemma pull_request_without_start_fix:
  "list_ex is_request (approved_run late_generation RESOLVED_FIX)
     \<and> list_all (\<lambda>e. \<not> concerns_start_fix e) (approved_run late_generation RESOLVED_FIX)"
  by (rule conjI) code_simp+

end
