(* ===== verification/Live_Remediation.thy ===== *)
theory Live_Remediation
  imports Act_Phase Remediation_Workflow
begin

text \<open>
  Durable execution of an approved plan (\<open>src/src/sre_agent/incident_remediation_workflow.py\<close>,
  \<open>LiveRemediationWorkflow\<close> and its activity) and the activity that raises a pull request. Each live request is
  one activity, tried at most three times. The schedule lists the surroundings of the successive attempts: the
  time that passed, whether context and tool callers could be built, the outcomes of the database, and whether
  the attempt's completion was lost although it had its effects. A run that has used up its schedule has not
  ended yet.

  Shown here: a request calls a tool in at most one of all attempts while its claim lives, lost attempts and
  retries included; nothing is attempted after an outcome that a human has to look at or after the alert
  cleared; a run ends within three attempts per request; a pull request is created only for an incident that
  is not resolved and only when the server confirmed it.
\<close>

section \<open>The activity\<close>

record 'st live_attempt =
  la_delay :: int
  la_env :: "'st gateway_env"
  la_context :: "execution_context option"
  la_executor :: "caller option"
  la_github :: "caller option"
  la_posted :: "live_request \<Rightarrow> bool option"
  la_lost :: bool

datatype live_report =
    Reported live_outcome
  | UnsupportedLiveAction string string
  | OutcomeUnknown string string
  | RetriesExhausted string string

text \<open>The gateway's answer as the activity reports it; left is the error that asks for another attempt.\<close>

definition report_outcome :: "live_request \<Rightarrow> (gateway_error, live_outcome) res \<Rightarrow> (unit, live_report) res" where
  "report_outcome rq res =
     (let a = lr_action rq in
      case res of
        Inr outcome \<Rightarrow> Inr (Reported outcome)
      | Inl MutationPreDispatchError \<Rightarrow> Inl ()
      | Inl _ \<Rightarrow> Inr (OutcomeUnknown (lower (action_type a)) (target a)))"

definition payload_incident :: "live_request \<Rightarrow> string option" where
  "payload_incident rq = (case py_dict_get (lr_payload rq) ''incident_id'' PNone of PStr i \<Rightarrow> Some i | _ \<Rightarrow> None)"

definition execute_live_action_activity :: "'st live_attempt \<Rightarrow> live_request \<Rightarrow> 'st \<Rightarrow> (unit, live_report) res \<times> tool_call list \<times> 'st" where
  "execute_live_action_activity x rq st =
     (let a = lr_action rq; atype = lower (action_type a);
          run = (\<lambda>ctx tc gc. case execute_live_action_request (la_env x) (la_posted x) (payload_incident rq) tc gc (Some ctx) rq st of
                   (res, calls, events, st1) \<Rightarrow> (report_outcome rq res, calls, st1))
      in case la_context x of
           None \<Rightarrow> (Inl (), [], st)
         | Some ctx \<Rightarrow>
             (if map_of EXECUTOR_TOOL_MAP atype \<noteq> None
              then (case la_executor x of None \<Rightarrow> (Inl (), [], st) | Some c \<Rightarrow> run ctx (Some c) None)
              else if map_of GITHUB_EXEC_TOOL_MAP atype \<noteq> None
              then (case la_github x of None \<Rightarrow> (Inl (), [], st) | Some c \<Rightarrow> run ctx None (Some c))
              else if atype \<notin> NOTIFY_ONLY_ACTIONS then (Inr (UnsupportedLiveAction atype (target a)), [], st)
              else run ctx None None))"

section \<open>The workflow\<close>

datatype live_status_code = COMPLETED | SUPPRESSED_ALERT_CLEARED | MANUAL_REVIEW_REQUIRED

definition alert_cleared :: "live_report \<Rightarrow> bool" where
  "alert_cleared r = (case r of Reported v \<Rightarrow> lv_status v = LiveRefused IncidentResolved | _ \<Rightarrow> False)"

definition needs_review :: "live_report \<Rightarrow> bool" where
  "needs_review r =
     (case r of
        Reported v \<Rightarrow> lv_manual_review v \<or> lv_status v = LiveGateway (Live ERROR) \<or> lv_status v = NoticeError
      | UnsupportedLiveAction t g \<Rightarrow> False
      | OutcomeUnknown t g \<Rightarrow> True
      | RetriesExhausted t g \<Rightarrow> True)"

record 'st live_history =
  lh_end :: "(live_status_code \<times> live_report list) option"
  lh_attempts :: "(string \<times> tool_call list) list"
  lh_state :: 'st

definition exhausted :: "live_request \<Rightarrow> live_report" where
  "exhausted rq = RetriesExhausted (lower (action_type (lr_action rq))) (target (lr_action rq))"

text \<open>The report that settles a request after an attempt, none when it is tried again.\<close>

definition settled :: "live_request \<Rightarrow> nat \<Rightarrow> bool \<Rightarrow> (unit, live_report) res \<Rightarrow> live_report option" where
  "settled rq tries lost res =
     (case res of
        Inr rep \<Rightarrow> (if \<not> lost then Some rep else if tries \<le> 1 then Some (exhausted rq) else None)
      | Inl _ \<Rightarrow> (if tries \<le> 1 then Some (exhausted rq) else None))"

fun live_loop :: "(int \<Rightarrow> 'st \<Rightarrow> 'st) \<Rightarrow> live_request list \<Rightarrow> nat \<Rightarrow> live_report list \<Rightarrow> 'st live_attempt list \<Rightarrow> 'st \<Rightarrow> 'st live_history" where
  "live_loop elapse [] tries results sched st = \<lparr>lh_end = Some (COMPLETED, results), lh_attempts = [], lh_state = st\<rparr>"
| "live_loop elapse (rq # rqs) tries results [] st = \<lparr>lh_end = None, lh_attempts = [], lh_state = st\<rparr>"
| "live_loop elapse (rq # rqs) tries results (x # xs) st =
     (let (res, calls, st1) = execute_live_action_activity x rq (elapse (la_delay x) st);
          rest = (case settled rq tries (la_lost x) res of
                    None \<Rightarrow> live_loop elapse (rq # rqs) (tries - 1) results xs st1
                  | Some rep \<Rightarrow>
                      (if alert_cleared rep
                       then \<lparr>lh_end = Some (SUPPRESSED_ALERT_CLEARED, results @ [rep]), lh_attempts = [], lh_state = st1\<rparr>
                       else if needs_review rep
                       then \<lparr>lh_end = Some (MANUAL_REVIEW_REQUIRED, results @ [rep]), lh_attempts = [], lh_state = st1\<rparr>
                       else live_loop elapse rqs RETRY_POLICY_ATTEMPTS (results @ [rep]) xs st1))
      in rest\<lparr>lh_attempts := (lr_key rq, calls) # lh_attempts rest\<rparr>)"

definition live_remediation :: "(int \<Rightarrow> 'st \<Rightarrow> 'st) \<Rightarrow> live_request list \<Rightarrow> 'st live_attempt list \<Rightarrow> 'st \<Rightarrow> 'st live_history" where
  "live_remediation elapse rqs sched st = live_loop elapse rqs RETRY_POLICY_ATTEMPTS [] sched st"

section \<open>Raising a pull request\<close>

definition pr_branch :: "remediation_input \<Rightarrow> string" where
  "pr_branch p = ''sentinel-fix/'' @ take 8 (ri_incident_id p)"

text \<open>\<open>title\<close> and \<open>body\<close> are texts about the incident; \<open>caller\<close> is none when context or caller could not be built.\<close>

definition pr_arguments :: "string \<Rightarrow> string \<Rightarrow> remediation_input \<Rightarrow> pydict" where
  "pr_arguments title body p =
     [(''branch_name'', PStr (pr_branch p)), (''patch'', PStr (ri_patch p)), (''title'', PStr title), (''body'', PStr body),
      (''dry_run'', PBool False)]"

definition pr_failed :: "string \<Rightarrow> pr_result" where
  "pr_failed detail = \<lparr>pr_status = PR_CREATION_FAILED, pr_detail = detail, pr_url = None\<rparr>"

definition classify_pr_response :: "runtime \<Rightarrow> mcp_value \<Rightarrow> pr_result" where
  "classify_pr_response rt raw =
     (let payload = (case structured_payload raw of Some p \<Rightarrow> p | None \<Rightarrow> []);
          status = upper (py_str rt (py_dict_get payload ''status'' (PStr [])));
          url = py_dict_get payload ''pr_url'' PNone
      in if status = ''CREATED'' \<and> truthy url
         then \<lparr>pr_status = PR_CREATED, pr_detail = py_str rt (py_or (py_dict_get payload ''detail'' PNone) (PStr ''PR created.'')),
               pr_url = Some (py_str rt url)\<rparr>
         else pr_failed (py_str rt (py_or (py_dict_get payload ''note'' PNone) (py_or (py_dict_get payload ''detail'' PNone)
                (py_or (py_dict_get payload ''error'' PNone) (py_or (py_dict_get payload ''reason'' PNone)
                  (PStr (''create_fix_pr returned status='' @ (if status = [] then ''UNKNOWN'' else status)))))))))"

definition raise_pr_activity :: "'st gateway_env \<Rightarrow> (execution_context \<times> caller) option \<Rightarrow> string \<Rightarrow> string \<Rightarrow> remediation_input
    \<Rightarrow> pr_result \<times> (string \<times> pydict) list" where
  "raise_pr_activity ge connection title body p =
     (case connection of
        None \<Rightarrow> (pr_failed ''Could not build github-exec tool caller'', [])
      | Some (ctx, github) \<Rightarrow>
          (case incident_mutation_guard ge (PStr (ri_incident_id p)) ctx of
             Inl (Rejected IncidentResolved) \<Rightarrow> (\<lparr>pr_status = PR_SUPPRESSED_ALERT_CLEARED, pr_detail = ''The source alert cleared'', pr_url = None\<rparr>, [])
           | Inl _ \<Rightarrow> (pr_failed ''create_fix_pr call raised'', [])
           | Inr _ \<Rightarrow>
               (let args = pr_arguments title body p
                in (case github ''create_fix_pr'' args of
                      Inl e \<Rightarrow> pr_failed e
                    | Inr raw \<Rightarrow> classify_pr_response (ge_rt ge) raw, [(''create_fix_pr'', args)]))))"


section \<open>Lemmas\<close>

lemma request_gateway:
  assumes "execute_live_action_request ge posted i tc gc ctx rq st = (res, calls, events, st1)"
  shows "(calls = [] \<and> st1 = st) \<or>
    (let g = authorize_and_execute ge (lr_action rq) (lr_gate rq) ctx tc gc (lr_key rq) st in calls = gr_calls g \<and> st1 = gr_state g)"
  using assms by (auto simp: execute_live_action_request_def Let_def split: if_splits)

lemma activity_gateway:
  assumes "execute_live_action_activity x rq st = (res, calls, st1)"
  shows "(calls = [] \<and> st1 = st) \<or> (\<exists>ctx tc gc.
    let g = authorize_and_execute (la_env x) (lr_action rq) (lr_gate rq) ctx tc gc (lr_key rq) st in calls = gr_calls g \<and> st1 = gr_state g)"
proof -
  have run: ?thesis if e: "(case execute_live_action_request (la_env x) (la_posted x) (payload_incident rq) tc gc (Some ctx) rq st of
      (r, cs, es, s1) \<Rightarrow> (report_outcome rq r, cs, s1)) = (res, calls, st1)" for ctx tc gc
  proof -
    obtain r es where "execute_live_action_request (la_env x) (la_posted x) (payload_incident rq) tc gc (Some ctx) rq st = (r, calls, es, st1)"
      using e by (auto split: prod.splits)
    from request_gateway [OF this] show ?thesis by (auto simp: Let_def)
  qed
  show ?thesis
    using assms
    by (simp add: execute_live_action_activity_def Let_def split: option.splits if_splits) (use run [unfolded Let_def] in blast)+
qed

lemma live_loop_step:
  assumes "execute_live_action_activity x rq (elapse (la_delay x) st) = (res, calls, st1)"
  obtains rest where "lh_attempts (live_loop elapse (rq # rqs) tries results (x # xs) st) = (lr_key rq, calls) # rest"
    "rest = [] \<or> (\<exists>rqs' tries' results'. rest = lh_attempts (live_loop elapse rqs' tries' results' xs st1))"
proof (cases "settled rq tries (la_lost x) res")
  case None
  then show thesis using that [of "lh_attempts (live_loop elapse (rq # rqs) (tries - 1) results xs st1)"] assms
    by (simp add: Let_def) blast
next
  case (Some rep)
  then consider (stop) "lh_attempts (live_loop elapse (rq # rqs) tries results (x # xs) st) = [(lr_key rq, calls)]"
    | (go) "lh_attempts (live_loop elapse (rq # rqs) tries results (x # xs) st)
        = (lr_key rq, calls) # lh_attempts (live_loop elapse rqs RETRY_POLICY_ATTEMPTS (results @ [rep]) xs st1)"
    using assms by (cases "alert_cleared rep"; cases "needs_review rep") (auto simp: Let_def)
  then show thesis by cases (use that in auto)
qed

context redis_claims
begin

lemma activity_keeps_life:
  assumes "execute_live_action_activity x rq st = (res, calls, st1)" "ge_store (la_env x) = the_store t" "0 < claim_life remaining st j"
  shows "claim_life remaining st j \<le> claim_life remaining st1 j"
  using activity_gateway [OF assms(1)] run_keeps_life [OF assms(2,3)] by (auto simp: Let_def)

lemma activity_calls_life:
  assumes "execute_live_action_activity x rq st = (res, calls, st1)" "ge_store (la_env x) = the_store t" "calls \<noteq> []"
  shows "claim_life remaining st (lr_key rq) \<le> 0" "idempotency_ttl (ge_rt (la_env x)) \<le> claim_life remaining st1 (lr_key rq)"
  using activity_gateway [OF assms(1)] run_calls_life [OF assms(2)] assms(3) by (auto simp: Let_def)

abbreviation calls_under :: "string \<Rightarrow> (string \<times> tool_call list) list \<Rightarrow> (string \<times> tool_call list) list" where
  "calls_under key \<equiv> filter (\<lambda>(k, calls). k = key \<and> calls \<noteq> [])"

lemma live_loop_blocked:
  assumes "\<forall>x \<in> set sched. ge_store (la_env x) = the_store t \<and> 0 \<le> la_delay x"
    and "sum_list (map la_delay sched) < claim_life remaining st key"
  shows "calls_under key (lh_attempts (live_loop elapse rqs tries results sched st)) = []"
  using assms
proof (induction sched arbitrary: rqs tries results st)
  case Nil
  show ?case by (cases rqs) simp_all
next
  case (Cons x xs)
  show ?case
  proof (cases rqs)
    case rqs: (Cons rq rqs0)
    let ?st = "elapse (la_delay x) st"
    obtain res calls st1 where a: "execute_live_action_activity x rq ?st = (res, calls, st1)" by (metis prod.collapse)
    have store: "ge_store (la_env x) = the_store t" and d: "0 \<le> la_delay x" using Cons.prems by auto
    have nn: "0 \<le> sum_list (map la_delay xs)" using Cons.prems(1) by (intro sum_list_nonneg) auto
    have life: "claim_life remaining st key - la_delay x \<le> claim_life remaining ?st key" by (rule idem.elapse_life [OF d])
    then have pos: "0 < claim_life remaining ?st key" using Cons.prems(2) nn by simp
    have none: "\<not> (lr_key rq = key \<and> calls \<noteq> [])" using activity_calls_life(1) [OF a store] pos by fastforce
    have "sum_list (map la_delay xs) < claim_life remaining st1 key"
      using activity_keeps_life [OF a store pos] life Cons.prems(2) by simp
    then have IH: "calls_under key (lh_attempts (live_loop elapse rqs' tries' results' xs st1)) = []" for rqs' tries' results'
      using Cons.IH Cons.prems(1) by simp
    from a show ?thesis unfolding rqs
      by (rule live_loop_step [where rqs = rqs0 and tries = tries and results = results and xs = xs]) (use none IH in auto)
  qed simp
qed

lemma live_loop_once:
  assumes "\<forall>x \<in> set sched. ge_store (la_env x) = the_store t \<and> 0 \<le> la_delay x \<and> ttl \<le> idempotency_ttl (ge_rt (la_env x))"
    and "sum_list (map la_delay sched) < ttl"
  shows "length (calls_under key (lh_attempts (live_loop elapse rqs tries results sched st))) \<le> 1"
  using assms
proof (induction sched arbitrary: rqs tries results st)
  case Nil
  show ?case by (cases rqs) simp_all
next
  case (Cons x xs)
  show ?case
  proof (cases rqs)
    case rqs: (Cons rq rqs0)
    let ?st = "elapse (la_delay x) st"
    obtain res calls st1 where a: "execute_live_action_activity x rq ?st = (res, calls, st1)" by (metis prod.collapse)
    have store: "ge_store (la_env x) = the_store t" and d: "0 \<le> la_delay x" and ttl: "ttl \<le> idempotency_ttl (ge_rt (la_env x))"
      using Cons.prems by auto
    have total: "sum_list (map la_delay xs) < ttl" using Cons.prems(2) d by simp
    have IH: "length (calls_under key (lh_attempts (live_loop elapse rqs' tries' results' xs st1))) \<le> 1" for rqs' tries' results'
      using Cons.IH Cons.prems(1) total by simp
    have blocked: "calls_under key (lh_attempts (live_loop elapse rqs' tries' results' xs st1)) = []"
      if "lr_key rq = key" "calls \<noteq> []" for rqs' tries' results'
      by (rule live_loop_blocked [of xs t]) (use activity_calls_life(2) [OF a store] that ttl total Cons.prems(1) in auto)
    from a show ?thesis unfolding rqs
      by (rule live_loop_step [where rqs = rqs0 and tries = tries and results = results and xs = xs]) (use blocked IH in auto)
  qed simp
qed

end


lemma live_loop_results:
  assumes "lh_end (live_loop elapse rqs tries results sched st) = Some (status, out)"
  shows "\<exists>new. out = results @ new \<and> length new \<le> length rqs
    \<and> (\<forall>r \<in> set (butlast new). \<not> alert_cleared r \<and> \<not> needs_review r)
    \<and> (status = COMPLETED \<longrightarrow> length new = length rqs \<and> (\<forall>r \<in> set new. \<not> alert_cleared r \<and> \<not> needs_review r))
    \<and> (status = SUPPRESSED_ALERT_CLEARED \<longrightarrow> new \<noteq> [] \<and> alert_cleared (last new))
    \<and> (status = MANUAL_REVIEW_REQUIRED \<longrightarrow> new \<noteq> [] \<and> needs_review (last new))"
  using assms
proof (induction sched arbitrary: rqs tries results st)
  case Nil
  then show ?case by (cases rqs) auto
next
  case (Cons x xs)
  show ?case
  proof (cases rqs)
    case Nil
    then show ?thesis using Cons.prems by auto
  next
    case rqs: (Cons rq rqs0)
    obtain res calls st1 where a: "execute_live_action_activity x rq (elapse (la_delay x) st) = (res, calls, st1)"
      by (metis prod.collapse)
    show ?thesis
    proof (cases "settled rq tries (la_lost x) res")
      case None
      then show ?thesis using Cons.prems a Cons.IH [of rqs "tries - 1" results st1] by (simp add: rqs Let_def)
    next
      case (Some rep)
      show ?thesis
      proof (cases "alert_cleared rep \<or> needs_review rep")
        case True
        then show ?thesis using Cons.prems a Some
          by (intro exI [of _ "[rep]"]) (auto simp: rqs Let_def split: if_splits)
      next
        case False
        then obtain new where "out = results @ rep # new" "length new \<le> length rqs0"
          "\<forall>r \<in> set (butlast new). \<not> alert_cleared r \<and> \<not> needs_review r"
          "status = COMPLETED \<longrightarrow> length new = length rqs0 \<and> (\<forall>r \<in> set new. \<not> alert_cleared r \<and> \<not> needs_review r)"
          "status = SUPPRESSED_ALERT_CLEARED \<longrightarrow> new \<noteq> [] \<and> alert_cleared (last new)"
          "status = MANUAL_REVIEW_REQUIRED \<longrightarrow> new \<noteq> [] \<and> needs_review (last new)"
          using Cons.prems a Some Cons.IH [of rqs0 RETRY_POLICY_ATTEMPTS "results @ [rep]" st1] by (auto simp: rqs Let_def)
        then show ?thesis using False by (intro exI [of _ "rep # new"]) (auto simp: rqs)
      qed
    qed
  qed
qed

lemma live_loop_ends:
  assumes "0 < tries" "tries + RETRY_POLICY_ATTEMPTS * (length rqs - 1) \<le> length sched \<or> rqs = []"
  shows "lh_end (live_loop elapse rqs tries results sched st) \<noteq> None"
  using assms
proof (induction sched arbitrary: rqs tries results st)
  case Nil
  then show ?case by (cases rqs) auto
next
  case (Cons x xs)
  show ?case
  proof (cases rqs)
    case rqs: (Cons rq rqs0)
    obtain res calls st1 where a: "execute_live_action_activity x rq (elapse (la_delay x) st) = (res, calls, st1)"
      by (metis prod.collapse)
    show ?thesis
    proof (cases "settled rq tries (la_lost x) res")
      case None
      then have "1 < tries" by (auto simp: settled_def split: sum.splits if_splits)
      then show ?thesis using None a Cons.prems Cons.IH [of "tries - 1" rqs results st1] by (simp add: rqs Let_def)
    next
      case (Some rep)
      have "RETRY_POLICY_ATTEMPTS + RETRY_POLICY_ATTEMPTS * (length rqs0 - 1) \<le> length xs \<or> rqs0 = []"
        using Cons.prems rqs by (cases rqs0) (auto simp: algebra_simps)
      then have "lh_end (live_loop elapse rqs0 RETRY_POLICY_ATTEMPTS (results @ [rep]) xs st1) \<noteq> None"
        by (intro Cons.IH) (auto simp: RETRY_POLICY_ATTEMPTS_def)
      then show ?thesis using a Some by (simp add: rqs Let_def)
    qed
  qed simp
qed

lemma pr_failed_status [simp]: "pr_status (pr_failed d) = PR_CREATION_FAILED"
  by (simp add: pr_failed_def)

lemma classify_pr_created:
  assumes "pr_status (classify_pr_response rt raw) = PR_CREATED"
  shows "\<exists>payload. structured_payload raw = Some payload \<and> upper (py_str rt (py_dict_get payload ''status'' (PStr []))) = ''CREATED''
    \<and> truthy (py_dict_get payload ''pr_url'' PNone) \<and> pr_url (classify_pr_response rt raw) \<noteq> None"
  using assms by (cases "structured_payload raw") (auto simp: classify_pr_response_def Let_def py_dict_get_def split: if_splits)

lemma classify_pr_not_suppressed: "pr_status (classify_pr_response rt raw) \<noteq> PR_SUPPRESSED_ALERT_CLEARED"
  by (simp add: classify_pr_response_def Let_def)

section \<open>Properties\<close>

text \<open>C7. A durable run applies each mutation at most once. Over the whole run of the workflow, with every
  retry and with attempts whose completion was lost after they had dispatched, at most one attempt calls a
  tool under a given idempotency key, as long as the run lasts less than the claim's time to live and the
  server keeps the documented behaviour of \<open>SET NX EX\<close>.\<close>

theorem durable_run_at_most_once:
  assumes "redis_claims client remaining elapse"
    and "\<forall>x \<in> set sched. ge_store (la_env x) = \<lparr>ss_client = Some client, ss_default_ttl = t\<rparr> \<and> 0 \<le> la_delay x
           \<and> ttl \<le> idempotency_ttl (ge_rt (la_env x))"
    and "sum_list (map la_delay sched) < ttl"
  shows "length (filter (\<lambda>(k, calls). k = key \<and> calls \<noteq> []) (lh_attempts (live_remediation elapse rqs sched st))) \<le> 1"
  unfolding live_remediation_def by (rule redis_claims.live_loop_once [OF assms])

text \<open>C34. A durable run stops where a human has to look. Every request but the last reported one ended well;
  the run is completed exactly when all of its requests did, and otherwise its last report is the one that
  stopped it: the alert cleared, or the outcome needs review. With three attempts on the schedule per request
  it has ended.\<close>

theorem durable_run_stops:
  assumes "RETRY_POLICY_ATTEMPTS * length rqs \<le> length sched"
  shows "\<exists>status results. lh_end (live_remediation elapse rqs sched st) = Some (status, results)
    \<and> length results \<le> length rqs
    \<and> (\<forall>r \<in> set (butlast results). \<not> alert_cleared r \<and> \<not> needs_review r)
    \<and> (status = COMPLETED \<longrightarrow> length results = length rqs \<and> (\<forall>r \<in> set results. \<not> alert_cleared r \<and> \<not> needs_review r))
    \<and> (status = SUPPRESSED_ALERT_CLEARED \<longrightarrow> results \<noteq> [] \<and> alert_cleared (last results))
    \<and> (status = MANUAL_REVIEW_REQUIRED \<longrightarrow> results \<noteq> [] \<and> needs_review (last results))"
proof -
  have "lh_end (live_remediation elapse rqs sched st) \<noteq> None"
    unfolding live_remediation_def
    by (rule live_loop_ends) (use assms in \<open>cases rqs; auto simp: RETRY_POLICY_ATTEMPTS_def\<close>)+
  then obtain status results where "lh_end (live_remediation elapse rqs sched st) = Some (status, results)" by auto
  with live_loop_results [OF this [unfolded live_remediation_def]] show ?thesis by auto
qed

text \<open>A pull request is reported as created only when the repository server was called with exactly the
  patch at hand, for an incident that is not resolved, and answered that it created one, with an address. A
  resolved incident leads to no call at all.\<close>

theorem raise_pr_activity_spec:
  assumes "raise_pr_activity ge connection title body p = (result, calls)"
  shows "(pr_status result = PR_CREATED \<longrightarrow> (\<exists>ctx github raw payload.
        connection = Some (ctx, github) \<and> incident_mutation_guard ge (PStr (ri_incident_id p)) ctx = Inr ()
      \<and> calls = [(''create_fix_pr'', pr_arguments title body p)] \<and> github ''create_fix_pr'' (pr_arguments title body p) = Inr raw
      \<and> structured_payload raw = Some payload \<and> upper (py_str (ge_rt ge) (py_dict_get payload ''status'' (PStr []))) = ''CREATED''
      \<and> truthy (py_dict_get payload ''pr_url'' PNone) \<and> pr_url result \<noteq> None))
    \<and> (calls \<noteq> [] \<longrightarrow> (\<exists>ctx github. connection = Some (ctx, github) \<and> incident_mutation_guard ge (PStr (ri_incident_id p)) ctx = Inr ()))
    \<and> (pr_status result = PR_SUPPRESSED_ALERT_CLEARED \<longrightarrow> calls = [])"
proof (cases connection)
  case None
  then show ?thesis using assms by (auto simp: raise_pr_activity_def)
next
  case (Some cg)
  obtain ctx github where c: "connection = Some (ctx, github)" using Some by (cases cg) simp
  show ?thesis
  proof (cases "incident_mutation_guard ge (PStr (ri_incident_id p)) ctx")
    case (Inl e)
    then have "calls = [] \<and> pr_status result \<noteq> PR_CREATED"
      using assms c by (auto simp: raise_pr_activity_def split: core_error.splits reject_code.splits)
    then show ?thesis by simp
  next
    case (Inr u)
    then have r: "calls = [(''create_fix_pr'', pr_arguments title body p)]"
      "result = (case github ''create_fix_pr'' (pr_arguments title body p) of Inl e \<Rightarrow> pr_failed e | Inr raw \<Rightarrow> classify_pr_response (ge_rt ge) raw)"
      using assms c by (auto simp: raise_pr_activity_def Let_def)
    then show ?thesis using c Inr
      by (cases "github ''create_fix_pr'' (pr_arguments title body p)") (auto dest: classify_pr_created simp: classify_pr_not_suppressed)
  qed
qed


section \<open>Sample runs\<close>

definition sample_live_request :: live_request where
  "sample_live_request = \<lparr>lr_index = 0, lr_action = restart_checkout, lr_payload = [(''action_type'', PStr ''restart'')], lr_key = ''k1'',
     lr_gate = sample_gate\<rparr>"

definition sample_live_attempt :: "bool \<Rightarrow> mem_server live_attempt" where
  "sample_live_attempt lost = \<lparr>la_delay = 60, la_env = sample_env, la_context = Some sample_context,
     la_executor = Some (\<lambda>_ _. Inr applied_response), la_github = None, la_posted = \<lambda>_. None, la_lost = lost\<rparr>"

definition lossy_run :: "mem_server live_history" where
  "lossy_run = live_remediation mem_elapse [sample_live_request] [sample_live_attempt True, sample_live_attempt True, sample_live_attempt False]
     empty_server"

text \<open>The first attempt restarts the service, its completion is lost, and the later attempts do not restart it again.\<close>

theorem durable_run_at_most_once_witness:
  "length (filter (\<lambda>(k, calls). k = ''k1'' \<and> calls \<noteq> []) (lh_attempts lossy_run)) = 1 \<and> length (lh_attempts lossy_run) = 3"
proof -
  have ttl: "idempotency_ttl no_runtime = 86400" by code_simp
  have "length (filter (\<lambda>(k, calls). k = ''k1'' \<and> calls \<noteq> []) (lh_attempts lossy_run)) \<le> 1"
    unfolding lossy_run_def
    by (rule durable_run_at_most_once [OF mem.redis_claims_axioms, of _ 3600 86400])
       (use ttl in \<open>simp_all add: sample_live_attempt_def sample_env_def mem_store_def\<close>)
  moreover have "list_ex (\<lambda>(k, calls). k = ''k1'' \<and> calls \<noteq> []) (lh_attempts lossy_run)" "length (lh_attempts lossy_run) = 3"
    by code_simp+
  then have "0 < length (filter (\<lambda>(k, calls). k = ''k1'' \<and> calls \<noteq> []) (lh_attempts lossy_run))"
    by (auto simp: list_ex_iff filter_empty_conv)
  ultimately show ?thesis using \<open>length (lh_attempts lossy_run) = 3\<close> by linarith
qed

theorem durable_run_stops_witness:
  "\<exists>status results. lh_end lossy_run = Some (status, results) \<and> length results \<le> 1"
proof -
  have "RETRY_POLICY_ATTEMPTS * length [sample_live_request]
      \<le> length [sample_live_attempt True, sample_live_attempt True, sample_live_attempt False]"
    by (simp add: RETRY_POLICY_ATTEMPTS_def)
  from durable_run_stops [OF this, of mem_elapse empty_server] show ?thesis unfolding lossy_run_def by auto
qed

definition created_response :: mcp_value where
  "created_response = MVal (PDict [(''status'', PStr ''CREATED''), (''pr_url'', PStr ''https://x'')])"

definition sample_pr_run :: "pr_result \<times> (string \<times> pydict) list" where
  "sample_pr_run = raise_pr_activity (sample_env\<lparr>ge_lookup := \<lambda>_ _. Inr (Some INVESTIGATING)\<rparr>)
     (Some (sample_context, \<lambda>_ _. Inr created_response)) ''t'' ''b'' (sample_input\<lparr>ri_incident_id := sample_uuid\<rparr>)"

theorem raise_pr_activity_spec_witness:
  "pr_status (fst sample_pr_run) = PR_CREATED \<and> snd sample_pr_run \<noteq> [] \<and> pr_url (fst sample_pr_run) \<noteq> None"
proof -
  have c: "pr_status (fst sample_pr_run) = PR_CREATED" by code_simp
  obtain result calls where r: "sample_pr_run = (result, calls)" by (cases sample_pr_run)
  from raise_pr_activity_spec [OF r [unfolded sample_pr_run_def]] c show ?thesis by (auto simp: r)
qed

end
