(* ===== verification/Incident_Reconciler.thy ===== *)
theory Incident_Reconciler
  imports Alert_Lifecycle
begin

text \<open>
  The sweeps that take incidents out of states nobody owns (\<open>src/src/sre_agent/incident_reconciler.py\<close>): a
  remediation whose process died, an approval whose window closed with no answer, and, called from
  the same loop, the alert whose clearing was missed. Every replica of the service runs the loop. A
  sweep reads its candidates first and claims them one by one with a compare-and-set; what other
  transactions commit before the n-th claim is a parameter, as are the writing of timeline
  events, the chat and the behaviour of the database session after a failure. The state adds the run
  manifests and the messages posted to the incidents' threads, with their fixed wording left out.
  Times count microseconds from 1970.

  Shown here: exactly which rows each sweep moves; that a stay of an incident in a state is claimed and
  announced by one replica only, whatever other transactions do in between; and that a round of
  the loop grants nothing and reopens nothing.
\<close>

section \<open>Configuration\<close>

definition stale_after :: "runtime \<Rightarrow> (py_error, int) res" where
  "stale_after rt =
     (case float_of_string (getenv rt ''INCIDENT_STALE_REMEDIATION_MINUTES'' ''20.0'') of
        None \<Rightarrow> timedelta_seconds (60 * 20)
      | Some (Fin x) \<Rightarrow> timedelta_seconds (60 * max 1 x)
      | Some PosInf \<Rightarrow> Inl OverflowError
      | Some _ \<Rightarrow> timedelta_seconds 60)"

definition sweep_interval :: "runtime \<Rightarrow> flt" where
  "sweep_interval rt =
     (case float_of_string (getenv rt ''INCIDENT_RECONCILE_SECONDS'' ''300.0'') of
        None \<Rightarrow> Fin 300
      | Some (Fin x) \<Rightarrow> Fin (max 30 x)
      | Some PosInf \<Rightarrow> PosInf
      | Some _ \<Rightarrow> Fin 30)"

section \<open>Silence\<close>

text \<open>\<open>datetime.min\<close>, and the aggregate \<open>max\<close> of a query, which is null on no rows.\<close>

definition DATETIME_MIN :: int where
  "DATETIME_MIN = seconds (- 62135596800)"

definition max_of :: "int list \<Rightarrow> int option" where
  "max_of ts = (case ts of [] \<Rightarrow> None | t # ts \<Rightarrow> Some (foldl max t ts))"

definition last_activity_at :: "int option \<Rightarrow> int option \<Rightarrow> int option \<Rightarrow> int option \<Rightarrow> int" where
  "last_activity_at created_at timeline_at decided_at manifest_at =
     (case max_of (List.map_filter id [created_at, timeline_at, decided_at, manifest_at]) of
        None \<Rightarrow> DATETIME_MIN | Some t \<Rightarrow> t)"

definition is_interrupted :: "int \<Rightarrow> int \<Rightarrow> int \<Rightarrow> bool" where
  "is_interrupted last_activity now threshold = (threshold < now - last_activity)"

text \<open>\<open>int(d.total_seconds() // 60)\<close>.\<close>

definition whole_minutes :: "int \<Rightarrow> int" where
  "whole_minutes d = d div seconds 60"

datatype notice = InterruptedNotice string int | LapsedNotice string int

definition interrupted_message :: "string \<Rightarrow> int \<Rightarrow> notice" where
  "interrupted_message title silent_for = InterruptedNotice title (whole_minutes silent_for)"

definition lapsed_message :: "string \<Rightarrow> int \<Rightarrow> notice" where
  "lapsed_message title lapsed_for = LapsedNotice title (whole_minutes lapsed_for)"

section \<open>State and environment\<close>

record reconcile_db =
  rc_db :: lifecycle_db
  rc_manifests :: "(int \<times> int) list"
  rc_notices :: "(int \<times> notice) list"

text \<open>The write of a timeline event succeeds, fails, or fails in a way that expires the row objects of the
  session, so that reading an attribute of one raises. \<open>re_next_ok\<close> tells for an incident whether the
  session still serves the next candidate after a rollback or a failed write on its behalf.\<close>

datatype event_outcome = EventStored | EventLost | EventExpired

record reconcile_env =
  re_rt :: runtime
  re_event :: "int \<Rightarrow> event_outcome"
  re_event_at :: "int \<Rightarrow> int"
  re_posted :: "int \<Rightarrow> notice \<Rightarrow> bool"
  re_next_ok :: "int \<Rightarrow> bool"

datatype sweep_error = SessionError | ConfigError py_error

record interrupted_remediation =
  im_incident_id :: int
  im_title :: string
  im_last_activity :: int
  im_silent_for :: int
  im_new_status :: incident_status
  im_slack_notified :: bool

record lapsed_approval =
  la_incident_id :: int
  la_title :: string
  la_expires_at :: int
  la_lapsed_for :: int
  la_new_status :: incident_status
  la_slack_notified :: bool

text \<open>What became of one candidate: another transaction was first; the row is retired and nothing else is to
  be done; claimed, with whether the event was stored; or the sweep raised.\<close>

datatype 'r claim_outcome = ClaimLost | ClaimQuiet | Claimed 'r bool | ClaimRaised

definition tables :: "reconcile_db \<Rightarrow> approval_db" where
  "tables rc = lb_tables (rc_db rc)"

definition with_tables :: "approval_db \<Rightarrow> reconcile_db \<Rightarrow> reconcile_db" where
  "with_tables t rc = rc\<lparr>rc_db := (rc_db rc)\<lparr>lb_tables := t\<rparr>\<rparr>"

text \<open>The timeline event and the message that follow a claim.\<close>

definition announce :: "reconcile_env \<Rightarrow> int \<Rightarrow> string \<Rightarrow> notice \<Rightarrow> (bool \<Rightarrow> 'r) \<Rightarrow> reconcile_db \<Rightarrow> 'r claim_outcome \<times> reconcile_db" where
  "announce re i event_type message result rc =
     (case re_event re i of
        EventExpired \<Rightarrow> (ClaimRaised, rc)
      | outcome \<Rightarrow>
          (let stored = (outcome = EventStored);
               rc' = (if stored then rc\<lparr>rc_db := create_timeline_event i (OtherEvent event_type) (re_event_at re i) (rc_db rc)\<rparr> else rc)
           in (Claimed (result (re_posted re i message)) stored, rc'\<lparr>rc_notices := rc_notices rc @ [(i, message)]\<rparr>)))"

fun claim_results :: "'r claim_outcome \<Rightarrow> 'r list" where
  "claim_results (Claimed r _) = [r]"
| "claim_results _ = []"

fun session_serves :: "bool \<Rightarrow> 'r claim_outcome \<Rightarrow> bool" where
  "session_serves ok ClaimLost = ok"
| "session_serves ok ClaimQuiet = True"
| "session_serves ok (Claimed _ stored) = (stored \<or> ok)"
| "session_serves ok ClaimRaised = False"

text \<open>The loop over the candidates. \<open>others n\<close> is what other transactions commit before the n-th claim. A session
  that serves no more statements raises at the next candidate.\<close>

fun claim_loop :: "('c \<Rightarrow> reconcile_db \<Rightarrow> 'r claim_outcome \<times> reconcile_db) \<Rightarrow> ('c \<Rightarrow> bool) \<Rightarrow> (nat \<Rightarrow> lifecycle_db \<Rightarrow> lifecycle_db)
    \<Rightarrow> nat \<Rightarrow> 'c list \<Rightarrow> 'r list \<Rightarrow> reconcile_db \<Rightarrow> (sweep_error, 'r list) res \<times> reconcile_db" where
  "claim_loop claim ok others n [] acc rc = (Inr acc, rc)"
| "claim_loop claim ok others n (c # cs) acc rc =
     (let (r, rc') = claim c (rc\<lparr>rc_db := others n (rc_db rc)\<rparr>)
      in if r = ClaimRaised \<or> (cs \<noteq> [] \<and> \<not> session_serves (ok c) r) then (Inl SessionError, rc')
         else claim_loop claim ok others (Suc n) cs (acc @ claim_results r) rc')"

section \<open>Interrupted remediations\<close>

definition incident_activity :: "reconcile_db \<Rightarrow> incident_row \<Rightarrow> int" where
  "incident_activity rc incident =
     (let i = ir_id incident
      in last_activity_at (Some (ir_created_at incident))
           (max_of (map te_created_at (filter (\<lambda>e. te_incident_id e = i) (lb_timeline (rc_db rc)))))
           (max_of (List.map_filter ar_decided_at (filter (\<lambda>r. ar_incident_id r = i) (db_requests (tables rc)))))
           (max_of (map snd (filter (\<lambda>m. fst m = i) (rc_manifests rc)))))"

definition scan_interrupted :: "int \<Rightarrow> int \<Rightarrow> reconcile_db \<Rightarrow> (incident_row \<times> int) list" where
  "scan_interrupted now threshold rc =
     filter (\<lambda>c. is_interrupted (snd c) now threshold)
       (map (\<lambda>r. (r, incident_activity rc r))
         (filter (\<lambda>r. ir_status r = REMEDIATION_IN_PROGRESS) (db_incidents (tables rc))))"

text \<open>A compare-and-set of the status of one incident.\<close>

definition cas_status :: "int \<Rightarrow> incident_status \<Rightarrow> incident_status \<Rightarrow> approval_db \<Rightarrow> nat \<times> approval_db" where
  "cas_status i old new t =
     (let p = (\<lambda>r. ir_id r = i \<and> ir_status r = old)
      in (length (filter p (db_incidents t)), t\<lparr>db_incidents := update_where p (\<lambda>r. r\<lparr>ir_status := new\<rparr>) (db_incidents t)\<rparr>))"

definition claim_interrupted :: "reconcile_env \<Rightarrow> int \<Rightarrow> incident_row \<times> int \<Rightarrow> reconcile_db
    \<Rightarrow> interrupted_remediation claim_outcome \<times> reconcile_db" where
  "claim_interrupted re now candidate rc =
     (let (incident, activity) = candidate; i = ir_id incident;
          (count, t) = cas_status i REMEDIATION_IN_PROGRESS VERIFICATION_UNKNOWN (tables rc);
          silent_for = now - activity
      in if count \<noteq> 1 then (ClaimLost, rc)
         else announce re i ''remediation_interrupted'' (interrupted_message (ir_title incident) silent_for)
                (\<lambda>notified. \<lparr>im_incident_id = i, im_title = ir_title incident, im_last_activity = activity,
                   im_silent_for = silent_for, im_new_status = VERIFICATION_UNKNOWN, im_slack_notified = notified\<rparr>)
                (with_tables t rc))"

definition reconcile_interrupted_remediations :: "reconcile_env \<Rightarrow> (nat \<Rightarrow> lifecycle_db \<Rightarrow> lifecycle_db) \<Rightarrow> int \<Rightarrow> int option
    \<Rightarrow> reconcile_db \<Rightarrow> (sweep_error, interrupted_remediation list) res \<times> reconcile_db" where
  "reconcile_interrupted_remediations re others now threshold rc =
     (case (case threshold of Some t \<Rightarrow> Inr t | None \<Rightarrow> stale_after (re_rt re)) of
        Inl e \<Rightarrow> (Inl (ConfigError e), rc)
      | Inr t \<Rightarrow> claim_loop (claim_interrupted re now) (\<lambda>c. re_next_ok re (ir_id (fst c))) others 0 (scan_interrupted now t rc) [] rc)"

section \<open>Lapsed approvals\<close>

definition lapsed :: "int \<Rightarrow> approval_request \<Rightarrow> bool" where
  "lapsed now r = (ar_status r = PENDING \<and> ar_expires_at r \<le> now)"

definition scan_lapsed :: "int \<Rightarrow> approval_db \<Rightarrow> (approval_request \<times> incident_row) list" where
  "scan_lapsed now t = [(q, i). q \<leftarrow> db_requests t, lapsed now q, i \<leftarrow> db_incidents t, ir_id i = ar_incident_id q]"

definition expire_request :: "int \<Rightarrow> approval_request \<Rightarrow> approval_request" where
  "expire_request now r = r\<lparr>ar_status := EXPIRED, ar_decided_at := Some now\<rparr>"

definition claim_lapsed :: "reconcile_env \<Rightarrow> int \<Rightarrow> approval_request \<times> incident_row \<Rightarrow> reconcile_db
    \<Rightarrow> lapsed_approval claim_outcome \<times> reconcile_db" where
  "claim_lapsed re now candidate rc =
     (let (request, incident) = candidate; i = ir_id incident;
          (count, rows) = cas_request (ar_id request) (expire_request now) (db_requests (tables rc));
          retired = (tables rc)\<lparr>db_requests := rows\<rparr>;
          still_open = list_ex (\<lambda>r. ar_incident_id r = i \<and> ar_status r = PENDING) rows;
          (moved, t) = (if still_open then (0, retired) else cas_status i AWAITING_APPROVAL INVESTIGATED retired);
          lapsed_for = now - ar_expires_at request
      in if count \<noteq> 1 then (ClaimLost, rc)
         else if moved \<noteq> 1 then (ClaimQuiet, with_tables t rc)
         else announce re i ''approval_expired'' (lapsed_message (ir_title incident) lapsed_for)
                (\<lambda>notified. \<lparr>la_incident_id = i, la_title = ir_title incident, la_expires_at = ar_expires_at request,
                   la_lapsed_for = lapsed_for, la_new_status = INVESTIGATED, la_slack_notified = notified\<rparr>)
                (with_tables t rc))"

definition reconcile_lapsed_approvals :: "reconcile_env \<Rightarrow> (nat \<Rightarrow> lifecycle_db \<Rightarrow> lifecycle_db) \<Rightarrow> int
    \<Rightarrow> reconcile_db \<Rightarrow> (sweep_error, lapsed_approval list) res \<times> reconcile_db" where
  "reconcile_lapsed_approvals re others now rc =
     claim_loop (claim_lapsed re now) (\<lambda>c. re_next_ok re (ir_id (snd c))) others 0 (scan_lapsed now (tables rc)) [] rc"

section \<open>The loop\<close>

text \<open>One round: each sweep catches its own exceptions. A round has the clock readings of its three sweeps and
  what other transactions do during the first two.\<close>

record round =
  rd_clock :: "int \<times> int \<times> int"
  rd_others :: "(nat \<Rightarrow> lifecycle_db \<Rightarrow> lifecycle_db) \<times> (nat \<Rightarrow> lifecycle_db \<Rightarrow> lifecycle_db)"

definition reconcile_round :: "reconcile_env \<Rightarrow> sweep_env \<Rightarrow> round \<Rightarrow> reconcile_db \<Rightarrow> reconcile_db" where
  "reconcile_round re se rd rc =
     (let (t1, t2, t3) = rd_clock rd;
          rc1 = snd (reconcile_interrupted_remediations re (fst (rd_others rd)) t1 None rc);
          rc2 = snd (reconcile_lapsed_approvals re (snd (rd_others rd)) t2 rc1)
      in case confirmation_delay (se_rt se) of
           Inl _ \<Rightarrow> rc2
         | Inr confirm_after \<Rightarrow> rc2\<lparr>rc_db := snd (reconcile_missed_alert_resolutions se t3 confirm_after (rc_db rc2))\<rparr>)"

text \<open>The rounds until the stop event is set.\<close>

definition reconcile_loop :: "reconcile_env \<Rightarrow> sweep_env \<Rightarrow> round list \<Rightarrow> reconcile_db \<Rightarrow> reconcile_db" where
  "reconcile_loop re se rounds rc = fold (reconcile_round re se) rounds rc"

text \<open>The module's task: whether the stop event is set and whether a task was started and is still running.\<close>

datatype task = NoTask | Running | Ended

record task_state =
  ts_stop :: bool
  ts_task :: task

definition start_reconciler :: "runtime \<Rightarrow> task_state \<Rightarrow> bool \<times> task_state" where
  "start_reconciler rt st =
     (if lower (getenv rt ''INCIDENT_RECONCILER_ENABLED'' ''true'') \<notin> {''1'', ''true'', ''yes''} then (False, st)
      else (True, \<lparr>ts_stop = False, ts_task = Running\<rparr>))"

text \<open>The wait for the task ends after five seconds with its cancellation.\<close>

definition stop_reconciler :: "task_state \<Rightarrow> task_state" where
  "stop_reconciler st = \<lparr>ts_stop = True, ts_task = (if ts_task st = NoTask then NoTask else Ended)\<rparr>"

section \<open>Replicas\<close>

text \<open>The claims of any number of replicas and the transactions of everything else, in any order.\<close>

datatype replica_event =
    ClaimInterrupted reconcile_env int "incident_row \<times> int"
  | ClaimLapsed reconcile_env int "approval_request \<times> incident_row"
  | Foreign "lifecycle_db \<Rightarrow> lifecycle_db"

fun replica_step :: "replica_event \<Rightarrow> reconcile_db \<Rightarrow> reconcile_db" where
  "replica_step (ClaimInterrupted re now c) rc = snd (claim_interrupted re now c rc)"
| "replica_step (ClaimLapsed re now c) rc = snd (claim_lapsed re now c rc)"
| "replica_step (Foreign f) rc = rc\<lparr>rc_db := f (rc_db rc)\<rparr>"

definition has_status :: "int \<Rightarrow> incident_status \<Rightarrow> reconcile_db \<Rightarrow> bool" where
  "has_status i s rc = list_ex (\<lambda>r. ir_id r = i \<and> ir_status r = s) (db_incidents (tables rc))"

fun is_interrupted_notice :: "notice \<Rightarrow> bool" where
  "is_interrupted_notice (InterruptedNotice _ _) = True"
| "is_interrupted_notice (LapsedNotice _ _) = False"

definition notices_of :: "bool \<Rightarrow> int \<Rightarrow> reconcile_db \<Rightarrow> nat" where
  "notices_of interrupted i rc = length (filter (\<lambda>(j, m). j = i \<and> is_interrupted_notice m = interrupted) (rc_notices rc))"

text \<open>How often a run enters a condition.\<close>

fun entries :: "('e \<Rightarrow> 's \<Rightarrow> 's) \<Rightarrow> ('s \<Rightarrow> bool) \<Rightarrow> 'e list \<Rightarrow> 's \<Rightarrow> nat" where
  "entries step armed [] s = 0"
| "entries step armed (e # es) s = (if \<not> armed s \<and> armed (step e s) then 1 else 0) + entries step armed es (step e s)"

text \<open>The contract of a claim: who tells leaves the condition with the same step.\<close>

locale claimed_once =
  fixes step :: "'e \<Rightarrow> 's \<Rightarrow> 's" and armed :: "'s \<Rightarrow> bool" and told :: "'s \<Rightarrow> nat"
  assumes tells_once: "told (step e s) = told s \<or> armed s \<and> \<not> armed (step e s) \<and> told (step e s) = Suc (told s)"
begin

lemma told_bounded: "told (fold step es s) \<le> told s + (if armed s then 1 else 0) + entries step armed es s"
proof (induction es arbitrary: s)
  case (Cons e es)
  have "told (fold step es (step e s)) \<le> told (step e s) + (if armed (step e s) then 1 else 0) + entries step armed es (step e s)"
    by (rule Cons.IH)
  then show ?case using tells_once [of e s] by (auto split: if_splits)
qed simp

end

section \<open>Lemmas\<close>

lemma tables_simps [simp]:
  "tables (with_tables t rc) = t" "tables (rc\<lparr>rc_notices := ns\<rparr>) = tables rc"
  "tables (rc\<lparr>rc_db := create_timeline_event i ty tm (rc_db rc)\<rparr>) = tables rc"
  "tables (rc\<lparr>rc_db := db\<rparr>) = lb_tables db"
  by (simp_all add: tables_def with_tables_def)

lemma with_tables_frame [simp]:
  "rc_notices (with_tables t rc) = rc_notices rc" "rc_manifests (with_tables t rc) = rc_manifests rc"
  "lb_timeline (rc_db (with_tables t rc)) = lb_timeline (rc_db rc)" "lb_jobs (rc_db (with_tables t rc)) = lb_jobs (rc_db rc)"
  by (simp_all add: with_tables_def)

lemma announce_simps:
  "tables (snd (announce re i ty m f rc)) = tables rc"
  "rc_notices (snd (announce re i ty m f rc)) = (if re_event re i = EventExpired then rc_notices rc else rc_notices rc @ [(i, m)])"
  "rc_manifests (snd (announce re i ty m f rc)) = rc_manifests rc"
  by (cases "re_event re i"; simp add: announce_def Let_def)+

lemma cas_status_frame [simp]:
  "db_requests (snd (cas_status i old new t)) = db_requests t" "db_gates (snd (cas_status i old new t)) = db_gates t"
  "db_clusters (snd (cas_status i old new t)) = db_clusters t"
  by (simp_all add: cas_status_def Let_def)

lemma update_where_clears: "(\<And>r. p r \<Longrightarrow> \<not> p (f r)) \<Longrightarrow> \<not> list_ex p (update_where p f xs)"
  by (induction xs) (auto simp: update_where_def)

lemma has_status_cas:
  assumes "old \<noteq> new"
  shows "\<not> list_ex (\<lambda>r. ir_id r = i \<and> ir_status r = old) (db_incidents (snd (cas_status i old new t)))"
  unfolding cas_status_def Let_def by (simp, rule update_where_clears) (simp add: assms [symmetric])

lemma cas_status_count: "fst (cas_status i old new t) = 1 \<Longrightarrow> list_ex (\<lambda>r. ir_id r = i \<and> ir_status r = old) (db_incidents t)"
  by (cases "filter (\<lambda>r. ir_id r = i \<and> ir_status r = old) (db_incidents t)")
     (auto simp: cas_status_def Let_def list_ex_iff dest: filter_eq_ConsD)

lemma claim_interrupted_cases:
  obtains (lost) "claim_interrupted re now c rc = (ClaimLost, rc)"
  | (won) f where "fst (cas_status (ir_id (fst c)) REMEDIATION_IN_PROGRESS VERIFICATION_UNKNOWN (tables rc)) = 1"
      "claim_interrupted re now c rc =
         announce re (ir_id (fst c)) ''remediation_interrupted'' (interrupted_message (ir_title (fst c)) (now - snd c)) f
           (with_tables (snd (cas_status (ir_id (fst c)) REMEDIATION_IN_PROGRESS VERIFICATION_UNKNOWN (tables rc))) rc)"
proof (cases "fst (cas_status (ir_id (fst c)) REMEDIATION_IN_PROGRESS VERIFICATION_UNKNOWN (tables rc)) = 1")
  case True
  show thesis by (rule won [OF True]) (use True in \<open>simp add: claim_interrupted_def Let_def split_def\<close>)
next
  case False
  show thesis by (rule lost) (use False in \<open>simp add: claim_interrupted_def Let_def split_def\<close>)
qed

definition lapse_rows :: "int \<Rightarrow> approval_request \<Rightarrow> approval_db \<Rightarrow> approval_request list" where
  "lapse_rows now q t = update_where (\<lambda>r. ar_id r = ar_id q \<and> ar_status r = PENDING) (expire_request now) (db_requests t)"

definition open_request :: "int \<Rightarrow> approval_request list \<Rightarrow> bool" where
  "open_request i rows = list_ex (\<lambda>r. ar_incident_id r = i \<and> ar_status r = PENDING) rows"

lemma claim_lapsed_cases:
  fixes q i now rc
  defines "rows \<equiv> lapse_rows now q (tables rc)"
  defines "t \<equiv> (tables rc)\<lparr>db_requests := rows\<rparr>"
  obtains (lost) "length (filter (\<lambda>r. ar_id r = ar_id q \<and> ar_status r = PENDING) (db_requests (tables rc))) \<noteq> 1"
      "claim_lapsed re now (q, i) rc = (ClaimLost, rc)"
  | (kept) "open_request (ir_id i) rows" "claim_lapsed re now (q, i) rc = (ClaimQuiet, with_tables t rc)"
  | (still) "\<not> open_request (ir_id i) rows" "fst (cas_status (ir_id i) AWAITING_APPROVAL INVESTIGATED t) \<noteq> 1"
      "claim_lapsed re now (q, i) rc = (ClaimQuiet, with_tables (snd (cas_status (ir_id i) AWAITING_APPROVAL INVESTIGATED t)) rc)"
  | (moved) f where "\<not> open_request (ir_id i) rows" "fst (cas_status (ir_id i) AWAITING_APPROVAL INVESTIGATED t) = 1"
      "claim_lapsed re now (q, i) rc =
         announce re (ir_id i) ''approval_expired'' (lapsed_message (ir_title i) (now - ar_expires_at q)) f
           (with_tables (snd (cas_status (ir_id i) AWAITING_APPROVAL INVESTIGATED t)) rc)"
proof -
  let ?n = "length (filter (\<lambda>r. ar_id r = ar_id q \<and> ar_status r = PENDING) (db_requests (tables rc)))"
  let ?cas = "cas_status (ir_id i) AWAITING_APPROVAL INVESTIGATED t"
  note unfolds = claim_lapsed_def Let_def split_def cas_request_def rows_def t_def lapse_rows_def open_request_def
  consider "?n \<noteq> 1" | "?n = 1" "open_request (ir_id i) rows" | "?n = 1" "\<not> open_request (ir_id i) rows" "fst ?cas \<noteq> 1"
    | "?n = 1" "\<not> open_request (ir_id i) rows" "fst ?cas = 1" by blast
  then show thesis
  proof cases
    case 1
    show thesis by (rule lost [OF 1]) (use 1 in \<open>simp add: unfolds\<close>)
  next
    case 2
    show thesis by (rule kept [OF 2(2)]) (use 2 in \<open>simp add: unfolds\<close>)
  next
    case 3
    show thesis by (rule still [OF 3(2,3)]) (use 3 in \<open>simp add: unfolds\<close>)
  next
    case 4
    show thesis by (rule moved [OF 4(2,3)]) (use 4 in \<open>simp add: unfolds\<close>)
  qed
qed

lemma notices_of_append:
  "notices_of b i (rc\<lparr>rc_notices := rc_notices rc' @ [(j, m)]\<rparr>) =
     notices_of b i rc' + (if j = i \<and> is_interrupted_notice m = b then 1 else 0)"
  by (simp add: notices_of_def)

lemma notices_announce:
  "notices_of b i (snd (announce re j ty m f rc)) =
     notices_of b i rc + (if re_event re j \<noteq> EventExpired \<and> j = i \<and> is_interrupted_notice m = b then 1 else 0)"
  by (simp add: notices_of_def announce_simps)

lemma notices_frame [simp]:
  "notices_of b i (with_tables t rc) = notices_of b i rc" "notices_of b i (rc\<lparr>rc_db := db\<rparr>) = notices_of b i rc"
  by (simp_all add: notices_of_def)

lemma has_status_simps [simp]:
  "has_status i s (snd (announce re j ty m f rc)) = has_status i s rc"
  "has_status i s (with_tables t rc) = list_ex (\<lambda>r. ir_id r = i \<and> ir_status r = s) (db_incidents t)"
  by (simp_all add: has_status_def announce_simps)

lemma claim_interrupted_tells:
  shows "notices_of False i (snd (claim_interrupted re now c rc)) = notices_of False i rc"
    and "notices_of True i (snd (claim_interrupted re now c rc)) = notices_of True i rc
       \<or> has_status i REMEDIATION_IN_PROGRESS rc \<and> \<not> has_status i REMEDIATION_IN_PROGRESS (snd (claim_interrupted re now c rc))
         \<and> notices_of True i (snd (claim_interrupted re now c rc)) = Suc (notices_of True i rc)"
proof -
  have "notices_of False i (snd (claim_interrupted re now c rc)) = notices_of False i rc
    \<and> (notices_of True i (snd (claim_interrupted re now c rc)) = notices_of True i rc
       \<or> has_status i REMEDIATION_IN_PROGRESS rc \<and> \<not> has_status i REMEDIATION_IN_PROGRESS (snd (claim_interrupted re now c rc))
         \<and> notices_of True i (snd (claim_interrupted re now c rc)) = Suc (notices_of True i rc))"
  proof (cases rule: claim_interrupted_cases [where re = re and now = now and c = c and rc = rc])
    case (won f)
    have "has_status (ir_id (fst c)) REMEDIATION_IN_PROGRESS rc"
      using cas_status_count [OF won(1)] by (simp only: has_status_def)
    moreover have "\<not> has_status (ir_id (fst c)) REMEDIATION_IN_PROGRESS (snd (claim_interrupted re now c rc))"
      unfolding won(2) has_status_simps by (rule has_status_cas) simp
    ultimately show ?thesis
      by (cases "ir_id (fst c) = i") (simp_all add: won(2) notices_announce interrupted_message_def)
  qed simp
  then show "notices_of False i (snd (claim_interrupted re now c rc)) = notices_of False i rc"
    and "notices_of True i (snd (claim_interrupted re now c rc)) = notices_of True i rc
       \<or> has_status i REMEDIATION_IN_PROGRESS rc \<and> \<not> has_status i REMEDIATION_IN_PROGRESS (snd (claim_interrupted re now c rc))
         \<and> notices_of True i (snd (claim_interrupted re now c rc)) = Suc (notices_of True i rc)"
    by blast+
qed

lemma claim_lapsed_tells:
  shows "notices_of True j (snd (claim_lapsed re now (q, i) rc)) = notices_of True j rc"
    and "notices_of False j (snd (claim_lapsed re now (q, i) rc)) = notices_of False j rc
       \<or> has_status j AWAITING_APPROVAL rc \<and> \<not> has_status j AWAITING_APPROVAL (snd (claim_lapsed re now (q, i) rc))
         \<and> notices_of False j (snd (claim_lapsed re now (q, i) rc)) = Suc (notices_of False j rc)"
proof -
  have "notices_of True j (snd (claim_lapsed re now (q, i) rc)) = notices_of True j rc
    \<and> (notices_of False j (snd (claim_lapsed re now (q, i) rc)) = notices_of False j rc
       \<or> has_status j AWAITING_APPROVAL rc \<and> \<not> has_status j AWAITING_APPROVAL (snd (claim_lapsed re now (q, i) rc))
         \<and> notices_of False j (snd (claim_lapsed re now (q, i) rc)) = Suc (notices_of False j rc))"
  proof (cases rule: claim_lapsed_cases [where re = re and now = now and q = q and i = i and rc = rc])
    case (moved f)
    have "has_status (ir_id i) AWAITING_APPROVAL rc"
      using cas_status_count [OF moved(2)] by (simp add: has_status_def)
    moreover have "\<not> has_status (ir_id i) AWAITING_APPROVAL (snd (claim_lapsed re now (q, i) rc))"
      unfolding moved(3) has_status_simps by (rule has_status_cas) simp
    ultimately show ?thesis
      by (cases "ir_id i = j") (simp_all add: moved(3) notices_announce lapsed_message_def)
  qed simp_all
  then show "notices_of True j (snd (claim_lapsed re now (q, i) rc)) = notices_of True j rc"
    and "notices_of False j (snd (claim_lapsed re now (q, i) rc)) = notices_of False j rc
       \<or> has_status j AWAITING_APPROVAL rc \<and> \<not> has_status j AWAITING_APPROVAL (snd (claim_lapsed re now (q, i) rc))
         \<and> notices_of False j (snd (claim_lapsed re now (q, i) rc)) = Suc (notices_of False j rc)"
    by blast+
qed

interpretation interrupted: claimed_once replica_step "has_status i REMEDIATION_IN_PROGRESS" "notices_of True i" for i
proof
  fix e s
  show "notices_of True i (replica_step e s) = notices_of True i s
      \<or> has_status i REMEDIATION_IN_PROGRESS s \<and> \<not> has_status i REMEDIATION_IN_PROGRESS (replica_step e s)
        \<and> notices_of True i (replica_step e s) = Suc (notices_of True i s)"
    by (cases e) (simp_all add: claim_lapsed_tells(1) claim_interrupted_tells(2) split_paired_all)
qed

interpretation lapsing: claimed_once replica_step "has_status i AWAITING_APPROVAL" "notices_of False i" for i
proof
  fix e s
  show "notices_of False i (replica_step e s) = notices_of False i s
      \<or> has_status i AWAITING_APPROVAL s \<and> \<not> has_status i AWAITING_APPROVAL (replica_step e s)
        \<and> notices_of False i (replica_step e s) = Suc (notices_of False i s)"
    by (cases e) (simp_all add: claim_interrupted_tells(1) claim_lapsed_tells(2) split_paired_all)
qed

subsection \<open>What the sweeps move\<close>

definition stranded :: "int \<Rightarrow> int \<Rightarrow> reconcile_db \<Rightarrow> incident_row \<Rightarrow> bool" where
  "stranded now threshold rc r = (ir_status r = REMEDIATION_IN_PROGRESS \<and> threshold < now - incident_activity rc r)"

lemma scan_interrupted_eq:
  "map fst (scan_interrupted now threshold rc) = filter (stranded now threshold rc) (db_incidents (tables rc))"
  by (simp add: scan_interrupted_def filter_map o_def stranded_def [abs_def] is_interrupted_def conj_commute)

lemma announce_stored:
  "re_event re i = EventStored \<Longrightarrow> fst (announce re i ty m f rc) = Claimed (f (re_posted re i m)) True"
  by (simp add: announce_def Let_def)

lemma filter_unique: "distinct (map rid xs) \<Longrightarrow> x \<in> set xs \<Longrightarrow> p x \<Longrightarrow> filter (\<lambda>r. rid r = rid x \<and> p r) xs = [x]"
proof -
  assume d: "distinct (map rid xs)" "x \<in> set xs" "p x"
  have "filter (\<lambda>r. rid r = rid x \<and> p r) xs = filter p (filter (\<lambda>r. rid r = rid x) xs)" by (simp add: conj_commute)
  then show ?thesis using filter_id_single [OF d(1,2)] d(3) by simp
qed

lemma claim_interrupted_wins:
  assumes "re_event re (ir_id r) = EventStored" "distinct (map ir_id (db_incidents (tables rc)))"
    and "r \<in> set (db_incidents (tables rc))" "ir_status r = REMEDIATION_IN_PROGRESS"
  shows "\<exists>x. fst (claim_interrupted re now (r, a) rc) = Claimed x True \<and> im_incident_id x = ir_id r"
    and "tables (snd (claim_interrupted re now (r, a) rc)) = (tables rc)\<lparr>db_incidents :=
           map (\<lambda>q. if q = r then r\<lparr>ir_status := VERIFICATION_UNKNOWN\<rparr> else q) (db_incidents (tables rc))\<rparr>"
    and "map fst (rc_notices (snd (claim_interrupted re now (r, a) rc))) = map fst (rc_notices rc) @ [ir_id r]"
proof -
  let ?t = "tables rc"
  have one: "fst (cas_status (ir_id r) REMEDIATION_IN_PROGRESS VERIFICATION_UNKNOWN ?t) = 1"
    using filter_unique [OF assms(2,3), of "\<lambda>q. ir_status q = REMEDIATION_IN_PROGRESS"] assms(4) by (simp add: cas_status_def Let_def)
  have same: "q = r" if "q \<in> set (db_incidents ?t)" "ir_id q = ir_id r" for q
    using distinct_id [OF assms(2,3)] that by simp
  have moved: "snd (cas_status (ir_id r) REMEDIATION_IN_PROGRESS VERIFICATION_UNKNOWN ?t) = ?t\<lparr>db_incidents :=
      map (\<lambda>q. if q = r then r\<lparr>ir_status := VERIFICATION_UNKNOWN\<rparr> else q) (db_incidents ?t)\<rparr>"
    using assms(4) same by (auto simp: cas_status_def Let_def update_where_def)
  note eq = claim_interrupted_def Let_def split_def
  show "\<exists>x. fst (claim_interrupted re now (r, a) rc) = Claimed x True \<and> im_incident_id x = ir_id r"
    using one by (simp add: eq announce_stored assms(1))
  show "tables (snd (claim_interrupted re now (r, a) rc)) = ?t\<lparr>db_incidents :=
      map (\<lambda>q. if q = r then r\<lparr>ir_status := VERIFICATION_UNKNOWN\<rparr> else q) (db_incidents ?t)\<rparr>"
    using one by (simp add: eq announce_simps moved)
  show "map fst (rc_notices (snd (claim_interrupted re now (r, a) rc))) = map fst (rc_notices rc) @ [ir_id r]"
    using one by (simp add: eq announce_simps assms(1))
qed

lemma interrupted_loop:
  assumes "\<And>i. re_event re i = EventStored" "distinct (map ir_id (db_incidents (tables rc)))"
    and "distinct (map (ir_id \<circ> fst) cs)"
    and "\<And>r a. (r, a) \<in> set cs \<Longrightarrow> r \<in> set (db_incidents (tables rc)) \<and> ir_status r = REMEDIATION_IN_PROGRESS"
  shows "\<exists>xs rc'. claim_loop (claim_interrupted re now) ok (\<lambda>_ db. db) n cs acc rc = (Inr (acc @ xs), rc')
    \<and> tables rc' = (tables rc)\<lparr>db_incidents :=
         map (\<lambda>r. if r \<in> fst ` set cs then r\<lparr>ir_status := VERIFICATION_UNKNOWN\<rparr> else r) (db_incidents (tables rc))\<rparr>
    \<and> map fst (rc_notices rc') = map fst (rc_notices rc) @ map (ir_id \<circ> fst) cs
    \<and> map im_incident_id xs = map (ir_id \<circ> fst) cs"
  using assms(2-4)
proof (induction cs arbitrary: n acc rc)
  case Nil
  then show ?case by simp
next
  case (Cons c cs)
  obtain r a where c: "c = (r, a)" by (cases c)
  have r: "r \<in> set (db_incidents (tables rc))" "ir_status r = REMEDIATION_IN_PROGRESS" using Cons.prems(3) c by auto
  note won = claim_interrupted_wins [OF assms(1) Cons.prems(1) r, of now a]
  obtain x rc1 where step: "claim_interrupted re now (r, a) rc = (Claimed x True, rc1)" "im_incident_id x = ir_id r"
    using won(1) by (metis prod.collapse)
  have t1: "tables rc1 = (tables rc)\<lparr>db_incidents :=
      map (\<lambda>q. if q = r then r\<lparr>ir_status := VERIFICATION_UNKNOWN\<rparr> else q) (db_incidents (tables rc))\<rparr>"
    and n1: "map fst (rc_notices rc1) = map fst (rc_notices rc) @ [ir_id r]"
    using won(2,3) step(1) by simp_all
  have ids: "map ir_id (db_incidents (tables rc1)) = map ir_id (db_incidents (tables rc))" by (simp add: t1)
  have other: "q \<in> set (db_incidents (tables rc1)) \<and> ir_status q = REMEDIATION_IN_PROGRESS" if "(q, b) \<in> set cs" for q b
  proof
    have q: "q \<in> set (db_incidents (tables rc))" and s: "ir_status q = REMEDIATION_IN_PROGRESS"
      using Cons.prems(3) [of q b] that by auto
    have "ir_id r \<notin> set (map (ir_id \<circ> fst) cs)" using Cons.prems(2) by (simp add: c)
    moreover have "ir_id q \<in> set (map (ir_id \<circ> fst) cs)" unfolding set_map by (rule image_eqI [OF _ that]) simp
    ultimately have "q \<noteq> r" by auto
    then show "q \<in> set (db_incidents (tables rc1))" using q by (simp add: t1)
    show "ir_status q = REMEDIATION_IN_PROGRESS" by (rule s)
  qed
  have new: "r\<lparr>ir_status := VERIFICATION_UNKNOWN\<rparr> \<notin> fst ` set cs" using Cons.prems(3) by (force simp: c)
  have "map (\<lambda>q. if q \<in> fst ` set cs then q\<lparr>ir_status := VERIFICATION_UNKNOWN\<rparr> else q) (db_incidents (tables rc1))
      = map (\<lambda>q. if q \<in> fst ` set (c # cs) then q\<lparr>ir_status := VERIFICATION_UNKNOWN\<rparr> else q) (db_incidents (tables rc))"
    using new by (simp add: t1 c)
  moreover obtain xs rc' where "claim_loop (claim_interrupted re now) ok (\<lambda>_ db. db) (Suc n) cs (acc @ [x]) rc1 = (Inr ((acc @ [x]) @ xs), rc')"
    "tables rc' = (tables rc1)\<lparr>db_incidents :=
       map (\<lambda>q. if q \<in> fst ` set cs then q\<lparr>ir_status := VERIFICATION_UNKNOWN\<rparr> else q) (db_incidents (tables rc1))\<rparr>"
    "map fst (rc_notices rc') = map fst (rc_notices rc1) @ map (ir_id \<circ> fst) cs" "map im_incident_id xs = map (ir_id \<circ> fst) cs"
    using Cons.IH [of rc1 "Suc n" "acc @ [x]"] Cons.prems(1,2) ids other by auto
  ultimately show ?case using step n1 by (auto simp: c t1)
qed

text \<open>The tables once the requests with identifiers in \<open>S\<close> are retired: an incident that waits has moved when
  one of its requests was retired and none is open any more.\<close>

definition settled :: "approval_request list \<Rightarrow> int set \<Rightarrow> incident_row \<Rightarrow> bool" where
  "settled reqs S i = (ir_status i = AWAITING_APPROVAL
     \<and> (\<exists>q \<in> set reqs. ar_incident_id q = ir_id i \<and> ar_id q \<in> S)
     \<and> (\<forall>q \<in> set reqs. ar_incident_id q = ir_id i \<longrightarrow> ar_status q = PENDING \<longrightarrow> ar_id q \<in> S))"

definition retired_tables :: "int \<Rightarrow> approval_db \<Rightarrow> int set \<Rightarrow> approval_db" where
  "retired_tables now t S = t\<lparr>db_requests := map (\<lambda>r. if ar_id r \<in> S then expire_request now r else r) (db_requests t),
     db_incidents := map (\<lambda>i. if settled (db_requests t) S i then i\<lparr>ir_status := INVESTIGATED\<rparr> else i) (db_incidents t)\<rparr>"

lemma retired_tables_fields [simp]:
  "db_requests (retired_tables now t S) = map (\<lambda>r. if ar_id r \<in> S then expire_request now r else r) (db_requests t)"
  "db_incidents (retired_tables now t S) = map (\<lambda>i. if settled (db_requests t) S i then i\<lparr>ir_status := INVESTIGATED\<rparr> else i) (db_incidents t)"
  by (simp_all add: retired_tables_def)

lemma expire_request_fields [simp]:
  "ar_id (expire_request now r) = ar_id r" "ar_incident_id (expire_request now r) = ar_incident_id r"
  "ar_status (expire_request now r) = EXPIRED"
  by (simp_all add: expire_request_def)

lemma retired_none: "retired_tables now t {} = t"
proof -
  have "\<not> settled (db_requests t) {} i" for i by (simp add: settled_def)
  then show ?thesis by (simp add: retired_tables_def)
qed

text \<open>A candidate whose turn it is after those in \<open>S\<close>.\<close>

definition next_lapsed :: "approval_db \<Rightarrow> int set \<Rightarrow> approval_request \<Rightarrow> incident_row \<Rightarrow> bool" where
  "next_lapsed t S q i = (distinct (map ar_id (db_requests t)) \<and> distinct (map ir_id (db_incidents t))
     \<and> q \<in> set (db_requests t) \<and> ar_status q = PENDING \<and> ar_id q \<notin> S \<and> i \<in> set (db_incidents t) \<and> ir_id i = ar_incident_id q)"

lemma next_lapsedD:
  assumes "next_lapsed t S q i"
  shows "q \<in> set (db_requests t)" "ar_status q = PENDING" "ar_id q \<notin> S" "i \<in> set (db_incidents t)" "ir_id i = ar_incident_id q"
    and "\<And>r. r \<in> set (db_requests t) \<Longrightarrow> ar_id r = ar_id q \<longleftrightarrow> r = q"
    and "\<And>j. j \<in> set (db_incidents t) \<Longrightarrow> ir_id j = ir_id i \<longleftrightarrow> j = i"
  using assms distinct_id [of ar_id "db_requests t" q] distinct_id [of ir_id "db_incidents t" i] by (auto simp: next_lapsed_def)

lemma lapse_rows_step:
  assumes "next_lapsed t S q i"
  shows "lapse_rows now q (retired_tables now t S) = db_requests (retired_tables now t (insert (ar_id q) S))"
  using next_lapsedD [OF assms] by (auto simp: lapse_rows_def update_where_def)

lemma one_request:
  assumes "next_lapsed t S q i"
  shows "length (filter (\<lambda>r. ar_id r = ar_id q \<and> ar_status r = PENDING) (db_requests (retired_tables now t S))) = 1"
proof -
  have "distinct (map ar_id (db_requests (retired_tables now t S)))"
    using assms by (simp add: next_lapsed_def o_def if_distrib cong: if_cong)
  moreover have "q \<in> set (db_requests (retired_tables now t S))" using next_lapsedD(1,3) [OF assms] by force
  ultimately show ?thesis
    by (simp add: filter_unique [where rid = ar_id and p = "\<lambda>r. ar_status r = PENDING"] next_lapsedD(2) [OF assms])
qed

lemma settled_other:
  assumes "next_lapsed t S q i" "j \<in> set (db_incidents t)" "j \<noteq> i"
  shows "settled (db_requests t) (insert (ar_id q) S) j = settled (db_requests t) S j"
  using next_lapsedD(5-7) [OF assms(1)] assms(2,3) unfolding settled_def by (metis insert_iff)

lemma not_settled_before: "next_lapsed t S q i \<Longrightarrow> \<not> settled (db_requests t) S i"
  by (auto simp: settled_def next_lapsed_def)

lemma settled_now:
  assumes "next_lapsed t S q i"
  shows "settled (db_requests t) (insert (ar_id q) S) i \<longleftrightarrow>
    ir_status i = AWAITING_APPROVAL \<and> \<not> open_request (ir_id i) (db_requests (retired_tables now t (insert (ar_id q) S)))"
  using next_lapsedD(1,5) [OF assms] by (auto simp: settled_def open_request_def list_ex_iff)

text \<open>The incident of the candidate moves when it is settled now.\<close>

lemma cas_status_settled:
  assumes n: "next_lapsed t S q i"
    and closed: "\<not> open_request (ir_id i) (db_requests (retired_tables now t (insert (ar_id q) S)))"
  defines "t1 \<equiv> (retired_tables now t S)\<lparr>db_requests := db_requests (retired_tables now t (insert (ar_id q) S))\<rparr>"
  shows "snd (cas_status (ir_id i) AWAITING_APPROVAL INVESTIGATED t1) = retired_tables now t (insert (ar_id q) S)"
    and "fst (cas_status (ir_id i) AWAITING_APPROVAL INVESTIGATED t1) = 1 \<longleftrightarrow> settled (db_requests t) (insert (ar_id q) S) i"
proof -
  let ?S = "insert (ar_id q) S" and ?s = "settled (db_requests t)"
  let ?f = "\<lambda>j. if ?s S j then j\<lparr>ir_status := INVESTIGATED\<rparr> else j"
  note d = next_lapsedD [OF n]
  have upd: "(if ir_id (?f j) = ir_id i \<and> ir_status (?f j) = AWAITING_APPROVAL then (?f j)\<lparr>ir_status := INVESTIGATED\<rparr> else ?f j)
      = (if ?s ?S j then j\<lparr>ir_status := INVESTIGATED\<rparr> else j)" if "j \<in> set (db_incidents t)" for j
  proof (cases "j = i")
    case True
    then show ?thesis using not_settled_before [OF n] settled_now [OF n, of now] closed by simp
  next
    case False
    then have "ir_id j \<noteq> ir_id i" using d(7) [OF that] by simp
    then show ?thesis using settled_other [OF n that False] by simp
  qed
  show "snd (cas_status (ir_id i) AWAITING_APPROVAL INVESTIGATED t1) = retired_tables now t ?S"
    using upd by (simp add: t1_def cas_status_def Let_def update_where_def retired_tables_def)
  have ids: "map ir_id (db_incidents t1) = map ir_id (db_incidents t)" by (simp add: t1_def)
  have mem: "i \<in> set (db_incidents t1)" using d(4) not_settled_before [OF n] by (force simp: t1_def)
  have dist: "distinct (map ir_id (db_incidents t1))" using n by (simp only: ids next_lapsed_def)
  show "fst (cas_status (ir_id i) AWAITING_APPROVAL INVESTIGATED t1) = 1 \<longleftrightarrow> ?s ?S i"
  proof (cases "ir_status i = AWAITING_APPROVAL")
    case True
    then show ?thesis
      using filter_unique [OF dist mem, of "\<lambda>r. ir_status r = AWAITING_APPROVAL"] settled_now [OF n, of now] closed
      by (simp add: cas_status_def Let_def)
  next
    case False
    then have "filter (\<lambda>r. ir_id r = ir_id i \<and> ir_status r = AWAITING_APPROVAL) (db_incidents t1) = []"
      using distinct_id [OF dist mem] by (auto simp: filter_empty_conv)
    then show ?thesis using False by (simp add: cas_status_def Let_def settled_def)
  qed
qed

lemma claim_lapsed_step:
  assumes n: "next_lapsed t S q i" and rc: "tables rc = retired_tables now t S" and ev: "re_event re (ir_id i) = EventStored"
  defines "S' \<equiv> insert (ar_id q) S"
  shows "tables (snd (claim_lapsed re now (q, i) rc)) = retired_tables now t S'"
    and "map fst (rc_notices (snd (claim_lapsed re now (q, i) rc))) =
           map fst (rc_notices rc) @ (if settled (db_requests t) S' i then [ir_id i] else [])"
    and "if settled (db_requests t) S' i
         then \<exists>x. fst (claim_lapsed re now (q, i) rc) = Claimed x True \<and> la_incident_id x = ir_id i
         else fst (claim_lapsed re now (q, i) rc) = ClaimQuiet"
proof -
  let ?rows = "db_requests (retired_tables now t S')" and ?t1 = "(retired_tables now t S)\<lparr>db_requests := db_requests (retired_tables now t S')\<rparr>"
  let ?cas = "cas_status (ir_id i) AWAITING_APPROVAL INVESTIGATED ?t1"
  note cas = cas_status_settled [OF n, folded S'_def]
  note eq = claim_lapsed_def Let_def split_def cas_request_def rc one_request [OF n, unfolded One_nat_def] lapse_rows_step [OF n, unfolded lapse_rows_def, folded S'_def]
    open_request_def [symmetric]
  have "tables (snd (claim_lapsed re now (q, i) rc)) = retired_tables now t S'
    \<and> map fst (rc_notices (snd (claim_lapsed re now (q, i) rc))) =
        map fst (rc_notices rc) @ (if settled (db_requests t) S' i then [ir_id i] else [])
    \<and> (if settled (db_requests t) S' i
       then \<exists>x. fst (claim_lapsed re now (q, i) rc) = Claimed x True \<and> la_incident_id x = ir_id i
       else fst (claim_lapsed re now (q, i) rc) = ClaimQuiet)"
  proof (cases "open_request (ir_id i) ?rows")
    case True
    then have no: "\<not> settled (db_requests t) S' i" using settled_now [OF n, of now] by (simp add: S'_def)
    have "?t1 = retired_tables now t S'"
    proof -
      have "settled (db_requests t) S' j = settled (db_requests t) S j" if "j \<in> set (db_incidents t)" for j
        using settled_other [OF n that] not_settled_before [OF n] no unfolding S'_def by blast
      then show ?thesis by (simp add: retired_tables_def)
    qed
    then show ?thesis using True no by (simp add: eq del: retired_tables_fields)
  next
    case False
    then show ?thesis
      using cas [OF False] by (cases "settled (db_requests t) S' i")
        (simp_all add: eq announce_simps announce_stored ev del: retired_tables_fields)
  qed
  then show "tables (snd (claim_lapsed re now (q, i) rc)) = retired_tables now t S'"
    and "map fst (rc_notices (snd (claim_lapsed re now (q, i) rc))) =
           map fst (rc_notices rc) @ (if settled (db_requests t) S' i then [ir_id i] else [])"
    and "if settled (db_requests t) S' i
         then \<exists>x. fst (claim_lapsed re now (q, i) rc) = Claimed x True \<and> la_incident_id x = ir_id i
         else fst (claim_lapsed re now (q, i) rc) = ClaimQuiet" by blast+
qed

lemma settled_mono: "settled reqs S i \<Longrightarrow> S \<subseteq> S' \<Longrightarrow> settled reqs S' i"
  by (auto simp: settled_def)

text \<open>Incidents that move between two stages.\<close>

definition newly_settled :: "approval_db \<Rightarrow> int set \<Rightarrow> int set \<Rightarrow> incident_row set" where
  "newly_settled t S E = {i \<in> set (db_incidents t). settled (db_requests t) E i \<and> \<not> settled (db_requests t) S i}"

lemma newly_settled_step:
  assumes "next_lapsed t S q i" "insert (ar_id q) S \<subseteq> E"
  shows "newly_settled t S E =
    (if settled (db_requests t) (insert (ar_id q) S) i then insert i (newly_settled t (insert (ar_id q) S) E)
     else newly_settled t (insert (ar_id q) S) E)"
    and "settled (db_requests t) (insert (ar_id q) S) i \<Longrightarrow> ir_id i \<notin> ir_id ` newly_settled t (insert (ar_id q) S) E"
proof -
  note d = next_lapsedD [OF assms(1)]
  have "j \<in> newly_settled t S E \<longleftrightarrow> j \<in> (if settled (db_requests t) (insert (ar_id q) S) i
      then insert i (newly_settled t (insert (ar_id q) S) E) else newly_settled t (insert (ar_id q) S) E)" for j
    using settled_other [OF assms(1), of j] not_settled_before [OF assms(1)] d(4) settled_mono [OF _ assms(2), of "db_requests t"]
    by (cases "j = i") (auto simp: newly_settled_def)
  then show "newly_settled t S E = (if settled (db_requests t) (insert (ar_id q) S) i
      then insert i (newly_settled t (insert (ar_id q) S) E) else newly_settled t (insert (ar_id q) S) E)" by blast
  show "ir_id i \<notin> ir_id ` newly_settled t (insert (ar_id q) S) E" if "settled (db_requests t) (insert (ar_id q) S) i"
    using that d(7) by (force simp: newly_settled_def)
qed

lemma lapsed_loop:
  assumes ev: "\<And>i. re_event re i = EventStored"
    and "\<And>q i. (q, i) \<in> set cs \<Longrightarrow> next_lapsed t S q i" "distinct (map (ar_id \<circ> fst) cs)" "tables rc = retired_tables now t S"
  shows "\<exists>xs rc'. claim_loop (claim_lapsed re now) ok (\<lambda>_ db. db) n cs acc rc = (Inr (acc @ xs), rc')
    \<and> tables rc' = retired_tables now t (S \<union> ar_id ` fst ` set cs)
    \<and> map fst (rc_notices rc') = map fst (rc_notices rc) @ map la_incident_id xs
    \<and> distinct (map la_incident_id xs)
    \<and> la_incident_id ` set xs = ir_id ` newly_settled t S (S \<union> ar_id ` fst ` set cs)"
  using assms(2-)
proof (induction cs arbitrary: S n acc rc)
  case Nil
  then show ?case by (auto simp: newly_settled_def)
next
  case (Cons c cs)
  obtain q i where c: "c = (q, i)" by (cases c)
  let ?S = "insert (ar_id q) S" and ?E = "S \<union> ar_id ` fst ` set (c # cs)"
  have n: "next_lapsed t S q i" using Cons.prems(1) c by simp
  have E: "?S \<union> ar_id ` fst ` set cs = ?E" by (auto simp: c)
  have rest: "next_lapsed t ?S q' i'" if "(q', i') \<in> set cs" for q' i'
  proof -
    have "ar_id q' \<in> set (map (ar_id \<circ> fst) cs)" unfolding set_map by (rule image_eqI [OF _ that]) simp
    moreover have "ar_id q \<notin> set (map (ar_id \<circ> fst) cs)" using Cons.prems(2) by (simp add: c)
    ultimately have "ar_id q' \<noteq> ar_id q" by metis
    then show ?thesis using Cons.prems(1) [of q' i'] that by (simp add: next_lapsed_def)
  qed
  note step = claim_lapsed_step [OF n Cons.prems(3) ev]
  let ?r = "fst (claim_lapsed re now (q, i) rc)" and ?rc1 = "snd (claim_lapsed re now (q, i) rc)"
  obtain xs rc' where ih: "claim_loop (claim_lapsed re now) ok (\<lambda>_ db. db) (Suc n) cs (acc @ claim_results ?r) ?rc1
        = (Inr ((acc @ claim_results ?r) @ xs), rc')"
      "tables rc' = retired_tables now t ?E"
      "map fst (rc_notices rc') = map fst (rc_notices ?rc1) @ map la_incident_id xs"
      "distinct (map la_incident_id xs)" "la_incident_id ` set xs = ir_id ` newly_settled t ?S ?E"
    using Cons.IH [of ?S ?rc1 "Suc n" "acc @ claim_results ?r", OF rest] Cons.prems(2) step(1) unfolding E by auto
  have ids: "map la_incident_id (claim_results ?r) = (if settled (db_requests t) ?S i then [ir_id i] else [])"
    and serves: "?r \<noteq> ClaimRaised" "session_serves ok' ?r" for ok'
    using step(3) by (auto split: if_splits)
  have "claim_loop (claim_lapsed re now) ok (\<lambda>_ db. db) n (c # cs) acc rc = (Inr (acc @ (claim_results ?r @ xs)), rc')"
    using ih(1) serves by (simp add: c split_def)
  moreover have "distinct (map la_incident_id (claim_results ?r @ xs))
      \<and> la_incident_id ` set (claim_results ?r @ xs) = ir_id ` newly_settled t S ?E"
  proof -
    have "la_incident_id ` set (claim_results ?r) = (if settled (db_requests t) ?S i then {ir_id i} else {})"
      using arg_cong [OF ids, of set] by (simp split: if_splits)
    moreover have sub: "?S \<subseteq> ?E" by (auto simp: c)
    note ns = newly_settled_step [OF n sub]
    ultimately show ?thesis
      using ids ih(4,5) ns by (cases "settled (db_requests t) ?S i") (simp_all only: map_append distinct_append set_append image_Un set_map, auto)
  qed
  ultimately show ?case using ih(2,3) step(2) ids by (intro exI [of _ "claim_results ?r @ xs"] exI [of _ rc']) simp
qed

lemma scan_lapsed_eq:
  assumes "distinct (map ir_id (db_incidents t))" "(q, i) \<in> set (scan_lapsed now t)"
  shows "q \<in> set (db_requests t)" "lapsed now q" "i \<in> set (db_incidents t)" "ir_id i = ar_incident_id q"
  using assms by (auto simp: scan_lapsed_def)

definition has_incident :: "approval_db \<Rightarrow> approval_request \<Rightarrow> bool" where
  "has_incident t q = (ar_incident_id q \<in> ir_id ` set (db_incidents t))"

lemma scan_lapsed_fst:
  assumes "distinct (map ir_id (db_incidents t))"
  shows "map fst (scan_lapsed now t) = filter (\<lambda>q. lapsed now q \<and> has_incident t q) (db_requests t)"
proof -
  define h where "h q = concat (map (\<lambda>i. if ir_id i = ar_incident_id q then [(q, i)] else []) (db_incidents t))" for q :: approval_request
  have one: "map fst (h q) = (if has_incident t q then [q] else [])" for q
  proof (cases "has_incident t q")
    case True
    then obtain i where i: "i \<in> set (db_incidents t)" "ir_id i = ar_incident_id q" by (auto simp: has_incident_def)
    have hits: "concat (map (\<lambda>j. if ir_id j = ar_incident_id q then [(q, j)] else []) xs) = map (Pair q) (filter (\<lambda>j. ir_id j = ir_id i) xs)" for xs
      by (induction xs) (auto simp: i(2))
    show ?thesis unfolding h_def hits filter_id_single [OF assms i(1)] using True by simp
  next
    case False
    then have "concat (map (\<lambda>j. if ir_id j = ar_incident_id q then [(q, j)] else []) (db_incidents t)) = []"
      by (auto simp: has_incident_def image_iff)
    then show ?thesis using False by (simp add: h_def)
  qed
  have none: "\<not> has_incident t q \<Longrightarrow> h q = []" for q using one [of q] by simp
  have "map fst (concat (map (\<lambda>q. if lapsed now q then h q else []) xs)) = filter (\<lambda>q. lapsed now q \<and> has_incident t q) xs" for xs
    by (induction xs) (auto simp: one none)
  from this [of "db_requests t"] show ?thesis by (simp only: scan_lapsed_def h_def)
qed

text \<open>An incident whose last open offer lapses.\<close>

definition lapses :: "int \<Rightarrow> approval_db \<Rightarrow> incident_row \<Rightarrow> bool" where
  "lapses now t i = (ir_status i = AWAITING_APPROVAL
     \<and> (\<exists>q \<in> set (db_requests t). ar_incident_id q = ir_id i \<and> lapsed now q)
     \<and> (\<forall>q \<in> set (db_requests t). ar_incident_id q = ir_id i \<longrightarrow> ar_status q = PENDING \<longrightarrow> lapsed now q))"

section \<open>Properties\<close>

text \<open>The sweep for dead remediations moves exactly the stranded ones. With no other transaction in between
  and every event write going through, an incident row changes only from in progress to
  verification unknown, and it does so exactly when the latest of its creation, its timeline
  events, its approval decisions and its run manifests lies longer ago than the threshold; nothing else
  in the tables changes, and each incident that moved is reported and announced once.\<close>

theorem interrupted_sweep_spec:
  assumes "distinct (map ir_id (db_incidents (tables rc)))" "\<And>i. re_event re i = EventStored"
  shows "\<exists>xs rc'. reconcile_interrupted_remediations re (\<lambda>_ db. db) now (Some threshold) rc = (Inr xs, rc')
    \<and> tables rc' = (tables rc)\<lparr>db_incidents :=
        map (\<lambda>r. if stranded now threshold rc r then r\<lparr>ir_status := VERIFICATION_UNKNOWN\<rparr> else r) (db_incidents (tables rc))\<rparr>
    \<and> map im_incident_id xs = map ir_id (filter (stranded now threshold rc) (db_incidents (tables rc)))
    \<and> map fst (rc_notices rc') = map fst (rc_notices rc) @ map im_incident_id xs"
proof -
  let ?cs = "scan_interrupted now threshold rc" and ?rows = "db_incidents (tables rc)"
  have ids: "map (ir_id \<circ> fst) ?cs = map ir_id (filter (stranded now threshold rc) ?rows)"
    by (metis map_map scan_interrupted_eq)
  have fsts: "fst ` set ?cs = set (filter (stranded now threshold rc) ?rows)" by (metis set_map scan_interrupted_eq)
  have "distinct (map (ir_id \<circ> fst) ?cs)" unfolding ids by (rule distinct_map_filter [OF assms(1)])
  moreover have "r \<in> set ?rows \<and> ir_status r = REMEDIATION_IN_PROGRESS" if "(r, a) \<in> set ?cs" for r a
    using imageI [OF that, of fst] unfolding fsts by (simp add: stranded_def)
  ultimately obtain xs rc' where l: "claim_loop (claim_interrupted re now) (\<lambda>c. re_next_ok re (ir_id (fst c))) (\<lambda>_ db. db) 0 ?cs [] rc = (Inr ([] @ xs), rc')"
    "tables rc' = (tables rc)\<lparr>db_incidents := map (\<lambda>r. if r \<in> fst ` set ?cs then r\<lparr>ir_status := VERIFICATION_UNKNOWN\<rparr> else r) ?rows\<rparr>"
    "map fst (rc_notices rc') = map fst (rc_notices rc) @ map (ir_id \<circ> fst) ?cs" "map im_incident_id xs = map (ir_id \<circ> fst) ?cs"
    using interrupted_loop [OF assms(2) assms(1), of ?cs now "\<lambda>c. re_next_ok re (ir_id (fst c))" 0 "[]"] by blast
  have "map (\<lambda>r. if r \<in> fst ` set ?cs then r\<lparr>ir_status := VERIFICATION_UNKNOWN\<rparr> else r) ?rows
      = map (\<lambda>r. if stranded now threshold rc r then r\<lparr>ir_status := VERIFICATION_UNKNOWN\<rparr> else r) ?rows"
    by (simp add: fsts)
  then show ?thesis using l by (auto simp: reconcile_interrupted_remediations_def ids)
qed

text \<open>C22. The sweep for lapsed approvals, likewise: a request expires exactly when it is pending, past its
  deadline and has an incident; an incident moves from awaiting approval to investigated exactly when
  such a request expired and no other request of it is pending; and each incident that moved is reported
  and announced once.\<close>

theorem lapsed_sweep_spec:
  assumes "distinct (map ar_id (db_requests (tables rc)))" "distinct (map ir_id (db_incidents (tables rc)))"
    and "\<And>i. re_event re i = EventStored"
  shows "\<exists>xs rc'. reconcile_lapsed_approvals re (\<lambda>_ db. db) now rc = (Inr xs, rc')
    \<and> tables rc' = (tables rc)\<lparr>
        db_requests := map (\<lambda>r. if lapsed now r \<and> has_incident (tables rc) r then expire_request now r else r) (db_requests (tables rc)),
        db_incidents := map (\<lambda>i. if lapses now (tables rc) i then i\<lparr>ir_status := INVESTIGATED\<rparr> else i) (db_incidents (tables rc))\<rparr>
    \<and> distinct (map la_incident_id xs)
    \<and> la_incident_id ` set xs = ir_id ` {i \<in> set (db_incidents (tables rc)). lapses now (tables rc) i}
    \<and> map fst (rc_notices rc') = map fst (rc_notices rc) @ map la_incident_id xs"
proof -
  let ?t = "tables rc" and ?cs = "scan_lapsed now (tables rc)"
  let ?E = "ar_id ` fst ` set ?cs"
  have fsts: "fst ` set ?cs = {q \<in> set (db_requests ?t). lapsed now q \<and> has_incident ?t q}"
    using arg_cong [OF scan_lapsed_fst [OF assms(2), of now], of set] by auto
  have E: "ar_id r \<in> ?E \<longleftrightarrow> lapsed now r \<and> has_incident ?t r" if "r \<in> set (db_requests ?t)" for r
    unfolding fsts using distinct_id [OF assms(1) that] that by auto
  have settled: "settled (db_requests ?t) ?E i = lapses now ?t i" if "i \<in> set (db_incidents ?t)" for i
    unfolding settled_def lapses_def using E that by (auto simp: has_incident_def lapsed_def)
  have "next_lapsed ?t {} q i" if "(q, i) \<in> set ?cs" for q i
    using scan_lapsed_eq [OF assms(2) that] assms(1,2) by (simp add: next_lapsed_def lapsed_def)
  moreover have "distinct (map (ar_id \<circ> fst) ?cs)"
    unfolding map_map [symmetric] scan_lapsed_fst [OF assms(2)] by (rule distinct_map_filter [OF assms(1)])
  ultimately obtain xs rc' where l: "claim_loop (claim_lapsed re now) (\<lambda>c. re_next_ok re (ir_id (snd c))) (\<lambda>_ db. db) 0 ?cs [] rc = (Inr ([] @ xs), rc')"
    "tables rc' = retired_tables now ?t ({} \<union> ?E)" "map fst (rc_notices rc') = map fst (rc_notices rc) @ map la_incident_id xs"
    "distinct (map la_incident_id xs)" "la_incident_id ` set xs = ir_id ` newly_settled ?t {} ({} \<union> ?E)"
    using lapsed_loop [OF assms(3), of ?cs ?t "{}" rc now "\<lambda>c. re_next_ok re (ir_id (snd c))" 0 "[]"] by (auto simp: retired_none)
  have "newly_settled ?t {} ?E = {i \<in> set (db_incidents ?t). lapses now ?t i}"
    using settled by (auto simp: newly_settled_def settled_def [of _ "{}"])
  moreover have "retired_tables now ?t ?E = ?t\<lparr>
      db_requests := map (\<lambda>r. if lapsed now r \<and> has_incident ?t r then expire_request now r else r) (db_requests ?t),
      db_incidents := map (\<lambda>i. if lapses now ?t i then i\<lparr>ir_status := INVESTIGATED\<rparr> else i) (db_incidents ?t)\<rparr>"
    using E settled by (simp add: retired_tables_def)
  ultimately show ?thesis using l by (simp add: reconcile_lapsed_approvals_def)
qed

text \<open>Every sweep is a run of claims and foreign transactions.\<close>

lemma claim_loop_run:
  assumes "\<And>c rc. snd (claim c rc) = replica_step (ev c) rc"
  shows "\<exists>es. snd (claim_loop claim ok others n cs acc rc) = fold replica_step es rc"
proof (induction cs arbitrary: n acc rc)
  case Nil
  show ?case by (rule exI [of _ "[]"]) simp
next
  case (Cons c cs)
  let ?r = "fst (claim c (rc\<lparr>rc_db := others n (rc_db rc)\<rparr>))"
  have one: "snd (claim c (rc\<lparr>rc_db := others n (rc_db rc)\<rparr>)) = fold replica_step [Foreign (others n), ev c] rc"
    by (simp add: assms)
  show ?case
  proof (cases "?r = ClaimRaised \<or> (cs \<noteq> [] \<and> \<not> session_serves (ok c) ?r)")
    case True
    then have "snd (claim_loop claim ok others n (c # cs) acc rc) = fold replica_step [Foreign (others n), ev c] rc"
      using one by (simp add: split_def Let_def)
    then show ?thesis by blast
  next
    case False
    obtain es where "snd (claim_loop claim ok others (Suc n) cs (acc @ claim_results ?r) (snd (claim c (rc\<lparr>rc_db := others n (rc_db rc)\<rparr>))))
        = fold replica_step es (snd (claim c (rc\<lparr>rc_db := others n (rc_db rc)\<rparr>)))" using Cons.IH by blast
    then have "snd (claim_loop claim ok others n (c # cs) acc rc) = fold replica_step ([Foreign (others n), ev c] @ es) rc"
      using False one by (auto simp: split_def Let_def)
    then show ?thesis by blast
  qed
qed

lemma interrupted_sweep_run: "\<exists>es. snd (reconcile_interrupted_remediations re others now th rc) = fold replica_step es rc"
proof (cases "case th of Some t \<Rightarrow> Inr t | None \<Rightarrow> stale_after (re_rt re)")
  case (Inl e)
  then show ?thesis by (intro exI [of _ "[]"]) (simp add: reconcile_interrupted_remediations_def)
next
  case (Inr t)
  then show ?thesis
    using claim_loop_run [of "claim_interrupted re now" "ClaimInterrupted re now" "\<lambda>c. re_next_ok re (ir_id (fst c))" others 0
        "scan_interrupted now t rc" "[]" rc]
    by (simp add: reconcile_interrupted_remediations_def)
qed

lemma lapsed_sweep_run: "\<exists>es. snd (reconcile_lapsed_approvals re others now rc) = fold replica_step es rc"
  unfolding reconcile_lapsed_approvals_def by (rule claim_loop_run [of _ "ClaimLapsed re now"]) simp

text \<open>C21. One replica speaks. Whatever the order in which the claims of any number of replicas and arbitrary
  other transactions commit, the messages about an interrupted remediation of an incident are at most
  as many as the stays of the incident in the state of being remediated, and the messages about its
  lapsed approvals at most as many as its stays in the state of awaiting one. Every sweep, complete or
  broken off, is such a sequence.\<close>

theorem announced_once_per_stay:
  "notices_of True i (fold replica_step es rc) \<le> notices_of True i rc
      + (if has_status i REMEDIATION_IN_PROGRESS rc then 1 else 0) + entries replica_step (has_status i REMEDIATION_IN_PROGRESS) es rc
   \<and> notices_of False i (fold replica_step es rc) \<le> notices_of False i rc
      + (if has_status i AWAITING_APPROVAL rc then 1 else 0) + entries replica_step (has_status i AWAITING_APPROVAL) es rc
   \<and> (\<exists>fs. snd (reconcile_interrupted_remediations re others now threshold rc) = fold replica_step fs rc)
   \<and> (\<exists>fs. snd (reconcile_lapsed_approvals re others now rc) = fold replica_step fs rc)"
  by (intro conjI interrupted.told_bounded lapsing.told_bounded interrupted_sweep_run lapsed_sweep_run)

subsection \<open>Authority\<close>

definition keeps_authority :: "approval_db \<Rightarrow> approval_db \<Rightarrow> bool" where
  "keeps_authority t t' = ((\<forall>i. approvals_of i t' = approvals_of i t \<and> gate_approvals_of i t' = gate_approvals_of i t)
     \<and> (\<forall>r \<in> set (db_incidents t). ir_status r = RESOLVED \<longrightarrow> r \<in> set (db_incidents t')))"

lemma keeps_refl [simp]: "keeps_authority t t"
  by (simp add: keeps_authority_def)

lemma keeps_trans [trans]: "keeps_authority t u \<Longrightarrow> keeps_authority u v \<Longrightarrow> keeps_authority t v"
  by (auto simp: keeps_authority_def)

lemma update_where_keeps: "r \<in> set rows \<Longrightarrow> \<not> p r \<Longrightarrow> r \<in> set (update_where p f rows)"
  by (force simp: update_where_def)

lemma keeps_cas_status: "old \<noteq> RESOLVED \<Longrightarrow> keeps_authority t (snd (cas_status i old new t))"
  by (auto simp: keeps_authority_def approvals_of_def gate_approvals_of_def cas_status_def Let_def intro!: update_where_keeps)

lemma keeps_lapse: "keeps_authority t (t\<lparr>db_requests := lapse_rows now q t\<rparr>)"
  by (auto simp: keeps_authority_def approvals_of_def gate_approvals_of_def lapse_rows_def intro!: filter_update_where)

lemma keeps_clear:
  assumes "incident \<in> set (db_incidents (lb_tables db))"
  shows "keeps_authority (lb_tables db) (lb_tables (snd (clear_incident crashed retire_ok now incident db)))"
  using assms
proof (cases rule: clear_incident_cases [where crashed = crashed and retire_ok = retire_ok and now = now])
  case resolved
  have "keeps_authority t (snd (retire_pending_remediation_approvals i now t))" for t i
    by (auto simp: keeps_authority_def approvals_of_def gate_approvals_of_def retire_pending_remediation_approvals_def Let_def
        intro!: filter_update_where)
  moreover have "keeps_authority (lb_tables db)
      (snd (cas_incident (\<lambda>r. ir_id r = ir_id incident \<and> ir_status r = ir_status incident) now (lb_tables db)))"
    using resolved(1)
    by (auto simp: keeps_authority_def approvals_of_def gate_approvals_of_def cas_incident_def intro!: update_where_keeps)
  ultimately show ?thesis using keeps_trans unfolding resolved(4) Let_def by auto
qed simp

lemma keeps_candidate:
  "keeps_authority (lb_tables (snd state)) (lb_tables (snd (reconcile_candidate se now confirm_after c state)))"
proof -
  have "keeps_authority (lb_tables db) (lb_tables (snd (handle_resolved_alert crashed ok now cl service name db)))"
    for crashed ok cl service name db
    using keeps_clear find_active_mem by (auto simp: handle_resolved_alert_def split: option.splits)
  then show ?thesis
    by (auto simp: reconcile_candidate_def Let_def split_def split: option.splits source_state.splits)
qed

lemma keeps_missed: "keeps_authority (lb_tables db) (lb_tables (snd (reconcile_missed_alert_resolutions se now confirm_after db)))"
proof -
  have "keeps_authority (lb_tables (snd state)) (lb_tables (snd (foldl (\<lambda>state c. reconcile_candidate se now confirm_after c state) state cs)))"
    for state cs
  proof (induction cs arbitrary: state)
    case (Cons c cs)
    show ?case using keeps_trans [OF keeps_candidate Cons.IH] by simp
  qed simp
  from this [of "([], db)"] show ?thesis by (simp add: reconcile_missed_alert_resolutions_def)
qed

lemma keeps_claims:
  "keeps_authority (tables rc) (tables (snd (claim_interrupted re now c rc)))"
  "keeps_authority (tables rc) (tables (snd (claim_lapsed re now (q, i) rc)))"
proof -
  show "keeps_authority (tables rc) (tables (snd (claim_interrupted re now c rc)))"
    by (cases rule: claim_interrupted_cases [where re = re and now = now and c = c and rc = rc])
       (simp_all add: announce_simps keeps_cas_status)
  have "keeps_authority (tables rc) (snd (cas_status (ir_id i) AWAITING_APPROVAL INVESTIGATED
      ((tables rc)\<lparr>db_requests := lapse_rows now q (tables rc)\<rparr>)))"
    by (rule keeps_trans [OF keeps_lapse keeps_cas_status]) simp
  then show "keeps_authority (tables rc) (tables (snd (claim_lapsed re now (q, i) rc)))"
    by (cases rule: claim_lapsed_cases [where re = re and now = now and q = q and i = i and rc = rc])
       (simp_all add: announce_simps keeps_lapse)
qed

lemma keeps_claim_loop:
  assumes "\<And>c rc. keeps_authority (tables rc) (tables (snd (claim c rc)))"
    and "\<And>n db. keeps_authority (lb_tables db) (lb_tables (others n db))"
  shows "keeps_authority (tables rc) (tables (snd (claim_loop claim ok others n cs acc rc)))"
proof (induction cs arbitrary: n acc rc)
  case (Cons c cs)
  have "keeps_authority (tables rc) (tables (rc\<lparr>rc_db := others n (rc_db rc)\<rparr>))" using assms(2) by (simp add: tables_def)
  also note assms(1) [of "rc\<lparr>rc_db := others n (rc_db rc)\<rparr>" c]
  finally show ?case using keeps_trans [OF _ Cons.IH] by (simp add: split_def Let_def)
qed simp

text \<open>The reconciler grants nothing and reopens nothing. Through any number of rounds of the loop, as long
  as the transactions in between do so too, the approved requests and the approved gates of every
  incident stay the same and every resolved incident keeps its row.\<close>

theorem reconcile_loop_keeps_authority:
  assumes "\<And>rd n db. rd \<in> set rounds \<Longrightarrow> keeps_authority (lb_tables db) (lb_tables (fst (rd_others rd) n db))
      \<and> keeps_authority (lb_tables db) (lb_tables (snd (rd_others rd) n db))"
  shows "keeps_authority (tables rc) (tables (reconcile_loop re se rounds rc))"
  using assms unfolding reconcile_loop_def
proof (induction rounds arbitrary: rc)
  case (Cons rd rounds)
  have o: "keeps_authority (lb_tables db) (lb_tables (fst (rd_others rd) n db))"
    "keeps_authority (lb_tables db) (lb_tables (snd (rd_others rd) n db))" for n db
    using Cons.prems by simp_all
  obtain t1 t2 t3 where t: "rd_clock rd = (t1, t2, t3)" by (cases "rd_clock rd") auto
  let ?rc1 = "snd (reconcile_interrupted_remediations re (fst (rd_others rd)) t1 None rc)"
  let ?rc2 = "snd (reconcile_lapsed_approvals re (snd (rd_others rd)) t2 ?rc1)"
  have "keeps_authority (tables rc) (tables ?rc1)"
    by (simp add: reconcile_interrupted_remediations_def keeps_claim_loop [OF keeps_claims(1) o(1)] split: sum.split)
  also have "keeps_authority (tables ?rc1) (tables ?rc2)"
    unfolding reconcile_lapsed_approvals_def by (rule keeps_claim_loop [OF _ o(2)]) (simp add: keeps_claims(2) split_paired_all)
  also have "keeps_authority (tables ?rc2) (tables (reconcile_round re se rd rc))"
    using keeps_missed by (simp add: reconcile_round_def t Let_def tables_def split: sum.split)
  finally show ?case using keeps_trans [OF _ Cons.IH] Cons.prems by simp
qed simp

section \<open>A night shift\<close>

definition calm_env :: reconcile_env where
  "calm_env = \<lparr>re_rt = no_runtime, re_event = \<lambda>_. EventStored, re_event_at = \<lambda>_. seconds 3600, re_posted = \<lambda>_ _. True, re_next_ok = \<lambda>_. True\<rparr>"

definition night :: "approval_db \<Rightarrow> reconcile_db" where
  "night t = \<lparr>rc_db = \<lparr>lb_tables = t, lb_jobs = [], lb_timeline = []\<rparr>, rc_manifests = [(1, seconds 60)], rc_notices = []\<rparr>"

lemma calm_stored: "re_event calm_env i = EventStored"
  by (simp add: calm_env_def)

lemma night_ids:
  "distinct (map ir_id (db_incidents (tables (night (empty_db s)))))"
  "distinct (map ar_id (db_requests (tables (night waiting_db))))" "distinct (map ir_id (db_incidents (tables (night waiting_db))))"
  by (simp_all add: night_def tables_def empty_db_def waiting_db_def)

lemma night_stranded:
  "map (stranded (seconds 3600) (seconds 1200) (night (empty_db REMEDIATION_IN_PROGRESS))) (db_incidents (empty_db REMEDIATION_IN_PROGRESS)) = [True]"
  by code_simp

theorem interrupted_sweep_spec_witness:
  "\<exists>xs rc'. reconcile_interrupted_remediations calm_env (\<lambda>_ db. db) (seconds 3600) (Some (seconds 1200)) (night (empty_db REMEDIATION_IN_PROGRESS)) = (Inr xs, rc')
     \<and> map ir_status (db_incidents (tables rc')) = [VERIFICATION_UNKNOWN] \<and> map fst (rc_notices rc') = [1]"
  using interrupted_sweep_spec [OF night_ids(1) calm_stored, of "seconds 3600" "seconds 1200" REMEDIATION_IN_PROGRESS] night_stranded
  by (auto simp: night_def tables_def empty_db_def)

lemma night_lapses: "map (lapses (seconds 3600) waiting_db) (db_incidents waiting_db) = [True]"
  by code_simp

theorem lapsed_sweep_spec_witness:
  "\<exists>xs rc'. reconcile_lapsed_approvals calm_env (\<lambda>_ db. db) (seconds 3600) (night waiting_db) = (Inr xs, rc')
     \<and> map ir_status (db_incidents (tables rc')) = [INVESTIGATED] \<and> la_incident_id ` set xs = {1}"
  using lapsed_sweep_spec [OF night_ids(2,3) calm_stored, of "seconds 3600"] night_lapses
  by (auto simp: night_def tables_def waiting_db_def empty_db_def)

definition quiet_round :: round where
  "quiet_round = \<lparr>rd_clock = (seconds 3600, seconds 3601, seconds 3602), rd_others = (\<lambda>_ db. db, \<lambda>_ db. db)\<rparr>"

theorem reconcile_loop_keeps_authority_witness:
  "approvals_of 1 (tables (reconcile_loop calm_env quiet_sweep [quiet_round, quiet_round] (night approved_db))) = approvals_of 1 approved_db"
proof -
  have "keeps_authority (tables (night approved_db)) (tables (reconcile_loop calm_env quiet_sweep [quiet_round, quiet_round] (night approved_db)))"
    by (rule reconcile_loop_keeps_authority) (auto simp: quiet_round_def)
  then show ?thesis by (simp add: keeps_authority_def) (simp add: night_def tables_def)
qed

end
