(* ===== verification/Job_Worker.thy ===== *)
theory Job_Worker
  imports Job_Store Admission Py_Json_Text
begin

text \<open>
  The worker that claims and executes investigation jobs (\<open>src/src/sre_agent/job_worker.py\<close>). The members of a
  claimed batch run concurrently, each renewing its lease beside the investigation, and other workers
  use the same table; so the worker is a state with one phase per member, and what happens is
  a sequence of events, each one transaction or one turn of the event loop, in any order. An event that
  is not enabled leaves the state alone. The investigation itself is a parameter: what it writes to the
  table and how it ends are events. Host name, process number and clock are arguments.

  Shown here: a payload survives its way through the table; a worker starts at most as many
  investigations of a job as the job has attempts; a batch fits the free capacity; and a member that fails
  gives up its lease and touches no other job.
\<close>

section \<open>Configuration\<close>

definition worker_id :: "runtime \<Rightarrow> string \<Rightarrow> string" where
  "worker_id rt generated = (let configured = strip (getenv rt ''JOB_WORKER_ID'' []) in if configured \<noteq> [] then configured else generated)"

definition poll_interval :: "runtime \<Rightarrow> flt" where
  "poll_interval rt =
     (case float_of_string (getenv rt ''JOB_WORKER_POLL_SECONDS'' ''2'') of Some x \<Rightarrow> py_max (Fin (1 / 5)) x | None \<Rightarrow> Fin 2)"

definition batch_size :: "runtime \<Rightarrow> int" where
  "batch_size rt = (case parse_int (getenv rt ''JOB_WORKER_BATCH_SIZE'' ''2'') of Some n \<Rightarrow> max 1 n | None \<Rightarrow> 2)"

section \<open>The call of an investigation\<close>

record investigation_args =
  ia_incident_id :: int
  ia_cluster_id :: int
  ia_alert_name :: string
  ia_job_id :: int
  ia_alert_labels :: pyval
  ia_alert_annotations :: pyval
  ia_alert_starts_at :: pyval
  ia_alert_severity :: pyval
  ia_organization_id :: "string option"
  ia_admission_owner :: string

text \<open>What ends a member: the handler is unknown, the payload is malformed, the opening heartbeat or a renewal
  fails (none stands for an error of the database), or the investigation raises.\<close>

datatype worker_error =
    UnsupportedHandler pyval | PayloadError py_error | LeaseError store_error | RenewalFailed "store_error option" | RunRaised string

definition payload_uuid :: "runtime \<Rightarrow> pydict \<Rightarrow> string \<Rightarrow> (worker_error, int) res" where
  "payload_uuid rt payload k =
     (case map_of payload k of
        None \<Rightarrow> Inl (PayloadError KeyError)
      | Some v \<Rightarrow> (case parse_uuid (py_str rt v) of None \<Rightarrow> Inl (PayloadError ValueError) | Some u \<Rightarrow> Inr u))"

definition investigation_call :: "runtime \<Rightarrow> durable_job \<Rightarrow> string \<Rightarrow> (worker_error, investigation_args) res" where
  "investigation_call rt job owner =
     (let payload = dj_payload job; get = (\<lambda>k. py_dict_get payload k PNone) in
      if get ''handler'' \<noteq> PStr ''run_graph_background_saas'' then Inl (UnsupportedHandler (get ''handler''))
      else rbind (payload_uuid rt payload ''incident_id'') (\<lambda>incident_id.
        rbind (payload_uuid rt payload ''cluster_id'') (\<lambda>cluster_id.
          Inr \<lparr>ia_incident_id = incident_id, ia_cluster_id = cluster_id,
               ia_alert_name = py_str rt (py_or (get ''alert_name'') (PStr ''unknown'')), ia_job_id = dj_id job,
               ia_alert_labels = py_or (get ''alert_labels'') (PDict []),
               ia_alert_annotations = py_or (get ''alert_annotations'') (PDict []),
               ia_alert_starts_at = get ''alert_starts_at'',
               ia_alert_severity = py_or (get ''alert_severity'') (PStr ''warning''),
               ia_organization_id = map_option uuid_str (dj_organization_id job), ia_admission_owner = owner\<rparr>)))"

section \<open>State and events\<close>

datatype phase = Ready | Investigating investigation_args | Failing worker_error | Over

record worker_state =
  wk_rows :: "job_row list"
  wk_members :: "(durable_job \<times> phase) list"
  wk_calls :: "investigation_args list"
  wk_stop :: bool
  wk_running :: bool
  wk_escaped :: bool

text \<open>What does not change while the worker runs; \<open>wc_text\<close> is \<open>str(exc)\<close>.\<close>

record worker_config =
  wc_rt :: runtime
  wc_owner :: string
  wc_text :: "worker_error \<Rightarrow> string"

datatype worker_event =
    Begin nat int
  | Renew nat int bool
  | Finish nat "string option"
  | Report nat int bool
  | Claim_batch controller int "int set" int
  | Others row_event
  | Start_worker
  | Stop_worker
  | Task_ended

definition set_phase :: "nat \<Rightarrow> phase \<Rightarrow> worker_state \<Rightarrow> worker_state" where
  "set_phase k ph s = s\<lparr>wk_members := (wk_members s)[k := (fst (wk_members s ! k), ph)]\<rparr>"

text \<open>\<open>_execute_and_finalize\<close> up to the start of the investigation.\<close>

definition begin_member :: "worker_config \<Rightarrow> nat \<Rightarrow> int \<Rightarrow> worker_state \<Rightarrow> worker_state" where
  "begin_member wc k now s =
     (let job = fst (wk_members s ! k) in
      if wk_stop s then set_phase k Over s
      else case investigation_call (wc_rt wc) job (wc_owner wc) of
             Inl e \<Rightarrow> set_phase k (Failing e) s
           | Inr args \<Rightarrow>
               (case heartbeat_job (dj_id job) (wc_owner wc) (default_lease_seconds (wc_rt wc)) now (wk_rows s) of
                  Inl e \<Rightarrow> set_phase k (Failing (LeaseError e)) s
                | Inr (_, rows) \<Rightarrow> set_phase k (Investigating args) (s\<lparr>wk_rows := rows, wk_calls := wk_calls s @ [args]\<rparr>)))"

text \<open>One round of \<open>_renew_job_lease\<close>; when it raises, the investigation is cancelled.\<close>

definition renew_member :: "worker_config \<Rightarrow> nat \<Rightarrow> int \<Rightarrow> bool \<Rightarrow> worker_state \<Rightarrow> worker_state" where
  "renew_member wc k now db_up s =
     (if \<not> db_up then set_phase k (Failing (RenewalFailed None)) s
      else case heartbeat_job (dj_id (fst (wk_members s ! k))) (wc_owner wc) (default_lease_seconds (wc_rt wc)) now (wk_rows s) of
             Inl e \<Rightarrow> set_phase k (Failing (RenewalFailed (Some e))) s
           | Inr (_, rows) \<Rightarrow> s\<lparr>wk_rows := rows\<rparr>)"

text \<open>The record of a failure. An error of the job store is dropped; an error of the database escapes, ends the wait
  for the whole batch and is only logged by the loop, while the other members run on.\<close>

definition report_member :: "worker_config \<Rightarrow> nat \<Rightarrow> worker_error \<Rightarrow> int \<Rightarrow> bool \<Rightarrow> worker_state \<Rightarrow> worker_state" where
  "report_member wc k e now db_up s =
     set_phase k Over
       (if db_up then s\<lparr>wk_rows := row_after (wk_rows s) (fail_job (dj_id (fst (wk_members s ! k))) (wc_owner wc) (wc_text wc e) now (wk_rows s))\<rparr>
        else s\<lparr>wk_escaped := True\<rparr>)"

definition all_over :: "worker_state \<Rightarrow> bool" where
  "all_over s = list_all (\<lambda>m. snd m = Over) (wk_members s)"

text \<open>The head of the loop, with the admission controller as it is then. Earlier members stay listed.\<close>

definition claim_batch :: "worker_config \<Rightarrow> controller \<Rightarrow> int \<Rightarrow> int set \<Rightarrow> int \<Rightarrow> worker_state \<Rightarrow> worker_state" where
  "claim_batch wc admission stats_clock locked now s =
     (let available = as_available (fst (admission_stats None stats_clock admission)) in
      if available < 1 then s
      else case claim_jobs locked (wc_owner wc) (min (batch_size (wc_rt wc)) available) (default_lease_seconds (wc_rt wc)) now (wk_rows s) of
             Inl _ \<Rightarrow> s
           | Inr (claimed, rows) \<Rightarrow> s\<lparr>wk_rows := rows, wk_members := wk_members s @ map (\<lambda>job. (job, Ready)) claimed, wk_escaped := False\<rparr>)"

definition phase_at :: "worker_state \<Rightarrow> nat \<Rightarrow> phase option" where
  "phase_at s k = (if k < length (wk_members s) then Some (snd (wk_members s ! k)) else None)"

fun worker_step :: "worker_config \<Rightarrow> worker_event \<Rightarrow> worker_state \<Rightarrow> worker_state" where
  "worker_step wc (Begin k now) s = (if phase_at s k = Some Ready then begin_member wc k now s else s)"
| "worker_step wc (Renew k now db_up) s =
     (case phase_at s k of Some (Investigating _) \<Rightarrow> renew_member wc k now db_up s | _ \<Rightarrow> s)"
| "worker_step wc (Finish k outcome) s =
     (case phase_at s k of
        Some (Investigating _) \<Rightarrow> set_phase k (case outcome of None \<Rightarrow> Over | Some m \<Rightarrow> Failing (RunRaised m)) s
      | _ \<Rightarrow> s)"
| "worker_step wc (Report k now db_up) s =
     (case phase_at s k of Some (Failing e) \<Rightarrow> report_member wc k e now db_up s | _ \<Rightarrow> s)"
| "worker_step wc (Claim_batch admission stats_clock locked now) s =
     (if wk_running s \<and> \<not> wk_stop s \<and> (all_over s \<or> wk_escaped s) then claim_batch wc admission stats_clock locked now s else s)"
| "worker_step wc (Others e) s = s\<lparr>wk_rows := row_step e (wk_rows s)\<rparr>"
| "worker_step wc Start_worker s = s\<lparr>wk_stop := False, wk_running := True\<rparr>"
| "worker_step wc Stop_worker s = s\<lparr>wk_stop := True\<rparr>"
| "worker_step wc Task_ended s = (if wk_stop s then s\<lparr>wk_members := [], wk_running := False, wk_escaped := False\<rparr> else s)"

definition worker_run :: "worker_config \<Rightarrow> worker_event list \<Rightarrow> worker_state \<Rightarrow> worker_state" where
  "worker_run wc es s = fold (worker_step wc) es s"

text \<open>New rows get new identifiers.\<close>

fun worker_ok :: "worker_config \<Rightarrow> worker_event list \<Rightarrow> worker_state \<Rightarrow> bool" where
  "worker_ok wc [] s = True"
| "worker_ok wc (e # es) s = ((case e of Others f \<Rightarrow> row_ok f (wk_rows s) | _ \<Rightarrow> True) \<and> worker_ok wc es (worker_step wc e s))"

definition idle_worker :: "job_row list \<Rightarrow> worker_state" where
  "idle_worker rows = \<lparr>wk_rows = rows, wk_members = [], wk_calls = [], wk_stop = False, wk_running = False, wk_escaped = False\<rparr>"

section \<open>Enqueueing\<close>

definition enqueue_and_kick :: "runtime \<Rightarrow> int \<Rightarrow> int \<Rightarrow> int \<Rightarrow> int option \<Rightarrow> int \<Rightarrow> alert_fields \<Rightarrow> string option \<Rightarrow> worker_config
    \<Rightarrow> worker_state \<Rightarrow> (store_error, job_row) res \<times> worker_state" where
  "enqueue_and_kick rt new_id now cluster_id organization_id incident_id a idempotency_key wc s =
     (let payload = encode_investigation_payload incident_id cluster_id a;
          key = (case idempotency_key of None \<Rightarrow> investigation_idempotency_key incident_id
                 | Some k \<Rightarrow> (if k = [] then investigation_idempotency_key incident_id else k))
      in case enqueue_investigation rt new_id now cluster_id organization_id incident_id payload (Some key) None (wk_rows s) of
           Inl e \<Rightarrow> (Inl e, s)
         | Inr (job, rows) \<Rightarrow>
             (let s' = s\<lparr>wk_rows := rows\<rparr>
              in (Inr job, if lower (getenv rt ''JOB_WORKER_ENABLED'' ''true'') \<in> {''1'', ''true'', ''yes''}
                           then worker_step wc Start_worker s' else s')))"

section \<open>Lemmas\<close>

text \<open>Every access of a member to the table is an operation of the store.\<close>

definition attempts_of :: "job_row list \<Rightarrow> int \<Rightarrow> int" where
  "attempts_of rows i = (case get_row rows i of None \<Rightarrow> 0 | Some r \<Rightarrow> jr_attempt_count r)"

definition calls_of :: "int \<Rightarrow> worker_state \<Rightarrow> nat" where
  "calls_of i s = length (filter (\<lambda>a. ia_job_id a = i) (wk_calls s))"

definition waiting_of :: "int \<Rightarrow> worker_state \<Rightarrow> nat" where
  "waiting_of i s = length (filter (\<lambda>m. dj_id (fst m) = i \<and> snd m = Ready) (wk_members s))"

lemma all_inv_step: "sql_jobs.all_inv rows \<Longrightarrow> row_ok e rows \<Longrightarrow> sql_jobs.all_inv (row_step e rows)"
  by (rule sql_jobs.step_inv)

lemma row_step_distinct:
  assumes "distinct (map jr_id rows)" "row_ok e rows"
  shows "distinct (map jr_id (row_step e rows))"
  using assms(2)
proof (cases rule: row_step_cases)
  case (mapped g)
  then show ?thesis using assms(1) by (simp add: row_fun_def o_def)
next
  case (inserted r)
  have "jr_id r \<notin> jr_id ` set rows"
    using inserted(2) by (auto simp: get_row_def lookup_by_def find_None_iff)
  then show ?thesis using assms(1) inserted(1) by simp
qed

lemma attempts_mono:
  assumes "row_ok e rows" "sql_jobs.all_inv rows"
  shows "attempts_of rows i \<le> attempts_of (row_step e rows) i"
proof (cases "get_row rows i")
  case (Some r)
  obtain r' where "get_row (row_step e rows) i = Some r'" "life_steps (row_clock e) (row_life r) (row_life r')"
    using row_step_refines [OF assms(1) Some] by blast
  then show ?thesis using Some life_steps_frame [of "row_clock e" "row_life r" "row_life r'"]
    by (simp add: attempts_of_def row_life_def)
next
  case None
  have "0 \<le> jr_attempt_count r" if "get_row (row_step e rows) i = Some r" for r
    using all_inv_row [OF all_inv_step [OF assms(2,1)] that] by (simp add: life_inv_def row_life_def)
  then show ?thesis using None by (simp add: attempts_of_def split: option.split)
qed

definition table_ok :: "job_row list \<Rightarrow> bool" where
  "table_ok rows = (distinct (map jr_id rows) \<and> sql_jobs.all_inv rows)"

lemma table_ok_step: "table_ok rows \<Longrightarrow> row_ok e rows \<Longrightarrow> table_ok (row_step e rows)"
  by (simp add: table_ok_def row_step_distinct all_inv_step)

lemma heartbeat_step: "heartbeat_job i w n now rows = Inr (j, rows') \<Longrightarrow> rows' = row_step (Row_heartbeat i w n now) rows"
  by (simp add: row_after_def)

lemma claim_step: "claim_jobs locked w limit n now rows = Inr (js, rows') \<Longrightarrow> rows' = row_step (Row_claim locked w limit n now) rows"
  by (simp add: row_after_def)

lemma set_phase_fields [simp]:
  "wk_rows (set_phase k ph s) = wk_rows s" "wk_calls (set_phase k ph s) = wk_calls s" "wk_stop (set_phase k ph s) = wk_stop s"
  "length (wk_members (set_phase k ph s)) = length (wk_members s)"
  by (simp_all add: set_phase_def)

lemma phase_at_Some: "phase_at s k = Some ph \<longleftrightarrow> k < length (wk_members s) \<and> snd (wk_members s ! k) = ph"
  by (simp add: phase_at_def)

lemma length_filter_update:
  "k < length xs \<Longrightarrow> length (filter p (xs[k := y])) + (if p (xs ! k) then 1 else 0) = length (filter p xs) + (if p y then 1 else 0)"
proof (induction xs arbitrary: k)
  case (Cons x xs)
  then show ?case by (cases k) auto
qed simp

lemma waiting_set_phase:
  assumes "k < length (wk_members s)" "ph \<noteq> Ready"
  shows "waiting_of i (set_phase k ph s) + (if dj_id (fst (wk_members s ! k)) = i \<and> snd (wk_members s ! k) = Ready then 1 else 0)
    = waiting_of i s"
  using length_filter_update [OF assms(1), of "\<lambda>m. dj_id (fst m) = i \<and> snd m = Ready" "(fst (wk_members s ! k), ph)"] assms(2)
  by (simp add: waiting_of_def set_phase_def)

lemma calls_set_phase [simp]: "calls_of i (set_phase k ph s) = calls_of i s"
  by (simp add: calls_of_def)

lemma waiting_rows [simp]: "waiting_of i (s\<lparr>wk_rows := rows\<rparr>) = waiting_of i s" "calls_of i (s\<lparr>wk_rows := rows\<rparr>) = calls_of i s"
  by (simp_all add: waiting_of_def calls_of_def)

lemma investigation_call_id: "investigation_call rt job owner = Inr args \<Longrightarrow> ia_job_id args = dj_id job"
  by (auto simp: investigation_call_def Let_def rbind_eq_Inr split: if_splits)

text \<open>The jobs of a batch are distinct and each used one more attempt.\<close>

lemma distinct_chosen:
  assumes "distinct (map jr_id rows)"
  shows "distinct (map jr_id (chosen_rows locked limit now rows))"
proof -
  have swept: "map jr_id (swept_rows now rows) = map jr_id rows" by (simp add: swept_rows_def reclaim_expired_leases_def)
  have d: "distinct (swept_rows now rows)" using assms swept by (metis distinct_map)
  have "distinct (chosen_rows locked limit now rows)"
    unfolding chosen_rows_def claim_candidates_def by (intro distinct_take distinct_fair_order distinct_filter) (simp add: d)
  moreover have "set (chosen_rows locked limit now rows) \<subseteq> set (swept_rows now rows)"
    using chosen_rows_claimable by blast
  ultimately show ?thesis using assms swept by (metis distinct_map inj_on_subset)
qed

lemma get_row_mem: "distinct (map jr_id rows) \<Longrightarrow> r \<in> set rows \<Longrightarrow> get_row rows (jr_id r) = Some r"
  by (induction rows) (auto simp: get_row_def lookup_by_def)

lemma attempts_claimed:
  assumes d: "distinct (map jr_id rows)" and claim: "claim_jobs locked w limit n now rows = Inr (jobs, rows')"
    and job: "job \<in> set jobs"
  shows "attempts_of rows' (dj_id job) = attempts_of rows (dj_id job) + 1"
proof -
  note c = claim_jobs_result [OF claim]
  obtain s where s: "s \<in> set (chosen_rows locked limit now rows)" "job = to_record (lease_row w n now s)" using job c by auto
  then obtain r where r: "r \<in> set rows" "s = sweep_row now (reclaim_row now r)"
    using chosen_rows_claimable [OF s(1)] by (auto simp: swept_rows_def reclaim_expired_leases_def)
  have i: "dj_id job = jr_id r" by (simp add: s(2) r(2) to_record_def)
  have "get_row rows' (jr_id r) = Some (lease_row w n now s)"
    using c s(1) get_row_mem [OF d r(1)] by (simp add: get_row_map claim_row_def r(2) Let_def)
  moreover have "jr_attempt_count s = jr_attempt_count r" by (simp add: r(2) sweep_row_def reclaim_row_def)
  ultimately show ?thesis using get_row_mem [OF d r(1)] by (simp add: attempts_of_def i lease_row_def)
qed

lemma length_filter_distinct: "distinct (map f xs) \<Longrightarrow> length (filter (\<lambda>x. f x = i) xs) = (if i \<in> f ` set xs then 1 else 0)"
  by (induction xs) (auto simp: image_iff)

lemma claimed_ids:
  assumes "claim_jobs locked w limit n now rows = Inr (jobs, rows')"
  shows "map dj_id jobs = map jr_id (chosen_rows locked limit now rows)"
  using claim_jobs_result [OF assms] by (simp add: o_def to_record_def)

section \<open>The invariant\<close>

text \<open>Investigations started and members that wait for their start are covered by attempts.\<close>

definition covered :: "worker_state \<Rightarrow> bool" where
  "covered s = (table_ok (wk_rows s) \<and> (\<forall>i. int (calls_of i s + waiting_of i s) \<le> attempts_of (wk_rows s) i))"

lemma covered_le:
  assumes "covered s" "table_ok (wk_rows s')" "\<And>i. attempts_of (wk_rows s) i \<le> attempts_of (wk_rows s') i"
    and "\<And>i. calls_of i s' + waiting_of i s' \<le> calls_of i s + waiting_of i s"
  shows "covered s'"
proof -
  have "int (calls_of i s' + waiting_of i s') \<le> attempts_of (wk_rows s') i" for i
  proof -
    have "int (calls_of i s' + waiting_of i s') \<le> int (calls_of i s + waiting_of i s)" by (rule of_nat_mono [OF assms(4)])
    also have "\<dots> \<le> attempts_of (wk_rows s) i" using assms(1) by (simp add: covered_def)
    also note assms(3)
    finally show ?thesis .
  qed
  then show ?thesis using assms(2) by (simp add: covered_def)
qed

lemma coveredI:
  assumes "covered s" "row_ok e (wk_rows s)" "wk_rows s' = row_step e (wk_rows s)"
    and "\<And>i. calls_of i s' + waiting_of i s' \<le> calls_of i s + waiting_of i s"
  shows "covered s'"
proof (rule covered_le [OF assms(1)])
  have ok: "table_ok (wk_rows s)" using assms(1) by (simp add: covered_def)
  show "table_ok (wk_rows s')" unfolding assms(3) by (rule table_ok_step [OF ok assms(2)])
  show "attempts_of (wk_rows s) i \<le> attempts_of (wk_rows s') i" for i
    unfolding assms(3) by (rule attempts_mono [OF assms(2)]) (use ok in \<open>simp add: table_ok_def\<close>)
qed (rule assms(4))

lemma covered_same:
  assumes "covered s" "wk_rows s' = wk_rows s" "\<And>i. calls_of i s' + waiting_of i s' \<le> calls_of i s + waiting_of i s"
  shows "covered s'"
  by (rule covered_le [OF assms(1) _ _ assms(3)]) (use assms(1,2) in \<open>simp_all add: covered_def\<close>)

lemma covered_set_phase:
  assumes "covered s" "k < length (wk_members s)" "ph \<noteq> Ready"
  shows "covered (set_phase k ph s)"
proof (rule covered_same [OF assms(1)])
  show "calls_of i (set_phase k ph s) + waiting_of i (set_phase k ph s) \<le> calls_of i s + waiting_of i s" for i
    using waiting_set_phase [OF assms(2,3), of i] by (simp split: if_splits)
qed simp

lemma covered_begin:
  assumes "covered s" "phase_at s k = Some Ready"
  shows "covered (begin_member wc k now s)"
proof -
  let ?job = "fst (wk_members s ! k)"
  have k: "k < length (wk_members s)" "snd (wk_members s ! k) = Ready" using assms(2) by (simp_all add: phase_at_Some)
  show ?thesis
  proof (cases "\<exists>args j rows. \<not> wk_stop s \<and> investigation_call (wc_rt wc) ?job (wc_owner wc) = Inr args
      \<and> heartbeat_job (dj_id ?job) (wc_owner wc) (default_lease_seconds (wc_rt wc)) now (wk_rows s) = Inr (j, rows)")
    case True
    then obtain args j rows where t: "\<not> wk_stop s" "investigation_call (wc_rt wc) ?job (wc_owner wc) = Inr args"
      "heartbeat_job (dj_id ?job) (wc_owner wc) (default_lease_seconds (wc_rt wc)) now (wk_rows s) = Inr (j, rows)" by blast
    let ?s = "s\<lparr>wk_rows := rows, wk_calls := wk_calls s @ [args]\<rparr>"
    have eq: "begin_member wc k now s = set_phase k (Investigating args) ?s" using t by (simp add: begin_member_def)
    have calls: "calls_of i (set_phase k (Investigating args) ?s) = calls_of i s + (if dj_id ?job = i then 1 else 0)" for i
      using investigation_call_id [OF t(2)] by (simp add: calls_of_def)
    have waiting: "waiting_of i (set_phase k (Investigating args) ?s) + (if dj_id ?job = i then 1 else 0) = waiting_of i s" for i
      using waiting_set_phase [of k ?s "Investigating args" i] k by (simp add: waiting_of_def)
    have "calls_of i (set_phase k (Investigating args) ?s) + waiting_of i (set_phase k (Investigating args) ?s)
        \<le> calls_of i s + waiting_of i s" for i
      using waiting [of i] unfolding calls by linarith
    then show ?thesis
      unfolding eq using heartbeat_step [OF t(3)]
      by (intro coveredI [OF assms(1), of "Row_heartbeat (dj_id ?job) (wc_owner wc) (default_lease_seconds (wc_rt wc)) now"]) simp_all
  next
    case False
    then have "begin_member wc k now s \<in> {set_phase k Over s} \<union> range (\<lambda>e. set_phase k (Failing e) s)"
      by (auto simp: begin_member_def Let_def split: sum.splits prod.splits)
    then show ?thesis using covered_set_phase [OF assms(1) k(1)] by auto
  qed
qed

lemma covered_claim:
  assumes "covered s"
  shows "covered (claim_batch wc admission stats_clock locked now s)"
proof -
  let ?limit = "min (batch_size (wc_rt wc)) (as_available (fst (admission_stats None stats_clock admission)))"
  let ?lease = "default_lease_seconds (wc_rt wc)"
  show ?thesis
  proof (cases "claim_batch wc admission stats_clock locked now s = s")
    case False
    then obtain jobs rows where c: "claim_jobs locked (wc_owner wc) ?limit ?lease now (wk_rows s) = Inr (jobs, rows)"
      "claim_batch wc admission stats_clock locked now s =
        s\<lparr>wk_rows := rows, wk_members := wk_members s @ map (\<lambda>job. (job, Ready)) jobs, wk_escaped := False\<rparr>"
      by (auto simp: claim_batch_def Let_def split: if_splits sum.splits prod.splits)
    let ?e = "Row_claim locked (wc_owner wc) ?limit ?lease now" and ?s = "claim_batch wc admission stats_clock locked now s"
    have rows: "rows = row_step ?e (wk_rows s)" by (rule claim_step [OF c(1)])
    have ok: "table_ok (wk_rows s)" using assms by (simp add: covered_def)
    have dist: "distinct (map dj_id jobs)"
      unfolding claimed_ids [OF c(1)] using ok by (intro distinct_chosen) (simp add: table_ok_def)
    have waiting: "waiting_of i ?s = waiting_of i s + (if i \<in> dj_id ` set jobs then 1 else 0)" for i
      using length_filter_distinct [OF dist] by (simp add: c(2) waiting_of_def filter_map o_def)
    have "int (calls_of i s + waiting_of i ?s) \<le> attempts_of rows i" for i
    proof -
      have old: "int (calls_of i s + waiting_of i s) \<le> attempts_of (wk_rows s) i"
        using assms by (simp add: covered_def)
      show ?thesis
      proof (cases "i \<in> dj_id ` set jobs")
        case True
        then obtain job where "job \<in> set jobs" "i = dj_id job" by blast
        then show ?thesis using attempts_claimed [OF _ c(1)] ok old waiting [of i] True by (simp add: table_ok_def)
      next
        case False
        have "attempts_of (wk_rows s) i \<le> attempts_of rows i"
          unfolding rows by (rule attempts_mono) (use ok in \<open>simp_all add: table_ok_def\<close>)
        then show ?thesis using old waiting [of i] False by simp
      qed
    qed
    moreover have "table_ok rows" unfolding rows by (rule table_ok_step [OF ok]) simp
    ultimately show ?thesis by (simp add: covered_def c(2) calls_of_def)
  qed (simp add: assms)
qed

lemma covered_step:
  assumes "covered s" "case e of Others f \<Rightarrow> row_ok f (wk_rows s) | _ \<Rightarrow> True"
  shows "covered (worker_step wc e s)"
proof (cases e)
  case (Begin k now)
  then show ?thesis using assms(1) covered_begin by simp
next
  case (Renew k now db_up)
  let ?job = "fst (wk_members s ! k)"
  have "covered (renew_member wc k now db_up s)" if "phase_at s k \<noteq> None"
  proof (cases "\<exists>j rows. db_up \<and> heartbeat_job (dj_id ?job) (wc_owner wc) (default_lease_seconds (wc_rt wc)) now (wk_rows s) = Inr (j, rows)")
    case True
    then obtain j rows where t: "db_up"
      "heartbeat_job (dj_id ?job) (wc_owner wc) (default_lease_seconds (wc_rt wc)) now (wk_rows s) = Inr (j, rows)" by blast
    then have eq: "renew_member wc k now db_up s = s\<lparr>wk_rows := rows\<rparr>" by (simp add: renew_member_def)
    show ?thesis
      unfolding eq
      by (rule coveredI [OF assms(1), of "Row_heartbeat (dj_id ?job) (wc_owner wc) (default_lease_seconds (wc_rt wc)) now"])
         (simp_all add: heartbeat_step [OF t(2)] del: row_step.simps)
  next
    case False
    then have "\<exists>x. renew_member wc k now db_up s = set_phase k (Failing x) s"
      by (auto simp: renew_member_def split: sum.splits)
    moreover have "k < length (wk_members s)" using that by (simp add: phase_at_def split: if_splits)
    ultimately show ?thesis using covered_set_phase [OF assms(1)] by auto
  qed
  then show ?thesis using assms(1) Renew by (auto split: option.splits phase.splits)
next
  case (Finish k outcome)
  then show ?thesis using assms(1) covered_set_phase [OF assms(1), of k]
    by (auto simp: phase_at_Some split: option.splits phase.splits)
next
  case (Report k now db_up)
  let ?i = "dj_id (fst (wk_members s ! k))"
  have "covered (report_member wc k x now db_up s)" if "k < length (wk_members s)" for x
  proof -
    let ?e = "Row_fail ?i (wc_owner wc) (wc_text wc x) now"
    have "covered (s\<lparr>wk_rows := row_step ?e (wk_rows s)\<rparr>)" by (rule coveredI [OF assms(1), of ?e]) simp_all
    moreover have "covered (s\<lparr>wk_escaped := True\<rparr>)" by (rule covered_same [OF assms(1)]) (simp_all add: calls_of_def waiting_of_def)
    ultimately have "covered (if db_up then s\<lparr>wk_rows := row_step ?e (wk_rows s)\<rparr> else s\<lparr>wk_escaped := True\<rparr>)" by simp
    from covered_set_phase [OF this, of k Over] that show ?thesis by (cases db_up) (simp_all add: report_member_def)
  qed
  then show ?thesis using assms(1) Report by (auto simp: phase_at_Some split: option.splits phase.splits)
next
  case (Claim_batch admission stats_clock locked now)
  then show ?thesis using assms(1) covered_claim by simp
next
  case (Others f)
  then show ?thesis using assms by (intro coveredI [OF assms(1), of f]) simp_all
next
  case Task_ended
  then show ?thesis using assms(1) by (auto intro!: covered_same [OF assms(1)] simp: calls_of_def waiting_of_def)
qed (use assms(1) in \<open>auto intro!: covered_same [OF assms(1)] simp: calls_of_def waiting_of_def\<close>)

lemma covered_run: "covered s \<Longrightarrow> worker_ok wc es s \<Longrightarrow> covered (worker_run wc es s)"
  unfolding worker_run_def by (induction es arbitrary: s) (simp_all add: covered_step)

section \<open>Properties\<close>

text \<open>C20. Investigations are bounded by attempts. However the events of a worker's batch, of the other workers,
  of webhooks and of cancellations interleave from an empty table, the worker has started at most as
  many investigations of a job as the job has used attempts, and those are at most its maximum.\<close>

theorem investigations_within_attempts:
  assumes "worker_ok wc es (idle_worker [])"
  shows "case get_row (wk_rows (worker_run wc es (idle_worker []))) i of
      None \<Rightarrow> calls_of i (worker_run wc es (idle_worker [])) = 0
    | Some r \<Rightarrow> int (calls_of i (worker_run wc es (idle_worker []))) \<le> jr_attempt_count r \<and> jr_attempt_count r \<le> row_max r"
proof -
  let ?s = "worker_run wc es (idle_worker [])"
  have "covered (idle_worker [])"
    using all_inv_empty(2) by (simp add: covered_def table_ok_def idle_worker_def calls_of_def waiting_of_def attempts_of_def get_row_def lookup_by_def)
  then have c: "table_ok (wk_rows ?s)" "int (calls_of i ?s + waiting_of i ?s) \<le> attempts_of (wk_rows ?s) i"
    using covered_run [OF _ assms] by (simp_all add: covered_def)
  show ?thesis
  proof (cases "get_row (wk_rows ?s) i")
    case (Some r)
    have "life_inv (row_life r)" using c(1) all_inv_row [OF _ Some] by (simp add: table_ok_def)
    then have "jr_attempt_count r \<le> row_max r" by (auto simp: life_inv_def row_life_def split: life_phase.splits)
    then show ?thesis using c(2) Some by (simp add: attempts_of_def)
  qed (use c(2) in \<open>simp add: attempts_of_def\<close>)
qed

lemma fail_job_after:
  "j \<noteq> i \<Longrightarrow> get_row (row_after rows (fail_job i w e now rows)) j = get_row rows j"
  "get_row (row_after rows (fail_job i w e now rows)) i = Some r \<Longrightarrow> \<not> (jr_status r = RUNNING \<and> jr_lease_owner r = Some w)"
proof -
  show "get_row (row_after rows (fail_job i w e now rows)) j = get_row rows j" if "j \<noteq> i"
    using that by (cases "owned_row rows i w") (simp_all add: fail_job_def rbind_def row_after_def get_row_update option.map_ident)
  show "\<not> (jr_status r = RUNNING \<and> jr_lease_owner r = Some w)" if "get_row (row_after rows (fail_job i w e now rows)) i = Some r"
  proof (cases "owned_row rows i w")
    case (Inl x)
    then have "\<not> owned_row rows i w = Inr r" by simp
    then show ?thesis using that Inl unfolding owned_row_Inr by (simp add: fail_job_def rbind_def row_after_def)
  next
    case (Inr job)
    then have "get_row rows i = Some job" by (simp add: owned_row_Inr)
    then have "r = fail_row e now job"
      using that Inr by (simp add: fail_job_def rbind_def row_after_def get_row_update)
    then show ?thesis by (simp add: fail_row_def Let_def)
  qed
qed

text \<open>The member an event belongs to.\<close>

fun member_of :: "worker_event \<Rightarrow> nat option" where
  "member_of (Begin k _) = Some k"
| "member_of (Renew k _ _) = Some k"
| "member_of (Finish k _) = Some k"
| "member_of (Report k _ _) = Some k"
| "member_of _ = None"

lemma heartbeat_other:
  "heartbeat_job i w n now rows = Inr (j, rows') \<Longrightarrow> k \<noteq> i \<Longrightarrow> get_row rows' k = get_row rows k"
  by (auto simp: heartbeat_job_def Let_def get_row_update option.map_ident split: option.splits if_splits)

lemma nth_set_phase: "j \<noteq> k \<Longrightarrow> wk_members (set_phase k ph s) ! j = wk_members s ! j"
  by (simp add: set_phase_def)

lemma member_step_frame:
  assumes "member_of e = Some k"
  shows "i \<noteq> dj_id (fst (wk_members s ! k)) \<Longrightarrow> get_row (wk_rows (worker_step wc e s)) i = get_row (wk_rows s) i"
    and "j \<noteq> k \<Longrightarrow> wk_members (worker_step wc e s) ! j = wk_members s ! j"
  using assms
  by (cases e; auto simp: begin_member_def renew_member_def report_member_def Let_def nth_set_phase heartbeat_other fail_job_after(1)
      split: option.splits phase.splits sum.splits prod.splits)+

text \<open>One member never takes its siblings down. Whatever happens to a member of a batch, whether it starts,
  renews, ends or reports, the rows of all other jobs and the phases of all other members stay
  as they are; and when it failed and could record that, its job is no longer leased to this worker.\<close>

theorem member_failure_isolated:
  assumes "member_of e = Some k" "phase_at s k = Some (Failing x)"
  shows "(\<forall>i. i \<noteq> dj_id (fst (wk_members s ! k)) \<longrightarrow> get_row (wk_rows (worker_step wc e s)) i = get_row (wk_rows s) i)
    \<and> (\<forall>j. j \<noteq> k \<longrightarrow> wk_members (worker_step wc e s) ! j = wk_members s ! j)
    \<and> phase_at (worker_step wc (Report k now True) s) k = Some Over
    \<and> (\<forall>r. get_row (wk_rows (worker_step wc (Report k now True) s)) (dj_id (fst (wk_members s ! k))) = Some r \<longrightarrow>
         \<not> (jr_status r = RUNNING \<and> jr_lease_owner r = Some (wc_owner wc)))"
proof -
  have k: "k < length (wk_members s)" using assms(2) by (simp add: phase_at_Some)
  have step: "worker_step wc (Report k now True) s = report_member wc k x now True s" using assms(2) by simp
  have "phase_at (worker_step wc (Report k now True) s) k = Some Over"
    unfolding step using k by (simp add: report_member_def phase_at_Some set_phase_def)
  moreover have "\<not> (jr_status r = RUNNING \<and> jr_lease_owner r = Some (wc_owner wc))"
    if "get_row (wk_rows (worker_step wc (Report k now True) s)) (dj_id (fst (wk_members s ! k))) = Some r" for r
    using that unfolding step by (intro fail_job_after(2)) (simp add: report_member_def)
  ultimately show ?thesis using member_step_frame [OF assms(1)] by blast
qed

text \<open>A batch fits the free capacity. The loop claims jobs only when every earlier member is over or the record
  of a failure escaped; the new members and the investigations already admitted stay within the
  capacity of the admission controller and the new members within the configured batch; every new member
  is an investigation that is running in the table, leased to this worker until the lease time from now.\<close>

theorem batch_within_capacity:
  fixes wc s admission stats_clock locked now
  defines "s' \<equiv> worker_step wc (Claim_batch admission stats_clock locked now) s"
    and "stats \<equiv> fst (admission_stats None stats_clock admission)"
  assumes "distinct (map jr_id (wk_rows s))" "wk_members s' \<noteq> wk_members s"
  shows "\<exists>new. wk_members s' = wk_members s @ new \<and> (all_over s \<or> wk_escaped s)
    \<and> int (as_active stats) + int (length new) \<le> as_capacity stats \<and> int (length new) \<le> batch_size (wc_rt wc)
    \<and> list_all (\<lambda>(job, ph). ph = Ready \<and> (\<exists>r. get_row (wk_rows s') (dj_id job) = Some r \<and> to_record r = job
         \<and> jr_status r = RUNNING \<and> jr_lease_owner r = Some (wc_owner wc)
         \<and> jr_lease_expires_at r = Some (now + seconds (default_lease_seconds (wc_rt wc))))) new"
proof -
  let ?limit = "min (batch_size (wc_rt wc)) (as_available stats)" and ?lease = "default_lease_seconds (wc_rt wc)"
  obtain jobs rows where c: "claim_jobs locked (wc_owner wc) ?limit ?lease now (wk_rows s) = Inr (jobs, rows)"
    "s' = s\<lparr>wk_rows := rows, wk_members := wk_members s @ map (\<lambda>job. (job, Ready)) jobs, wk_escaped := False\<rparr>"
    "1 \<le> as_available stats" "all_over s \<or> wk_escaped s"
    using assms(4) by (auto simp: s'_def stats_def claim_batch_def Let_def split: if_splits sum.splits prod.splits)
  note r = claim_jobs_result [OF c(1)]
  have "length jobs \<le> nat ?limit" using r by (simp add: chosen_rows_def)
  then have len: "int (length jobs) \<le> ?limit" using r by linarith
  have row: "\<exists>q. get_row rows (dj_id job) = Some q \<and> to_record q = job \<and> jr_status q = RUNNING
      \<and> jr_lease_owner q = Some (wc_owner wc) \<and> jr_lease_expires_at q = Some (now + seconds ?lease)" if j: "job \<in> set jobs" for job
  proof -
    obtain u where u: "u \<in> set (chosen_rows locked ?limit now (wk_rows s))" "job = to_record (lease_row (wc_owner wc) ?lease now u)"
      using j r by auto
    then obtain q where q: "q \<in> set (wk_rows s)" "u = sweep_row now (reclaim_row now q)"
      using chosen_rows_claimable [OF u(1)] by (auto simp: swept_rows_def reclaim_expired_leases_def)
    have "get_row rows (jr_id q) = Some (lease_row (wc_owner wc) ?lease now u)"
      using r u(1) get_row_mem [OF assms(3) q(1)] by (simp add: get_row_map claim_row_def q(2) Let_def)
    moreover have "dj_id job = jr_id q" by (simp add: u(2) q(2) to_record_def)
    ultimately show ?thesis by (simp add: u(2) lease_row_def)
  qed
  have "int (as_active stats) + as_available stats = as_capacity stats"
    using c(3) by (simp add: stats_def admission_stats_def Let_def)
  then show ?thesis using len row c(4)
    by (intro exI [of _ "map (\<lambda>job. (job, Ready)) jobs"]) (auto simp: c(2) list_all_iff)
qed

subsection \<open>The way of a payload\<close>

lemma map_of_sorted: "distinct (map fst d) \<Longrightarrow> map_of (sort_key fst d) = map_of d"
  using distinct_sort_key_keys [of fst d] by (subst map_of_inject_set) auto

lemma get_key_sorted:
  assumes "distinct (map fst d)" "key_sorted (PDict d) = PDict e"
  shows "map_of e k = map_option key_sorted (map_of d k)"
proof -
  have "e = map (\<lambda>(k, v). (k, key_sorted v)) (sort_key fst d)" using assms(2) by (simp only: key_sorted_dict pyval.inject)
  then show ?thesis by (simp add: map_of_map map_of_sorted [OF assms(1)])
qed

lemma parse_payload_json:
  assumes "printable rt (PDict d)"
  obtains e where "key_sorted (PDict d) = PDict e" "parse_payload (Some (payload_json rt d)) = e"
proof -
  obtain e where e: "key_sorted (PDict d) = PDict e" by (simp add: key_sorted_dict)
  have "payload_json rt d \<noteq> []" by (simp add: payload_json_def Let_def)
  then have "parse_payload (Some (payload_json rt d)) = e"
    using json_loads_compact [OF assms] e by (simp add: parse_payload_def payload_json_def)
  then show thesis using that e by blast
qed

lemma encode_keys: "distinct (map fst (encode_investigation_payload i c a))"
  by (simp add: encode_investigation_payload_def)

text \<open>C23. Round trip through the job table: a payload that was enqueued, written to the table as JSON text
  with sorted keys and read back by whichever worker claims the job calls the investigation of the
  same incident on the same cluster, with the alert's name, time and severity, labels and annotations
  with their keys sorted, and the organization of the job.\<close>

theorem enqueued_payload_roundtrip:
  assumes "fst (enqueue_and_kick rt new_id now cluster_id organization_id incident_id a key wc s) = Inr r" "r \<notin> set (wk_rows s)"
    and "printable rt (PDict (encode_investigation_payload incident_id cluster_id a))" "is_uuid incident_id" "is_uuid cluster_id"
  shows "\<exists>args. investigation_call rt (to_record (lease_row w n clock r)) w = Inr args
    \<and> ia_incident_id args = incident_id \<and> ia_cluster_id args = cluster_id \<and> ia_job_id args = new_id
    \<and> ia_alert_name args = (if af_alert_name a = [] then ''unknown'' else af_alert_name a)
    \<and> ia_alert_labels args = key_sorted (PDict (af_labels a)) \<and> ia_alert_annotations args = key_sorted (PDict (af_annotations a))
    \<and> ia_alert_starts_at args = opt_str (af_starts_at a)
    \<and> ia_alert_severity args = PStr (if af_severity a \<in> {None, Some []} then ''warning'' else the (af_severity a))
    \<and> ia_organization_id args = map_option uuid_str organization_id"
proof -
  let ?d = "encode_investigation_payload incident_id cluster_id a"
  have r: "jr_id r = new_id" "jr_payload r = Some (payload_json rt ?d)" "jr_organization_id r = organization_id"
    using assms(1,2)
    by (auto simp: enqueue_and_kick_def Let_def enqueue_investigation_def dest!: find_Some_mem split: sum.splits prod.splits option.splits if_splits)
  obtain e where e: "key_sorted (PDict ?d) = PDict e" "parse_payload (Some (payload_json rt ?d)) = e"
    by (rule parse_payload_json [OF assms(3)])
  have get: "map_of e k = map_option key_sorted (map_of ?d k)" for k by (rule get_key_sorted [OF encode_keys e(1)])
  have job: "dj_payload (to_record (lease_row w n clock r)) = e" "dj_id (to_record (lease_row w n clock r)) = new_id"
    "dj_organization_id (to_record (lease_row w n clock r)) = organization_id"
    using r e(2) by (simp_all add: to_record_def lease_row_def)
  have or_dict: "py_or (key_sorted (PDict x)) (PDict []) = key_sorted (PDict x)" for x
  proof (cases "truthy (key_sorted (PDict x))")
    case False
    then have "x = []" by (simp add: key_sorted_dict del: key_sorted.simps) (metis set_empty set_sort)
    then show ?thesis by (simp add: py_or_def)
  qed (simp add: py_or_def)
  have fields: "map_of e ''handler'' = Some (PStr ''run_graph_background_saas'')"
    "map_of e ''incident_id'' = Some (PStr (uuid_str incident_id))" "map_of e ''cluster_id'' = Some (PStr (uuid_str cluster_id))"
    "map_of e ''alert_name'' = Some (PStr (af_alert_name a))" "map_of e ''alert_labels'' = Some (key_sorted (PDict (af_labels a)))"
    "map_of e ''alert_annotations'' = Some (key_sorted (PDict (af_annotations a)))"
    "map_of e ''alert_starts_at'' = Some (opt_str (af_starts_at a))"
    "map_of e ''alert_severity'' = Some (PStr (if af_severity a \<in> {None, Some []} then ''warning'' else the (af_severity a)))"
    unfolding get by (simp_all add: encode_investigation_payload_def opt_str_def split: option.split)
  show ?thesis
    unfolding investigation_call_def job Let_def py_dict_get_def payload_uuid_def fields option.case
    using parse_uuid_str assms(4,5) by (simp add: py_str_def rbind_def or_dict del: key_sorted.simps) (cases "af_severity a"; simp add: py_or_def)
qed

section \<open>A worker at work\<close>

definition disk_alert :: alert_fields where
  "disk_alert = \<lparr>af_alert_name = ''DiskFull'', af_labels = [(''service'', PStr ''cart''), (''env'', PStr ''prod'')], af_annotations = [],
     af_starts_at = None, af_severity = None, af_triggered_by = ''alertmanager_webhook''\<rparr>"

definition short_payload :: pydict where
  "short_payload = [(''handler'', PStr ''run_graph_background_saas''), (''incident_id'', PStr (replicate 32 (CHR ''0''))),
     (''cluster_id'', PStr (replicate 32 (CHR ''0'')))]"

definition lone_worker :: worker_config where
  "lone_worker = \<lparr>wc_rt = no_runtime, wc_owner = ''w1'', wc_text = \<lambda>_. ''failed''\<rparr>"

definition shift_events :: "worker_event list" where
  "shift_events = [Others (Row_enqueue no_runtime 1 0 7 None 9 short_payload None (Some 2)), Start_worker,
     Claim_batch (new_controller no_runtime None None None) 0 {} 0, Begin 0 1, Renew 0 (seconds 20) True, Finish 0 (Some ''boom'')]"

lemma shift_ok: "worker_ok lone_worker shift_events (idle_worker [])"
  by code_simp

lemma shift_result:
  "calls_of 1 (worker_run lone_worker shift_events (idle_worker [])) = 1"
  "phase_at (worker_run lone_worker shift_events (idle_worker [])) 0 = Some (Failing (RunRaised ''boom''))"
  by code_simp+

theorem investigations_within_attempts_witness:
  "\<exists>r. get_row (wk_rows (worker_run lone_worker shift_events (idle_worker []))) 1 = Some r \<and> 1 \<le> jr_attempt_count r \<and> jr_attempt_count r \<le> row_max r"
  using investigations_within_attempts [OF shift_ok, of 1] shift_result(1) by (auto split: option.splits)

theorem member_failure_isolated_witness:
  "phase_at (worker_step lone_worker (Report 0 (seconds 21) True) (worker_run lone_worker shift_events (idle_worker []))) 0 = Some Over"
  using member_failure_isolated [of "Report 0 (seconds 21) True" 0, OF _ shift_result(2)] by simp

definition claim_ready :: worker_state where
  "claim_ready = worker_run lone_worker (take 2 shift_events) (idle_worker [])"

theorem batch_within_capacity_witness:
  "length (wk_members (worker_step lone_worker (Claim_batch (new_controller no_runtime None None None) 0 {} 0) claim_ready)) = 1
   \<and> (\<exists>r. get_row (wk_rows (worker_step lone_worker (Claim_batch (new_controller no_runtime None None None) 0 {} 0) claim_ready)) 1 = Some r
        \<and> jr_lease_owner r = Some ''w1'' \<and> jr_lease_expires_at r = Some (seconds 60))"
proof -
  let ?s = "worker_step lone_worker (Claim_batch (new_controller no_runtime None None None) 0 {} 0) claim_ready"
  have d: "distinct (map jr_id (wk_rows claim_ready))" by code_simp
  have m: "map (dj_id \<circ> fst) (wk_members ?s) = [1]" "wk_members claim_ready = []" by code_simp+
  then obtain job ph where j: "wk_members ?s = [(job, ph)]" "dj_id job = 1" by (auto simp: map_eq_Cons_conv)
  have ne: "wk_members ?s \<noteq> wk_members claim_ready" using m(2) j(1) by simp
  have "default_lease_seconds no_runtime = 60" by code_simp
  then show ?thesis using batch_within_capacity [OF d ne] j m(2) by (auto simp: lone_worker_def)
qed

lemma disk_printable: "printable no_runtime (PDict (encode_investigation_payload 9 7 disk_alert))"
  by code_simp

lemma disk_enqueued: "\<exists>r. fst (enqueue_and_kick no_runtime 1 0 7 None 9 disk_alert None lone_worker (idle_worker [])) = Inr r"
proof -
  have "\<not> isl (fst (enqueue_and_kick no_runtime 1 0 7 None 9 disk_alert None lone_worker (idle_worker [])))" by code_simp
  then show ?thesis by (cases "fst (enqueue_and_kick no_runtime 1 0 7 None 9 disk_alert None lone_worker (idle_worker []))") auto
qed

theorem enqueued_payload_roundtrip_witness:
  "\<exists>r args. fst (enqueue_and_kick no_runtime 1 0 7 None 9 disk_alert None lone_worker (idle_worker [])) = Inr r
     \<and> investigation_call no_runtime (to_record (lease_row ''w2'' 60 5 r)) ''w2'' = Inr args
     \<and> ia_incident_id args = 9 \<and> ia_cluster_id args = 7 \<and> ia_alert_name args = ''DiskFull''
     \<and> ia_alert_labels args = PDict [(''env'', PStr ''prod''), (''service'', PStr ''cart'')]"
proof -
  obtain r where r: "fst (enqueue_and_kick no_runtime 1 0 7 None 9 disk_alert None lone_worker (idle_worker [])) = Inr r"
    using disk_enqueued by blast
  have u: "is_uuid 9" "is_uuid 7" by code_simp+
  have "r \<notin> set (wk_rows (idle_worker []))" by (simp add: idle_worker_def)
  from enqueued_payload_roundtrip [OF r this disk_printable u, of "''w2''" 60 5] obtain args where
    "investigation_call no_runtime (to_record (lease_row ''w2'' 60 5 r)) ''w2'' = Inr args" "ia_incident_id args = 9" "ia_cluster_id args = 7"
    "ia_alert_name args = ''DiskFull''" "ia_alert_labels args = key_sorted (PDict (af_labels disk_alert))"
    by (auto simp: disk_alert_def)
  moreover have "key_sorted (PDict (af_labels disk_alert)) = PDict [(''env'', PStr ''prod''), (''service'', PStr ''cart'')]" by code_simp
  ultimately show ?thesis using r by auto
qed

end
