(* ===== verification/Alert_Webhook.thy ===== *)
theory Alert_Webhook
  imports Incident_Reconciler Incident_Correlation Job_Worker
begin

text \<open>
  The endpoint that receives alerts (\<open>src/src/sre_agent/api/v1/alerts.py\<close>, with the queries of
  \<open>src/src/backend/crud.py\<close> it uses and \<open>src/src/sre_agent/cluster_heartbeat.py\<close>). A firing alert joins the incident
  that tracks it, is folded into an incident of the same service, or opens an incident with an
  investigation job; an alert that ended goes to the handler of \<open>Alert_Lifecycle\<close>.

  A delivery is a loop over its alerts. What other transactions commit before an alert is handled,
  and during the chat round trip of a fold, is a parameter, as are the clock, the new identifiers, the
  answers of the chat and which calls of the database fail. From the lookup of duplicates to the
  insertion of an incident an advisory lock of the database excludes other deliveries of the same title, so
  that part is one step. The wording of messages is a parameter.

  Shown here: no member of a payload closes an incident whose alert still fires in that payload; a
  delivery keeps at most one active incident per title, unless a refused fold is overtaken; every
  firing alert is accounted for; notices of a parked incident are given, and spaced; and a folded alert
  stays folded.
\<close>

section \<open>Payload\<close>

text \<open>An entry of \<open>alerts\<close> as Alertmanager documents it: texts, and maps of texts; none is a missing key.\<close>

type_synonym label_map = "(string \<times> string) list"

record raw_alert =
  ra_status :: "string option"
  ra_labels :: "label_map option"
  ra_annotations :: "label_map option"
  ra_starts_at :: "string option"
  ra_ends_at :: "string option"

record alert =
  al_status :: string
  al_alertname :: string
  al_severity :: string
  al_service :: string
  al_summary :: string
  al_description :: string
  al_starts_at :: string
  al_ends_at :: string
  al_labels :: label_map

definition get_or :: "label_map \<Rightarrow> string \<Rightarrow> string \<Rightarrow> string" where
  "get_or d k dflt = (case map_of d k of Some v \<Rightarrow> v | None \<Rightarrow> dflt)"

definition value_or :: "'a option \<Rightarrow> 'a \<Rightarrow> 'a" where
  "value_or v dflt = (case v of Some x \<Rightarrow> x | None \<Rightarrow> dflt)"

definition parse_alert :: "raw_alert \<Rightarrow> alert" where
  "parse_alert ra =
     (let labels = value_or (ra_labels ra) []; annotations = value_or (ra_annotations ra) []
      in \<lparr>al_status = value_or (ra_status ra) ''firing'', al_alertname = get_or labels ''alertname'' ''UnknownAlert'',
          al_severity = get_or labels ''severity'' ''warning'', al_service = get_or labels ''service'' ''unknown'',
          al_summary = get_or annotations ''summary'' [], al_description = get_or annotations ''description'' [],
          al_starts_at = value_or (ra_starts_at ra) [], al_ends_at = value_or (ra_ends_at ra) [], al_labels = labels\<rparr>)"

definition parse_alertmanager_payload :: "raw_alert list option \<Rightarrow> alert list" where
  "parse_alertmanager_payload alerts = map parse_alert (value_or alerts [])"

definition title_of :: "alert \<Rightarrow> string" where
  "title_of a = incident_title (al_service a) (al_alertname a)"

datatype incident_severity = Critical_Severity | High_Severity | Medium_Severity | Low_Severity

definition SEVERITY_MAP :: "(string \<times> incident_severity) list" where
  "SEVERITY_MAP = [(''critical'', Critical_Severity), (''high'', High_Severity), (''warning'', Medium_Severity), (''info'', Low_Severity)]"

definition severity_of :: "alert \<Rightarrow> incident_severity" where
  "severity_of a = value_or (map_of SEVERITY_MAP (al_severity a)) Medium_Severity"

text \<open>\<open>json.dumps(labels, indent=2)\<close>\<close>

definition labels_text :: "label_map \<Rightarrow> string" where
  "labels_text d =
     (if d = [] then ''{}''
      else ''{'' @ newline 1 @ join ('','' @ newline 1) (map (\<lambda>(k, v). json_str k @ '': '' @ json_str v) d) @ newline 0 @ ''}'')"

definition description_of :: "alert \<Rightarrow> string" where
  "description_of a =
     al_summary a @ newline 0 @ newline 0 @ al_description a @ newline 0 @ newline 0 @ ''Labels: '' @ labels_text (al_labels a)"

section \<open>Cluster heartbeat\<close>

datatype cluster_status = ONLINE | DEGRADED | STALE | OFFLINE | MAINTENANCE

record heartbeat_evaluation =
  he_status :: cluster_status
  he_reason :: string
  he_age_seconds :: "rat option"

definition threshold_seconds :: "runtime \<Rightarrow> string \<Rightarrow> string \<Rightarrow> (py_error, flt) res" where
  "threshold_seconds rt name dflt =
     (case float_of_string (getenv rt name dflt) of None \<Rightarrow> Inl ValueError | Some x \<Rightarrow> Inr x)"

definition evaluate_heartbeat :: "runtime \<Rightarrow> int option \<Rightarrow> string option \<Rightarrow> int \<Rightarrow> bool \<Rightarrow> (py_error, heartbeat_evaluation) res" where
  "evaluate_heartbeat rt last_heartbeat source now maintenance =
     (if maintenance then Inr \<lparr>he_status = MAINTENANCE, he_reason = ''maintenance'', he_age_seconds = None\<rparr>
      else case last_heartbeat of
        None \<Rightarrow> Inr \<lparr>he_status = OFFLINE, he_reason = ''never_seen'', he_age_seconds = None\<rparr>
      | Some observed \<Rightarrow>
          (let age = max 0 (of_int (now - observed) / 1000000 :: rat);
               src = (case source of Some s \<Rightarrow> (if s = [] then ''unknown'' else s) | None \<Rightarrow> ''unknown'');
               fresh = (\<lambda>name dflt. map_sum id (flt_le (Fin age)) (threshold_seconds rt name dflt));
               answer = (\<lambda>status reason. Inr \<lparr>he_status = status, he_reason = reason @ src, he_age_seconds = Some age\<rparr>)
           in rbind (fresh ''CLUSTER_HEARTBEAT_ONLINE_SECONDS'' ''120'') (\<lambda>online.
                if online then answer ONLINE ''fresh:''
                else rbind (fresh ''CLUSTER_HEARTBEAT_DEGRADED_SECONDS'' ''300'') (\<lambda>degraded.
                  if degraded then answer DEGRADED ''degraded:''
                  else rbind (fresh ''CLUSTER_HEARTBEAT_STALE_SECONDS'' ''900'') (\<lambda>stale.
                    if stale then answer STALE ''stale:'' else answer OFFLINE ''offline:'')))))"

record cluster_heartbeat =
  hb_at :: int
  hb_status :: cluster_status
  hb_source :: string
  hb_reason :: string

section \<open>State\<close>

record incident_details =
  de_description :: string
  de_severity :: incident_severity
  de_slack_channel :: "string option"
  de_slack_thread_ts :: "string option"

text \<open>Why nothing is working on an incident: its status says so, or no job backs the status.\<close>

datatype meaning = ParkedAt incident_status | NoJobFor incident_status

datatype thread_message =
    RefireMessage "string option" string incident_status meaning
  | FoldMessage string string string

datatype fold_notice = Delivered | Deferred thread_message

datatype event_payload =
    RefirePayload string incident_status meaning label_map
  | FoldPayload string string label_map fold_notice
  | ShadowPayload correlation_result

text \<open>Timeline events of the types written here; those of the other types are in \<open>wd_timeline\<close>.\<close>

record webhook_event =
  we_incident_id :: int
  we_created_at :: int
  we_payload :: event_payload

record webhook_db =
  wd_tables :: approval_db
  wd_details :: "(int \<times> incident_details) list"
  wd_timeline :: "timeline_event list"
  wd_events :: "webhook_event list"
  wd_worker :: worker_state
  wd_heartbeats :: "(int \<times> cluster_heartbeat) list"
  wd_posts :: "(int \<times> thread_message) list"

text \<open>What a deployment fixes, and what one alert meets. \<open>ae_db_ok\<close>, \<open>ae_create_ok\<close>: the calls of the database that
  are not guarded succeed, before and at the insertion; \<open>ae_folded_ok\<close>, \<open>ae_target_ok\<close>, \<open>ae_jobs_ok\<close>, \<open>ae_cooldown_ok\<close>:
  the guarded lookups; \<open>ae_event\<close>, \<open>ae_shadow\<close>: the writes of timeline events.\<close>

record webhook_config =
  wx_rt :: runtime
  wx_cluster :: cluster_row
  wx_worker :: worker_config
  wx_text :: "thread_message \<Rightarrow> string"

record alert_env =
  ae_now :: int
  ae_before :: "webhook_db \<Rightarrow> webhook_db"
  ae_during :: "webhook_db \<Rightarrow> webhook_db"
  ae_new_incident :: int
  ae_new_job :: int
  ae_crashed :: "incident_row \<Rightarrow> bool"
  ae_retire_ok :: bool
  ae_slack :: "int \<Rightarrow> bool"
  ae_db_ok :: bool
  ae_folded_ok :: bool
  ae_target_ok :: bool
  ae_jobs_ok :: bool
  ae_cooldown_ok :: bool
  ae_create_ok :: bool
  ae_event :: event_outcome
  ae_shadow :: event_outcome
  ae_adjacency :: "adjacency option"

datatype webhook_error =
    Forbidden | HeartbeatError py_error | DatabaseError | ObjectsExpired | TitleTooLong | EnqueueError store_error

section \<open>Queries\<close>

definition find_duplicate_incident :: "webhook_db \<Rightarrow> int \<Rightarrow> string \<Rightarrow> incident_row option" where
  "find_duplicate_incident db cluster_id title = find_active_incident_by_title (wd_tables db) cluster_id title"

definition fold_payload :: "webhook_config \<Rightarrow> string \<Rightarrow> string \<Rightarrow> label_map \<Rightarrow> fold_notice \<Rightarrow> pydict" where
  "fold_payload wx title alertname labels notice =
     [(''source'', PStr ''incident_correlation''), (''mode'', PStr ''acting''), (''folded_title'', PStr title),
      (''alertname'', PStr alertname), (''labels'', PDict (map (\<lambda>(k, v). (k, PStr v)) labels))]
     @ (case notice of
          Delivered \<Rightarrow> [(''notice'', PStr ''delivered'')]
        | Deferred m \<Rightarrow> [(''notice'', PStr ''deferred_until_war_room''), (''notice_text'', PStr (wx_text wx m))])"

definition folded_needle :: "string \<Rightarrow> string" where
  "folded_needle title = json_str ''folded_title'' @ '': '' @ json_str title"

text \<open>The filter on \<open>payload_json\<close>, a test on the stored text.\<close>

definition folds :: "webhook_config \<Rightarrow> string \<Rightarrow> webhook_event \<Rightarrow> bool" where
  "folds wx title e =
     (case we_payload e of
        FoldPayload t n l d \<Rightarrow> contains (folded_needle title) (json_dumps (wx_rt wx) '', '' '': '' False (PDict (fold_payload wx t n l d)))
      | _ \<Rightarrow> False)"

definition active_in :: "int \<Rightarrow> incident_row \<Rightarrow> bool" where
  "active_in cluster_id r = (ir_cluster_id r = cluster_id \<and> ir_status r \<in> set ACTIVE_INCIDENT_STATUSES)"

definition find_active_incident_with_folded_alert :: "webhook_config \<Rightarrow> webhook_db \<Rightarrow> string \<Rightarrow> incident_row option" where
  "find_active_incident_with_folded_alert wx db title =
     map_option snd (newest (\<lambda>(e, r). we_created_at e)
       (filter (\<lambda>(e, r). we_incident_id e = ir_id r \<and> active_in (cl_id (wx_cluster wx)) r \<and> folds wx title e)
         (List.product (wd_events db) (db_incidents (wd_tables db)))))"

definition list_active_incidents_for_cluster :: "webhook_db \<Rightarrow> int \<Rightarrow> int option \<Rightarrow> incident_row list" where
  "list_active_incidents_for_cluster db cluster_id exclude =
     sort_key ir_created_at (filter (\<lambda>r. active_in cluster_id r \<and> Some (ir_id r) \<noteq> exclude) (db_incidents (wd_tables db)))"

definition details_of :: "webhook_db \<Rightarrow> int \<Rightarrow> incident_details option" where
  "details_of db i = map_of (wd_details db) i"

definition set_text :: "string option \<Rightarrow> bool" where
  "set_text s = (case s of Some t \<Rightarrow> t \<noteq> [] | None \<Rightarrow> False)"

definition has_thread :: "webhook_db \<Rightarrow> int \<Rightarrow> bool" where
  "has_thread db i =
     (case details_of db i of Some d \<Rightarrow> set_text (de_slack_channel d) \<and> set_text (de_slack_thread_ts d) | None \<Rightarrow> False)"

definition add_event :: "int \<Rightarrow> int \<Rightarrow> event_payload \<Rightarrow> webhook_db \<Rightarrow> webhook_db" where
  "add_event i now p db = db\<lparr>wd_events := wd_events db @ [\<lparr>we_incident_id = i, we_created_at = now, we_payload = p\<rparr>]\<rparr>"

text \<open>\<open>post_to_incident_thread\<close>: it reads the thread from the row anew; false without a thread or when the chat refuses.\<close>

definition post_to_incident_thread :: "alert_env \<Rightarrow> int \<Rightarrow> thread_message \<Rightarrow> webhook_db \<Rightarrow> bool \<times> webhook_db" where
  "post_to_incident_thread env i m db =
     (if has_thread db i \<and> ae_slack env i then (True, db\<lparr>wd_posts := wd_posts db @ [(i, m)]\<rparr>) else (False, db))"

section \<open>Alerts that fire again\<close>

definition PARKED_INCIDENT_STATUSES :: "incident_status list" where
  "PARKED_INCIDENT_STATUSES = [INVESTIGATED, REMEDIATION_FAILED, VERIFICATION_UNKNOWN, PENDING_ACKNOWLEDGMENT]"

definition CONDITIONALLY_PARKED_STATUSES :: "incident_status list" where
  "CONDITIONALLY_PARKED_STATUSES = [OPEN, INVESTIGATING]"

definition INVESTIGATION_START_GRACE_SECONDS :: int where
  "INVESTIGATION_START_GRACE_SECONDS = 120"

definition REFIRE_NOTICE_COOLDOWN_MINUTES :: int where
  "REFIRE_NOTICE_COOLDOWN_MINUTES = 60"

definition FOLD_WINDOW_MINUTES :: int where
  "FOLD_WINDOW_MINUTES = 120"

definition parked_meaning :: "alert_env \<Rightarrow> webhook_db \<Rightarrow> incident_row \<Rightarrow> meaning option" where
  "parked_meaning env db incident =
     (let status = ir_status incident in
      if status \<in> set PARKED_INCIDENT_STATUSES then Some (ParkedAt status)
      else if status \<notin> set CONDITIONALLY_PARKED_STATUSES then None
      else if status = OPEN \<and> ae_now env - ir_created_at incident < seconds INVESTIGATION_START_GRACE_SECONDS then None
      else if \<not> ae_jobs_ok env then None
      else if has_live_investigation_job (ir_id incident) (wk_rows (wd_worker db)) then None
      else Some (NoJobFor status))"

fun is_refire :: "event_payload \<Rightarrow> bool" where
  "is_refire (RefirePayload _ _ _ _) = True"
| "is_refire _ = False"

definition refire_times :: "int \<Rightarrow> webhook_event list \<Rightarrow> int list" where
  "refire_times i es = map we_created_at (filter (\<lambda>e. we_incident_id e = i \<and> is_refire (we_payload e)) es)"

definition recently_announced_refire :: "webhook_db \<Rightarrow> int \<Rightarrow> int \<Rightarrow> bool" where
  "recently_announced_refire db i now =
     (case newest id (refire_times i (wd_events db)) of
        None \<Rightarrow> False
      | Some latest \<Rightarrow> now - latest < seconds (60 * REFIRE_NOTICE_COOLDOWN_MINUTES))"

text \<open>Without a fired title of its own, or when it is the title of the incident, the message names only the incident.\<close>

definition refire_message :: "incident_row \<Rightarrow> meaning \<Rightarrow> string option \<Rightarrow> thread_message" where
  "refire_message incident m fired_title =
     RefireMessage (if set_text fired_title \<and> fired_title \<noteq> Some (ir_title incident) then fired_title else None)
       (ir_title incident) (ir_status incident) m"

text \<open>A write that expired the row objects raises where the failure is logged.\<close>

definition announce_refire_on_parked_incident :: "alert_env \<Rightarrow> incident_row \<Rightarrow> alert \<Rightarrow> string option \<Rightarrow> webhook_db
    \<Rightarrow> (webhook_error, bool) res \<times> webhook_db" where
  "announce_refire_on_parked_incident env incident a fired_title db =
     (let i = ir_id incident in
      case parked_meaning env db incident of
        None \<Rightarrow> (Inr False, db)
      | Some m \<Rightarrow>
          (if \<not> ae_cooldown_ok env \<or> recently_announced_refire db i (ae_now env) then (Inr False, db)
           else case ae_event env of
             EventExpired \<Rightarrow> (Inl ObjectsExpired, db)
           | EventLost \<Rightarrow> (Inr False, db)
           | EventStored \<Rightarrow>
               (let (posted, db') = post_to_incident_thread env i (refire_message incident m fired_title)
                      (add_event i (ae_now env) (RefirePayload (al_alertname a) (ir_status incident) m (al_labels a)) db)
                in (Inr posted, db'))))"

section \<open>Folding\<close>

definition candidate_of :: "webhook_config \<Rightarrow> webhook_db \<Rightarrow> incident_row \<Rightarrow> candidate" where
  "candidate_of wx db r =
     \<lparr>cd_incident_id = uuid_str (ir_id r), cd_cluster_id = uuid_str (cl_id (wx_cluster wx)), cd_title = ir_title r,
      cd_description = (case details_of db (ir_id r) of Some d \<Rightarrow> de_description d | None \<Rightarrow> []),
      cd_created_at = Some (ir_created_at r)\<rparr>"

definition UNCREATED_INCIDENT_ID :: string where
  "UNCREATED_INCIDENT_ID = ''uncreated''"

definition uncreated :: "webhook_config \<Rightarrow> string \<Rightarrow> string \<Rightarrow> int \<Rightarrow> candidate" where
  "uncreated wx title description now =
     \<lparr>cd_incident_id = UNCREATED_INCIDENT_ID, cd_cluster_id = uuid_str (cl_id (wx_cluster wx)), cd_title = title,
      cd_description = description, cd_created_at = Some now\<rparr>"

definition find_fold_target :: "webhook_config \<Rightarrow> alert_env \<Rightarrow> string \<Rightarrow> string \<Rightarrow> webhook_db \<Rightarrow> incident_row option" where
  "find_fold_target wx env title description db =
     (let open_incidents = list_active_incidents_for_cluster db (cl_id (wx_cluster wx)) None in
      if open_incidents = [] then None
      else case actionable_bundle (uncreated wx title description (ae_now env)) (map (candidate_of wx db) open_incidents)
                  FOLD_WINDOW_MINUTES None DEFAULT_SIMILARITY_THRESHOLD of
        None \<Rightarrow> None
      | Some match \<Rightarrow>
          (case List.find (\<lambda>r. uuid_str (ir_id r) = cm_incident_id match) open_incidents of
             None \<Rightarrow> None
           | Some parent \<Rightarrow>
               (if parked_meaning env db parent \<noteq> None then None
                else if \<not> has_thread db (ir_id parent) \<and> \<not> has_live_investigation_job (ir_id parent) (wk_rows (wd_worker db)) then None
                else Some parent)))"

text \<open>A failed write is rolled back, which expires every row object: the next attribute read raises. It is
  the caller's, so the whole delivery fails.\<close>

definition fold_ahead_of_war_room :: "alert_env \<Rightarrow> incident_row \<Rightarrow> alert \<Rightarrow> string \<Rightarrow> thread_message \<Rightarrow> webhook_db
    \<Rightarrow> (webhook_error, bool) res \<times> webhook_db" where
  "fold_ahead_of_war_room env parent a title m db =
     (if ae_event env \<noteq> EventStored then (Inl ObjectsExpired, db)
      else let (posted, db') = post_to_incident_thread env (ir_id parent) m
                 (ae_during env (add_event (ir_id parent) (ae_now env) (FoldPayload title (al_alertname a) (al_labels a) (Deferred m)) db))
           in (Inr True, db'))"

definition fold_alert_into_incident :: "alert_env \<Rightarrow> incident_row \<Rightarrow> alert \<Rightarrow> string \<Rightarrow> webhook_db
    \<Rightarrow> (webhook_error, bool) res \<times> webhook_db" where
  "fold_alert_into_incident env parent a title db =
     (let m = FoldMessage title (ir_title parent) (extract_service title); i = ir_id parent in
      if \<not> has_thread db i then fold_ahead_of_war_room env parent a title m db
      else let (delivered, db') = post_to_incident_thread env i m (ae_during env db)
           in if \<not> delivered then (Inr False, db')
              else if ae_event env \<noteq> EventStored then (Inl ObjectsExpired, db')
              else (Inr True, add_event i (ae_now env) (FoldPayload title (al_alertname a) (al_labels a) Delivered) db'))"

section \<open>Opening an incident\<close>

text \<open>The column of the title holds 200 characters.\<close>

definition create_incident :: "webhook_config \<Rightarrow> alert_env \<Rightarrow> string \<Rightarrow> string \<Rightarrow> incident_severity \<Rightarrow> webhook_db
    \<Rightarrow> (webhook_error, incident_row \<times> webhook_db) res" where
  "create_incident wx env title description sev db =
     (if \<not> ae_create_ok env then Inl DatabaseError
      else if 200 < length title then Inl TitleTooLong
      else let i = ae_new_incident env; t = wd_tables db;
               row = \<lparr>ir_id = i, ir_cluster_id = cl_id (wx_cluster wx), ir_title = title, ir_created_at = ae_now env,
                      ir_status = OPEN, ir_resolved_at = None\<rparr>;
               details = \<lparr>de_description = description, de_severity = sev, de_slack_channel = None, de_slack_thread_ts = None\<rparr>
           in Inr (row, db\<lparr>wd_tables := t\<lparr>db_incidents := db_incidents t @ [row]\<rparr>, wd_details := (i, details) # wd_details db\<rparr>))"

text \<open>The result tells whether the row objects expired; any other failure is only logged.\<close>

definition record_correlation_shadow :: "webhook_config \<Rightarrow> alert_env \<Rightarrow> incident_row \<Rightarrow> webhook_db \<Rightarrow> bool \<times> webhook_db" where
  "record_correlation_shadow wx env incident db =
     (let open_incidents = list_active_incidents_for_cluster db (cl_id (wx_cluster wx)) (Some (ir_id incident)) in
      if open_incidents = [] then (False, db)
      else let result = correlate (candidate_of wx db incident) (map (candidate_of wx db) open_incidents)
                          DEFAULT_WINDOW_MINUTES (ae_adjacency env) DEFAULT_SIMILARITY_THRESHOLD
           in if co_decision result \<noteq> Bundle then (False, db)
              else case ae_shadow env of
                EventExpired \<Rightarrow> (True, db)
              | EventLost \<Rightarrow> (False, db)
              | EventStored \<Rightarrow> (False, add_event (ir_id incident) (ae_now env) (ShadowPayload result) db))"

definition alert_fields_of :: "alert \<Rightarrow> alert_fields" where
  "alert_fields_of a =
     \<lparr>af_alert_name = al_alertname a, af_labels = map (\<lambda>(k, v). (k, PStr v)) (al_labels a),
      af_annotations = [(''summary'', PStr (al_summary a)), (''description'', PStr (al_description a))],
      af_starts_at = Some (al_starts_at a),
      af_severity = Some (if al_severity a = [] then ''warning'' else al_severity a),
      af_triggered_by = ''alertmanager_webhook''\<rparr>"

datatype outcome = Deduped int bool | Refolded int bool | Folded int | Opened int int

definition open_incident :: "webhook_config \<Rightarrow> alert_env \<Rightarrow> alert \<Rightarrow> webhook_db \<Rightarrow> (webhook_error, outcome) res \<times> webhook_db" where
  "open_incident wx env a db =
     (case create_incident wx env (title_of a) (description_of a) (severity_of a) db of
        Inl e \<Rightarrow> (Inl e, db)
      | Inr (incident, db1) \<Rightarrow>
          (let (expired, db2) = record_correlation_shadow wx env incident db1 in
           if expired then (Inl ObjectsExpired, db2)
           else case enqueue_and_kick (wx_rt wx) (ae_new_job env) (ae_now env) (cl_id (wx_cluster wx)) (Some (cl_org_id (wx_cluster wx)))
                       (ir_id incident) (alert_fields_of a) None (wx_worker wx) (wd_worker db2) of
                  (Inl e, _) \<Rightarrow> (Inl (EnqueueError e), db2)
                | (Inr job, w) \<Rightarrow> (Inr (Opened (ir_id incident) (jr_id job)), db2\<lparr>wd_worker := w\<rparr>)))"

section \<open>The endpoint\<close>

definition fold_or_open :: "webhook_config \<Rightarrow> alert_env \<Rightarrow> alert \<Rightarrow> webhook_db \<Rightarrow> (webhook_error, outcome) res \<times> webhook_db" where
  "fold_or_open wx env a db =
     (case (if ae_target_ok env then find_fold_target wx env (title_of a) (description_of a) db else None) of
        None \<Rightarrow> open_incident wx env a db
      | Some parent \<Rightarrow>
          (case fold_alert_into_incident env parent a (title_of a) db of
             (Inl e, db') \<Rightarrow> (Inl e, db')
           | (Inr folded, db') \<Rightarrow> (if folded then (Inr (Folded (ir_id parent)), db') else open_incident wx env a db')))"

definition handle_firing :: "webhook_config \<Rightarrow> alert_env \<Rightarrow> alert \<Rightarrow> webhook_db \<Rightarrow> (webhook_error, outcome) res \<times> webhook_db" where
  "handle_firing wx env a db0 =
     (let db = ae_before env db0; title = title_of a in
      if \<not> ae_db_ok env then (Inl DatabaseError, db)
      else case find_duplicate_incident db (cl_id (wx_cluster wx)) title of
        Some existing \<Rightarrow>
          (let (r, db') = announce_refire_on_parked_incident env existing a None db
           in (map_sum id (Deduped (ir_id existing)) r, db'))
      | None \<Rightarrow>
          (case (if ae_folded_ok env then find_active_incident_with_folded_alert wx db title else None) of
             Some parent \<Rightarrow>
               (let (r, db') = announce_refire_on_parked_incident env parent a (Some title) db
                in (map_sum id (Refolded (ir_id parent)) r, db'))
           | None \<Rightarrow> fold_or_open wx env a db))"

datatype ended_note = SiblingFiring string | Reconciled string clear_result | FoldedInto string int

record webhook_reply =
  rp_received :: nat
  rp_created :: nat
  rp_folded :: nat
  rp_resolved :: nat
  rp_notes :: "ended_note list"

definition no_reply :: "nat \<Rightarrow> webhook_reply" where
  "no_reply n = \<lparr>rp_received = n, rp_created = 0, rp_folded = 0, rp_resolved = 0, rp_notes = []\<rparr>"

definition count_outcome :: "alert \<Rightarrow> outcome \<Rightarrow> webhook_reply \<Rightarrow> webhook_reply" where
  "count_outcome a out rp =
     (case out of
        Folded i \<Rightarrow> rp\<lparr>rp_folded := rp_folded rp + 1, rp_notes := rp_notes rp @ [FoldedInto (al_alertname a) i]\<rparr>
      | Opened i j \<Rightarrow> rp\<lparr>rp_created := rp_created rp + 1\<rparr>
      | _ \<Rightarrow> rp)"

text \<open>The view of the tables that the handler of resolved alerts has.\<close>

definition life_view :: "webhook_db \<Rightarrow> lifecycle_db" where
  "life_view db =
     \<lparr>lb_tables = wd_tables db,
      lb_jobs = [(i, jr_created_at r, case jr_payload r of Some p \<Rightarrow> PStr p | None \<Rightarrow> PNone). r \<leftarrow> wk_rows (wd_worker db),
                 Some i \<leftarrow> [jr_incident_id r]],
      lb_timeline = wd_timeline db\<rparr>"

definition handle_ended :: "webhook_config \<Rightarrow> string list \<Rightarrow> alert_env \<Rightarrow> alert \<Rightarrow> webhook_db \<Rightarrow> (webhook_error, ended_note) res \<times> webhook_db" where
  "handle_ended wx firing_titles env a db0 =
     (if title_of a \<in> set firing_titles then (Inr (SiblingFiring (al_alertname a)), db0)
      else let db = ae_before env db0 in
           if \<not> ae_db_ok env then (Inl DatabaseError, db)
           else let (r, life) = handle_resolved_alert (ae_crashed env) (ae_retire_ok env) (ae_now env) (cl_id (wx_cluster wx))
                                  (al_service a) (al_alertname a) (life_view db)
                in (Inr (Reconciled (al_alertname a) r), db\<lparr>wd_tables := lb_tables life, wd_timeline := lb_timeline life\<rparr>))"

definition count_note :: "ended_note \<Rightarrow> webhook_reply \<Rightarrow> webhook_reply" where
  "count_note n rp =
     rp\<lparr>rp_notes := rp_notes rp @ [n],
        rp_resolved := rp_resolved rp + (case n of Reconciled _ r \<Rightarrow> (if cr_matched r then 1 else 0) | _ \<Rightarrow> 0)\<rparr>"

definition handle_alert :: "webhook_config \<Rightarrow> string list \<Rightarrow> alert_env \<Rightarrow> alert \<Rightarrow> webhook_reply \<Rightarrow> webhook_db
    \<Rightarrow> (webhook_error, webhook_reply) res \<times> webhook_db" where
  "handle_alert wx firing_titles env a rp db =
     (if al_status a \<noteq> ''firing''
      then let (r, db') = handle_ended wx firing_titles env a db in (map_sum id (\<lambda>n. count_note n rp) r, db')
      else let (r, db') = handle_firing wx env a db in (map_sum id (\<lambda>out. count_outcome a out rp) r, db'))"

fun handle_alerts :: "webhook_config \<Rightarrow> string list \<Rightarrow> (alert_env \<times> alert) list \<Rightarrow> webhook_reply \<Rightarrow> webhook_db
    \<Rightarrow> (webhook_error, webhook_reply) res \<times> webhook_db" where
  "handle_alerts wx firing [] rp db = (Inr rp, db)"
| "handle_alerts wx firing ((env, a) # rest) rp db =
     (case handle_alert wx firing env a rp db of
        (Inl e, db') \<Rightarrow> (Inl e, db')
      | (Inr rp', db') \<Rightarrow> handle_alerts wx firing rest rp' db')"

definition update_cluster_heartbeat :: "webhook_config \<Rightarrow> int \<Rightarrow> webhook_db \<Rightarrow> (webhook_error, webhook_db) res" where
  "update_cluster_heartbeat wx now db =
     (case evaluate_heartbeat (wx_rt wx) (Some now) (Some ''alertmanager'') now False of
        Inl e \<Rightarrow> Inl (HeartbeatError e)
      | Inr ev \<Rightarrow> Inr (db\<lparr>wd_heartbeats := (cl_id (wx_cluster wx),
          \<lparr>hb_at = now, hb_status = he_status ev, hb_source = ''alertmanager'', hb_reason = ''alertmanager_webhook''\<rparr>) # wd_heartbeats db\<rparr>))"

definition firing_titles :: "alert list \<Rightarrow> string list" where
  "firing_titles alerts = map title_of (filter (\<lambda>a. al_status a = ''firing'') alerts)"

definition get_cluster_from_token :: "(string \<Rightarrow> cluster_row option) \<Rightarrow> string option \<Rightarrow> (webhook_error, cluster_row) res" where
  "get_cluster_from_token by_token authorization =
     (case authorization of
        None \<Rightarrow> Inl Forbidden
      | Some h \<Rightarrow>
          (if take 7 h \<noteq> ''Bearer '' then Inl Forbidden
           else case by_token (drop 7 h) of None \<Rightarrow> Inl Forbidden | Some c \<Rightarrow> Inr c))"

text \<open>The environments of the alerts are given by position.\<close>

definition receive_alertmanager_webhook :: "webhook_config \<Rightarrow> int \<Rightarrow> (nat \<Rightarrow> alert_env) \<Rightarrow> raw_alert list option \<Rightarrow> webhook_db
    \<Rightarrow> (webhook_error, webhook_reply) res \<times> webhook_db" where
  "receive_alertmanager_webhook wx now envs body db =
     (let alerts = parse_alertmanager_payload body in
      case update_cluster_heartbeat wx now db of
        Inl e \<Rightarrow> (Inl e, db)
      | Inr db' \<Rightarrow> handle_alerts wx (firing_titles alerts) (zip (map envs [0..<length alerts]) alerts) (no_reply (length alerts)) db')"

section \<open>Lemmas\<close>

lemma post_fields [simp]:
  "wd_tables (snd (post_to_incident_thread env i m db)) = wd_tables db"
  "wd_details (snd (post_to_incident_thread env i m db)) = wd_details db"
  "wd_timeline (snd (post_to_incident_thread env i m db)) = wd_timeline db"
  "wd_events (snd (post_to_incident_thread env i m db)) = wd_events db"
  "wd_worker (snd (post_to_incident_thread env i m db)) = wd_worker db"
  by (simp_all add: post_to_incident_thread_def)

lemma post_result: "post_to_incident_thread env i m db = (b, db') \<Longrightarrow>
    b = (has_thread db i \<and> ae_slack env i) \<and> db' = db\<lparr>wd_posts := wd_posts db @ (if b then [(i, m)] else [])\<rparr>"
  by (auto simp: post_to_incident_thread_def split: if_splits)

lemma add_event_fields [simp]:
  "wd_tables (add_event i t p db) = wd_tables db" "wd_details (add_event i t p db) = wd_details db"
  "wd_worker (add_event i t p db) = wd_worker db" "wd_posts (add_event i t p db) = wd_posts db"
  "wd_events (add_event i t p db) = wd_events db @ [\<lparr>we_incident_id = i, we_created_at = t, we_payload = p\<rparr>]"
  by (simp_all add: add_event_def)

lemma add_event_same_posts [simp]: "add_event i t p db\<lparr>wd_posts := wd_posts db\<rparr> = add_event i t p db"
  by (simp add: add_event_def)

lemma has_thread_add_event [simp]: "has_thread (add_event i t p db) j = has_thread db j"
  by (simp add: has_thread_def details_of_def)

lemma newest_None: "newest f xs = None \<longleftrightarrow> xs = []"
  by (auto simp: newest_def split: list.split dest: arg_cong [of _ _ set])

definition tracks :: "int \<Rightarrow> string \<Rightarrow> incident_row \<Rightarrow> bool" where
  "tracks cluster_id title r = (active_in cluster_id r \<and> ir_title r = title)"

lemma find_duplicate_None:
  "find_duplicate_incident db c t = None \<longleftrightarrow> filter (tracks c t) (db_incidents (wd_tables db)) = []"
  by (auto simp: find_duplicate_incident_def find_active_incident_by_title_def newest_None filter_empty_conv tracks_def active_in_def)

lemma find_duplicate_Some:
  "find_duplicate_incident db c t = Some r \<Longrightarrow> r \<in> set (db_incidents (wd_tables db)) \<and> tracks c t r"
  by (auto simp: find_duplicate_incident_def find_active_incident_by_title_def tracks_def active_in_def dest!: newest_Some)

text \<open>The row a firing alert inserts.\<close>

definition new_incident :: "webhook_config \<Rightarrow> alert_env \<Rightarrow> alert \<Rightarrow> incident_row" where
  "new_incident wx env a =
     \<lparr>ir_id = ae_new_incident env, ir_cluster_id = cl_id (wx_cluster wx), ir_title = title_of a, ir_created_at = ae_now env,
      ir_status = OPEN, ir_resolved_at = None\<rparr>"

definition inserted :: "webhook_config \<Rightarrow> alert_env \<Rightarrow> alert \<Rightarrow> webhook_db \<Rightarrow> webhook_db" where
  "inserted wx env a db =
     db\<lparr>wd_tables := (wd_tables db)\<lparr>db_incidents := db_incidents (wd_tables db) @ [new_incident wx env a]\<rparr>,
        wd_details := (ae_new_incident env, \<lparr>de_description = description_of a, de_severity = severity_of a,
                         de_slack_channel = None, de_slack_thread_ts = None\<rparr>) # wd_details db\<rparr>"

lemma create_incident_result:
  "create_incident wx env (title_of a) (description_of a) (severity_of a) db =
     (if \<not> ae_create_ok env then Inl DatabaseError else if 200 < length (title_of a) then Inl TitleTooLong
      else Inr (new_incident wx env a, inserted wx env a db))"
  by (simp add: create_incident_def new_incident_def inserted_def Let_def)

lemma shadow_cases:
  obtains (quiet) b where "record_correlation_shadow wx env r db = (b, db)"
  | (recorded) c where "record_correlation_shadow wx env r db = (False, add_event (ir_id r) (ae_now env) (ShadowPayload c) db)"
proof -
  have "(\<exists>b. record_correlation_shadow wx env r db = (b, db))
    \<or> (\<exists>c. record_correlation_shadow wx env r db = (False, add_event (ir_id r) (ae_now env) (ShadowPayload c) db))"
    by (auto simp: record_correlation_shadow_def Let_def split: event_outcome.split)
  then show thesis using quiet recorded by blast
qed

definition noted_refire :: "alert_env \<Rightarrow> incident_row \<Rightarrow> alert \<Rightarrow> meaning \<Rightarrow> webhook_db \<Rightarrow> webhook_db" where
  "noted_refire env incident a m db =
     add_event (ir_id incident) (ae_now env) (RefirePayload (al_alertname a) (ir_status incident) m (al_labels a)) db"

lemma announce_result:
  "announce_refire_on_parked_incident env incident a ft db =
     (case parked_meaning env db incident of
        None \<Rightarrow> (Inr False, db)
      | Some m \<Rightarrow>
          (if \<not> ae_cooldown_ok env \<or> recently_announced_refire db (ir_id incident) (ae_now env) then (Inr False, db)
           else if ae_event env \<noteq> EventStored then (if ae_event env = EventExpired then Inl ObjectsExpired else Inr False, db)
           else (let b = has_thread db (ir_id incident) \<and> ae_slack env (ir_id incident) in
                 (Inr b, (noted_refire env incident a m db)
                    \<lparr>wd_posts := wd_posts db @ (if b then [(ir_id incident, refire_message incident m ft)] else [])\<rparr>))))"
  by (cases "ae_event env")
     (simp_all add: announce_refire_on_parked_incident_def Let_def post_to_incident_thread_def noted_refire_def
       split: option.split)

lemma announce_cases:
  obtains (silent) r where "announce_refire_on_parked_incident env incident a ft db = (r, db)" "r \<in> {Inr False, Inl ObjectsExpired}"
  | (announced) m b ps where "parked_meaning env db incident = Some m"
      "\<not> recently_announced_refire db (ir_id incident) (ae_now env)"
      "announce_refire_on_parked_incident env incident a ft db = (Inr b, (noted_refire env incident a m db)\<lparr>wd_posts := ps\<rparr>)"
proof -
  let ?r = "announce_refire_on_parked_incident env incident a ft db"
  have "?r = (Inr False, db) \<or> ?r = (Inl ObjectsExpired, db)
    \<or> (\<exists>m b ps. parked_meaning env db incident = Some m \<and> \<not> recently_announced_refire db (ir_id incident) (ae_now env)
          \<and> ?r = (Inr b, (noted_refire env incident a m db)\<lparr>wd_posts := ps\<rparr>))"
    by (cases "parked_meaning env db incident") (simp_all add: announce_result Let_def, blast)
  then show thesis using silent announced by blast
qed

section \<open>Invariants of a delivery\<close>

lemma heartbeat_result:
  obtains (failed) e where "receive_alertmanager_webhook wx now envs body db = (Inl e, db)"
  | (delivered) hbs where "receive_alertmanager_webhook wx now envs body db =
        handle_alerts wx (firing_titles (parse_alertmanager_payload body))
          (zip (map envs [0..<length (parse_alertmanager_payload body)]) (parse_alertmanager_payload body))
          (no_reply (length (parse_alertmanager_payload body))) (db\<lparr>wd_heartbeats := hbs\<rparr>)"
  by (cases "evaluate_heartbeat (wx_rt wx) (Some now) (Some ''alertmanager'') now False")
     (auto simp: receive_alertmanager_webhook_def update_cluster_heartbeat_def Let_def)

lemma all_envs: "(\<And>n. E (envs n)) \<Longrightarrow> list_all (\<lambda>e. E (fst e)) (zip (map envs ns) xs)"
  by (auto simp: list_all_iff dest!: set_zip_leftD)

text \<open>What has to be shown of a state predicate so that every delivery keeps it. \<open>E\<close> describes the environments, and
  \<open>fresh\<close> what the lookups found of the title at the insertion.\<close>

locale delivery_invariant =
  fixes wx :: webhook_config and firing :: "string list" and E :: "alert_env \<Rightarrow> bool"
    and P :: "webhook_db \<Rightarrow> bool" and fresh :: "webhook_db \<Rightarrow> string \<Rightarrow> bool"
  assumes before: "E env \<Longrightarrow> P db \<Longrightarrow> P (ae_before env db)"
    and during: "E env \<Longrightarrow> P db \<Longrightarrow> P (ae_during env db)"
    and fresh_lookup: "find_duplicate_incident db (cl_id (wx_cluster wx)) t = None \<Longrightarrow> fresh db t"
    and fresh_during: "E env \<Longrightarrow> fresh db t \<Longrightarrow> fresh (ae_during env db) t"
    and fresh_posts: "fresh db t \<Longrightarrow> fresh (db\<lparr>wd_posts := ps\<rparr>) t"
    and posts: "P db \<Longrightarrow> P (db\<lparr>wd_posts := ps\<rparr>)"
    and heartbeats: "P db \<Longrightarrow> P (db\<lparr>wd_heartbeats := hbs\<rparr>)"
    and worker: "P db \<Longrightarrow> P (db\<lparr>wd_worker := w\<rparr>)"
    and event: "P db \<Longrightarrow> \<not> is_refire p \<Longrightarrow> P (add_event i now p db)"
    and refire: "P db \<Longrightarrow> \<not> recently_announced_refire db i now \<Longrightarrow> P (add_event i now p db)"
    and opened: "P db \<Longrightarrow> fresh db (title_of a) \<Longrightarrow> P (inserted wx env a db)"
    and cleared: "P db \<Longrightarrow> title_of a \<notin> set firing \<Longrightarrow> life =
          snd (handle_resolved_alert (ae_crashed env) (ae_retire_ok env) (ae_now env) (cl_id (wx_cluster wx))
                 (al_service a) (al_alertname a) (life_view db))
        \<Longrightarrow> P (db\<lparr>wd_tables := lb_tables life, wd_timeline := lb_timeline life\<rparr>)"
begin

lemma announce_keeps: "P db \<Longrightarrow> P (snd (announce_refire_on_parked_incident env incident a ft db))"
proof (cases rule: announce_cases [of env incident a ft db])
  case (announced m b ps)
  assume "P db"
  then have "P (noted_refire env incident a m db)" using announced(2) refire by (simp add: noted_refire_def)
  then show ?thesis using announced(3) posts by simp
qed simp

lemma post_keeps: "P db \<Longrightarrow> P (snd (post_to_incident_thread env i m db))"
  using posts by (simp add: post_to_incident_thread_def)

lemma shadow_keeps: "P db \<Longrightarrow> P (snd (record_correlation_shadow wx env r db))"
  by (cases rule: shadow_cases [of wx env r db]) (simp_all add: event)

lemma open_keeps: "P db \<Longrightarrow> fresh db (title_of a) \<Longrightarrow> P (snd (open_incident wx env a db))"
proof -
  assume P: "P db" "fresh db (title_of a)"
  obtain b db2 where s: "record_correlation_shadow wx env (new_incident wx env a) (inserted wx env a db) = (b, db2)"
    by (metis surj_pair)
  have "P db2" using shadow_keeps [OF opened [OF P, of env], of env "new_incident wx env a"] s by simp
  then show ?thesis
    using P(1) s worker by (auto simp: open_incident_def create_incident_result split: sum.split prod.split)
qed

lemma fold_keeps:
  "E env \<Longrightarrow> P db \<Longrightarrow> P (snd (fold_alert_into_incident env parent a t db))"
  by (auto simp: fold_alert_into_incident_def fold_ahead_of_war_room_def Let_def split_def
      intro!: event post_keeps during)

lemma fold_refused_fresh:
  "E env \<Longrightarrow> fresh db t \<Longrightarrow> fold_alert_into_incident env parent a t db = (Inr False, db') \<Longrightarrow> fresh db' t"
  by (auto simp: fold_alert_into_incident_def fold_ahead_of_war_room_def Let_def split_def post_to_incident_thread_def
      intro!: fresh_posts fresh_during split: if_splits)

lemma fold_or_open_keeps:
  assumes "E env" "P db" "fresh db (title_of a)"
  shows "P (snd (fold_or_open wx env a db))"
proof (cases "if ae_target_ok env then find_fold_target wx env (title_of a) (description_of a) db else None")
  case None
  then show ?thesis using open_keeps assms by (simp add: fold_or_open_def)
next
  case (Some parent)
  obtain r db' where f: "fold_alert_into_incident env parent a (title_of a) db = (r, db')" by (metis surj_pair)
  have "P db'" using fold_keeps [OF assms(1,2), of parent a "title_of a"] f by simp
  moreover have "r = Inr False \<Longrightarrow> fresh db' (title_of a)" using fold_refused_fresh [OF assms(1,3)] f by simp
  ultimately show ?thesis
    using Some f open_keeps by (cases r) (auto simp: fold_or_open_def)
qed

lemma firing_keeps: "E env \<Longrightarrow> P db \<Longrightarrow> P (snd (handle_firing wx env a db))"
  using announce_keeps before fold_or_open_keeps fresh_lookup
  by (auto simp: handle_firing_def Let_def split_def split: option.split)

lemma ended_keeps: "E env \<Longrightarrow> P db \<Longrightarrow> P (snd (handle_ended wx firing env a db))"
  using before cleared by (auto simp: handle_ended_def Let_def split_def)

lemma alert_keeps: "E env \<Longrightarrow> P db \<Longrightarrow> P (snd (handle_alert wx firing env a rp db))"
  using firing_keeps ended_keeps by (simp add: handle_alert_def split_def Let_def)

lemma alerts_keep: "list_all (\<lambda>e. E (fst e)) es \<Longrightarrow> P db \<Longrightarrow> P (snd (handle_alerts wx firing es rp db))"
proof (induction es arbitrary: rp db)
  case (Cons e es)
  obtain env a where e: "e = (env, a)" by (metis surj_pair)
  have "P (snd (handle_alert wx firing env a rp db))" using Cons.prems e alert_keeps by simp
  then show ?case using Cons e by (auto split: prod.split sum.split)
qed simp

lemma delivery_keeps:
  assumes "firing = firing_titles (parse_alertmanager_payload body)" "\<And>n. E (envs n)" "P db"
  shows "P (snd (receive_alertmanager_webhook wx now envs body db))"
proof (cases rule: heartbeat_result [of wx now envs body db])
  case (delivered hbs)
  have "list_all (\<lambda>e. E (fst e)) (zip (map envs ns) xs)" for ns and xs :: "alert list"
    by (rule all_envs) (rule assms(2))
  then show ?thesis using delivered alerts_keep heartbeats assms(1,3) by simp
qed (simp add: assms(3))

end

text \<open>What an ended alert does to the incidents.\<close>

lemma resolved_alert_rows:
  obtains (same) "db_incidents (lb_tables (snd (handle_resolved_alert crashed ok now c service alertname db))) = db_incidents (lb_tables db)"
  | (closed) incident where "incident \<in> set (db_incidents (lb_tables db))" "ir_title incident = incident_title service alertname"
      "length (filter (\<lambda>r. ir_id r = ir_id incident \<and> ir_status r = ir_status incident) (db_incidents (lb_tables db))) = 1"
      "db_incidents (lb_tables (snd (handle_resolved_alert crashed ok now c service alertname db))) =
         update_where (\<lambda>r. ir_id r = ir_id incident \<and> ir_status r = ir_status incident)
           (\<lambda>r. r\<lparr>ir_status := RESOLVED, ir_resolved_at := Some now\<rparr>) (db_incidents (lb_tables db))"
proof (cases "find_active_incident_by_title (lb_tables db) c (incident_title service alertname)")
  case None
  then show thesis using same by (simp add: handle_resolved_alert_def)
next
  case (Some incident)
  note found = find_active_mem [OF Some]
  then have mem: "incident \<in> set (db_incidents (lb_tables db))" by simp
  show thesis
    using mem
  proof (cases rule: clear_incident_cases [where crashed = crashed and retire_ok = ok and now = now])
    case untouched
    then show thesis using same Some by (simp add: handle_resolved_alert_def)
  next
    case resolved
    then show thesis
      using closed [OF mem] found Some by (simp add: handle_resolved_alert_def Let_def cas_incident_def split: if_splits)
  qed
qed

lemma resolved_alert_keeps_row:
  assumes "r \<in> set (db_incidents (lb_tables db))" "ir_title r \<noteq> incident_title service alertname"
  shows "r \<in> set (db_incidents (lb_tables (snd (handle_resolved_alert crashed ok now c service alertname db))))"
proof (cases rule: resolved_alert_rows [of crashed ok now c service alertname db])
  case same
  then show ?thesis using assms by simp
next
  case (closed incident)
  have "\<not> (ir_id r = ir_id incident \<and> ir_status r = ir_status incident)"
    using filter_one_eq [OF closed(3) assms(1) _ closed(1)] assms(2) closed(2) by auto
  then show ?thesis using assms(1) closed(4) by (force simp: update_where_def)
qed

lemma length_filter_update_where:
  "(\<And>x. p x \<Longrightarrow> \<not> q (f x)) \<Longrightarrow> length (filter q (update_where p f xs)) \<le> length (filter q xs)"
  by (induction xs) (auto simp: update_where_def)

lemma resolved_alert_tracks:
  "length (filter (tracks c' t) (db_incidents (lb_tables (snd (handle_resolved_alert crashed ok now c service alertname db)))))
     \<le> length (filter (tracks c' t) (db_incidents (lb_tables db)))"
proof (cases rule: resolved_alert_rows [of crashed ok now c service alertname db])
  case (closed incident)
  then show ?thesis
    by (simp add: length_filter_update_where tracks_def active_in_def ACTIVE_INCIDENT_STATUSES_def)
qed simp

lemma life_view_tables [simp]: "lb_tables (life_view db) = wd_tables db"
  by (simp add: life_view_def)

definition keeps_row :: "incident_row \<Rightarrow> alert_env \<Rightarrow> bool" where
  "keeps_row r env = (\<forall>db. r \<in> set (db_incidents (wd_tables db)) \<longrightarrow>
     r \<in> set (db_incidents (wd_tables (ae_before env db))) \<and> r \<in> set (db_incidents (wd_tables (ae_during env db))))"

interpretation kept: delivery_invariant wx firing "keeps_row r" "\<lambda>db. ir_title r \<in> set firing \<longrightarrow> r \<in> set (db_incidents (wd_tables db))" "\<lambda>_ _. True"
  for wx firing r
  by unfold_locales (auto simp: keeps_row_def inserted_def title_of_def intro: resolved_alert_keeps_row)

definition one_per_title :: "int \<Rightarrow> webhook_db \<Rightarrow> bool" where
  "one_per_title c db = (\<forall>t. length (filter (tracks c t) (db_incidents (wd_tables db))) \<le> 1)"

text \<open>Other transactions keep to one incident per title, and during the round trip of a fold they open none for a
  title that has none.\<close>

definition respects_titles :: "int \<Rightarrow> alert_env \<Rightarrow> bool" where
  "respects_titles c env =
     ((\<forall>db. one_per_title c db \<longrightarrow> one_per_title c (ae_before env db) \<and> one_per_title c (ae_during env db))
      \<and> (\<forall>db t. find_duplicate_incident db c t = None \<longrightarrow> find_duplicate_incident (ae_during env db) c t = None))"

lemma one_per_title_fields [simp]:
  "one_per_title c (db\<lparr>wd_posts := ps\<rparr>) = one_per_title c db" "one_per_title c (db\<lparr>wd_worker := w\<rparr>) = one_per_title c db"
  "one_per_title c (db\<lparr>wd_heartbeats := hbs\<rparr>) = one_per_title c db" "one_per_title c (add_event i t p db) = one_per_title c db"
  by (simp_all add: one_per_title_def)

interpretation single: delivery_invariant wx firing "respects_titles (cl_id (wx_cluster wx))" "one_per_title (cl_id (wx_cluster wx))"
    "\<lambda>db t. find_duplicate_incident db (cl_id (wx_cluster wx)) t = None"
  for wx firing
proof unfold_locales
  fix db a env
  let ?c = "cl_id (wx_cluster wx)"
  assume "one_per_title ?c db" "find_duplicate_incident db ?c (title_of a) = None"
  then show "one_per_title ?c (inserted wx env a db)"
    by (auto simp: one_per_title_def inserted_def find_duplicate_None tracks_def new_incident_def)
next
  fix db a env life
  let ?c = "cl_id (wx_cluster wx)"
  assume db: "one_per_title ?c db" and life: "life = snd (handle_resolved_alert (ae_crashed env) (ae_retire_ok env) (ae_now env) ?c
    (al_service a) (al_alertname a) (life_view db))"
  have "length (filter (tracks ?c t) (db_incidents (lb_tables life))) \<le> 1" for t
    using resolved_alert_tracks [of ?c t "ae_crashed env" "ae_retire_ok env" "ae_now env" ?c "al_service a" "al_alertname a" "life_view db"]
      db life by (auto simp: one_per_title_def intro: order_trans)
  then show "one_per_title ?c (db\<lparr>wd_tables := lb_tables life, wd_timeline := lb_timeline life\<rparr>)"
    by (simp add: one_per_title_def)
qed (auto simp: respects_titles_def find_duplicate_None)

definition cooldown :: int where
  "cooldown = seconds (60 * REFIRE_NOTICE_COOLDOWN_MINUTES)"

definition spaced :: "webhook_db \<Rightarrow> bool" where
  "spaced db = (\<forall>i. sorted_wrt (\<lambda>s t. s + cooldown \<le> t) (refire_times i (wd_events db)))"

definition keeps_spacing :: "alert_env \<Rightarrow> bool" where
  "keeps_spacing env = (\<forall>db. spaced db \<longrightarrow> spaced (ae_before env db) \<and> spaced (ae_during env db))"

lemma newest_ge: "newest f xs = Some x \<Longrightarrow> y \<in> set xs \<Longrightarrow> f y \<le> f x"
proof -
  assume x: "newest f xs = Some x" and y: "y \<in> set xs"
  obtain zs where s: "sort_key (\<lambda>r. - f r) xs = x # zs" using x by (auto simp: newest_def split: list.splits)
  have "sorted (map (\<lambda>r. - f r) (x # zs))" using sorted_sort_key [of "\<lambda>r. - f r" xs] s by simp
  moreover have "y \<in> set (x # zs)" using y s by (metis set_sort)
  ultimately show ?thesis by auto
qed

lemma not_recently:
  assumes "\<not> recently_announced_refire db i now" "s \<in> set (refire_times i (wd_events db))"
  shows "s + cooldown \<le> now"
proof -
  obtain m where "newest id (refire_times i (wd_events db)) = Some m" using assms(2) newest_None by (metis empty_iff empty_set option.exhaust)
  moreover from this have "s \<le> m" using newest_ge [of id _ m s] assms(2) by simp
  ultimately show ?thesis using assms(1) by (simp add: recently_announced_refire_def cooldown_def)
qed

lemma refire_times_add:
  "refire_times i (es @ [e]) = refire_times i es @ (if we_incident_id e = i \<and> is_refire (we_payload e) then [we_created_at e] else [])"
  by (simp add: refire_times_def)

interpretation spacing: delivery_invariant wx firing keeps_spacing spaced "\<lambda>_ _. True" for wx firing
proof unfold_locales
  fix db i now p
  assume "spaced db" "\<not> recently_announced_refire db i now"
  then show "spaced (add_event i now p db)"
    using not_recently by (auto simp: spaced_def refire_times_add sorted_wrt_append)
next
  fix db i now p
  assume "spaced db" "\<not> is_refire p"
  then show "spaced (add_event i now p db)" by (simp add: spaced_def refire_times_add)
qed (auto simp: keeps_spacing_def spaced_def inserted_def)

section \<open>What becomes of a firing alert\<close>

definition keeps_events :: "alert_env \<Rightarrow> bool" where
  "keeps_events env = (\<forall>db. set (wd_events db) \<subseteq> set (wd_events (ae_during env db)))"

lemma sublist_join: "x \<in> set xs \<Longrightarrow> sublist x (join sep xs)"
proof (induction sep xs rule: join.induct)
  case (3 sep x' y ys)
  then show ?case by (auto simp: sublist_append)
qed auto

lemma folds_own_title:
  assumes "we_payload e = FoldPayload t n l d"
  shows "folds wx t e"
proof -
  let ?es = "map (\<lambda>e. json_str (fst e) @ '': '' @ snd e) (json_entries json_char (wx_rt wx) '', '' '': '' False (fold_payload wx t n l d))"
  have "folded_needle t \<in> set ?es" by (simp add: fold_payload_def folded_needle_def)
  then have "sublist (folded_needle t) (''{'' @ join '', '' ?es @ ''}'')"
    using sublist_join [of "folded_needle t" ?es "'', ''"] by (meson sublist_appendI sublist_order.order_trans)
  then show ?thesis using assms by (simp add: folds_def contains_def Let_def)
qed

lemma fold_target:
  assumes target: "find_fold_target wx env title description db = Some parent"
    and keys: "distinct (map (\<lambda>r. uuid_str (ir_id r)) (db_incidents (wd_tables db)))"
  shows "parent \<in> set (db_incidents (wd_tables db))" "active_in (cl_id (wx_cluster wx)) parent"
    "extract_service (ir_title parent) = extract_service title"
    "\<bar>ae_now env - ir_created_at parent\<bar> \<le> seconds (60 * FOLD_WINDOW_MINUTES)"
    "parked_meaning env db parent = None"
    "has_thread db (ir_id parent) \<or> has_live_investigation_job (ir_id parent) (wk_rows (wd_worker db))"
proof -
  let ?os = "list_active_incidents_for_cluster db (cl_id (wx_cluster wx)) None"
  let ?xs = "map (candidate_of wx db) ?os" and ?c = "uncreated wx title description (ae_now env)"
  have set_os: "set ?os = {r \<in> set (db_incidents (wd_tables db)). active_in (cl_id (wx_cluster wx)) r}"
    by (auto simp: list_active_incidents_for_cluster_def)
  obtain m where m: "actionable_bundle ?c ?xs FOLD_WINDOW_MINUTES None DEFAULT_SIMILARITY_THRESHOLD = Some m"
      and p: "List.find (\<lambda>r. uuid_str (ir_id r) = cm_incident_id m) ?os = Some parent"
      and rest: "parked_meaning env db parent = None"
        "has_thread db (ir_id parent) \<or> has_live_investigation_job (ir_id parent) (wk_rows (wd_worker db))"
    using target by (auto simp: find_fold_target_def Let_def split: option.splits if_splits)
  have parent: "parent \<in> set ?os" "uuid_str (ir_id parent) = cm_incident_id m" using p by (auto simp: find_Some_iff)
  have inj: "inj_on (\<lambda>r. uuid_str (ir_id r)) (set (db_incidents (wd_tables db)))" "distinct (db_incidents (wd_tables db))"
    using keys by (simp_all add: distinct_map)
  have "distinct ?os" using inj(2) by (simp add: list_active_incidents_for_cluster_def)
  moreover have "inj_on (\<lambda>r. uuid_str (ir_id r)) (set ?os)" using inj(1) set_os by (auto intro: inj_on_subset)
  ultimately have "distinct (map cd_incident_id ?xs)"
    by (simp add: distinct_map o_def candidate_of_def)
  note spec = actionable_bundle_spec [OF this, of ?c FOLD_WINDOW_MINUTES None DEFAULT_SIMILARITY_THRESHOLD, unfolded m option.case]
  obtain x where x: "x \<in> set ?xs" "cd_incident_id x = cm_incident_id m" "within_window FOLD_WINDOW_MINUTES ?c x"
      "extract_service (cd_title x) = extract_service (cd_title ?c)"
    using spec by blast
  then obtain r where r: "r \<in> set ?os" "x = candidate_of wx db r" by auto
  then have w: "uuid_str (ir_id r) = cm_incident_id m" "within_window FOLD_WINDOW_MINUTES ?c (candidate_of wx db r)"
      "extract_service (ir_title r) = extract_service title"
    using x by (simp_all add: candidate_of_def uncreated_def)
  have "r = parent" by (rule inj_onD [OF inj(1)]) (use r(1) w(1) parent set_os in auto)
  then show "extract_service (ir_title parent) = extract_service title"
    "\<bar>ae_now env - ir_created_at parent\<bar> \<le> seconds (60 * FOLD_WINDOW_MINUTES)"
    using w(2,3) by (simp_all add: within_window_def candidate_of_def uncreated_def)
  show "parent \<in> set (db_incidents (wd_tables db))" "active_in (cl_id (wx_cluster wx)) parent" using parent(1) set_os by auto
  show "parked_meaning env db parent = None"
    "has_thread db (ir_id parent) \<or> has_live_investigation_job (ir_id parent) (wk_rows (wd_worker db))" by (rule rest)+
qed

text \<open>The notice of a fold reached the thread, or waits in the record for a job that will open the thread.\<close>

definition fold_told :: "webhook_db \<Rightarrow> webhook_db \<Rightarrow> int \<Rightarrow> thread_message \<Rightarrow> webhook_event \<Rightarrow> bool" where
  "fold_told db db' i m e =
     (case we_payload e of
        FoldPayload _ _ _ Delivered \<Rightarrow> (i, m) \<in> set (wd_posts db')
      | FoldPayload _ _ _ (Deferred m') \<Rightarrow> m' = m \<and> has_live_investigation_job i (wk_rows (wd_worker db))
      | _ \<Rightarrow> False)"

lemma fold_recorded:
  assumes fold: "fold_alert_into_incident env parent a title db = (Inr True, db')" and kept: "keeps_events env"
    and "has_thread db (ir_id parent) \<or> has_live_investigation_job (ir_id parent) (wk_rows (wd_worker db))"
  shows "\<exists>e \<in> set (wd_events db'). we_incident_id e = ir_id parent \<and> folds wx title e
    \<and> fold_told db db' (ir_id parent) (FoldMessage title (ir_title parent) (extract_service title)) e"
proof (cases "has_thread db (ir_id parent)")
  case True
  then show ?thesis
    using fold by (auto simp: fold_alert_into_incident_def Let_def split_def fold_told_def post_to_incident_thread_def folds_own_title
        split: if_splits)
next
  case False
  let ?m = "FoldMessage title (ir_title parent) (extract_service title)"
  let ?e = "\<lparr>we_incident_id = ir_id parent, we_created_at = ae_now env, we_payload = FoldPayload title (al_alertname a) (al_labels a) (Deferred ?m)\<rparr>"
  let ?db = "add_event (ir_id parent) (ae_now env) (we_payload ?e) db"
  have "db' = snd (post_to_incident_thread env (ir_id parent) ?m (ae_during env ?db))"
    using fold False by (auto simp: fold_alert_into_incident_def fold_ahead_of_war_room_def Let_def split_def split: if_splits)
  moreover have "?e \<in> set (wd_events (ae_during env ?db))"
    using kept [unfolded keeps_events_def, rule_format, of ?db] by auto
  ultimately have "?e \<in> set (wd_events db')" by simp
  then show ?thesis
    using assms(3) False by (intro bexI [of _ ?e]) (auto simp: fold_told_def folds_own_title)
qed

lemma folded_parent:
  assumes "find_active_incident_with_folded_alert wx db title = Some r"
  shows "\<exists>e \<in> set (wd_events db). we_incident_id e = ir_id r \<and> folds wx title e"
    "r \<in> set (db_incidents (wd_tables db))" "active_in (cl_id (wx_cluster wx)) r"
proof -
  obtain e where "newest (\<lambda>(e, r). we_created_at e) (filter (\<lambda>(e, r). we_incident_id e = ir_id r
      \<and> active_in (cl_id (wx_cluster wx)) r \<and> folds wx title e) (List.product (wd_events db) (db_incidents (wd_tables db)))) = Some (e, r)"
    using assms by (auto simp: find_active_incident_with_folded_alert_def)
  from newest_Some [OF this] show "\<exists>e \<in> set (wd_events db). we_incident_id e = ir_id r \<and> folds wx title e"
    "r \<in> set (db_incidents (wd_tables db))" "active_in (cl_id (wx_cluster wx)) r" by auto
qed

lemma folded_parent_found:
  assumes "e \<in> set (wd_events db)" "folds wx title e" "r \<in> set (db_incidents (wd_tables db))" "ir_id r = we_incident_id e"
    "active_in (cl_id (wx_cluster wx)) r"
  shows "find_active_incident_with_folded_alert wx db title \<noteq> None"
proof -
  have "(e, r) \<in> set (filter (\<lambda>(e, r). we_incident_id e = ir_id r \<and> active_in (cl_id (wx_cluster wx)) r \<and> folds wx title e)
      (List.product (wd_events db) (db_incidents (wd_tables db))))"
    using assms by simp
  then have "filter (\<lambda>(e, r). we_incident_id e = ir_id r \<and> active_in (cl_id (wx_cluster wx)) r \<and> folds wx title e)
      (List.product (wd_events db) (db_incidents (wd_tables db))) \<noteq> []"
    by (rule length_pos_if_in_set [THEN length_greater_0_conv [THEN iffD1]])
  then show ?thesis by (simp add: find_active_incident_with_folded_alert_def newest_None)
qed

lemma enqueue_row:
  assumes "enqueue_and_kick rt new_id now c org i af None wc w = (Inr job, w')"
  shows "job \<in> set (wk_rows w') \<and> jr_cluster_id job = c \<and> jr_idempotency_key job = Some (investigation_idempotency_key i) \<and> jr_status job \<in> ACTIVE"
  using assms
  by (auto simp: enqueue_and_kick_def enqueue_investigation_def Let_def find_Some_iff ACTIVE_def split: sum.splits option.splits if_splits)

lemma open_result:
  assumes "open_incident wx env a db = (Inr out, db')"
  shows "\<exists>job \<in> set (wk_rows (wd_worker db')). out = Opened (ae_new_incident env) (jr_id job) \<and> jr_cluster_id job = cl_id (wx_cluster wx)
      \<and> jr_idempotency_key job = Some (investigation_idempotency_key (ae_new_incident env)) \<and> jr_status job \<in> ACTIVE"
    "db_incidents (wd_tables db') = db_incidents (wd_tables db) @ [new_incident wx env a]"
proof -
  obtain b db2 where s: "record_correlation_shadow wx env (new_incident wx env a) (inserted wx env a db) = (b, db2)"
    by (metis surj_pair)
  have t: "wd_tables db2 = wd_tables (inserted wx env a db)"
    by (cases rule: shadow_cases [of wx env "new_incident wx env a" "inserted wx env a db"]) (use s in auto)
  have id: "ir_id (new_incident wx env a) = ae_new_incident env" by (simp add: new_incident_def)
  obtain job w where q: "enqueue_and_kick (wx_rt wx) (ae_new_job env) (ae_now env) (cl_id (wx_cluster wx)) (Some (cl_org_id (wx_cluster wx)))
       (ae_new_incident env) (alert_fields_of a) None (wx_worker wx) (wd_worker db2) = (Inr job, w)"
      and out: "out = Opened (ae_new_incident env) (jr_id job)" "db' = db2\<lparr>wd_worker := w\<rparr>"
    using assms s by (auto simp: open_incident_def create_incident_result id split: if_splits sum.splits prod.splits)
  show "db_incidents (wd_tables db') = db_incidents (wd_tables db) @ [new_incident wx env a]" using out(2) t by (simp add: inserted_def)
  show "\<exists>job \<in> set (wk_rows (wd_worker db')). out = Opened (ae_new_incident env) (jr_id job) \<and> jr_cluster_id job = cl_id (wx_cluster wx)
      \<and> jr_idempotency_key job = Some (investigation_idempotency_key (ae_new_incident env)) \<and> jr_status job \<in> ACTIVE"
    using enqueue_row [OF q] out by auto
qed

lemma announce_frame:
  assumes "announce_refire_on_parked_incident env incident a ft db = (r, db')"
  shows "wd_tables db' = wd_tables db" "wd_worker db' = wd_worker db"
  using assms by (cases rule: announce_cases [of env incident a ft db]; auto simp: noted_refire_def)+

section \<open>Properties of a delivery\<close>

text \<open>C25. No member of a delivery closes an incident whose alert another member of the same delivery reports as
  firing: if other transactions leave the row of such an incident alone, the delivery does too, whether it completes or
  fails half way.\<close>

theorem firing_incident_not_closed:
  assumes "r \<in> set (db_incidents (wd_tables db))"
    and "list_ex (\<lambda>a. al_status a = ''firing'' \<and> title_of a = ir_title r) (parse_alertmanager_payload body)"
    and "\<And>n. keeps_row r (envs n)"
  shows "r \<in> set (db_incidents (wd_tables (snd (receive_alertmanager_webhook wx now envs body db))))"
proof -
  have "ir_title r \<in> set (firing_titles (parse_alertmanager_payload body))"
    using assms(2) by (force simp: firing_titles_def list_ex_iff)
  then show ?thesis using kept.delivery_keeps [OF refl, where r = r and envs = envs and db = db] assms(1,3) by blast
qed

text \<open>C26. A delivery never leaves two active incidents for one alert title of its cluster, whatever its alerts and
  whichever calls fail, as long as other transactions keep to the same rule and open no incident for an untracked
  title between the refusal of a fold and the insertion that follows it.\<close>

theorem delivery_one_incident_per_title:
  assumes "one_per_title (cl_id (wx_cluster wx)) db" and "\<And>n. respects_titles (cl_id (wx_cluster wx)) (envs n)"
  shows "one_per_title (cl_id (wx_cluster wx)) (snd (receive_alertmanager_webhook wx now envs body db))"
  using single.delivery_keeps [OF refl] assms by blast

text \<open>Deliveries one after the other, each with its time, its environments and its payload.\<close>

definition deliveries :: "webhook_config \<Rightarrow> (int \<times> (nat \<Rightarrow> alert_env) \<times> raw_alert list option) list \<Rightarrow> webhook_db \<Rightarrow> webhook_db" where
  "deliveries wx rs db = fold (\<lambda>(now, envs, body) db. snd (receive_alertmanager_webhook wx now envs body db)) rs db"


text \<open>How an accepted alert ends: announced on the incident that has it, folded, or opened.\<close>

lemma firing_cases:
  assumes "handle_firing wx env a db0 = (Inr out, db')"
  obtains (deduped) r b where "find_duplicate_incident (ae_before env db0) (cl_id (wx_cluster wx)) (title_of a) = Some r"
      "announce_refire_on_parked_incident env r a None (ae_before env db0) = (Inr b, db')" "out = Deduped (ir_id r) b"
  | (refolded) r b where "find_duplicate_incident (ae_before env db0) (cl_id (wx_cluster wx)) (title_of a) = None"
      "find_active_incident_with_folded_alert wx (ae_before env db0) (title_of a) = Some r"
      "announce_refire_on_parked_incident env r a (Some (title_of a)) (ae_before env db0) = (Inr b, db')" "out = Refolded (ir_id r) b"
  | (folded) parent where "find_fold_target wx env (title_of a) (description_of a) (ae_before env db0) = Some parent"
      "fold_alert_into_incident env parent a (title_of a) (ae_before env db0) = (Inr True, db')" "out = Folded (ir_id parent)"
      "ae_folded_ok env \<longrightarrow> find_active_incident_with_folded_alert wx (ae_before env db0) (title_of a) = None"
  | (opened) db where "open_incident wx env a db = (Inr out, db')"
      "ae_folded_ok env \<longrightarrow> find_active_incident_with_folded_alert wx (ae_before env db0) (title_of a) = None"
proof (cases "find_duplicate_incident (ae_before env db0) (cl_id (wx_cluster wx)) (title_of a)")
  case (Some r)
  then show thesis using assms deduped by (auto simp: handle_firing_def Let_def map_sum_def split: if_splits prod.splits sum.splits)
next
  case None
  show thesis
  proof (cases "if ae_folded_ok env then find_active_incident_with_folded_alert wx (ae_before env db0) (title_of a) else None")
    case (Some r)
    then show thesis using None assms refolded
      by (auto simp: handle_firing_def Let_def map_sum_def split: if_splits prod.splits sum.splits)
  next
    case nofold: None
    then have no: "ae_folded_ok env \<longrightarrow> find_active_incident_with_folded_alert wx (ae_before env db0) (title_of a) = None"
      by (auto split: if_splits)
    have step: "fold_or_open wx env a (ae_before env db0) = (Inr out, db')"
      using None nofold assms by (auto simp: handle_firing_def Let_def split: if_splits)
    show thesis
    proof (cases "if ae_target_ok env then find_fold_target wx env (title_of a) (description_of a) (ae_before env db0) else None")
      case None
      then show thesis using step opened no by (simp add: fold_or_open_def)
    next
      case (Some parent)
      then have t: "find_fold_target wx env (title_of a) (description_of a) (ae_before env db0) = Some parent" by (simp split: if_splits)
      obtain f dbf where "fold_alert_into_incident env parent a (title_of a) (ae_before env db0) = (f, dbf)" by (metis surj_pair)
      then show thesis using step Some opened folded [OF t] no by (auto simp: fold_or_open_def split: sum.splits if_splits)
    qed
  qed
qed

text \<open>C24. A firing alert that the endpoint accepts is never lost: it joins the active incident of its title; or it was
  folded before into an incident that is still active; or it is folded now, into an active incident of the same service
  that opened at most two hours from now and is not parked, with a record and a notice that was delivered or waits
  for a live job; or it opens an incident with an investigation job that is waiting or running. Joining changes no
  incident and no job.\<close>

theorem firing_alert_accounted:
  assumes result: "handle_firing wx env a db0 = (Inr out, db')" and db: "db = ae_before env db0"
    and keys: "distinct (map (\<lambda>r. uuid_str (ir_id r)) (db_incidents (wd_tables db)))" and kept: "keeps_events env"
  shows "case out of
     Deduped i b \<Rightarrow> (\<exists>r \<in> set (db_incidents (wd_tables db)). ir_id r = i \<and> tracks (cl_id (wx_cluster wx)) (title_of a) r)
       \<and> wd_tables db' = wd_tables db \<and> wd_worker db' = wd_worker db
   | Refolded i b \<Rightarrow> (\<exists>r \<in> set (db_incidents (wd_tables db)). ir_id r = i \<and> active_in (cl_id (wx_cluster wx)) r
         \<and> (\<exists>e \<in> set (wd_events db). we_incident_id e = i \<and> folds wx (title_of a) e))
       \<and> wd_tables db' = wd_tables db \<and> wd_worker db' = wd_worker db
   | Folded i \<Rightarrow> \<exists>r \<in> set (db_incidents (wd_tables db)). ir_id r = i \<and> active_in (cl_id (wx_cluster wx)) r
         \<and> extract_service (ir_title r) = extract_service (title_of a)
         \<and> \<bar>ae_now env - ir_created_at r\<bar> \<le> seconds (60 * 120) \<and> parked_meaning env db r = None
         \<and> (\<exists>e \<in> set (wd_events db'). we_incident_id e = i \<and> folds wx (title_of a) e
              \<and> fold_told db db' i (FoldMessage (title_of a) (ir_title r) (extract_service (title_of a))) e)
   | Opened i j \<Rightarrow> i = ae_new_incident env \<and> new_incident wx env a \<in> set (db_incidents (wd_tables db'))
         \<and> (\<exists>job \<in> set (wk_rows (wd_worker db')). jr_id job = j \<and> jr_cluster_id job = cl_id (wx_cluster wx)
              \<and> jr_idempotency_key job = Some (investigation_idempotency_key i) \<and> jr_status job \<in> ACTIVE)"
  using result
proof (cases rule: firing_cases)
  case (deduped r b)
  then show ?thesis
    using find_duplicate_Some [OF deduped(1)] announce_frame [OF deduped(2)] db by auto
next
  case (refolded r b)
  then show ?thesis
    using folded_parent [OF refolded(2)] announce_frame [OF refolded(3)] db by auto
next
  case (folded parent)
  note t = fold_target [OF folded(1) keys [unfolded db]]
  show ?thesis
    unfolding folded(3) outcome.case db
  proof (intro bexI [OF _ t(1)] conjI t(2,3,5) refl)
    show "\<bar>ae_now env - ir_created_at parent\<bar> \<le> seconds (60 * 120)" using t(4) by (simp add: FOLD_WINDOW_MINUTES_def)
  qed (rule fold_recorded [OF folded(2) kept t(6)])
next
  case (opened db1)
  note r = open_result [OF opened(1)]
  obtain job where "job \<in> set (wk_rows (wd_worker db'))" "out = Opened (ae_new_incident env) (jr_id job)" "jr_cluster_id job = cl_id (wx_cluster wx)"
      "jr_idempotency_key job = Some (investigation_idempotency_key (ae_new_incident env))" "jr_status job \<in> ACTIVE"
    using r(1) by blast
  then show ?thesis using r(2) by auto
qed

text \<open>C27. An alert that was folded stays folded: while the incident it was folded into is active and the record of
  the fold is there, a later alert of that title, from whatever state, opens no incident and is not folded anew.\<close>

theorem folded_alert_stays_folded:
  assumes first: "handle_firing wx env a db0 = (Inr (Folded i), db')" "keeps_events env"
      "distinct (map (\<lambda>r. uuid_str (ir_id r)) (db_incidents (wd_tables (ae_before env db0))))"
    and later: "handle_firing wx env2 a2 db2 = (Inr out, db3)" "title_of a2 = title_of a" "ae_folded_ok env2"
    and parent: "r \<in> set (db_incidents (wd_tables (ae_before env2 db2)))" "ir_id r = i" "active_in (cl_id (wx_cluster wx)) r"
    and record_kept: "set (wd_events db') \<subseteq> set (wd_events (ae_before env2 db2))"
  shows "\<exists>j b. out = Deduped j b \<or> out = Refolded j b"
proof -
  obtain e where e: "e \<in> set (wd_events db')" "we_incident_id e = i" "folds wx (title_of a) e"
    using first(1)
  proof (cases rule: firing_cases)
    case (folded p)
    note t = fold_target [OF folded(1) first(3)]
    show thesis using fold_recorded [OF folded(2) first(2) t(6), of wx] folded(3) that by auto
  next
    case (opened db)
    then show thesis using open_result(1) [OF opened(1)] by auto
  qed auto
  then have found: "find_active_incident_with_folded_alert wx (ae_before env2 db2) (title_of a2) \<noteq> None"
    using folded_parent_found [of e _ wx "title_of a" r] parent later(2) record_kept by auto
  show ?thesis
    using later(1) by (cases rule: firing_cases) (use found later(3) in auto)
qed

text \<open>C28. An incident that nothing is working on does not swallow its alert: if its status is one in which nothing
  runs, or it claims to be open or investigated without a live job (and did not open within the last two minutes), and no
  notice was recorded within the hour, then its firing alert is announced in its thread.\<close>

theorem parked_incident_announced:
  assumes up: "ae_db_ok env" "ae_jobs_ok env" "ae_cooldown_ok env" "ae_event env = EventStored" "ae_slack env (ir_id r)"
    and db: "db = ae_before env db0" and found: "find_duplicate_incident db (cl_id (wx_cluster wx)) (title_of a) = Some r"
    and thread: "has_thread db (ir_id r)"
    and parked: "ir_status r \<in> {INVESTIGATED, REMEDIATION_FAILED, VERIFICATION_UNKNOWN, PENDING_ACKNOWLEDGMENT}
       \<or> (ir_status r = INVESTIGATING \<or> ir_status r = OPEN \<and> ir_created_at r + seconds 120 \<le> ae_now env)
          \<and> \<not> has_live_investigation_job (ir_id r) (wk_rows (wd_worker db))"
    and quiet: "\<And>e. e \<in> set (wd_events db) \<Longrightarrow> we_incident_id e = ir_id r \<Longrightarrow> is_refire (we_payload e)
       \<Longrightarrow> we_created_at e + seconds 3600 \<le> ae_now env"
  shows "fst (handle_firing wx env a db0) = Inr (Deduped (ir_id r) True)
    \<and> (\<exists>m. (ir_id r, RefireMessage None (title_of a) (ir_status r) m) \<in> set (wd_posts (snd (handle_firing wx env a db0))))"
proof -
  obtain m where m: "parked_meaning env db r = Some m"
    using parked up(2) by (auto simp: parked_meaning_def PARKED_INCIDENT_STATUSES_def CONDITIONALLY_PARKED_STATUSES_def
        INVESTIGATION_START_GRACE_SECONDS_def)
  have "\<not> recently_announced_refire db (ir_id r) (ae_now env)"
  proof (cases "newest id (refire_times (ir_id r) (wd_events db))")
    case (Some t)
    then have "t \<in> set (refire_times (ir_id r) (wd_events db))" using newest_Some [of id "\<lambda>_. True"] by simp
    then have "t + seconds 3600 \<le> ae_now env" using quiet by (auto simp: refire_times_def)
    then show ?thesis using Some by (simp add: recently_announced_refire_def REFIRE_NOTICE_COOLDOWN_MINUTES_def)
  qed (simp add: recently_announced_refire_def)
  moreover have "ir_title r = title_of a" using find_duplicate_Some [OF found] by (simp add: tracks_def)
  ultimately show ?thesis
    using up m found thread db
    by (auto simp: handle_firing_def Let_def announce_result refire_message_def set_text_def)
qed


section \<open>Refused and unrecorded folds\<close>

lemma open_inserts:
  "ae_create_ok env \<Longrightarrow> length (title_of a) \<le> 200 \<Longrightarrow>
     db_incidents (wd_tables (snd (open_incident wx env a db))) = db_incidents (wd_tables db) @ [new_incident wx env a]"
  by (cases rule: shadow_cases [of wx env "new_incident wx env a" "inserted wx env a db"])
     (auto simp: open_incident_def create_incident_result inserted_def split: sum.split prod.split)

text \<open>After a refused fold the incident is inserted without another lookup, whatever was committed meanwhile.\<close>

lemma refused_fold_inserts:
  assumes "find_duplicate_incident (ae_before env db) (cl_id (wx_cluster wx)) (title_of a) = None"
    and "find_active_incident_with_folded_alert wx (ae_before env db) (title_of a) = None"
    and "find_fold_target wx env (title_of a) (description_of a) (ae_before env db) = Some parent"
    and "has_thread (ae_before env db) (ir_id parent)" and "\<not> ae_slack env (ir_id parent)"
    and "ae_db_ok env" "ae_target_ok env" "ae_create_ok env" "length (title_of a) \<le> 200"
  shows "db_incidents (wd_tables (snd (handle_firing wx env a db))) =
     db_incidents (wd_tables (ae_during env (ae_before env db))) @ [new_incident wx env a]"
  using assms
  by (simp add: handle_firing_def Let_def fold_or_open_def fold_alert_into_incident_def post_to_incident_thread_def open_inserts)

text \<open>A fold whose record is not stored fails the delivery, also after its notice reached the thread: the alert
  neither opens its own incident nor counts as folded.\<close>

lemma unrecorded_fold_fails:
  assumes "find_fold_target wx env (title_of a) (description_of a) db = Some parent" "ae_target_ok env" "ae_event env \<noteq> EventStored"
    and "has_thread db (ir_id parent) \<Longrightarrow> has_thread (ae_during env db) (ir_id parent) \<and> ae_slack env (ir_id parent)"
  shows "fst (fold_or_open wx env a db) = Inl ObjectsExpired"
  using assms
  by (cases "has_thread db (ir_id parent)")
     (auto simp: fold_or_open_def fold_alert_into_incident_def fold_ahead_of_war_room_def post_to_incident_thread_def Let_def)

section \<open>Deliveries at night\<close>

definition calm :: alert_env where
  "calm = \<lparr>ae_now = seconds 7200, ae_before = id, ae_during = id, ae_new_incident = 21, ae_new_job = 31, ae_crashed = \<lambda>_. False,
     ae_retire_ok = True, ae_slack = \<lambda>_. True, ae_db_ok = True, ae_folded_ok = True, ae_target_ok = True, ae_jobs_ok = True,
     ae_cooldown_ok = True, ae_create_ok = True, ae_event = EventStored, ae_shadow = EventStored, ae_adjacency = None\<rparr>"

definition pay_config :: webhook_config where
  "pay_config = \<lparr>wx_rt = no_runtime, wx_cluster = \<lparr>cl_id = 1, cl_org_id = 2, cl_prometheus_url = None, cl_approval_ttl_minutes = None\<rparr>,
     wx_worker = lone_worker, wx_text = \<lambda>_. ''folded''\<rparr>"

definition pay_row :: "incident_status \<Rightarrow> incident_row" where
  "pay_row s = \<lparr>ir_id = 11, ir_cluster_id = 1, ir_title = ''[pay] Slow'', ir_created_at = seconds 3600, ir_status = s, ir_resolved_at = None\<rparr>"

definition pay_db :: "incident_status \<Rightarrow> webhook_db" where
  "pay_db s = \<lparr>wd_tables = \<lparr>db_incidents = [pay_row s], db_clusters = [], db_requests = [], db_gates = []\<rparr>,
     wd_details = [(11, \<lparr>de_description = [], de_severity = High_Severity, de_slack_channel = Some ''C1'', de_slack_thread_ts = Some ''1.0''\<rparr>)],
     wd_timeline = [], wd_events = [], wd_worker = idle_worker [], wd_heartbeats = [], wd_posts = []\<rparr>"

definition pay_alert :: "string \<Rightarrow> string \<Rightarrow> raw_alert" where
  "pay_alert status alertname = \<lparr>ra_status = Some status, ra_labels = Some [(''alertname'', alertname), (''service'', ''pay'')],
     ra_annotations = None, ra_starts_at = None, ra_ends_at = None\<rparr>"

definition crash :: alert where
  "crash = parse_alert (pay_alert ''firing'' ''Crash'')"

lemma calm_keeps: "keeps_row r calm" "respects_titles c calm" "keeps_spacing calm" "keeps_events calm"
  by (simp_all add: keeps_row_def respects_titles_def keeps_spacing_def keeps_events_def calm_def)

lemma pay_db_one: "one_per_title c (pay_db s)"
  by (simp add: one_per_title_def pay_db_def)

theorem firing_incident_not_closed_witness:
  "pay_row AWAITING_APPROVAL \<in> set (db_incidents (wd_tables (snd (receive_alertmanager_webhook pay_config 0 (\<lambda>_. calm)
     (Some [pay_alert ''resolved'' ''Slow'', pay_alert ''firing'' ''Slow'']) (pay_db AWAITING_APPROVAL)))))"
proof (rule firing_incident_not_closed [OF _ _ calm_keeps(1)])
  show "pay_row AWAITING_APPROVAL \<in> set (db_incidents (wd_tables (pay_db AWAITING_APPROVAL)))" by (simp add: pay_db_def)
  show "list_ex (\<lambda>a. al_status a = ''firing'' \<and> title_of a = ir_title (pay_row AWAITING_APPROVAL))
     (parse_alertmanager_payload (Some [pay_alert ''resolved'' ''Slow'', pay_alert ''firing'' ''Slow'']))" by code_simp
qed

theorem delivery_one_incident_per_title_witness:
  "one_per_title 1 (snd (receive_alertmanager_webhook pay_config 0 (\<lambda>_. calm) (Some [pay_alert ''firing'' ''Slow'', pay_alert ''firing'' ''Crash'']) (pay_db INVESTIGATED)))"
  using delivery_one_incident_per_title [of pay_config "pay_db INVESTIGATED" "\<lambda>_. calm" 0, OF pay_db_one calm_keeps(2)]
  by (simp add: pay_config_def)


lemma crash_folded: "fst (handle_firing pay_config calm crash (pay_db AWAITING_APPROVAL)) = Inr (Folded 11)"
  by code_simp

lemma pay_db_keys: "distinct (map (\<lambda>r. uuid_str (ir_id r)) (db_incidents (wd_tables (pay_db s))))"
  by (simp add: pay_db_def)

theorem firing_alert_accounted_witness:
  "\<exists>e \<in> set (wd_events (snd (handle_firing pay_config calm crash (pay_db AWAITING_APPROVAL)))). we_incident_id e = 11 \<and> folds pay_config ''[pay] Crash'' e"
proof -
  have t: "title_of crash = ''[pay] Crash''" by code_simp
  have r: "handle_firing pay_config calm crash (pay_db AWAITING_APPROVAL) =
      (Inr (Folded 11), snd (handle_firing pay_config calm crash (pay_db AWAITING_APPROVAL)))"
    using crash_folded by (metis prod.collapse)
  have b: "pay_db AWAITING_APPROVAL = ae_before calm (pay_db AWAITING_APPROVAL)" by (simp add: calm_def)
  show ?thesis
    using firing_alert_accounted [OF r b pay_db_keys calm_keeps(4)] t by auto
qed

theorem folded_alert_stays_folded_witness:
  "\<exists>out j b. fst (handle_firing pay_config calm crash (snd (handle_firing pay_config calm crash (pay_db AWAITING_APPROVAL)))) = Inr out
     \<and> (out = Deduped j b \<or> out = Refolded j b)"
proof -
  let ?db = "snd (handle_firing pay_config calm crash (pay_db AWAITING_APPROVAL))"
  have r: "handle_firing pay_config calm crash (pay_db AWAITING_APPROVAL) = (Inr (Folded 11), ?db)"
    using crash_folded by (metis prod.collapse)
  have "fst (handle_firing pay_config calm crash ?db) = Inr (Refolded 11 False)" by code_simp
  then have later: "handle_firing pay_config calm crash ?db = (Inr (Refolded 11 False), snd (handle_firing pay_config calm crash ?db))"
    by (metis prod.collapse)
  have id: "ae_before calm db = db" for db by (simp add: calm_def)
  have p: "pay_row AWAITING_APPROVAL \<in> set (db_incidents (wd_tables (ae_before calm ?db)))" "ir_id (pay_row AWAITING_APPROVAL) = 11"
    "active_in (cl_id (wx_cluster pay_config)) (pay_row AWAITING_APPROVAL)" "ae_folded_ok calm" by code_simp+
  have "\<exists>j b. Refolded 11 False = Deduped j b \<or> Refolded 11 False = Refolded j b"
    by (rule folded_alert_stays_folded [OF r calm_keeps(4) _ later refl p(4) p(1,2,3)]) (simp_all add: id pay_db_keys)
  then show ?thesis using later by (metis fst_conv)
qed

theorem parked_incident_announced_witness:
  "fst (handle_firing pay_config calm (parse_alert (pay_alert ''firing'' ''Slow'')) (pay_db INVESTIGATED)) = Inr (Deduped 11 True)"
proof -
  have "find_duplicate_incident (pay_db INVESTIGATED) (cl_id (wx_cluster pay_config)) (title_of (parse_alert (pay_alert ''firing'' ''Slow''))) = Some (pay_row INVESTIGATED)"
    "has_thread (pay_db INVESTIGATED) (ir_id (pay_row INVESTIGATED))" by code_simp+
  then show ?thesis
    using parked_incident_announced [of calm "pay_row INVESTIGATED" "pay_db INVESTIGATED" "pay_db INVESTIGATED" pay_config "parse_alert (pay_alert ''firing'' ''Slow'')"]
    by (simp add: calm_def pay_row_def) (simp add: pay_db_def)
qed

text \<open>Two deliveries of one alert whose folds the chat refuses: the second commits while the first waits for the
  chat, and each opens an incident.\<close>

definition refusing :: "int \<Rightarrow> (webhook_db \<Rightarrow> webhook_db) \<Rightarrow> alert_env" where
  "refusing i others = calm\<lparr>ae_new_incident := i, ae_during := others, ae_slack := \<lambda>_. False\<rparr>"

theorem refused_fold_can_duplicate:
  "one_per_title 1 (pay_db AWAITING_APPROVAL)
   \<and> \<not> one_per_title 1 (snd (handle_firing pay_config (refusing 21 (\<lambda>db. snd (handle_firing pay_config (refusing 22 id) crash db))) crash
        (pay_db AWAITING_APPROVAL)))"
proof
  let ?db = "pay_db AWAITING_APPROVAL" and ?e = "refusing 22 id"
  let ?d = "refusing 21 (\<lambda>db. snd (handle_firing pay_config ?e crash db))"
  have look: "find_duplicate_incident ?db (cl_id (wx_cluster pay_config)) (title_of crash) = None"
    "find_active_incident_with_folded_alert pay_config ?db (title_of crash) = None"
    "find_fold_target pay_config calm (title_of crash) (description_of crash) ?db = Some (pay_row AWAITING_APPROVAL)"
    "has_thread ?db (ir_id (pay_row AWAITING_APPROVAL))" "length (title_of crash) \<le> 200" by code_simp+
  have env: "parked_meaning (refusing i f) db = parked_meaning calm db" "ae_now (refusing i f) = ae_now calm" for i f db
    by (rule ext) (simp_all add: parked_meaning_def refusing_def Let_def)
  have same: "find_fold_target pay_config (refusing i f) t d db = find_fold_target pay_config calm t d db" for i f t d db
    unfolding find_fold_target_def env ..
  have step: "db_incidents (wd_tables (snd (handle_firing pay_config (refusing i f) crash ?db))) =
      db_incidents (wd_tables (f ?db)) @ [new_incident pay_config (refusing i f) crash]" for i f
    using refused_fold_inserts [of "refusing i f" ?db pay_config crash "pay_row AWAITING_APPROVAL"] look same
    by (simp add: refusing_def calm_def)
  have "tracks 1 (title_of crash) (new_incident pay_config (refusing i f) crash)" for i f
    by (simp add: tracks_def active_in_def new_incident_def pay_config_def ACTIVE_INCIDENT_STATUSES_def)
  then have "2 \<le> length (filter (tracks 1 (title_of crash)) (db_incidents (wd_tables (snd (handle_firing pay_config ?d crash ?db)))))"
    by (simp add: step)
  then show "\<not> one_per_title 1 (snd (handle_firing pay_config ?d crash ?db))"
    by (auto simp: one_per_title_def intro!: exI [of _ "title_of crash"])
qed (rule pay_db_one)

text \<open>When the lookup of jobs fails, an incident that claims to be investigated passes for one that is worked on, and
  an alert is folded into it although no job exists.\<close>

theorem failed_lookup_folds_onto_dead:
  "fst (handle_firing pay_config (calm\<lparr>ae_jobs_ok := False\<rparr>) crash (pay_db INVESTIGATING)) = Inr (Folded 11)
   \<and> \<not> has_live_investigation_job 11 (wk_rows (wd_worker (pay_db INVESTIGATING)))"
  by code_simp


end
