(* ===== verification/Spec2Isabelle.thy ===== *)
theory Spec2Isabelle
  imports Severity_Engine Policy_Engine Policy_Gate Executor Execution_Context Namespace_Scope
    Confidence_Calibration Redis_State_Store Investigation_Write_Guard Incident_Status Mutation_Gateway
    Job_Store Admission Verification Incident_Correlation Service_Topology Approval_Flow Alert_Lifecycle Act_Phase
    Calibration_Artifact Reliability_Report Sandbox_Workflow Remediation_Workflow Live_Remediation Incident_Reconciler Job_Worker
    Alert_Webhook
begin

text \<open>
  Verification of the decision and execution core of Sentinel, an SRE agent that investigates
  incidents with language models and repairs them through tool servers (\<open>src/src/sre_agent\<close>). The
  agent proposes; deterministic code decides what may run. This development models that
  deterministic code.

  \<^bold>\<open>The program.\<close> Measured signals of an incident become a severity. A remediation plan is a list of
  actions; hard policy rules and the autonomy gate decide for each action whether it is blocked,
  needs a human or may run alone, using a confidence that was calibrated against measured outcomes.
  What runs live goes through one function, the mutation gateway: it repeats the lock check and the
  gate decision, verifies tenant and namespace, refuses a resolved incident, claims an idempotency
  key in Redis, dispatches through the executor to a tool server and writes an audit event.
  Meanwhile the investigating agents only reach tools through argument enforcement, which pins
  every query to the cluster's namespace, and through a guard that refuses changing tools. The
  report of the run determines the incident's status, and a clearing alert may close it. Investigations
  themselves are durable jobs: a queue leases them to workers with a bounded number of attempts, an
  admission controller bounds how many run at once. A new alert joins the incident that tracks it, is
  folded into one of the same service or opens its own, and after a live change the alert or a metric is read again to grade it. What has to outlive
  a process runs as a durable workflow: live actions are tried one after the other until the alert
  clears, and a code fix is generated, tried in a sandbox against the unpatched code, and offered as a
  pull request, with a human decision before each of these steps.

  \<^bold>\<open>The theories.\<close>

  \<^item> \<open>Sentinel_Prelude\<close>: Python values, the standard-library operations the code uses, results for
    raised errors, shared lemmas. \<open>Py_Regex\<close> and \<open>Py_Json\<close>: the parts of \<open>re\<close> and \<open>json\<close> in use.
    \<open>Py_Json_Text\<close>: equality of values, and that the texts the program writes with sorted keys read back as
    the value; the locale \<open>json_layout\<close> has the proof for any blanks, and the indented and the compact
    text interpret it.
  \<^item> \<open>Severity_Engine\<close> (\<open>severity_engine.py\<close>): signals, scores, matrix, \<open>classify_severity\<close>. Scores
    stay in the unit interval, missing telemetry is never invented away, the severity is monotone in
    the measurements.
  \<^item> \<open>Remediation_Action\<close> (\<open>agent_state.py\<close>), \<open>Policy_Engine\<close> (\<open>policy_engine.py\<close>), \<open>Policy_Gate\<close>
    (\<open>policy_gate.py\<close>): the action record, the hard rules, \<open>decide\<close> and \<open>decide_plan\<close>. Exactly which
    actions are blocked or autonomous, antitone in the severity, most restrictive for a plan.
  \<^item> \<open>Executor\<close> (\<open>executor.py\<close>): tool routing, arguments, rendered commands, response classification,
    \<open>execute\<close> and \<open>_aexecute_unchecked\<close>. Success is reported only when the server confirmed it.
  \<^item> \<open>Execution_Context\<close> (\<open>execution_context.py\<close>, \<open>cluster_context.py\<close>): tenant-bound contexts.
  \<^item> \<open>Namespace_Scope\<close> (\<open>namespace_scope.py\<close>): the selector scanner, the query rewriting and the
    bounded reads.
  \<^item> \<open>Confidence_Calibration\<close> (\<open>confidence_calibration.py\<close>): records, chunks, pooling, threshold
    selection, artifacts and their use. \<open>Calibration_Artifact\<close>: writing and loading the artifact file. A
    loaded threshold rests on the evidence in the file, and a saved artifact loads as itself.
    \<open>Reliability_Report\<close>: reliability bins, scores and drift.
  \<^item> \<open>Redis_State_Store\<close> (\<open>redis_state_store.py\<close>): every method of the store over a Redis client. The
    locales \<open>redis_claims\<close> and \<open>redis_keys\<close> state the documented behaviour of the Redis commands, the
    locale \<open>claim_store\<close> is the contract the gateway needs, and a sublocale derives it.
  \<^item> \<open>Investigation_Write_Guard\<close> (\<open>investigation_write_guard.py\<close>): which tools an investigating agent
    cannot call.
  \<^item> \<open>Incident_Status\<close> (\<open>incident_status.py\<close>, \<open>alert_resolution.py\<close>): the status of a finished run and
    of an incident whose alert cleared.
  \<^item> \<open>Mutation_Gateway\<close> (\<open>mutation_gateway.py\<close>): the whole of \<open>authorize_and_execute\<close>. Every call is
    freshly authorized, failures are clean, and a key dispatches at most once while its claim lives.
  \<^item> \<open>Job_Lifecycle\<close>, \<open>Durable_Jobs\<close> (\<open>durable_jobs.py\<close>), \<open>Job_Store\<close> (\<open>job_store.py\<close>, the job model of
    \<open>backend/models.py\<close>), over \<open>Py_Uuid\<close>: the life cycle of one job as an inductive step relation, and the
    in-memory and the SQL store with every operation. The locale \<open>job_queue\<close> holds what any event-driven
    store of jobs satisfies once each event is a run of the life cycle; both stores interpret it.
    Attempts are bounded, an unexpired lease is exclusive, claims are fair and make progress.
  \<^item> \<open>Admission\<close> (\<open>concurrency.py\<close>): the slot limiter and the lease controller, instances of the locale
    \<open>slot_allocator\<close>. Capacity and quota hold over every sequence of operations, waiting ends.
  \<^item> \<open>Verification\<close> (\<open>verification.py\<close>): reading Prometheus responses, the metric verdict and the polling
    loop for a clearing alert. A verdict rests on the evidence it names.
  \<^item> \<open>Incident_Correlation\<close> (\<open>incident_correlation.py\<close>): scores, matches and the bundle that is acted upon.
  \<^item> \<open>Service_Topology\<close> (\<open>service_topology.py\<close>): the adjacency map the correlation reads, equal to a relation
    stated without the loops that build it.
  \<^item> \<open>Approval_Flow\<close> (\<open>approval_flow.py\<close>, the approval models of \<open>backend/models.py\<close>): every transaction on
    approval requests, gates and incident rows, and the decision on an action with the run it resumes. The
    locale \<open>decision_table\<close> holds what any table of decided rows satisfies; requests, gates and incidents
    interpret it. Decisions are final, an approval matches the report that was shown, nothing is approved
    for a resolved incident.
  \<^item> \<open>Alert_Lifecycle\<close> (\<open>alert_lifecycle_reconciler.py\<close>, the resolved side of \<open>api/v1/alerts.py\<close>): what a
    cleared alert does to the rows, and the sweep that finds missed notifications from rule snapshots. A
    missed clear needs two snapshots, and a clear retires the approvals that are pending.
  \<^item> \<open>Incident_Reconciler\<close> (\<open>incident_reconciler.py\<close>): the sweeps over dead remediations and lapsed approvals
    and the loop that runs them with the sweep above. Claims of several replicas and other transactions
    interleave; the locale \<open>claimed_once\<close> has that whoever announces a claim also ends the state it claims,
    and both sweeps interpret it. Each sweep moves exactly the rows it should, and grants nothing.
  \<^item> \<open>Job_Worker\<close> (\<open>job_worker.py\<close>): the worker as a state with a phase per member of its batch, and its
    concurrent course as sequences of events. Investigations are bounded by attempts, a batch by the free
    capacity, a failure stays with its member, and a payload survives the way through the table.
  \<^item> \<open>Alert_Webhook\<close> (the endpoint of \<open>api/v1/alerts.py\<close>, \<open>cluster_heartbeat.py\<close>, the queries of \<open>backend/crud.py\<close>): a
    delivery as a loop over its alerts, with what other transactions commit meanwhile and which calls fail as
    parameters. The locale \<open>delivery_invariant\<close> carries a state predicate through a delivery; its interpretations give
    that a firing member protects its incident, that a title has one active incident, and that notices
    are spaced. Every accepted alert is accounted for, parked incidents are announced, and a folded alert stays folded.
  \<^item> \<open>Act_Phase\<close> (\<open>act_phase.py\<close>): the report that gates a plan, the live requests made from it and their
    execution through the gateway.
  \<^item> \<open>Sandbox_Workflow\<close> (\<open>sandbox_gateway.py\<close>, \<open>sandbox_workflow.py\<close>): the calls to the sandbox server, one
    stage with its polling loop, the verdict on two runs and the verification workflow with its
    retries and its cleanup. A verdict that a fix works rests on a baseline that failed and a
    patched run that did not; every call stays in the sandbox namespace; a stage makes a bounded number of calls.
  \<^item> \<open>Remediation_Workflow\<close> (\<open>IncidentRemediationWorkflow\<close> of \<open>incident_remediation_workflow.py\<close>): the workflow
    as a tree of activities, gates and ends, and its runs as an inductive relation over events. The locale
    \<open>workflow_monitor\<close> carries an invariant of a monitor along a run; the interpretations \<open>authority\<close> and
    \<open>counter\<close> give that a pull request was approved and verified, and that each retry was approved. Runs end.
  \<^item> \<open>Live_Remediation\<close> (\<open>LiveRemediationWorkflow\<close> and the activities of the same file): the loop over live
    actions through the gateway, and raising the pull request. A durable run dispatches each action at
    most once and stops at the first outcome that needs a human.
  \<^item> This theory: properties that need several components at once.

  \<^bold>\<open>Correspondence.\<close> Definitions keep the source's names, without a leading underscore. Data classes are
  records, enumerations are datatypes, a raised exception is the left side of a result, and a
  function that mutates its argument returns the new value. Messages and reasons are constructors
  instead of texts where no code reads them back. Stateful operations take and return the server
  state, so that an execution is an explicit sequence of steps.

  \<^bold>\<open>Parameters.\<close> Code outside the repository is an argument: the tool callers, the Redis client, the
  database outcomes, the calibration file, SHA-256, the square root, the clock, the ISO parser and the
  process environment. Hypotheses on them are the laws of the Redis locales; a reference server
  that implements the documented commands over a map satisfies them.

  \<^bold>\<open>Bounds.\<close> The regular-expression matcher bounds a repetition by the length of the text, which is
  enough because every repetition advances. The JSON parser has fuel of twice the text's length plus
  one, and every nested call consumes a character. The wait for admission has fuel one above the number
  of polls that fit into the waiting budget, and it is proved not to run out; the alert poll needs none,
  because each turn moves towards the deadline. Integers are unbounded, as in Python. Floats are
  exact rationals with infinities and not-a-number; rounding is not modelled.

  \<^bold>\<open>Not modelled.\<close> Language-model prompts and the graph wiring, the other HTTP handlers, logging,
  rendering of narratives, evaluation scripts, the tool servers and the dashboard. Still open are, in
  this order: the opening of war rooms, the extraction of signals from the graph state and the parsing of a
  generated patch.
\<close>

section \<open>Properties that span components\<close>

text \<open>The severity of an assessment, as the gate context carries it.\<close>

lemma gate_severity_sev_int: "gate_severity (PInt (sev_int s)) = Inr s"
  by (cases s) (simp_all add: gate_severity_def severity_of_number_def severity_of_int_def)

lemma calibration_eligible:
  assumes "runtime_remediation_calibration ge raw = Inr (p, m)" "confident p m"
  shows "\<exists>x artifact c.
      ge_load ge (strip (getenv (ge_rt ge) ''REMEDIATION_CONFIDENCE_CALIBRATION_PATH'' [])) = Inr artifact
    \<and> num_float raw = Inr x
    \<and> calibrate_confidence (PFloat x) artifact ''remediation''
        (strip (getenv (ge_rt ge) ''SENTINEL_CONFIG_FINGERPRINT'' [])) = Inr c
    \<and> autonomy_eligible c"
  using assms
  by (auto simp: runtime_remediation_calibration_def Let_def confident_def num_value_def autonomy_eligible_def
      rbind_eq_Inr rbind_def split: if_splits sum.splits cal_error.splits option.splits)

lemma unapproved_call_autonomous:
  assumes "gr_calls (authorize_and_execute ge a mg ctx0 tc gc key st) \<noteq> []" "\<not> truthy (mg_approved mg)"
    and "lower (action_type a) \<notin> {''inspect'', ''escalate''}"
  obtains ctx sev p m where "require_execution_context (ge_rt ge) ctx0 = Inr ctx"
    "gate_severity (mg_severity mg) = Inr sev"
    "runtime_remediation_calibration ge (mg_raw_action_confidence mg) = Inr (p, m)"
    "mutation_autonomous (ge_severity_config ge) a sev False (ec_environment ctx) p m"
proof -
  from gateway_call_facts [OF assms(1)] obtain ctx sev risk p m fresh where
    f: "require_execution_context (ge_rt ge) ctx0 = Inr ctx" "gate_severity (mg_severity mg) = Inr sev"
      "runtime_remediation_calibration ge (mg_raw_action_confidence mg) = Inr (p, m)"
      "decide (ge_severity_config ge) evaluate_action a sev False (ec_environment ctx) risk p m = Inr fresh"
      "gd_decision fresh = AUTONOMOUS \<or> truthy (mg_approved mg)"
    by blast
  have "mutation_autonomous (ge_severity_config ge) a sev False (ec_environment ctx) p m"
    using decide_outcome [OF f(4)] f(5) assms(2,3) by (auto split: if_splits)
  with f show thesis by (intro that)
qed

section \<open>A run without a human\<close>

definition calibrated_runtime :: runtime where
  "calibrated_runtime = no_runtime\<lparr>environ := (\<lambda>n.
     if n = ''REMEDIATION_CONFIDENCE_CALIBRATION_PATH'' then Some ''artifact.json''
     else if n = ''SENTINEL_CONFIG_FINGERPRINT'' then Some sample_sha else None)\<rparr>"

definition calibrated_env :: "mem_server gateway_env" where
  "calibrated_env = sample_env\<lparr>ge_rt := calibrated_runtime, ge_load := \<lambda>_. Inr hundredths_artifact\<rparr>"

definition unattended_gate :: mutation_gate_context where
  "unattended_gate = sample_gate\<lparr>mg_decision := PStr ''autonomous'', mg_severity := PInt 3, mg_approved := PBool False,
     mg_raw_action_confidence := PFloat (Fin (95/100))\<rparr>"

definition unattended_run :: "mem_server gateway_run" where
  "unattended_run = authorize_and_execute calibrated_env restart_checkout unattended_gate (Some sample_context)
     (Some (\<lambda>_ _. Inr applied_response)) None ''k1'' empty_server"

lemma unattended_run_calls: "gr_calls unattended_run \<noteq> []"
  by code_simp

text \<open>What runs without a human is exactly what the measurements justify. If the gateway called a tool
  for a changing action that nobody approved, then the incident's severity is low, the operator
  configured a calibration artifact that loads and is bound to the running configuration, the raw
  confidence calibrated with it reaches the artifact's own autonomy threshold, the action is not a
  production rollback, and it is reversible or has a rollback plan and does not scale to zero.\<close>

theorem unapproved_mutation_conditions:
  assumes "gr_calls (authorize_and_execute ge a mg ctx0 tc gc key st) \<noteq> []" "\<not> truthy (mg_approved mg)"
    and "lower (action_type a) \<notin> {''inspect'', ''escalate''}"
  shows "\<exists>ctx sev x artifact c. require_execution_context (ge_rt ge) ctx0 = Inr ctx
    \<and> gate_severity (mg_severity mg) = Inr sev \<and> is_low_severity (ge_severity_config ge) sev
    \<and> ge_load ge (strip (getenv (ge_rt ge) ''REMEDIATION_CONFIDENCE_CALIBRATION_PATH'' [])) = Inr artifact
    \<and> num_float (mg_raw_action_confidence mg) = Inr x
    \<and> calibrate_confidence (PFloat x) artifact ''remediation''
        (strip (getenv (ge_rt ge) ''SENTINEL_CONFIG_FINGERPRINT'' [])) = Inr c
    \<and> autonomy_eligible c
    \<and> \<not> (lower (action_type a) = ''rollback'' \<and> lower (ec_environment ctx) = ''production'')
    \<and> (lower (action_type a) \<in> reversible_types \<or> has_rollback_plan a \<and> \<not> scales_to_zero a)"
proof -
  from assms obtain ctx sev p m where f: "require_execution_context (ge_rt ge) ctx0 = Inr ctx"
    "gate_severity (mg_severity mg) = Inr sev"
    "runtime_remediation_calibration ge (mg_raw_action_confidence mg) = Inr (p, m)"
    "mutation_autonomous (ge_severity_config ge) a sev False (ec_environment ctx) p m"
    by (rule unapproved_call_autonomous)
  then have "confident p m" by (simp add: mutation_autonomous_def)
  from calibration_eligible [OF f(3) this] f(1,2,4) show ?thesis
    by (auto simp: mutation_autonomous_def)
qed

theorem unapproved_mutation_conditions_witness:
  "\<exists>x c. num_float (mg_raw_action_confidence unattended_gate) = Inr x
     \<and> calibrate_confidence (PFloat x) hundredths_artifact ''remediation'' sample_sha = Inr c \<and> autonomy_eligible c"
proof -
  have h: "\<not> truthy (mg_approved unattended_gate)" "lower (action_type restart_checkout) \<notin> {''inspect'', ''escalate''}"
    by code_simp+
  have e: "strip (getenv (ge_rt calibrated_env) ''SENTINEL_CONFIG_FINGERPRINT'' []) = sample_sha"
    "\<And>p. ge_load calibrated_env p = Inr hundredths_artifact"
    by code_simp (simp add: calibrated_env_def)
  from unapproved_mutation_conditions [OF unattended_run_calls [unfolded unattended_run_def] h] show ?thesis
    unfolding e by auto
qed

text \<open>C4. What runs without a human rests on live evidence in the calibration file. When the gateway reads its
  artifact with the loader and calls a tool for a changing action that nobody approved, the file
  holds an artifact with live-benchmark evidence only whose threshold is (within 1e-12) an operating
  point that meets the support and Wilson floors on the bins in the file, and the bin of the raw
  confidence reaches that threshold.\<close>

theorem unattended_change_rests_on_file:
  assumes "gr_calls (authorize_and_execute ge a mg ctx0 tc gc key st) \<noteq> []" "\<not> truthy (mg_approved mg)"
    and "lower (action_type a) \<notin> {''inspect'', ''escalate''}" and "ge_load ge = load_calibration_artifact lib read"
  shows "\<exists>art t raw p. load_calibration_artifact lib read
        (strip (getenv (ge_rt ge) ''REMEDIATION_CONFIDENCE_CALIBRATION_PATH'' [])) = Inr art
    \<and> ca_evidence_sources art = [''live_benchmark''] \<and> ca_autonomy_threshold art = Some t
    \<and> num_float (mg_raw_action_confidence mg) = Inr (Fin raw) \<and> t \<le> cb_probability (select_bin raw (ca_bins art))
    \<and> p \<in> set (threshold_curve (cl_sqrt lib) (ca_bins art) (ca_cost_model art)
          (ca_minimum_threshold_support art) (ca_required_wilson_lower art))
    \<and> \<bar>op_threshold p - t\<bar> \<le> 1 / 10 ^ 12 \<and> ca_minimum_threshold_support art \<le> op_autonomous p
    \<and> ca_required_wilson_lower art \<le> op_wilson_lower p"
proof -
  from assms(1-3) obtain ctx sev pr m where "require_execution_context (ge_rt ge) ctx0 = Inr ctx"
    "gate_severity (mg_severity mg) = Inr sev"
    and f: "runtime_remediation_calibration ge (mg_raw_action_confidence mg) = Inr (pr, m)"
      "mutation_autonomous (ge_severity_config ge) a sev False (ec_environment ctx) pr m"
    by (rule unapproved_call_autonomous)
  from f(2) have "confident pr m" by (simp add: mutation_autonomous_def)
  from calibration_eligible [OF f(1) this] obtain x art c where
    art: "load_calibration_artifact lib read
        (strip (getenv (ge_rt ge) ''REMEDIATION_CONFIDENCE_CALIBRATION_PATH'' [])) = Inr art"
    and x: "num_float (mg_raw_action_confidence mg) = Inr x" "calibrate_confidence (PFloat x) art ''remediation''
        (strip (getenv (ge_rt ge) ''SENTINEL_CONFIG_FINGERPRINT'' [])) = Inr c" "autonomy_eligible c"
    unfolding assms(4) by blast
  from x(2) obtain raw where raw: "x = Fin raw" "cc_autonomy_threshold c = ca_autonomy_threshold art"
    by (auto simp: calibrate_confidence_def cal_probability_def num_float_def rbind_eq_Inr split: if_splits flt.splits)
  with x(3) obtain t where t: "ca_autonomy_threshold art = Some t" "t \<le> cc_calibrated_probability c"
    by (auto simp: autonomy_eligible_def split: option.splits)
  obtain payload where pl: "load_artifact_payload lib payload = Inr art"
    using load_calibration_artifact_Inr [OF art] by blast
  note g = loaded_threshold_facts [OF pl t(1)] and h = load_artifact_payload_Inr [OF pl]
  obtain p where p: "select_operating_point (ca_threshold_curve art) = Some p" "\<bar>op_threshold p - t\<bar> \<le> 1 / 10 ^ 12"
    using g(5) by blast
  have "p \<in> set (ca_threshold_curve art)" using select_operating_point_Some [OF p(1)] by blast
  moreover have "t \<le> cb_probability (select_bin raw (ca_bins art))"
    using calibrate_confidence_Inr x(2) t(2) raw(1) by metis
  ultimately show ?thesis
    using art g(1) t(1) x(1) raw(1) p(2) selected_point(4,5) [OF p(1) [unfolded h(4)] h(1)] unfolding h(4) by blast
qed

lemma calibrated_env_load: "ge_load calibrated_env = load_calibration_artifact hundredths_lib
    (\<lambda>_. Inr (Some (save_calibration_artifact hundredths_lib hundredths_artifact)))"
  by (rule ext) (simp add: calibrated_env_def hundredths_loads)

theorem unattended_change_rests_on_file_witness:
  "gr_calls unattended_run \<noteq> []
   \<and> (\<exists>path art t raw. load_calibration_artifact hundredths_lib
        (\<lambda>_. Inr (Some (save_calibration_artifact hundredths_lib hundredths_artifact))) path = Inr art
      \<and> ca_autonomy_threshold art = Some t \<and> t \<le> cb_probability (select_bin raw (ca_bins art)))"
proof -
  have h: "\<not> truthy (mg_approved unattended_gate)" "lower (action_type restart_checkout) \<notin> {''inspect'', ''escalate''}"
    by code_simp+
  from unattended_change_rests_on_file [OF unattended_run_calls [unfolded unattended_run_def] h calibrated_env_load]
    unattended_run_calls show ?thesis by blast
qed

text \<open>Missing measurements reach the gateway as caution. If the severity of the gate context is the one
  the severity engine assigned to signals of which a required measurement is missing, then (with
  the autonomy limit above SEV2, its default being SEV3) the gateway calls no tool for a changing
  action unless a human approved it.\<close>

theorem missing_telemetry_needs_human:
  assumes "classify_severity cfg signals = Inr assessment" "unknown_telemetry assessment"
    and "ge_severity_config ge = cfg" "sev_int SEV2 < autonomy_max_severity cfg"
    and "mg_severity mg = PInt (sev_int (severity assessment))" "\<not> truthy (mg_approved mg)"
    and "lower (action_type a) \<notin> {''inspect'', ''escalate''}"
  shows "gr_calls (authorize_and_execute ge a mg ctx0 tc gc key st) = []"
proof (rule ccontr)
  assume "gr_calls (authorize_and_execute ge a mg ctx0 tc gc key st) \<noteq> []"
  from this assms(6,7) obtain ctx sev p m where "require_execution_context (ge_rt ge) ctx0 = Inr ctx"
    and s1: "gate_severity (mg_severity mg) = Inr sev"
    and "runtime_remediation_calibration ge (mg_raw_action_confidence mg) = Inr (p, m)"
    and s2: "mutation_autonomous (ge_severity_config ge) a sev False (ec_environment ctx) p m"
    by (rule unapproved_call_autonomous)
  have sev: "sev = severity assessment" using s1 assms(5) by (simp add: gate_severity_sev_int)
  have "required_missing signals"
    using assms(1,2) by (blast elim: classify_measured)
  from classify_missing [OF assms(1) this] have "severity assessment \<in> {UNKNOWN, SEV2}" by simp
  with s2 sev assms(3,4) show False by (auto simp: mutation_autonomous_def is_low_severity_def)
qed

theorem missing_telemetry_needs_human_witness:
  "\<exists>asm. classify_severity default_severity_config (sample_signals\<lparr>error_rate := None\<rparr>) = Inr asm
     \<and> gr_calls (authorize_and_execute calibrated_env restart_checkout
          (unattended_gate\<lparr>mg_severity := PInt (sev_int (severity asm))\<rparr>) (Some sample_context)
          (Some (\<lambda>_ _. Inr applied_response)) None ''k1'' empty_server) = []"
proof -
  obtain asm where c: "classify_severity default_severity_config (sample_signals\<lparr>error_rate := None\<rparr>) = Inr asm"
    using classify_sample_missing by blast
  have u: "unknown_telemetry asm"
    using classify_missing [OF c] by (simp add: required_missing_def)
  have h: "ge_severity_config calibrated_env = default_severity_config"
    "sev_int SEV2 < autonomy_max_severity default_severity_config"
    "lower (action_type restart_checkout) \<notin> {''inspect'', ''escalate''}"
    by (simp add: calibrated_env_def sample_env_def, simp add: default_severity_config_def, code_simp)
  let ?mg = "unattended_gate\<lparr>mg_severity := PInt (sev_int (severity asm))\<rparr>"
  have g: "mg_severity ?mg = PInt (sev_int (severity asm))" "\<not> truthy (mg_approved ?mg)"
    by (simp_all add: unattended_gate_def)
  from missing_telemetry_needs_human [OF c u h(1,2) g h(3)] c show ?thesis by blast
qed

text \<open>The severity a live request carries is the one the report was gated with.\<close>

lemma gate_severity_name: "gate_severity (PStr (Act_Phase.severity_name sev)) = Inr sev"
  by (cases sev; hypsubst) code_simp+

lemma live_gate_fields [simp]:
  "mg_severity (live_gate s report actor approved ctx rp) = PStr (Act_Phase.severity_name (rt_policy_severity report))"
  "truthy (mg_approved (live_gate s report actor approved ctx rp)) = approved"
  by (simp_all add: live_gate_def)

text \<open>C9. From the plan to the cluster. Every tool call of a live run over a report that was built for the
  plan is the dispatch of one action of that plan, in its canonical form and with its namespace
  checked against the execution context. The gate had decided on this action when the report was
  built and not blocked it; it was inside the cluster's namespace and fit for the diagnosed fault. The
  gateway decided again, under the same severity, and again did not block it. Without an approval both
  decisions are autonomous.\<close>

theorem plan_to_cluster:
  assumes "build_act_report av ev environment actor dry s = Inr (report, actions)" "at_plan s = Some plan" "plan_actions plan \<noteq> []"
    and "c \<in> set (ln_calls (execute_autonomous_live ge posted s actions report actor' approved tc gc ctx st))"
  shows "\<exists>k < length (plan_actions plan). \<exists>assessment env p m gd ctx' risk p' m' fresh a'.
      classify_severity (av_severity_config av) (at_signals s) = Inr assessment
    \<and> decide (av_severity_config av) ev (plan_actions plan ! k) (severity assessment) (unknown_telemetry assessment)
        env (plan_risk_score plan) p m = Inr gd
    \<and> gd_decision gd \<noteq> BLOCKED \<and> (\<not> approved \<longrightarrow> gd_decision gd = AUTONOMOUS)
    \<and> (cluster_scope (av_rt av) s \<noteq> [] \<longrightarrow> rp_namespace (rt_reports report ! k) = cluster_scope (av_rt av) s)
    \<and> unfit_remedy_reason (actions ! k) (diagnosed_memory_leak (plan_diagnoses s plan))
        (diagnosed_dependency_outage (plan_diagnoses s plan)) = None
    \<and> require_execution_context (ge_rt ge) ctx = Inr ctx'
    \<and> decide (ge_severity_config ge) evaluate_action (live_action (canonical_service (ge_rt ge) s) (actions ! k))
        (severity assessment) False (ec_environment ctx') risk p' m' = Inr fresh
    \<and> gd_decision fresh \<noteq> BLOCKED \<and> (\<not> approved \<longrightarrow> gd_decision fresh = AUTONOMOUS)
    \<and> verify_scope (ge_rt ge) (live_action (canonical_service (ge_rt ge) s) (actions ! k)) ctx' = Inr a'
    \<and> route_action (ge_rt ge) a' = Inr (Dispatch c)"
proof -
  from assms(4) obtain k key st' where k: "k < length actions" "rp_decision (rt_reports report ! k) \<in> allowed_decisions approved"
    and c: "c \<in> set (gr_calls (authorize_and_execute ge (live_action (canonical_service (ge_rt ge) s) (actions ! k))
       (live_gate s report actor' approved ctx (rt_reports report ! k)) ctx tc gc key st'))"
    by (rule live_run_call_origin) blast
  then have allowed: "rp_decision (rt_reports report ! k) \<noteq> BLOCKED" "\<not> approved \<Longrightarrow> rp_decision (rt_reports report ! k) = AUTONOMOUS"
    by (auto simp: allowed_decisions_def split: if_splits)
  from act_report_positions [OF assms(1-3)] obtain assessment env p m ds where
    r: "classify_severity (av_severity_config av) (at_signals s) = Inr assessment" "length actions = length (plan_actions plan)"
      "rt_policy_severity report = severity assessment"
    and dec: "\<And>k. k < length (plan_actions plan) \<Longrightarrow> decide (av_severity_config av) ev (plan_actions plan ! k) (severity assessment)
       (unknown_telemetry assessment) env (plan_risk_score plan) p m = Inr (ds ! k)"
    and ok: "\<And>k. k < length (plan_actions plan) \<Longrightarrow> report_ok (av_rt av) (cluster_scope (av_rt av) s)
       (diagnosed_memory_leak (plan_diagnoses s plan)) (diagnosed_dependency_outage (plan_diagnoses s plan))
       (plan_actions plan ! k) (ds ! k) (rt_reports report ! k) (actions ! k)"
    by metis
  have kp: "k < length (plan_actions plan)" using k(1) r(2) by simp
  have ne: "gr_calls (authorize_and_execute ge (live_action (canonical_service (ge_rt ge) s) (actions ! k))
       (live_gate s report actor' approved ctx (rt_reports report ! k)) ctx tc gc key st') \<noteq> []"
    using c by (metis empty_iff list.set(1))
  from gateway_call_facts [OF ne] c r(3) obtain ctx' risk p' m' fresh a' where
    g: "require_execution_context (ge_rt ge) ctx = Inr ctx'"
      "decide (ge_severity_config ge) evaluate_action (live_action (canonical_service (ge_rt ge) s) (actions ! k))
        (severity assessment) False (ec_environment ctx') risk p' m' = Inr fresh"
      "gd_decision fresh \<noteq> BLOCKED" "gd_decision fresh = AUTONOMOUS \<or> approved"
      "verify_scope (ge_rt ge) (live_action (canonical_service (ge_rt ge) s) (actions ! k)) ctx' = Inr a'"
      "route_action (ge_rt ge) a' = Inr (Dispatch c)"
    by (auto simp: gate_severity_name)
  have o: "gd_decision (ds ! k) \<noteq> BLOCKED" "\<not> approved \<longrightarrow> gd_decision (ds ! k) = AUTONOMOUS"
      "cluster_scope (av_rt av) s \<noteq> [] \<longrightarrow> rp_namespace (rt_reports report ! k) = cluster_scope (av_rt av) s"
      "unfit_remedy_reason (actions ! k) (diagnosed_memory_leak (plan_diagnoses s plan))
        (diagnosed_dependency_outage (plan_diagnoses s plan)) = None"
    and fresh: "\<not> approved \<longrightarrow> gd_decision fresh = AUTONOMOUS"
    using ok [OF kp] allowed g(4) by (auto simp: report_ok_def)
  show ?thesis
    by (intro exI conjI) (fact kp, fact r(1), fact dec [OF kp], fact o(1), fact o(2), fact o(3), fact o(4), fact g(1),
      fact g(2), fact g(3), fact fresh, fact g(5), fact g(6))
qed

theorem plan_to_cluster_witness:
  "\<exists>report actions fresh asm (ctx' :: execution_context) risk p m. restart_result = Inr (report, actions)
     \<and> classify_severity default_severity_config sample_signals = Inr asm
     \<and> decide (ge_severity_config sample_env) evaluate_action
         (live_action (canonical_service (ge_rt sample_env) restart_state) (actions ! 0))
         (severity asm) False (ec_environment ctx') risk p m = Inr fresh \<and> gd_decision fresh \<noteq> BLOCKED"
proof -
  obtain report actions where r: "restart_result = Inr (report, actions)"
    using restart_result_ok by (auto simp: is_ok_iff)
  have ne: "ln_calls (execute_autonomous_live sample_env (\<lambda>_. None) restart_state actions report ''sre-agent'' True
      (Some (\<lambda>_ _. Inr applied_response)) None (Some sample_context) empty_server) \<noteq> []"
    using restart_run_calls unfolding restart_run_def r by simp
  have plan: "at_plan restart_state = Some restart_plan" "plan_actions restart_plan \<noteq> []" "length (plan_actions restart_plan) = 1"
    "at_signals restart_state = sample_signals" "av_severity_config restart_env = default_severity_config"
    by (simp_all add: restart_state_def restart_plan_def restart_env_def)
  from plan_to_cluster [OF r [unfolded restart_result_def] plan(1,2) hd_in_set [OF ne]] obtain k asm fresh risk p m and ctx' :: execution_context where
    k: "k = 0" and d: "classify_severity default_severity_config sample_signals = Inr asm"
    "decide (ge_severity_config sample_env) evaluate_action
       (live_action (canonical_service (ge_rt sample_env) restart_state) (actions ! k))
       (severity asm) False (ec_environment ctx') risk p m = Inr fresh" "gd_decision fresh \<noteq> BLOCKED"
    unfolding plan(3-5) less_one by (elim exE conjE) (rule that, assumption+)
  from r d show ?thesis unfolding k by (intro exI conjI)
qed

section \<open>From the sandbox to the pull request\<close>


definition tested_input :: remediation_input where
  "tested_input = sample_input\<lparr>ri_organization_id := sample_uuid, ri_cluster_id := sample_uuid\<rparr>"

definition tested_fix :: code_fix_input where
  "tested_fix = verification_input (with_patch tested_input (generated_patch True))"

abbreviation tested_sandbox :: "mem_server sandbox_env" where
  "tested_sandbox \<equiv> sample_sandbox [(''status'', PStr ''OK''), (''logs'', PStr ''fine'')]"

definition tested_verdict :: "verdict_result option \<times> mem_server sandbox_world" where
  "tested_verdict = code_fix_verification tested_sandbox tested_fix ''wf-verify-1''
     \<lparr>sw_server = empty_server, sw_calls = [], sw_events = []\<rparr>"

definition tested_run :: "verdict_result \<Rightarrow> wf_event list" where
  "tested_run v = drive (\<lambda>_. True) (\<lambda>_. generated_patch True) v sample_pr (remediation_workflow ''wf'' tested_input) (\<lambda>_. None)"

fun verified_as :: "verdict_result \<Rightarrow> wf_event \<Rightarrow> bool" where
  "verified_as v (Verified i c v') = (i = ''wf-verify-1'' \<and> c = tested_fix \<and> v' = v)"
| "verified_as v e = True"

lemma tested_fix_sample: "tested_fix = sample_fix"
  by code_simp

lemma tested_verdict_resolved: "map_option vr_status (fst tested_verdict) = Some RESOLVED_FIX"
  using fixed_run_resolved by (simp only: tested_verdict_def fixed_run_def tested_fix_sample)

lemma tested_run_facts:
  assumes "vr_status v = RESOLVED_FIX"
  shows "list_ex is_request (tested_run v) \<and> list_all (verified_as v) (tested_run v)"
  using assms
  by (simp add: tested_run_def remediation_workflow_def attempt_loop.simps [of _ _ "Suc 0"] tree_defs tested_fix_def
      tested_input_def sample_input_def generated_patch_def show_nat.simps char_of_def bit_iff_odd)


end
